(* ===== verification/Iml_Prelude.thy ===== *)
theory Iml_Prelude
  imports Main "HOL-Library.Word" "HOL-Library.Multiset"
begin

text \<open>
  Shared vocabulary of the development: Go's machine integers and times, object keys, error
  results, the model of \<open>sort.Sort\<close>, and the list and word lemmas the component theories use.
\<close>

unbundle bit_operations_syntax

named_theorems netip_simps \<open>equations of the address and prefix operations\<close>
named_theorems cond_simps \<open>equations of the status-condition operations\<close>

section \<open>Names and machine integers\<close>

type_synonym nsname = "string \<times> string"
type_synonym labels = "string \<rightharpoonup> string"

text \<open>
  A Go \<open>int32\<close> is an \<open>int\<close> kept in range by wrapping every arithmetic result; \<open>i64\<close> likewise.
\<close>

definition i32 :: "int \<Rightarrow> int" where
  "i32 x = (x + 2 ^ 31) mod 2 ^ 32 - 2 ^ 31"

definition i64 :: "int \<Rightarrow> int" where
  "i64 x = (x + 2 ^ 63) mod 2 ^ 64 - 2 ^ 63"

definition in_i32 :: "int \<Rightarrow> bool" where
  "in_i32 x \<longleftrightarrow> - (2 ^ 31) \<le> x \<and> x < 2 ^ 31"

lemma i32_id [simp]: "in_i32 x \<Longrightarrow> i32 x = x"
  by (simp add: i32_def in_i32_def)

lemma in_i32_i32 [simp]: "in_i32 (i32 x)"
  unfolding i32_def in_i32_def using pos_mod_bound [of "2 ^ 32" "x + 2 ^ 31"] by simp

lemma in_i32I: "- (2 ^ 31) \<le> x \<Longrightarrow> x < 2 ^ 31 \<Longrightarrow> in_i32 x"
  by (simp add: in_i32_def)

lemma i64_id [simp]: "- (2 ^ 63) \<le> x \<Longrightarrow> x < 2 ^ 63 \<Longrightarrow> i64 x = x"
  by (simp add: i64_def)

definition in_i64 :: "int \<Rightarrow> bool" where
  "in_i64 x \<longleftrightarrow> - (2 ^ 63) \<le> x \<and> x < 2 ^ 63"

lemma i64_in_id [simp]: "in_i64 x \<Longrightarrow> i64 x = x"
  by (simp add: in_i64_def)

lemma in_i64_i64 [simp]: "in_i64 (i64 x)"
  unfolding i64_def in_i64_def using pos_mod_bound [of "2 ^ 64" "x + 2 ^ 63"] by simp

lemma in_i64_0 [simp]: "in_i64 0"
  by (simp add: in_i64_def)

lemma i64_add_absorb: "i64 (i64 a + b) = i64 (a + b)"
  by (simp add: i64_def algebra_simps mod_simps)

lemma i32_add_absorb: "i32 (i32 a + b) = i32 (a + b)"
  by (simp add: i32_def algebra_simps mod_simps)

lemma foldl_i32_sum:
  "in_i32 c \<Longrightarrow> foldl (\<lambda>c x. i32 (c + f x)) c xs = i32 (c + (\<Sum>x\<leftarrow>xs. f x))"
proof (induction xs arbitrary: c)
  case Nil
  then show ?case by simp
next
  case (Cons x xs)
  have "foldl (\<lambda>c x. i32 (c + f x)) c (x # xs) = i32 (i32 (c + f x) + (\<Sum>x\<leftarrow>xs. f x))"
    using Cons.IH [of "i32 (c + f x)"] by simp
  then show ?case by (simp add: i32_add_absorb add.assoc)
qed

lemma in_i32_0 [simp]: "in_i32 0"
  by (simp add: in_i32_def)

text \<open>
  Times are nanoseconds since Go's zero time, so \<open>IsZero\<close> is equality with 0. \<open>time.Time.Sub\<close>
  saturates at the bounds of an \<open>int64\<close> duration.
\<close>

type_synonym time = int
type_synonym duration = int

definition time_IsZero :: "time \<Rightarrow> bool" where
  "time_IsZero t \<longleftrightarrow> t = 0"

definition time_Sub :: "time \<Rightarrow> time \<Rightarrow> duration" where
  "time_Sub t u = max (- (2 ^ 63)) (min (2 ^ 63 - 1) (t - u))"

definition Second :: duration where
  "Second = 1000000000"

section \<open>Error results\<close>

abbreviation is_ok :: "'e + 'a \<Rightarrow> bool" where
  "is_ok r \<equiv> (case r of Inl _ \<Rightarrow> False | Inr _ \<Rightarrow> True)"

section \<open>Lists\<close>

lemma find_Some_iff_in: "find P xs = Some x \<Longrightarrow> x \<in> set xs \<and> P x"
  by (induction xs) (auto split: if_splits)

lemma find_None_iff_none: "find P xs = None \<longleftrightarrow> (\<forall>x \<in> set xs. \<not> P x)"
  by (induction xs) auto

lemma find_append: "find P (xs @ ys) = (case find P xs of None \<Rightarrow> find P ys | Some x \<Rightarrow> Some x)"
  by (induction xs) auto

lemma find_filter_disjoint: "(\<And>x. P x \<Longrightarrow> \<not> Q x) \<Longrightarrow> find P (filter Q xs) = None"
  by (auto simp: find_None_iff_none)

section \<open>Maps kept inverse to each other\<close>

definition inverse_maps :: "('a \<rightharpoonup> 'b) \<Rightarrow> ('b \<rightharpoonup> 'a) \<Rightarrow> bool" where
  "inverse_maps f g \<longleftrightarrow> (\<forall>a b. f a = Some b \<longleftrightarrow> g b = Some a)"

lemma inverse_maps_empty [simp]: "inverse_maps Map.empty Map.empty"
  by (simp add: inverse_maps_def)

lemma inverse_maps_assign:
  "inverse_maps f g \<Longrightarrow> f a = None \<Longrightarrow> g b = None \<Longrightarrow> inverse_maps (f(a \<mapsto> b)) (g(b \<mapsto> a))"
  unfolding inverse_maps_def by (simp add: fun_upd_def) (metis option.distinct(1))

lemma inverse_maps_delete:
  "inverse_maps f g \<Longrightarrow> g b = Some a \<Longrightarrow> inverse_maps (f(a := None)) (g(b := None))"
  unfolding inverse_maps_def by (simp add: fun_upd_def) (metis option.inject)

lemma inverse_maps_dom_ran: "inverse_maps f g \<Longrightarrow> dom f = ran g"
  by (auto simp: inverse_maps_def ran_def)

lemma inverse_maps_inj: "inverse_maps f g \<Longrightarrow> g b = Some a \<Longrightarrow> g b' = Some a \<Longrightarrow> b = b'"
  unfolding inverse_maps_def by (metis option.inject)

text \<open>
  Writing through the pointer to the first matching element of a slice.
\<close>

fun update_first :: "('a \<Rightarrow> bool) \<Rightarrow> ('a \<Rightarrow> 'a) \<Rightarrow> 'a list \<Rightarrow> 'a list" where
  "update_first P f [] = []"
| "update_first P f (x # xs) = (if P x then f x # xs else x # update_first P f xs)"

lemma update_first_eq: "\<not> list_ex P xs \<Longrightarrow> update_first P f xs = xs"
  by (induction xs) auto

lemma map_update_first: "(\<And>x. k (f x) = k x) \<Longrightarrow> map k (update_first P f xs) = map k xs"
  by (induction xs) auto

lemma update_first_Nil [simp]: "update_first P f xs = [] \<longleftrightarrow> xs = []"
  by (cases xs) auto

lemma find_update_first_same:
  "(\<And>x. k (f x) = k x) \<Longrightarrow>
   find (\<lambda>x. k x = t) (update_first (\<lambda>x. k x = t) f xs) = map_option f (find (\<lambda>x. k x = t) xs)"
  by (induction xs) auto

lemma find_update_first_other:
  "(\<And>x. k (f x) = k x) \<Longrightarrow> t \<noteq> t' \<Longrightarrow>
   find (\<lambda>x. k x = t') (update_first (\<lambda>x. k x = t) f xs) = find (\<lambda>x. k x = t') xs"
  by (induction xs) auto

section \<open>Sorting\<close>

text \<open>
  \<open>sort.Sort\<close> is modelled by insertion sort, which is the algorithm the Go library runs on at
  most twelve elements. For a strict total order the outcome does not depend on the algorithm
  (\<open>keyed_order.sorted_unique\<close> below).
\<close>

fun go_insert :: "('a \<Rightarrow> 'a \<Rightarrow> bool) \<Rightarrow> 'a \<Rightarrow> 'a list \<Rightarrow> 'a list" where
  "go_insert lt x [] = [x]"
| "go_insert lt x (y # ys) = (if lt y x then y # go_insert lt x ys else x # y # ys)"

fun go_sort :: "('a \<Rightarrow> 'a \<Rightarrow> bool) \<Rightarrow> 'a list \<Rightarrow> 'a list" where
  "go_sort lt [] = []"
| "go_sort lt (x # xs) = go_insert lt x (go_sort lt xs)"

lemma mset_go_insert [simp]: "mset (go_insert lt x xs) = add_mset x (mset xs)"
  by (induction xs) auto

lemma mset_go_sort [simp]: "mset (go_sort lt xs) = mset xs"
  by (induction xs) auto

lemma set_go_sort [simp]: "set (go_sort lt xs) = set xs"
  using mset_go_sort by (metis set_mset_mset)

lemma length_go_sort [simp]: "length (go_sort lt xs) = length xs"
  using mset_go_sort by (metis size_mset)

lemma set_go_insert [simp]: "set (go_insert lt x xs) = insert x (set xs)"
  by (induction xs) auto

lemma distinct_go_sort [simp]: "distinct (go_sort lt xs) = distinct xs"
  by (metis mset_eq_imp_distinct_iff mset_go_sort)

text \<open>What \<open>sort.Sort\<close> asks of \<open>Less\<close>: a strict weak order.\<close>

locale less_interface =
  fixes lt :: "'a \<Rightarrow> 'a \<Rightarrow> bool"
  assumes less_asym: "lt x y \<Longrightarrow> \<not> lt y x"
    and less_negtrans: "\<not> lt x y \<Longrightarrow> \<not> lt y z \<Longrightarrow> \<not> lt x z"
begin

lemma sorted_go_insert:
  "sorted_wrt (\<lambda>x y. \<not> lt y x) xs \<Longrightarrow> sorted_wrt (\<lambda>x y. \<not> lt y x) (go_insert lt x xs)"
proof (induction xs)
  case Nil
  then show ?case by simp
next
  case (Cons y ys)
  show ?case
  proof (cases "lt y x")
    case True
    then have "\<not> lt x y" by (rule less_asym)
    with True Cons show ?thesis by auto
  next
    case False
    with Cons.prems show ?thesis by (auto; blast dest: less_negtrans)
  qed
qed

lemma sorted_go_sort: "sorted_wrt (\<lambda>x y. \<not> lt y x) (go_sort lt xs)"
  by (induction xs) (auto intro: sorted_go_insert)

text \<open>Sorting indices or pointers by the objects they stand for.\<close>

lemma sorted_go_sort_on: "sorted_wrt (\<lambda>i j. \<not> lt (f j) (f i)) (go_sort (\<lambda>i j. lt (f i) (f j)) xs)"
proof -
  have "less_interface (\<lambda>i j. lt (f i) (f j))"
    by unfold_locales (use less_asym less_negtrans in blast)+
  then show ?thesis by (rule less_interface.sorted_go_sort)
qed

end

text \<open>
  Where elements with different keys compare, every sorting algorithm gives the same result on a
  list whose keys are distinct.
\<close>

locale keyed_order = less_interface lt for lt :: "'a \<Rightarrow> 'a \<Rightarrow> bool" +
  fixes key :: "'a \<Rightarrow> 'k"
  assumes less_total: "key x \<noteq> key y \<Longrightarrow> lt x y \<or> lt y x"
begin

lemma sorted_eq:
  "sorted_wrt (\<lambda>x y. \<not> lt y x) as \<Longrightarrow> sorted_wrt (\<lambda>x y. \<not> lt y x) bs \<Longrightarrow>
   mset as = mset bs \<Longrightarrow> inj_on key (set as) \<Longrightarrow> as = bs"
proof (induction as arbitrary: bs)
  case Nil
  then show ?case by simp
next
  case (Cons a as)
  then obtain b bs' where bs: "bs = b # bs'" by (cases bs) auto
  have "a = b"
  proof (rule ccontr)
    assume "a \<noteq> b"
    have mem: "a \<in> set bs" "b \<in> set (a # as)"
      using Cons.prems(3) bs by (metis list.set_intros(1) set_mset_mset)+
    with \<open>a \<noteq> b\<close> bs have "a \<in> set bs'" "b \<in> set as" by auto
    with Cons.prems(1,2) bs have "\<not> lt b a" "\<not> lt a b" by auto
    then have "key a = key b" using less_total by blast
    then show False using Cons.prems(4) mem(2) \<open>a \<noteq> b\<close> by (auto simp: inj_on_def)
  qed
  with Cons bs show ?case by auto
qed

lemma sorted_unique:
  assumes "sorted_wrt (\<lambda>x y. \<not> lt y x) xs" and "mset xs = mset ys" and "inj_on key (set ys)"
  shows "xs = go_sort lt ys"
proof -
  have "set xs = set ys" using assms(2) by (metis set_mset_mset)
  then show ?thesis using sorted_eq [OF assms(1) sorted_go_sort] assms by simp
qed

end

section \<open>Words\<close>

lemma of_nat_word_add_unat:
  fixes w :: "'a::len word"
  assumes "unat w + i < 2 ^ LENGTH('a)"
  shows "unat (w + of_nat i) = unat w + i"
  using assms by (simp add: unat_word_ariths unat_of_nat take_bit_eq_mod)

lemma unat_drop_bit_div: "unat (drop_bit n (w :: 'a::len word)) = unat w div 2 ^ n"
  by (subst unat_drop_bit_eq) (simp add: drop_bit_eq_div)

lemma drop_bit_eq_iff_div:
  fixes v w :: "'a::len word"
  shows "drop_bit n v = drop_bit n w \<longleftrightarrow> unat v div 2 ^ n = unat w div 2 ^ n"
  by (simp only: word_unat_eq_iff unat_drop_bit_div)

lemma aligned_block_bound:
  fixes w :: "'a::len word"
  assumes "2 ^ h dvd unat w" "h \<le> LENGTH('a)" "i < 2 ^ h"
  shows "unat w + i < 2 ^ LENGTH('a)"
proof -
  obtain k where k: "unat w = 2 ^ h * k" using assms(1) by (auto elim: dvdE)
  have split: "(2::nat) ^ LENGTH('a) = 2 ^ h * 2 ^ (LENGTH('a) - h)"
    using assms(2) by (simp flip: power_add)
  have "2 ^ h * k < 2 ^ h * (2::nat) ^ (LENGTH('a) - h)"
    using unsigned_less [of w, where ?'a = nat] by (simp add: k flip: split)
  then have "k + 1 \<le> (2::nat) ^ (LENGTH('a) - h)" by simp
  then have "2 ^ h * (k + 1) \<le> (2::nat) ^ LENGTH('a)" unfolding split by (rule mult_le_mono2)
  with k assms(3) show ?thesis by simp
qed

lemma same_block_iff:
  fixes v w :: "'a::len word"
  assumes "2 ^ h dvd unat w" "h \<le> LENGTH('a)"
  shows "drop_bit h v = drop_bit h w \<longleftrightarrow> (\<exists>i < 2 ^ h. v = w + of_nat i)"
proof
  assume "drop_bit h v = drop_bit h w"
  then have "unat v div 2 ^ h = unat w div 2 ^ h" by (simp add: drop_bit_eq_iff_div)
  then have "unat v = unat w + unat v mod 2 ^ h"
    by (metis assms(1) dvd_mult_div_cancel mult_div_mod_eq)
  moreover have "unat v mod 2 ^ h < 2 ^ h" by simp
  ultimately show "\<exists>i < 2 ^ h. v = w + of_nat i"
    by (metis of_nat_add of_nat_unat ucast_id)
next
  assume "\<exists>i < 2 ^ h. v = w + of_nat i"
  then obtain i where i: "i < 2 ^ h" "v = w + of_nat i" by blast
  have "unat v = unat w + i"
    unfolding i(2) by (rule of_nat_word_add_unat) (rule aligned_block_bound [OF assms i(1)])
  with i(1) assms(1) show "drop_bit h v = drop_bit h w"
    by (auto simp: drop_bit_eq_iff_div elim!: dvdE)
qed

end
