(* ===== verification/Go_Std.thy ===== *)
theory Go_Std
  imports Iml_Prelude "HOL-Library.Monad_Syntax"
begin

text \<open>
  What the controllers use of Go's language and standard library besides \<open>net/netip\<close>: string
  maps with their nil value, \<open>strconv\<close>, the FNV-1a hash, and string comparison. A definition that can
  panic (nil pointer or nil map) returns an \<open>option\<close>: \<open>None\<close> is the panic.
\<close>

section \<open>Maps from strings to strings\<close>

text \<open>\<open>None\<close> is the nil map: it reads as empty and panics when written to.\<close>

type_synonym strmap = "(string \<times> string) list option"

definition gomap_get :: "strmap \<Rightarrow> string \<Rightarrow> string option" where
  "gomap_get m k = (case m of None \<Rightarrow> None | Some kvs \<Rightarrow> map_of kvs k)"

definition gomap_str :: "strmap \<Rightarrow> string \<Rightarrow> string" where
  "gomap_str m k = (case gomap_get m k of None \<Rightarrow> '''' | Some v \<Rightarrow> v)"

fun kvs_put :: "string \<Rightarrow> string \<Rightarrow> (string \<times> string) list \<Rightarrow> (string \<times> string) list" where
  "kvs_put k v [] = [(k, v)]"
| "kvs_put k v ((k', v') # kvs) = (if k = k' then (k, v) # kvs else (k', v') # kvs_put k v kvs)"

definition gomap_put :: "strmap \<Rightarrow> string \<Rightarrow> string \<Rightarrow> strmap option" where
  "gomap_put m k v = (case m of None \<Rightarrow> None | Some kvs \<Rightarrow> Some (Some (kvs_put k v kvs)))"

definition gomap_delete :: "strmap \<Rightarrow> string \<Rightarrow> strmap" where
  "gomap_delete m k = map_option (filter (\<lambda>(k', _). k' \<noteq> k)) m"

definition gomap_make :: "strmap \<Rightarrow> strmap" where
  "gomap_make m = (case m of None \<Rightarrow> Some [] | Some _ \<Rightarrow> m)"

lemma map_of_kvs_put [simp]: "map_of (kvs_put k v kvs) = (map_of kvs)(k \<mapsto> v)"
  by (induction kvs) (auto simp: fun_eq_iff)

lemma gomap_get_put: "gomap_put m k v = Some m' \<Longrightarrow> gomap_get m' k' = (if k' = k then Some v else gomap_get m k')"
  by (auto simp: gomap_put_def gomap_get_def split: option.splits)

lemma gomap_get_kvs_put [simp]:
  "gomap_get (Some (kvs_put k v kvs)) k' = (if k' = k then Some v else gomap_get (Some kvs) k')"
  by (simp add: gomap_get_def)

lemma gomap_get_make [simp]: "gomap_get (gomap_make m) k = gomap_get m k"
  by (auto simp: gomap_make_def gomap_get_def split: option.splits)

lemma map_of_filter_key: "map_of (filter (\<lambda>(k', _). k' \<noteq> k) kvs) k' = (if k' = k then None else map_of kvs k')"
  by (induction kvs) auto

lemma gomap_get_delete [simp]: "gomap_get (gomap_delete m k) k' = (if k' = k then None else gomap_get m k')"
  by (auto simp: gomap_delete_def gomap_get_def map_of_filter_key split: option.splits)

section \<open>Loops over slices whose body may panic\<close>

fun filter_opt :: "('a \<Rightarrow> bool option) \<Rightarrow> 'a list \<Rightarrow> 'a list option" where
  "filter_opt f [] = Some []"
| "filter_opt f (x # xs) =
     do { b \<leftarrow> f x; ys \<leftarrow> filter_opt f xs; Some (if b then x # ys else ys) }"

lemma filter_opt_Some: "(\<And>x. x \<in> set xs \<Longrightarrow> f x = Some (g x)) \<Longrightarrow> filter_opt f xs = Some (filter g xs)"
  by (induction xs) auto

text \<open>A loop that appends one result per element and returns at the first error.\<close>

fun map_err :: "('a \<Rightarrow> 'e + 'b) \<Rightarrow> 'a list \<Rightarrow> 'e + 'b list" where
  "map_err f [] = Inr []"
| "map_err f (x # xs) =
     (case f x of
        Inl e \<Rightarrow> Inl e
      | Inr y \<Rightarrow> (case map_err f xs of Inl e \<Rightarrow> Inl e | Inr ys \<Rightarrow> Inr (y # ys)))"

lemma map_err_Inr: "map_err f xs = Inr ys \<longleftrightarrow> list_all2 (\<lambda>x y. f x = Inr y) xs ys"
proof (induction xs arbitrary: ys)
  case (Cons x xs)
  show ?case
  proof (cases "f x")
    case (Inr y)
    show ?thesis
    proof (cases "map_err f xs")
      case (Inr ys')
      then have "list_all2 (\<lambda>x y. f x = Inr y) xs zs \<longleftrightarrow> ys' = zs" for zs using Cons [of zs] by simp
      with Inr \<open>f x = Inr y\<close> show ?thesis by (auto simp: list_all2_Cons1)
    qed (use Inr Cons [symmetric] in \<open>auto simp: list_all2_Cons1\<close>)
  qed (simp add: list_all2_Cons1)
qed auto

lemma map_err_ok: "(\<exists>ys. map_err f xs = Inr ys) \<longleftrightarrow> (\<forall>x \<in> set xs. \<exists>y. f x = Inr y)"
  by (induction xs) (auto split: sum.splits)

lemma map_err_cong [fundef_cong]: "xs = xs' \<Longrightarrow> (\<And>x. x \<in> set xs' \<Longrightarrow> f x = g x) \<Longrightarrow> map_err f xs = map_err g xs'"
proof (induction xs arbitrary: xs')
  case (Cons x xs)
  then have "f x = g x" "map_err f xs = map_err g xs" by auto
  with Cons.prems(1) show ?case by (metis map_err.simps(2))
qed simp

lemma map_err_length: "map_err f xs = Inr ys \<Longrightarrow> length ys = length xs"
  by (simp add: map_err_Inr list_all2_lengthD [symmetric])

section \<open>Strings\<close>

text \<open>Go compares strings bytewise.\<close>

fun str_less :: "string \<Rightarrow> string \<Rightarrow> bool" where
  "str_less _ [] = False"
| "str_less [] (_ # _) = True"
| "str_less (a # as) (b # bs) =
     ((of_char a :: nat) < of_char b \<or> a = b \<and> str_less as bs)"

lemma str_less_irrefl [simp]: "\<not> str_less x x"
  by (induction x) auto

lemma str_less_trans: "str_less x y \<Longrightarrow> str_less y z \<Longrightarrow> str_less x z"
proof (induction x y arbitrary: z rule: str_less.induct)
  case (2 b bs)
  then show ?case by (cases z) auto
next
  case (3 a as b bs)
  then show ?case by (cases z) auto
qed auto

lemma str_less_total: "x \<noteq> y \<Longrightarrow> str_less x y \<or> str_less y x"
proof (induction x y rule: str_less.induct)
  case (1 x)
  then show ?case by (cases x) auto
next
  case (3 a as b bs)
  then show ?case by (metis linorder_neqE_nat of_char_eq_iff str_less.simps(3))
qed auto

section \<open>strconv\<close>

definition digit_char :: "nat \<Rightarrow> char" where
  "digit_char d = char_of (48 + d)"

definition digit_val :: "char \<Rightarrow> nat option" where
  "digit_val c = (let n = of_char c :: nat in if 48 \<le> n \<and> n \<le> 57 then Some (n - 48) else None)"

fun format_nat :: "nat \<Rightarrow> string" where
  "format_nat n = (if n < 10 then [digit_char n] else format_nat (n div 10) @ [digit_char (n mod 10)])"

declare format_nat.simps [simp del]

text \<open>\<open>strconv.FormatInt(n, 10)\<close> and the verb \<open>%d\<close>.\<close>

definition format_int :: "int \<Rightarrow> string" where
  "format_int n = (if n < 0 then CHR ''-'' # format_nat (nat (- n)) else format_nat (nat n))"

definition parse_digits :: "string \<Rightarrow> nat option" where
  "parse_digits s =
     (if s = [] then None
      else foldl (\<lambda>acc c. case acc of None \<Rightarrow> None
             | Some n \<Rightarrow> (case digit_val c of None \<Rightarrow> None | Some d \<Rightarrow> Some (10 * n + d))) (Some 0) s)"

text \<open>\<open>strconv.ParseUint(s, 10, bits)\<close>; \<open>None\<close> is a syntax or range error.\<close>

definition ParseUint :: "string \<Rightarrow> nat \<Rightarrow> int option" where
  "ParseUint s bits =
     (case parse_digits s of None \<Rightarrow> None | Some n \<Rightarrow> if n < 2 ^ bits then Some (int n) else None)"

text \<open>\<open>strconv.ParseInt(s, 10, 64)\<close>.\<close>

definition ParseInt64 :: "string \<Rightarrow> int option" where
  "ParseInt64 s =
     (case s of
        [] \<Rightarrow> None
      | c # cs \<Rightarrow>
          (let neg = (c = CHR ''-'');
               digits = (if c = CHR ''+'' \<or> c = CHR ''-'' then cs else s)
           in case parse_digits digits of
                None \<Rightarrow> None
              | Some n \<Rightarrow>
                  if neg then (if int n \<le> 2 ^ 63 then Some (- int n) else None)
                  else if int n < 2 ^ 63 then Some (int n) else None))"

lemma digit_val_char [simp]: "d < 10 \<Longrightarrow> digit_val (digit_char d) = Some d"
  by (simp add: digit_val_def digit_char_def)

lemma digit_char_not_sign:
  assumes "d < 10"
  shows "digit_char d \<noteq> CHR ''-''" "digit_char d \<noteq> CHR ''+''"
proof -
  have "(of_char (digit_char d) :: nat) = 48 + d" using assms by (simp add: digit_char_def)
  then show "digit_char d \<noteq> CHR ''-''" "digit_char d \<noteq> CHR ''+''" by auto
qed

lemma parse_digits_snoc:
  assumes "parse_digits s = Some n" "d < 10"
  shows "parse_digits (s @ [digit_char d]) = Some (10 * n + d)"
  using assms by (auto simp: parse_digits_def split: if_splits)

lemma parse_format_nat [simp]: "parse_digits (format_nat n) = Some n"
proof (induction n rule: format_nat.induct)
  case (1 n)
  show ?case
  proof (cases "n < 10")
    case True
    then show ?thesis by (subst format_nat.simps) (simp add: parse_digits_def)
  next
    case False
    then have "parse_digits (format_nat (n div 10) @ [digit_char (n mod 10)]) = Some (10 * (n div 10) + n mod 10)"
      using 1 by (intro parse_digits_snoc) auto
    with False show ?thesis by (subst format_nat.simps) simp
  qed
qed

lemma format_nat_hd: "\<exists>d cs. d < 10 \<and> format_nat n = digit_char d # cs"
proof (induction n rule: format_nat.induct)
  case (1 n)
  show ?case
  proof (cases "n < 10")
    case True
    then show ?thesis by (subst format_nat.simps) auto
  next
    case False
    with 1 obtain d cs where "d < 10" "format_nat (n div 10) = digit_char d # cs" by blast
    with False show ?thesis by (subst format_nat.simps) auto
  qed
qed

lemma ParseInt64_format_int:
  assumes "- (2 ^ 63) \<le> n" "n < 2 ^ 63"
  shows "ParseInt64 (format_int n) = Some n"
proof (cases "n < 0")
  case True
  with assms show ?thesis by (simp add: ParseInt64_def format_int_def)
next
  case False
  obtain d cs where d: "d < 10" "format_nat (nat n) = digit_char d # cs" using format_nat_hd by blast
  then have "parse_digits (digit_char d # cs) = Some (nat n)" using parse_format_nat [of "nat n"] by simp
  with False assms d digit_char_not_sign [OF d(1)] show ?thesis
    by (simp add: ParseInt64_def format_int_def)
qed

lemma ParseUint_format_int:
  assumes "0 \<le> n" "n < 2 ^ bits"
  shows "ParseUint (format_int n) bits = Some n"
  using assms by (simp add: ParseUint_def format_int_def nat_less_iff)

lemma format_int_inject:
  assumes "format_int m = format_int n" "- (2 ^ 63) \<le> m" "m < 2 ^ 63" "- (2 ^ 63) \<le> n" "n < 2 ^ 63"
  shows "m = n"
  using assms ParseInt64_format_int by (metis option.inject)

lemma format_int_nonempty [simp]: "format_int n \<noteq> []" "[] \<noteq> format_int n"
  using format_nat_hd [of "nat n"] by (auto simp: format_int_def)

section \<open>The 32-bit FNV-1a hash\<close>

definition fnv32a_init :: "32 word" where
  "fnv32a_init = 2166136261"

definition fnv32a_write :: "32 word \<Rightarrow> 8 word list \<Rightarrow> 32 word" where
  "fnv32a_write h bs = foldl (\<lambda>h b. (h XOR ucast b) * 16777619) h bs"

definition string_bytes :: "string \<Rightarrow> 8 word list" where
  "string_bytes s = map (\<lambda>c. of_nat (of_char c)) s"

text \<open>\<open>binary.LittleEndian.PutUint32\<close> into a zeroed buffer of eight bytes.\<close>

definition put_uint32_buf8 :: "32 word \<Rightarrow> 8 word list" where
  "put_uint32_buf8 w = map (\<lambda>i. ucast (drop_bit (8 * i) w)) [0, 1, 2, 3] @ [0, 0, 0, 0]"

lemma fnv32a_write_append: "fnv32a_write h (xs @ ys) = fnv32a_write (fnv32a_write h xs) ys"
  by (simp add: fnv32a_write_def)

end
