(* ===== verification/Api.thy ===== *)
theory Api
  imports Go_Std
begin

text \<open>
  The custom resources of \<open>src/api\<close> the controllers work on. Go's struct embedding of
  \<open>metav1.ObjectMeta\<close> is record extension. String enumerations stay strings, since the code compares
  them with the empty string too. Values of Kubernetes types that the code only copies (resource
  requirements, tolerations, affinity) are \<open>opaque\<close>, named by their serialised form.
\<close>

type_synonym opaque = string

section \<open>Object metadata\<close>

record owner_reference =
  or_Kind :: string
  or_Name :: string
  or_UID :: string
  or_Controller :: bool

record object_meta =
  om_Name :: string
  om_GenerateName :: string
  om_Namespace :: string
  om_UID :: string
  om_Generation :: int
  om_Labels :: strmap
  om_Annotations :: strmap
  om_Finalizers :: "string list"
  om_OwnerReferences :: "owner_reference list"
  om_CreationTimestamp :: time
  om_DeletionTimestamp :: "time option"

definition meta_key :: "'a object_meta_scheme \<Rightarrow> nsname" where
  "meta_key o1 = (om_Namespace o1, om_Name o1)"

text \<open>\<open>IsZero\<close> on a \<open>*metav1.Time\<close>: a nil pointer counts as zero.\<close>

definition time_ptr_IsZero :: "time option \<Rightarrow> bool" where
  "time_ptr_IsZero t = (case t of None \<Rightarrow> True | Some x \<Rightarrow> time_IsZero x)"

record label_selector =
  ls_MatchLabels :: strmap
  ls_MatchExpressions :: "(string \<times> string \<times> string list) list"

datatype IntOrString = IntVal int | StrVal string

text \<open>
  The errors of the Kubernetes API the code tells apart, and errors it makes itself: with
  \<open>fmt.Errorf\<close> and a cause printed by \<open>%v\<close> (\<open>Errorf\<close>), which hides the cause, or wrapped by \<open>%w\<close>
  (\<open>Wrapf\<close>), which the \<open>Is...\<close> tests look through; and values of its own error types.
\<close>

datatype api_error = NotFound | AlreadyExists | Conflict | NamespaceTerminating | OtherApiError string

datatype go_error =
  ApiError api_error | Errorf string "go_error option" | Wrapf string go_error | TypedError string

fun IsNotFound :: "go_error \<Rightarrow> bool" where
  "IsNotFound (ApiError NotFound) = True"
| "IsNotFound (Wrapf _ e) = IsNotFound e"
| "IsNotFound _ = False"

fun IsAlreadyExists :: "go_error \<Rightarrow> bool" where
  "IsAlreadyExists (ApiError AlreadyExists) = True"
| "IsAlreadyExists (Wrapf _ e) = IsAlreadyExists e"
| "IsAlreadyExists _ = False"

fun IsConflict :: "go_error \<Rightarrow> bool" where
  "IsConflict (ApiError Conflict) = True"
| "IsConflict (Wrapf _ e) = IsConflict e"
| "IsConflict _ = False"

fun IsNamespaceTerminating :: "go_error \<Rightarrow> bool" where
  "IsNamespaceTerminating (ApiError NamespaceTerminating) = True"
| "IsNamespaceTerminating (Wrapf _ e) = IsNamespaceTerminating e"
| "IsNamespaceTerminating _ = False"

text \<open>The result of a reconcile without error.\<close>

datatype ctrl_result = Done | RequeueAfter duration | Requeue

section \<open>Conditions\<close>

text \<open>
  The part the condition types share; the deployment, function and target conditions each add a
  second time stamp.
\<close>

record condition =
  c_Type :: string
  c_Status :: string
  c_LastTransitionTime :: time
  c_Reason :: string
  c_Message :: string

abbreviation ConditionTrue :: string where "ConditionTrue \<equiv> ''True''"
abbreviation ConditionFalse :: string where "ConditionFalse \<equiv> ''False''"
abbreviation ConditionUnknown :: string where "ConditionUnknown \<equiv> ''Unknown''"

type_synonym ReplicaSetCondition = condition

record NFDeploymentCondition = condition +
  c_LastUpdateTime :: time

record NetworkFunctionCondition = condition +
  c_LastProbeTime :: time

record P4TargetCondition = condition +
  c_LastHeartbeatTime :: time

text \<open>
  The contract of the routines that write one condition into a list: the written type then reads
  back as asked, the other types are untouched, and types stay unique. It extends to a sequence of
  writes.
\<close>

locale condition_store =
  fixes upd :: "'c list \<Rightarrow> 'c \<Rightarrow> 'c list"
    and ctype :: "'c \<Rightarrow> string"
    and agrees :: "'c \<Rightarrow> 'c \<Rightarrow> bool"
  assumes upd_lookup: "\<exists>c'. find (\<lambda>x. ctype x = ctype c) (upd cs c) = Some c' \<and> agrees c' c"
    and upd_others: "t \<noteq> ctype c \<Longrightarrow> find (\<lambda>x. ctype x = t) (upd cs c) = find (\<lambda>x. ctype x = t) cs"
    and upd_distinct: "distinct (map ctype cs) \<Longrightarrow> distinct (map ctype (upd cs c))"
begin

lemma foldl_distinct: "distinct (map ctype cs) \<Longrightarrow> distinct (map ctype (foldl upd cs news))"
  by (induction news arbitrary: cs) (auto simp: upd_distinct)

lemma foldl_others:
  "t \<notin> ctype ` set news \<Longrightarrow> find (\<lambda>x. ctype x = t) (foldl upd cs news) = find (\<lambda>x. ctype x = t) cs"
  by (induction news arbitrary: cs) (auto simp: upd_others)

lemma foldl_lookup:
  "distinct (map ctype news) \<Longrightarrow> c \<in> set news \<Longrightarrow>
   \<exists>c'. find (\<lambda>x. ctype x = ctype c) (foldl upd cs news) = Some c' \<and> agrees c' c"
proof (induction news arbitrary: cs)
  case Nil
  then show ?case by simp
next
  case (Cons n news)
  show ?case
  proof (cases "c = n")
    case True
    with Cons.prems(1) have "ctype c \<notin> ctype ` set news" by auto
    then show ?thesis using upd_lookup [of c cs] True by (simp add: foldl_others)
  next
    case False
    with Cons show ?thesis by simp
  qed
qed

end

definition same_outcome :: "'a condition_scheme \<Rightarrow> 'a condition_scheme \<Rightarrow> bool" where
  "same_outcome a b \<longleftrightarrow> c_Type a = c_Type b \<and> c_Status a = c_Status b \<and> c_Reason a = c_Reason b"

section \<open>Network functions\<close>

record ControlPlaneSpec =
  cp_Image :: string
  cp_ImagePullPolicy :: string
  cp_Resources :: opaque
  cp_NodeName :: string
  cp_NodeSelector :: strmap
  cp_Tolerations :: opaque
  cp_Affinity :: "opaque option"
  cp_ExtraEnv :: "(string \<times> string) list"
  cp_Args :: "string list"

record NetworkFunctionSpec =
  nfs_TargetName :: string
  nfs_ControlPlane :: "ControlPlaneSpec option"
  nfs_TargetSelector :: strmap
  nfs_ConfigRef :: "string option"
  nfs_P4File :: string

record NetworkFunctionTemplate = object_meta +
  tpl_Spec :: NetworkFunctionSpec

abbreviation NetworkFunctionPending :: string where "NetworkFunctionPending \<equiv> ''Pending''"
abbreviation NetworkFunctionRunning :: string where "NetworkFunctionRunning \<equiv> ''Running''"
abbreviation NetworkFunctionFailed :: string where "NetworkFunctionFailed \<equiv> ''Failed''"
abbreviation ReasonEvicted :: string where "ReasonEvicted \<equiv> ''Evicted''"
abbreviation ReasonUnschedulable :: string where "ReasonUnschedulable \<equiv> ''Unschedulable''"
abbreviation NFInitialized :: string where "NFInitialized \<equiv> ''Initialized''"
abbreviation NFReady :: string where "NFReady \<equiv> ''Ready''"
abbreviation NFScheduled :: string where "NFScheduled \<equiv> ''Scheduled''"
abbreviation DisruptionTarget :: string where "DisruptionTarget \<equiv> ''DisruptionTarget''"

record NetworkFunctionStatus =
  nft_AssignedIP :: string
  nft_ObservedGeneration :: int
  nft_Phase :: string
  nft_Reason :: string
  nft_Conditions :: "NetworkFunctionCondition list"

record NetworkFunction = object_meta +
  nf_Spec :: NetworkFunctionSpec
  nf_Status :: NetworkFunctionStatus

type_synonym nf = NetworkFunction

section \<open>Programmable targets\<close>

record Taint =
  tt_Key :: string
  tt_Value :: string
  tt_Effect :: string
  tt_TimeAdded :: time

abbreviation TaintEffectNoSchedule :: string where "TaintEffectNoSchedule \<equiv> ''NoSchedule''"
abbreviation TaintEffectNoExecute :: string where "TaintEffectNoExecute \<equiv> ''NoExecute''"
abbreviation TaintP4TargetUnreachable :: string where "TaintP4TargetUnreachable \<equiv> ''p4target.loom.io/unreachable''"
abbreviation TaintP4TargetNotReady :: string where "TaintP4TargetNotReady \<equiv> ''p4target.loom.io/not-ready''"
abbreviation TaintP4TargetUnschedulable :: string where "TaintP4TargetUnschedulable \<equiv> ''p4target.loom.io/unschedulable''"
abbreviation TaintP4TargetOutOfService :: string where "TaintP4TargetOutOfService \<equiv> ''p4target.loom.io/out-of-service''"

abbreviation P4TargetConditionReady :: string where "P4TargetConditionReady \<equiv> ''Ready''"

record P4TargetSpec =
  pts_Taints :: "Taint list"
  pts_Unschedulable :: bool
  pts_NfCIDR :: string
  pts_AttachmentType :: string

record P4TargetHostVRFStatus =
  hv_Name :: string
  hv_Table :: int
  hv_Interface :: string
  hv_Addresses :: "string list"
  hv_Gateways :: "string list"

text \<open>Resource quantities are integers here: the code only reads the slot counts.\<close>

record P4TargetStatus =
  ptt_NodeName :: string
  ptt_TargetIPs :: "string list"
  ptt_DriverIPs :: "string list"
  ptt_Capacity :: "(string \<times> int) list"
  ptt_Allocatable :: "(string \<times> int) list"
  ptt_HostVRF :: "P4TargetHostVRFStatus option"
  ptt_Conditions :: "P4TargetCondition list"

record P4Target = object_meta +
  pt_Spec :: P4TargetSpec
  pt_Status :: P4TargetStatus

section \<open>Replica sets and deployments\<close>

record NetworkFunctionReplicaSetSpec =
  rss_Replicas :: "int option"
  rss_Selector :: "label_selector option"
  rss_Template :: NetworkFunctionTemplate
  rss_MinReadySeconds :: int

record NetworkFunctionReplicaSetStatus =
  rst_Replicas :: int
  rst_FullyLabeledReplicas :: int
  rst_ReadyReplicas :: int
  rst_AvailableReplicas :: int
  rst_ObservedGeneration :: int
  rst_Conditions :: "ReplicaSetCondition list"

record NetworkFunctionReplicaSet = object_meta +
  rs_Spec :: NetworkFunctionReplicaSetSpec
  rs_Status :: NetworkFunctionReplicaSetStatus

record RollingUpdateDeployment =
  ru_MaxUnavailable :: "IntOrString option"
  ru_MaxSurge :: "IntOrString option"

record DeploymentStrategy =
  st_Type :: string
  st_RollingUpdate :: "RollingUpdateDeployment option"

abbreviation StrategyRollingUpdate :: string where "StrategyRollingUpdate \<equiv> ''RollingUpdate''"
abbreviation StrategyRecreate :: string where "StrategyRecreate \<equiv> ''Recreate''"

record NetworkFunctionDeploymentSpec =
  nds_Replicas :: "int option"
  nds_Strategy :: "DeploymentStrategy option"
  nds_Selector :: "label_selector option"
  nds_Template :: NetworkFunctionTemplate
  nds_MinReadySeconds :: int

record NetworkFunctionDeploymentStatus =
  ndt_ObservedGeneration :: int
  ndt_Replicas :: int
  ndt_UpdatedReplicas :: int
  ndt_ReadyReplicas :: int
  ndt_AvailableReplicas :: int
  ndt_UnavailableReplicas :: int
  ndt_CollisionCount :: "int option"
  ndt_Conditions :: "NFDeploymentCondition list"

record NetworkFunctionDeployment = object_meta +
  nd_Spec :: NetworkFunctionDeploymentSpec
  nd_Status :: NetworkFunctionDeploymentStatus

abbreviation NFDeploymentFinalizer :: string where
  "NFDeploymentFinalizer \<equiv> ''networkfunctiondeployment.loom.io/finalizer''"
abbreviation NFSpecHashLabel :: string where
  "NFSpecHashLabel \<equiv> ''networkfunction.loom.io/specHash''"
abbreviation NFDeploymentAvailable :: string where
  "NFDeploymentAvailable \<equiv> ''Available''"

type_synonym nfrs = NetworkFunctionReplicaSet
type_synonym nfd = NetworkFunctionDeployment

section \<open>String lists\<close>

definition ContainsElement :: "string list \<Rightarrow> string \<Rightarrow> bool" where
  "ContainsElement elems s = list_ex (\<lambda>item. item = s) elems"

definition RemoveElement :: "string list \<Rightarrow> string \<Rightarrow> string list" where
  "RemoveElement elems s = filter (\<lambda>item. item \<noteq> s) elems"

lemma ContainsElement_iff [simp]: "ContainsElement elems s \<longleftrightarrow> s \<in> set elems"
  by (auto simp: ContainsElement_def list_ex_iff)

lemma ContainsElement_Remove [simp]: "\<not> ContainsElement (RemoveElement elems s) s"
  by (simp add: RemoveElement_def)

end
