(* ===== verification/NFD_Util.thy ===== *)
theory NFD_Util
  imports Api
begin

text \<open>
  The helpers of the deployment controller
  (\<open>src/operator/internal/controller/scheduling/networkfunctiondeployment/util/nf_util.go\<close>): replica
  counts, surge and unavailability bounds, revisions, annotations, conditions, the specification hash,
  and the size of the new replica set. Slices of replica sets hold no nil pointers: the controller
  builds them from \<open>&list.Items[i]\<close>.
\<close>

section \<open>Functions of other packages\<close>

text \<open>
  The Kubernetes library functions the deployment controller calls. The selector type is a
  parameter. \<open>DNS1123SubdomainMaxLength\<close> is a constant of the validation package.
\<close>

record 'sel deploy_lib =
  lib_FromInt32 :: "int \<Rightarrow> IntOrString"
  lib_ValueOrDefault :: "IntOrString option \<Rightarrow> IntOrString \<Rightarrow> IntOrString"
  lib_GetScaledValue :: "IntOrString \<Rightarrow> int \<Rightarrow> bool \<Rightarrow> go_error + int"
  lib_ForHash :: "NetworkFunctionTemplate \<Rightarrow> string"
  lib_SafeEncodeString :: "string \<Rightarrow> string"
  lib_DeepEqual :: "NetworkFunctionTemplate \<Rightarrow> NetworkFunctionTemplate \<Rightarrow> bool"
  lib_SubdomainMaxLength :: int
  lib_LabelSelectorAsSelector :: "label_selector option \<Rightarrow> go_error + 'sel"
  lib_SetControllerReference :: "nfd \<Rightarrow> nfrs \<Rightarrow> go_error + nfrs"
  lib_GetControllerOf :: "owner_reference list \<Rightarrow> owner_reference option"

abbreviation RevisionAnnotation :: string where
  "RevisionAnnotation \<equiv> ''networkfunctiondeployment.iml.io/revision''"
abbreviation DesiredReplicasAnnotation :: string where
  "DesiredReplicasAnnotation \<equiv> ''networkfunctiondeployment.iml.io/desired-replicas''"
abbreviation MaxReplicasAnnotation :: string where
  "MaxReplicasAnnotation \<equiv> ''networkfunctiondeployment.iml.io/max-replicas''"

section \<open>Replica counts\<close>

definition GetAvailableReplicaCountForReplicaSets :: "nfrs list \<Rightarrow> int" where
  "GetAvailableReplicaCountForReplicaSets rss =
     foldl (\<lambda>c rs. i32 (c + rst_AvailableReplicas (rs_Status rs))) 0 rss"

definition GetReplicaCountForReplicaSets :: "nfrs list \<Rightarrow> int" where
  "GetReplicaCountForReplicaSets rss =
     foldl (\<lambda>c rs. case rss_Replicas (rs_Spec rs) of None \<Rightarrow> c | Some n \<Rightarrow> i32 (c + n)) 0 rss"

definition GetActualReplicaCountForReplicaSets :: "nfrs list \<Rightarrow> int" where
  "GetActualReplicaCountForReplicaSets rss =
     foldl (\<lambda>c rs. i32 (c + rst_Replicas (rs_Status rs))) 0 rss"

definition GetReadyReplicaCountForReplicaSets :: "nfrs list \<Rightarrow> int" where
  "GetReadyReplicaCountForReplicaSets rss =
     foldl (\<lambda>c rs. i32 (c + rst_ReadyReplicas (rs_Status rs))) 0 rss"

section \<open>Surge and unavailability\<close>

definition ResolveFenceposts ::
    "'sel deploy_lib \<Rightarrow> IntOrString option \<Rightarrow> IntOrString option \<Rightarrow> int \<Rightarrow> go_error + (int \<times> int)" where
  "ResolveFenceposts lib maxSurge maxUnavailable desired =
     (case lib_GetScaledValue lib (lib_ValueOrDefault lib maxSurge (lib_FromInt32 lib 0)) desired True of
        Inl err \<Rightarrow> Inl err
      | Inr surge \<Rightarrow>
          (case lib_GetScaledValue lib (lib_ValueOrDefault lib maxUnavailable (lib_FromInt32 lib 0)) desired False of
             Inl err \<Rightarrow> Inl err
           | Inr unavailable \<Rightarrow>
               (let unavailable = (if surge = 0 \<and> unavailable = 0 then 1 else unavailable)
                in Inr (i32 surge, i32 unavailable))))"

definition IsRollingUpdate :: "nfd \<Rightarrow> bool option" where
  "IsRollingUpdate d = do { st \<leftarrow> nds_Strategy (nd_Spec d); Some (st_Type st = StrategyRollingUpdate) }"

definition GetDeploymentStrategyType :: "nfd \<Rightarrow> string option" where
  "GetDeploymentStrategyType d = do { st \<leftarrow> nds_Strategy (nd_Spec d); Some (st_Type st) }"

definition rolling_params :: "nfd \<Rightarrow> RollingUpdateDeployment option" where
  "rolling_params d = do { st \<leftarrow> nds_Strategy (nd_Spec d); st_RollingUpdate st }"

definition MaxUnavailable :: "'sel deploy_lib \<Rightarrow> nfd \<Rightarrow> int option" where
  "MaxUnavailable lib d =
     do { rolling \<leftarrow> IsRollingUpdate d;
          if \<not> rolling then Some 0
          else do { replicas \<leftarrow> nds_Replicas (nd_Spec d);
            if replicas = 0 then Some 0
            else do { ru \<leftarrow> rolling_params d;
              Some (case ResolveFenceposts lib (ru_MaxSurge ru) (ru_MaxUnavailable ru) replicas of
                      Inl _ \<Rightarrow> 0 | Inr (first, _) \<Rightarrow> first) } } }"

definition MinAvailable :: "'sel deploy_lib \<Rightarrow> nfd \<Rightarrow> int option" where
  "MinAvailable lib d =
     do { rolling \<leftarrow> IsRollingUpdate d;
          if \<not> rolling then Some 0
          else do { replicas \<leftarrow> nds_Replicas (nd_Spec d);
                    mu \<leftarrow> MaxUnavailable lib d;
                    Some (i32 (replicas - mu)) } }"

definition MaxSurge :: "'sel deploy_lib \<Rightarrow> nfd \<Rightarrow> int option" where
  "MaxSurge lib d =
     do { rolling \<leftarrow> IsRollingUpdate d;
          if \<not> rolling then Some 0
          else do { ru \<leftarrow> rolling_params d;
                    replicas \<leftarrow> nds_Replicas (nd_Spec d);
                    Some (case ResolveFenceposts lib (ru_MaxSurge ru) (ru_MaxUnavailable ru) replicas of
                            Inl _ \<Rightarrow> 0 | Inr (surge, _) \<Rightarrow> surge) } }"

section \<open>Revisions\<close>

definition Revision :: "'a object_meta_scheme \<Rightarrow> go_error + int" where
  "Revision obj =
     (case gomap_get (om_Annotations obj) RevisionAnnotation of
        None \<Rightarrow> Inr 0
      | Some v \<Rightarrow> (case ParseInt64 v of None \<Rightarrow> Inl (Errorf ''strconv.ParseInt'' None) | Some n \<Rightarrow> Inr n))"

definition MaxRevision :: "nfrs list \<Rightarrow> int" where
  "MaxRevision allRSs = foldl (\<lambda>maxRevision rs. case Revision rs of Inl _ \<Rightarrow> maxRevision | Inr v \<Rightarrow> v) 0 allRSs"

section \<open>Conditions\<close>

definition NewNfDeploymentCondition :: "time \<Rightarrow> string \<Rightarrow> string \<Rightarrow> string \<Rightarrow> string \<Rightarrow> NFDeploymentCondition" where
  "NewNfDeploymentCondition now condType status reason message =
     \<lparr>c_Type = condType, c_Status = status, c_LastTransitionTime = now, c_Reason = reason,
      c_Message = message, c_LastUpdateTime = 0\<rparr>"

definition GetNfDeploymentCondition ::
    "NetworkFunctionDeploymentStatus \<Rightarrow> string \<Rightarrow> NFDeploymentCondition option" where
  "GetNfDeploymentCondition status condType = find (\<lambda>c. c_Type c = condType) (ndt_Conditions status)"

definition filterConditions :: "NFDeploymentCondition list \<Rightarrow> string \<Rightarrow> NFDeploymentCondition list" where
  "filterConditions conditions condType = filter (\<lambda>c. c_Type c \<noteq> condType) conditions"

definition SetNfDeploymentCondition ::
    "NetworkFunctionDeploymentStatus \<Rightarrow> NFDeploymentCondition \<Rightarrow> NetworkFunctionDeploymentStatus" where
  "SetNfDeploymentCondition status c =
     (let store = (\<lambda>c. status\<lparr>ndt_Conditions := filterConditions (ndt_Conditions status) (c_Type c) @ [c]\<rparr>)
      in case GetNfDeploymentCondition status (c_Type c) of
           None \<Rightarrow> store c
         | Some cur \<Rightarrow>
             if c_Status cur = c_Status c \<and> c_Reason cur = c_Reason c then status
             else if c_Status cur \<noteq> c_Status c then store (c\<lparr>c_LastTransitionTime := c_LastTransitionTime cur\<rparr>)
             else store c)"

definition RemoveNfDeploymentCondition ::
    "NetworkFunctionDeploymentStatus \<Rightarrow> string \<Rightarrow> NetworkFunctionDeploymentStatus" where
  "RemoveNfDeploymentCondition status condType =
     status\<lparr>ndt_Conditions := filterConditions (ndt_Conditions status) condType\<rparr>"

section \<open>Names and hashes\<close>

definition GenerateReplicaSetName :: "'sel deploy_lib \<Rightarrow> string \<Rightarrow> string \<Rightarrow> string" where
  "GenerateReplicaSetName lib nfDeploymentName currentSpecHash =
     (let maxLen = lib_SubdomainMaxLength lib - 1 - int (length currentSpecHash)
      in if int (length nfDeploymentName) > maxLen \<and> maxLen > 0
         then take (nat maxLen) nfDeploymentName @ ''-'' @ currentSpecHash
         else nfDeploymentName @ ''-'' @ currentSpecHash)"

definition ComputeSpecHash :: "'sel deploy_lib \<Rightarrow> nfd \<Rightarrow> string" where
  "ComputeSpecHash lib d =
     (let h = fnv32a_write fnv32a_init (string_bytes (lib_ForHash lib (nds_Template (nd_Spec d))));
          h = (case ndt_CollisionCount (nd_Status d) of
                 None \<Rightarrow> h
               | Some c \<Rightarrow> fnv32a_write h (put_uint32_buf8 (word_of_int c)))
      in lib_SafeEncodeString lib (format_nat (unat h)))"

definition EqualIgnoreHash ::
    "'sel deploy_lib \<Rightarrow> NetworkFunctionTemplate \<Rightarrow> NetworkFunctionTemplate \<Rightarrow> bool" where
  "EqualIgnoreHash lib t1 t2 =
     lib_DeepEqual lib (t1\<lparr>om_Labels := gomap_delete (om_Labels t1) NFSpecHashLabel\<rparr>)
                       (t2\<lparr>om_Labels := gomap_delete (om_Labels t2) NFSpecHashLabel\<rparr>)"

section \<open>Filters\<close>

definition FilterActiveReplicaSets :: "nfrs list \<Rightarrow> nfrs list option" where
  "FilterActiveReplicaSets rss =
     filter_opt (\<lambda>rs. do { n \<leftarrow> rss_Replicas (rs_Spec rs); Some (n > 0) }) rss"

definition FilterAliveReplicaSets :: "nfrs list \<Rightarrow> nfrs list" where
  "FilterAliveReplicaSets rss = filter (\<lambda>rs. om_DeletionTimestamp rs = None) rss"

section \<open>Replica annotations\<close>

definition getNonNegativeInt32FromAnnotation :: "nfrs \<Rightarrow> string \<Rightarrow> go_error + int option" where
  "getNonNegativeInt32FromAnnotation rs key =
     (case gomap_get (om_Annotations rs) key of
        None \<Rightarrow> Inr None
      | Some v \<Rightarrow>
          (case ParseUint v 32 of
             None \<Rightarrow> Inl (Errorf ''strconv.ParseUint'' None)
           | Some n \<Rightarrow> if n > 2 ^ 31 - 1 then Inl (Errorf ''value is out of range'' None) else Inr (Some n)))"

definition GetDesiredReplicasAnnotation :: "nfrs \<Rightarrow> int option" where
  "GetDesiredReplicasAnnotation rs =
     (case getNonNegativeInt32FromAnnotation rs DesiredReplicasAnnotation of Inl _ \<Rightarrow> None | Inr r \<Rightarrow> r)"

fun needs_scaling_loop :: "nfd \<Rightarrow> nfrs list \<Rightarrow> bool option" where
  "needs_scaling_loop d [] = Some False"
| "needs_scaling_loop d (rs # rss) =
     (case GetDesiredReplicasAnnotation rs of
        None \<Rightarrow> needs_scaling_loop d rss
      | Some desired \<Rightarrow>
          do { replicas \<leftarrow> nds_Replicas (nd_Spec d);
               if desired \<noteq> replicas then Some True else needs_scaling_loop d rss })"

definition NeedsScaling :: "nfd \<Rightarrow> nfrs option \<Rightarrow> nfrs list \<Rightarrow> bool option" where
  "NeedsScaling d newRS oldRSs =
     do { active \<leftarrow> FilterActiveReplicaSets (oldRSs @ (case newRS of None \<Rightarrow> [] | Some rs \<Rightarrow> [rs]));
          needs_scaling_loop d active }"

definition set_annotation :: "string \<Rightarrow> string \<Rightarrow> bool \<times> (string \<times> string) list \<Rightarrow> bool \<times> (string \<times> string) list" where
  "set_annotation key value st =
     (if gomap_str (Some (snd st)) key \<noteq> value then (True, kvs_put key value (snd st)) else st)"

definition annotations_of :: "'a object_meta_scheme \<Rightarrow> (string \<times> string) list" where
  "annotations_of obj = (case om_Annotations obj of None \<Rightarrow> [] | Some kvs \<Rightarrow> kvs)"

definition SetReplicasAnnotations :: "nfrs \<Rightarrow> int \<Rightarrow> int \<Rightarrow> bool \<times> nfrs" where
  "SetReplicasAnnotations rs desiredReplicas maxReplicas =
     (let (updated, kvs) =
            set_annotation MaxReplicasAnnotation (format_int maxReplicas)
              (set_annotation DesiredReplicasAnnotation (format_int desiredReplicas) (False, annotations_of rs))
      in (updated, rs\<lparr>om_Annotations := Some kvs\<rparr>))"

definition skipCopyAnnotation :: "string \<Rightarrow> bool" where
  "skipCopyAnnotation key \<longleftrightarrow>
     key = RevisionAnnotation \<or> key = DesiredReplicasAnnotation \<or> key = MaxReplicasAnnotation"

fun copy_annotations :: "(string \<times> string) list \<Rightarrow> bool \<times> (string \<times> string) list \<Rightarrow> bool \<times> (string \<times> string) list" where
  "copy_annotations [] st = st"
| "copy_annotations ((k, v) # kvs) (changed, anns) =
     copy_annotations kvs
       (if skipCopyAnnotation k \<or> map_of anns k = Some v then (changed, anns) else (True, kvs_put k v anns))"

definition SetNewReplicaSetAnnotations ::
    "'sel deploy_lib \<Rightarrow> nfd \<Rightarrow> nfrs \<Rightarrow> string \<Rightarrow> bool \<Rightarrow> (bool \<times> nfrs) option" where
  "SetNewReplicaSetAnnotations lib d newRS newRevision exists =
     (let (changed, anns) = copy_annotations (annotations_of d) (False, annotations_of newRS);
          copied = newRS\<lparr>om_Annotations := Some anns\<rparr>;
          oldRevision = gomap_str (Some anns) RevisionAnnotation;
          parsed = (case ParseInt64 oldRevision of
                      Some n \<Rightarrow> Some n
                    | None \<Rightarrow> if oldRevision \<noteq> '''' then None else Some 0)
      in case parsed of
           None \<Rightarrow> Some (False, copied)
         | Some oldRevisionInt \<Rightarrow>
             (case ParseInt64 newRevision of
                None \<Rightarrow> Some (False, copied)
              | Some newRevisionInt \<Rightarrow>
                  (let (changed, revised) =
                         (if oldRevisionInt < newRevisionInt
                          then (True, copied\<lparr>om_Annotations := Some (kvs_put RevisionAnnotation newRevision anns)\<rparr>)
                          else (changed, copied))
                   in if exists then Some (changed, revised)
                      else do { replicas \<leftarrow> nds_Replicas (nd_Spec d);
                                surge \<leftarrow> MaxSurge lib d;
                                let (updated, annotated) = SetReplicasAnnotations revised replicas (i32 (replicas + surge));
                                Some (changed \<or> updated, annotated) })))"

definition SetNFDeploymentRevision :: "nfd \<Rightarrow> string \<Rightarrow> bool \<times> nfd" where
  "SetNFDeploymentRevision d revision =
     (let (updated, kvs) = set_annotation RevisionAnnotation revision (False, annotations_of d)
      in (updated, d\<lparr>om_Annotations := Some kvs\<rparr>))"

definition NFDeploymentComplete :: "nfd \<Rightarrow> bool option" where
  "NFDeploymentComplete d =
     do { replicas \<leftarrow> nds_Replicas (nd_Spec d);
          let st = nd_Status d;
          Some (ndt_UpdatedReplicas st = replicas \<and> ndt_Replicas st = replicas \<and>
                ndt_AvailableReplicas st = replicas \<and> ndt_ObservedGeneration st \<ge> om_Generation d) }"

definition ReplicasAnnotationsNeedUpdate :: "nfrs \<Rightarrow> int \<Rightarrow> int \<Rightarrow> bool" where
  "ReplicasAnnotationsNeedUpdate rs desiredReplicas maxReplicas =
     (if om_Annotations rs = None then True
      else if gomap_str (om_Annotations rs) DesiredReplicasAnnotation \<noteq> format_int desiredReplicas then True
      else if gomap_str (om_Annotations rs) MaxReplicasAnnotation \<noteq> format_int maxReplicas then True
      else False)"

section \<open>Orders\<close>

definition ByCreationTimestamp_Less :: "nfrs \<Rightarrow> nfrs \<Rightarrow> bool" where
  "ByCreationTimestamp_Less a b =
     (if om_CreationTimestamp a = om_CreationTimestamp b then str_less (om_Name a) (om_Name b)
      else om_CreationTimestamp a < om_CreationTimestamp b)"

definition ByRevision_Less :: "nfrs \<Rightarrow> nfrs \<Rightarrow> bool" where
  "ByRevision_Less a b =
     (case (Revision a, Revision b) of
        (Inr r1, Inr r2) \<Rightarrow> if r1 = r2 then ByCreationTimestamp_Less a b else r1 < r2
      | _ \<Rightarrow> ByCreationTimestamp_Less a b)"

section \<open>The size of the new replica set\<close>

definition NewRSNewReplicas :: "'sel deploy_lib \<Rightarrow> nfd \<Rightarrow> nfrs list \<Rightarrow> nfrs \<Rightarrow> (go_error + int) option" where
  "NewRSNewReplicas lib d allRSs newRS =
     do { strategy \<leftarrow> GetDeploymentStrategyType d;
          if strategy = StrategyRollingUpdate then
            do { replicas \<leftarrow> nds_Replicas (nd_Spec d);
                 surge \<leftarrow> MaxSurge lib d;
                 newCount \<leftarrow> rss_Replicas (rs_Spec newRS);
                 let currentPodCount = GetReplicaCountForReplicaSets allRSs;
                 let maxTotalPods = i32 (replicas + surge);
                 if currentPodCount \<ge> maxTotalPods then Some (Inr newCount)
                 else (let scaleUpCount = min (i32 (maxTotalPods - currentPodCount)) (i32 (replicas - newCount))
                       in Some (Inr (i32 (newCount + scaleUpCount)))) }
          else if strategy = StrategyRecreate then
            do { replicas \<leftarrow> nds_Replicas (nd_Spec d); Some (Inr replicas) }
          else Some (Inl (Errorf ''deployment type is not supported'' None)) }"

section \<open>Facts about the helpers\<close>

lemma ByCreationTimestamp_negtrans:
  assumes "\<not> ByCreationTimestamp_Less x y" "\<not> ByCreationTimestamp_Less y z"
  shows "\<not> ByCreationTimestamp_Less x z"
  using assms str_less_trans str_less_total
  by (auto simp: ByCreationTimestamp_Less_def split: if_splits) (metis str_less_trans str_less_total)

interpretation creation_order: keyed_order ByCreationTimestamp_Less om_Name
proof (unfold_locales, goal_cases)
  case (1 x y)
  then show ?case
    by (auto simp: ByCreationTimestamp_Less_def split: if_splits) (metis str_less_trans str_less_irrefl)
next
  case (2 x y z)
  then show ?case by (rule ByCreationTimestamp_negtrans)
next
  case (3 x y)
  then show ?case using str_less_total by (auto simp: ByCreationTimestamp_Less_def)
qed

definition upd_nfd_condition :: "NFDeploymentCondition list \<Rightarrow> NFDeploymentCondition \<Rightarrow> NFDeploymentCondition list" where
  "upd_nfd_condition cs c =
     (case find (\<lambda>x. c_Type x = c_Type c) cs of
        None \<Rightarrow> filterConditions cs (c_Type c) @ [c]
      | Some cur \<Rightarrow>
          if c_Status cur = c_Status c \<and> c_Reason cur = c_Reason c then cs
          else if c_Status cur \<noteq> c_Status c
          then filterConditions cs (c_Type c) @ [c\<lparr>c_LastTransitionTime := c_LastTransitionTime cur\<rparr>]
          else filterConditions cs (c_Type c) @ [c])"

lemma SetNfDeploymentCondition_upd:
  "SetNfDeploymentCondition st c = st\<lparr>ndt_Conditions := upd_nfd_condition (ndt_Conditions st) c\<rparr>"
  by (simp add: SetNfDeploymentCondition_def upd_nfd_condition_def GetNfDeploymentCondition_def
      split: option.splits)

lemma find_filter_other: "t \<noteq> t' \<Longrightarrow> find (\<lambda>x. f x = t) (filter (\<lambda>x. f x \<noteq> t') xs) = find (\<lambda>x. f x = t) xs"
  by (induction xs) auto

interpretation nfd_conditions: condition_store upd_nfd_condition c_Type same_outcome
proof (unfold_locales, goal_cases)
  case (1 c cs)
  have "find (\<lambda>x. c_Type x = c_Type c) (filterConditions cs (c_Type c)) = None"
    unfolding filterConditions_def by (rule find_filter_disjoint) simp
  then have stored: "find (\<lambda>x. c_Type x = c_Type c) (filterConditions cs (c_Type c) @ [d]) = Some d"
    if "c_Type d = c_Type c" for d using that by (simp add: find_append)
  show ?case
  proof (cases "find (\<lambda>x. c_Type x = c_Type c) cs")
    case None
    then show ?thesis by (simp add: upd_nfd_condition_def stored same_outcome_def)
  next
    case (Some cur)
    then have "c_Type cur = c_Type c" using find_Some_iff_in by fastforce
    with Some show ?thesis by (simp add: upd_nfd_condition_def stored same_outcome_def)
  qed
next
  case (2 t c cs)
  then show ?case
    by (auto simp: upd_nfd_condition_def find_append find_filter_other filterConditions_def
        split: option.splits)
next
  case (3 cs c)
  then show ?case
    by (auto simp: upd_nfd_condition_def filterConditions_def distinct_map_filter split: option.splits)
qed

lemma fnv_prime_inverse: "(x :: 32 word) * 16777619 * 899433627 = x"
proof -
  have "(16777619 :: 32 word) * 899433627 = 1" by simp
  then show ?thesis by (metis mult.assoc mult.right_neutral)
qed

lemma fnv_step_inject:
  fixes h h' :: "32 word"
  assumes "(h XOR ucast (b :: 8 word)) * 16777619 = (h' XOR ucast b) * 16777619"
  shows "h = h'"
proof -
  have "h XOR ucast b = h' XOR ucast b" using assms fnv_prime_inverse by metis
  then show ?thesis by (metis bit.xor_left_self xor.commute)
qed

lemma fnv32a_write_inject: "fnv32a_write h bs = fnv32a_write h' bs \<Longrightarrow> h = h'"
  unfolding fnv32a_write_def by (induction bs arbitrary: h h') (auto dest: fnv_step_inject)

lemma fnv_byte_inject:
  fixes h :: "32 word" and b b' :: "8 word"
  assumes "fnv32a_write h [b] = fnv32a_write h [b']"
  shows "b = b'"
proof -
  have "(h XOR ucast b) * 16777619 = (h XOR ucast b') * 16777619"
    using assms by (simp add: fnv32a_write_def)
  then have "h XOR ucast b = h XOR ucast b'" using fnv_prime_inverse by metis
  then have "h XOR (h XOR ucast b) = h XOR (h XOR ucast b')" by (rule arg_cong)
  then have "(ucast b :: 32 word) = ucast b'" by (simp only: bit.xor_left_self)
  then show ?thesis by transfer (simp add: take_bit_int_eq_self)
qed

lemma div_exp_succ:
  fixes c :: int and i :: nat
  assumes "c mod 256 \<noteq> 255" "0 < i"
  shows "(c + 1) div 2 ^ (8 * i) = c div 2 ^ (8 * i)"
proof -
  obtain k where k: "8 * i = 8 + k" using assms(2) by (cases i) auto
  have "c mod 256 + 1 < 256" using assms(1) pos_mod_bound [of 256 c] by linarith
  then have "(c mod 256 + 1) div 256 = 0" by (intro div_pos_pos_trivial) auto
  then have "(c + 1) div 256 = c div 256" by (subst div_add1_eq) simp
  then have "(c + 1) div 256 div 2 ^ k = c div 256 div 2 ^ k" by simp
  then show ?thesis by (simp add: k power_add zdiv_zmult2_eq)
qed

lemma collision_hash_differs:
  fixes h :: "32 word"
  assumes "c mod 256 \<noteq> 255"
  shows "fnv32a_write h (put_uint32_buf8 (word_of_int (c + 1))) \<noteq> fnv32a_write h (put_uint32_buf8 (word_of_int c))"
proof
  let ?w = "\<lambda>c. word_of_int c :: 32 word"
  let ?hi = "\<lambda>c. map (\<lambda>i. ucast (drop_bit (8 * i) (?w c))) [1, 2, 3] @ [0, 0, 0, 0] :: 8 word list"
  have split: "put_uint32_buf8 (?w c) = [ucast (?w c)] @ ?hi c" for c by (simp add: put_uint32_buf8_def)
  have shift: "(c + 1) div 2 ^ (8 * i) = c div 2 ^ (8 * i)" if "0 < i" for i :: nat
    by (rule div_exp_succ [OF assms that])
  have "drop_bit (8 * i) (take_bit 32 (c + 1)) = drop_bit (8 * i) (take_bit 32 c)" if "0 < i" for i :: nat
    using shift [OF that] by (simp add: drop_bit_take_bit) (simp add: drop_bit_eq_div)
  then have high: "drop_bit (8 * i) (?w (c + 1)) = drop_bit (8 * i) (?w c)" if "0 < i" for i :: nat
    using that by transfer (simp add: take_bit_drop_bit)
  have hi: "?hi (c + 1) = ?hi c"
    unfolding list.map high [OF zero_less_one] high [of 2, OF zero_less_numeral]
      high [of 3, OF zero_less_numeral] by (rule refl)
  assume "fnv32a_write h (put_uint32_buf8 (?w (c + 1))) = fnv32a_write h (put_uint32_buf8 (?w c))"
  then have "fnv32a_write h [ucast (?w (c + 1))] = fnv32a_write h [ucast (?w c)]"
    unfolding split fnv32a_write_append [of h] hi by (rule fnv32a_write_inject)
  then have "(ucast (?w (c + 1)) :: 8 word) = ucast (?w c)" by (rule fnv_byte_inject)
  then have "(c + 1) mod 256 = c mod 256" by transfer (simp add: take_bit_eq_mod mod_mod_cancel)
  then have "256 dvd c + 1 - c" by (simp only: mod_eq_dvd_iff)
  then show False by simp
qed

lemma counts_sum:
  "GetAvailableReplicaCountForReplicaSets rss = i32 (\<Sum>rs\<leftarrow>rss. rst_AvailableReplicas (rs_Status rs))"
  "GetActualReplicaCountForReplicaSets rss = i32 (\<Sum>rs\<leftarrow>rss. rst_Replicas (rs_Status rs))"
  "GetReadyReplicaCountForReplicaSets rss = i32 (\<Sum>rs\<leftarrow>rss. rst_ReadyReplicas (rs_Status rs))"
  by (simp_all add: GetAvailableReplicaCountForReplicaSets_def GetActualReplicaCountForReplicaSets_def
      GetReadyReplicaCountForReplicaSets_def foldl_i32_sum)

definition spec_replicas :: "nfrs \<Rightarrow> int" where
  "spec_replicas rs = (case rss_Replicas (rs_Spec rs) of None \<Rightarrow> 0 | Some n \<Rightarrow> n)"

lemma replica_count_sum: "GetReplicaCountForReplicaSets rss = i32 (\<Sum>rs\<leftarrow>rss. spec_replicas rs)"
proof -
  have step: "(case rss_Replicas (rs_Spec rs) of None \<Rightarrow> c | Some n \<Rightarrow> i32 (c + n)) = i32 (c + spec_replicas rs)"
    if "in_i32 c" for c rs using that by (simp add: spec_replicas_def split: option.splits)
  have "in_i32 c \<Longrightarrow> foldl (\<lambda>c rs. case rss_Replicas (rs_Spec rs) of None \<Rightarrow> c | Some n \<Rightarrow> i32 (c + n)) c rss =
      foldl (\<lambda>c rs. i32 (c + spec_replicas rs)) c rss" for c
    by (induction rss arbitrary: c) (simp_all add: step)
  then show ?thesis by (simp add: GetReplicaCountForReplicaSets_def foldl_i32_sum)
qed

lemma MaxSurge_rolling:
  assumes "nds_Strategy (nd_Spec d) = Some st" "st_Type st = StrategyRollingUpdate"
    "st_RollingUpdate st = Some ru" "nds_Replicas (nd_Spec d) = Some n"
  shows "MaxSurge lib d =
    Some (case ResolveFenceposts lib (ru_MaxSurge ru) (ru_MaxUnavailable ru) n of Inl _ \<Rightarrow> 0 | Inr (s, _) \<Rightarrow> s)"
  using assms by (simp add: MaxSurge_def IsRollingUpdate_def rolling_params_def)

lemma set_annotation_get:
  "gomap_get (Some (snd (set_annotation k v st))) k' =
     (if k' = k \<and> gomap_str (Some (snd st)) k \<noteq> v then Some v else gomap_get (Some (snd st)) k')"
  by (simp add: set_annotation_def gomap_get_def)

lemma set_annotation_str [simp]:
  "gomap_str (Some (snd (set_annotation k v st))) k' = (if k' = k then v else gomap_str (Some (snd st)) k')"
  by (auto simp: gomap_str_def set_annotation_get split: option.splits)

lemma SetReplicasAnnotations_eq:
  "SetReplicasAnnotations rs d m =
    (let st = set_annotation MaxReplicasAnnotation (format_int m)
            (set_annotation DesiredReplicasAnnotation (format_int d) (False, annotations_of rs))
     in (fst st, rs\<lparr>om_Annotations := Some (snd st)\<rparr>))"
  by (simp add: SetReplicasAnnotations_def Let_def split_beta)

lemma SetReplicasAnnotations_str:
  "gomap_str (om_Annotations (snd (SetReplicasAnnotations rs d m))) DesiredReplicasAnnotation = format_int d"
  "gomap_str (om_Annotations (snd (SetReplicasAnnotations rs d m))) MaxReplicasAnnotation = format_int m"
  by (simp_all add: SetReplicasAnnotations_eq Let_def)

section \<open>Properties of the helpers\<close>

text \<open>A replica set and a deployment for the concrete instances.\<close>

definition ex_meta :: "string \<Rightarrow> object_meta" where
  "ex_meta name = \<lparr>om_Name = name, om_GenerateName = '''', om_Namespace = ''default'', om_UID = name, om_Generation = 1,
     om_Labels = Some [], om_Annotations = Some [], om_Finalizers = [], om_OwnerReferences = [],
     om_CreationTimestamp = 5, om_DeletionTimestamp = None\<rparr>"

definition ex_template :: NetworkFunctionTemplate where
  "ex_template = object_meta.extend (ex_meta ''tpl'') \<lparr>tpl_Spec = \<lparr>nfs_TargetName = '''', nfs_ControlPlane = None,
     nfs_TargetSelector = None, nfs_ConfigRef = None, nfs_P4File = ''prog''\<rparr>\<rparr>"

definition ex_rs :: "string \<Rightarrow> int \<Rightarrow> int \<Rightarrow> nfrs" where
  "ex_rs name replicas available = object_meta.extend (ex_meta name)
     \<lparr>rs_Spec = \<lparr>rss_Replicas = Some replicas, rss_Selector = None, rss_Template = ex_template, rss_MinReadySeconds = 0\<rparr>,
      rs_Status = \<lparr>rst_Replicas = replicas, rst_FullyLabeledReplicas = replicas, rst_ReadyReplicas = available,
        rst_AvailableReplicas = available, rst_ObservedGeneration = 1, rst_Conditions = []\<rparr>\<rparr>"

definition ex_strategy :: "string \<Rightarrow> IntOrString \<Rightarrow> IntOrString \<Rightarrow> DeploymentStrategy" where
  "ex_strategy strategy surge unavailable = \<lparr>st_Type = strategy,
     st_RollingUpdate = Some \<lparr>ru_MaxUnavailable = Some unavailable, ru_MaxSurge = Some surge\<rparr>\<rparr>"

definition ex_nfd :: "int \<Rightarrow> string \<Rightarrow> IntOrString \<Rightarrow> IntOrString \<Rightarrow> nfd" where
  "ex_nfd replicas strategy surge unavailable = object_meta.extend (ex_meta ''fw'')
     \<lparr>nd_Spec = \<lparr>nds_Replicas = Some replicas,
        nds_Strategy = Some (ex_strategy strategy surge unavailable),
        nds_Selector = Some \<lparr>ls_MatchLabels = Some [(''app'', ''fw'')], ls_MatchExpressions = []\<rparr>,
        nds_Template = ex_template, nds_MinReadySeconds = 0\<rparr>,
      nd_Status = \<lparr>ndt_ObservedGeneration = 1, ndt_Replicas = 0, ndt_UpdatedReplicas = 0, ndt_ReadyReplicas = 0,
        ndt_AvailableReplicas = 0, ndt_UnavailableReplicas = 0, ndt_CollisionCount = None, ndt_Conditions = []\<rparr>\<rparr>"

definition ex_lib :: "unit deploy_lib" where
  "ex_lib = \<lparr>lib_FromInt32 = IntVal,
     lib_ValueOrDefault = (\<lambda>v d. case v of None \<Rightarrow> d | Some x \<Rightarrow> x),
     lib_GetScaledValue = (\<lambda>v total up. case v of IntVal n \<Rightarrow> Inr n | StrVal s \<Rightarrow> Inl (Errorf s None)),
     lib_ForHash = (\<lambda>t. om_Name t), lib_SafeEncodeString = (\<lambda>s. s), lib_DeepEqual = (=),
     lib_SubdomainMaxLength = 253, lib_LabelSelectorAsSelector = (\<lambda>_. Inr ()),
     lib_SetControllerReference = (\<lambda>_ rs. Inr rs),
     lib_GetControllerOf = (\<lambda>refs. find or_Controller refs)\<rparr>"

lemma ex_simps [simp]:
  "nds_Replicas (nd_Spec (ex_nfd n k s u)) = Some n"
  "nds_Strategy (nd_Spec (ex_nfd n k s u)) = Some (ex_strategy k s u)"
  "st_Type (ex_strategy k s u) = k"
  "rss_Replicas (rs_Spec (ex_rs a n v)) = Some n"
  "rst_Replicas (rs_Status (ex_rs a n v)) = n"
  "rst_AvailableReplicas (rs_Status (ex_rs a n v)) = v"
  "om_Name (ex_rs a n v) = a" "om_DeletionTimestamp (ex_rs a n v) = None"
  "om_Generation (ex_rs a n v) = 1" "rst_ObservedGeneration (rs_Status (ex_rs a n v)) = 1"
  "spec_replicas (ex_rs a n v) = n" "ndt_Conditions (nd_Status (ex_nfd n k s u)) = []"
  by (simp_all add: ex_nfd_def ex_strategy_def ex_rs_def ex_meta_def spec_replicas_def object_meta.defs)

text \<open>
  The two fence posts of a rolling update are never both zero, so a rollout can always make
  progress, whatever the percentages round to (the library's values being int32 values).
\<close>

theorem fenceposts_allow_progress:
  assumes "ResolveFenceposts lib maxSurge maxUnavailable desired = Inr (surge, unavailable)"
    and "\<And>v up n. lib_GetScaledValue lib v desired up = Inr n \<Longrightarrow> in_i32 n"
  shows "\<not> (surge = 0 \<and> unavailable = 0)"
proof -
  obtain s u where s: "lib_GetScaledValue lib (lib_ValueOrDefault lib maxSurge (lib_FromInt32 lib 0)) desired True = Inr s"
      "lib_GetScaledValue lib (lib_ValueOrDefault lib maxUnavailable (lib_FromInt32 lib 0)) desired False = Inr u"
      "surge = i32 s" "unavailable = i32 (if s = 0 \<and> u = 0 then 1 else u)"
    using assms(1) by (auto simp: ResolveFenceposts_def split: sum.splits)
  have "in_i32 s" "in_i32 u" using s(1,2) assms(2) by blast+
  moreover have "i32 1 = 1" by (simp add: i32_def)
  ultimately show ?thesis using s(3,4) by (auto split: if_splits)
qed

theorem fenceposts_allow_progress_witness:
  "ResolveFenceposts ex_lib (Some (IntVal 0)) (Some (IntVal 0)) 3 = Inr (0, 1) \<and>
   \<not> ((0 :: int) = 0 \<and> (1 :: int) = 0)"
  using fenceposts_allow_progress [of "ex_lib\<lparr>lib_GetScaledValue := \<lambda>v total up. Inr 0\<rparr>"
      "Some (IntVal 0)" "Some (IntVal 0)" 3 0 1]
  by (simp add: ResolveFenceposts_def ex_lib_def i32_def)



text \<open>
  The replica annotations round-trip: what \<open>SetReplicasAnnotations\<close> writes is what
  \<open>GetDesiredReplicasAnnotation\<close> reads, no other annotation changes, and a further check or write finds
  nothing to do.
\<close>

theorem replicas_annotations_roundtrip:
  assumes "0 \<le> d" "d < 2 ^ 31" and "rs' = snd (SetReplicasAnnotations rs d m)"
  shows "GetDesiredReplicasAnnotation rs' = Some d \<and>
    \<not> ReplicasAnnotationsNeedUpdate rs' d m \<and>
    \<not> fst (SetReplicasAnnotations rs' d m) \<and>
    (\<forall>k. k \<notin> {DesiredReplicasAnnotation, MaxReplicasAnnotation} \<longrightarrow>
       gomap_get (om_Annotations rs') k = gomap_get (om_Annotations rs) k)"
proof -
  have strs: "gomap_str (om_Annotations rs') DesiredReplicasAnnotation = format_int d"
    "gomap_str (om_Annotations rs') MaxReplicasAnnotation = format_int m"
    unfolding assms(3) by (rule SetReplicasAnnotations_str)+
  obtain kvs where kvs: "om_Annotations rs' = Some kvs"
    unfolding assms(3) by (simp add: SetReplicasAnnotations_eq Let_def)
  have "gomap_get (om_Annotations rs') DesiredReplicasAnnotation = Some (format_int d)"
    using strs(1) format_int_nonempty [of d] by (auto simp: gomap_str_def split: option.splits)
  moreover have "ParseUint (format_int d) 32 = Some d" using assms by (intro ParseUint_format_int) auto
  ultimately have "GetDesiredReplicasAnnotation rs' = Some d"
    using assms(2) by (simp add: GetDesiredReplicasAnnotation_def getNonNegativeInt32FromAnnotation_def)
  moreover have "\<not> ReplicasAnnotationsNeedUpdate rs' d m \<and> \<not> fst (SetReplicasAnnotations rs' d m)"
    using strs kvs
    by (simp add: ReplicasAnnotationsNeedUpdate_def SetReplicasAnnotations_eq set_annotation_def annotations_of_def Let_def)
  moreover have "gomap_get (om_Annotations rs') k = gomap_get (om_Annotations rs) k"
    if "k \<notin> {DesiredReplicasAnnotation, MaxReplicasAnnotation}" for k
    using that unfolding assms(3)
    by (simp add: SetReplicasAnnotations_eq set_annotation_get Let_def) (simp add: annotations_of_def gomap_get_def split: option.splits)
  ultimately show ?thesis by blast
qed

theorem replicas_annotations_roundtrip_witness:
  "GetDesiredReplicasAnnotation (snd (SetReplicasAnnotations (ex_rs ''a'' 1 1) 12 15)) = Some 12"
  using replicas_annotations_roundtrip [of 12 _ "ex_rs ''a'' 1 1" 15] by simp

text \<open>
  Writing a condition into a deployment status leaves the type readable with the requested
  status and reason, keeps every other condition, and never duplicates a type.
\<close>

theorem SetNfDeploymentCondition_contract:
  "(\<exists>c'. GetNfDeploymentCondition (SetNfDeploymentCondition st c) (c_Type c) = Some c' \<and>
      c_Status c' = c_Status c \<and> c_Reason c' = c_Reason c) \<and>
   (\<forall>t. t = c_Type c \<or>
      GetNfDeploymentCondition (SetNfDeploymentCondition st c) t = GetNfDeploymentCondition st t) \<and>
   (distinct (map c_Type (ndt_Conditions st)) \<longrightarrow>
      distinct (map c_Type (ndt_Conditions (SetNfDeploymentCondition st c))))"
  using nfd_conditions.upd_lookup [of c "ndt_Conditions st"]
    nfd_conditions.upd_others [of _ c "ndt_Conditions st"]
    nfd_conditions.upd_distinct [of "ndt_Conditions st" c]
  by (auto simp: GetNfDeploymentCondition_def SetNfDeploymentCondition_upd same_outcome_def)

theorem SetNfDeploymentCondition_contract_witness:
  "distinct (map c_Type (ndt_Conditions (SetNfDeploymentCondition
     (nd_Status (ex_nfd 3 StrategyRecreate (IntVal 1) (IntVal 0)))
     (NewNfDeploymentCondition 7 NFDeploymentAvailable ConditionTrue ''r'' ''m''))))"
  using SetNfDeploymentCondition_contract
    [of "nd_Status (ex_nfd 3 StrategyRecreate (IntVal 1) (IntVal 0))"
        "NewNfDeploymentCondition 7 NFDeploymentAvailable ConditionTrue ''r'' ''m''"]
  by simp

text \<open>
  When a hash collision makes the controller bump the collision count from \<open>c\<close> to \<open>c + 1\<close>, the
  FNV hash of the specification changes (unless the low byte of the count overflows), so the
  retried creation uses another name whenever the encoding of hashes is injective.
\<close>

theorem collision_bump_changes_hash:
  assumes "ndt_CollisionCount (nd_Status d) = Some c" "c mod 256 \<noteq> 255"
    and "inj (lib_SafeEncodeString lib)"
    and "d' = d\<lparr>nd_Status := (nd_Status d)\<lparr>ndt_CollisionCount := Some (c + 1)\<rparr>\<rparr>"
  shows "ComputeSpecHash lib d' \<noteq> ComputeSpecHash lib d"
proof
  let ?h = "fnv32a_write fnv32a_init (string_bytes (lib_ForHash lib (nds_Template (nd_Spec d))))"
  let ?k = "\<lambda>c. fnv32a_write ?h (put_uint32_buf8 (word_of_int c))"
  assume "ComputeSpecHash lib d' = ComputeSpecHash lib d"
  then have "lib_SafeEncodeString lib (format_nat (unat (?k (c + 1)))) =
      lib_SafeEncodeString lib (format_nat (unat (?k c)))"
    using assms(1,4) by (simp add: ComputeSpecHash_def)
  then have "format_nat (unat (?k (c + 1))) = format_nat (unat (?k c))" by (rule injD [OF assms(3)])
  then have "unat (?k (c + 1)) = unat (?k c)" using parse_format_nat by (metis option.inject)
  then have "?k (c + 1) = ?k c" by (simp only: word_unat_eq_iff)
  with collision_hash_differs [OF assms(2), of ?h] show False by simp
qed

theorem collision_bump_changes_hash_witness:
  "ComputeSpecHash ex_lib
     (ex_nfd 3 StrategyRecreate (IntVal 1) (IntVal 0)
        \<lparr>nd_Status := (nd_Status (ex_nfd 3 StrategyRecreate (IntVal 1) (IntVal 0)))\<lparr>ndt_CollisionCount := Some 2\<rparr>\<rparr>) \<noteq>
   ComputeSpecHash ex_lib
     (ex_nfd 3 StrategyRecreate (IntVal 1) (IntVal 0)
        \<lparr>nd_Status := (nd_Status (ex_nfd 3 StrategyRecreate (IntVal 1) (IntVal 0)))\<lparr>ndt_CollisionCount := Some 1\<rparr>\<rparr>)"
  using collision_bump_changes_hash
    [of "ex_nfd 3 StrategyRecreate (IntVal 1) (IntVal 0)
        \<lparr>nd_Status := (nd_Status (ex_nfd 3 StrategyRecreate (IntVal 1) (IntVal 0)))\<lparr>ndt_CollisionCount := Some 1\<rparr>\<rparr>"
      1 ex_lib, OF _ _ _ refl]
  by (simp add: ex_lib_def inj_on_def)

text \<open>
  \<open>MaxUnavailable\<close> returns the surge, not the allowed unavailability: on every rolling-update
  deployment with replicas it equals \<open>MaxSurge\<close> (the first result of \<open>ResolveFenceposts\<close> is read).
\<close>

theorem MaxUnavailable_is_surge:
  assumes "nds_Replicas (nd_Spec d) = Some n" "n \<noteq> 0"
  shows "MaxUnavailable lib d = MaxSurge lib d"
  using assms unfolding MaxUnavailable_def MaxSurge_def by (cases "IsRollingUpdate d") auto

theorem MaxUnavailable_is_surge_witness:
  "MaxUnavailable ex_lib (ex_nfd 10 StrategyRollingUpdate (IntVal 3) (IntVal 0)) = Some 3"
proof -
  have "MaxSurge ex_lib (ex_nfd 10 StrategyRollingUpdate (IntVal 3) (IntVal 0)) = Some 3" by code_simp
  then show ?thesis
    using MaxUnavailable_is_surge [of "ex_nfd 10 StrategyRollingUpdate (IntVal 3) (IntVal 0)" 10 ex_lib] by simp
qed

text \<open>
  \<open>MaxRevision\<close> returns the revision of the last replica set whose annotation parses, which is
  the maximum only if that one happens to carry it.
\<close>

theorem MaxRevision_is_last:
  assumes "Revision rs = Inr v" "\<forall>r \<in> set later. \<exists>e. Revision r = Inl e"
  shows "MaxRevision (earlier @ rs # later) = v"
proof -
  have "foldl (\<lambda>m rs. case Revision rs of Inl _ \<Rightarrow> m | Inr v \<Rightarrow> v) x later = x" for x
    using assms(2) by (induction later arbitrary: x) auto
  with assms(1) show ?thesis by (simp add: MaxRevision_def)
qed

theorem MaxRevision_is_last_witness:
  "MaxRevision ([(ex_rs ''a'' 1 1)\<lparr>om_Annotations := Some [(RevisionAnnotation, ''5'')]\<rparr>] @
     (ex_rs ''b'' 1 1)\<lparr>om_Annotations := Some [(RevisionAnnotation, ''2'')]\<rparr> # []) = 2"
proof -
  have "ParseInt64 ''2'' = Some 2" by code_simp
  then have "Revision ((ex_rs ''b'' 1 1)\<lparr>om_Annotations := Some [(RevisionAnnotation, ''2'')]\<rparr>) = Inr 2"
    by (simp add: Revision_def gomap_get_def)
  then show ?thesis by (rule MaxRevision_is_last) simp
qed

text \<open>
  The name generated for a replica set fits the length limit of Kubernetes names whenever the
  hash leaves room for at least one character of the deployment name, and it always ends in the hash.
\<close>

theorem GenerateReplicaSetName_fits:
  assumes "int (length hash) + 1 < lib_SubdomainMaxLength lib"
  shows "int (length (GenerateReplicaSetName lib name hash)) \<le> lib_SubdomainMaxLength lib \<and>
    (\<exists>k. GenerateReplicaSetName lib name hash = take k name @ ''-'' @ hash)"
proof -
  have "\<exists>k. name @ ''-'' @ hash = take k name @ ''-'' @ hash" by (rule exI [of _ "length name"]) simp
  then show ?thesis using assms by (auto simp: GenerateReplicaSetName_def Let_def)
qed

theorem GenerateReplicaSetName_fits_witness:
  "int (length (GenerateReplicaSetName ex_lib (replicate 300 (CHR ''a'')) ''5d4f'')) \<le> 253"
  using GenerateReplicaSetName_fits [of "''5d4f''" ex_lib "replicate 300 (CHR ''a'')"]
  by (simp add: ex_lib_def)

end
