(* ===== verification/NFDeployment.thy ===== *)
theory NFDeployment
  imports NFD_Util "HOL-Library.Sublist"
begin

text \<open>
  The deployment controller
  (\<open>src/operator/internal/controller/scheduling/networkfunctiondeployment\<close>): it keeps one replica set
  per template of a deployment and moves replicas between them with the rolling-update or recreate
  strategy. The Kubernetes API client is a record of functions over a world \<open>'w\<close>; a write returns the
  error or the object as the server answered it. A panic of the handler (nil pointer) is \<open>None\<close>.
\<close>

section \<open>The API client\<close>

record ('w, 'sel) nfd_client =
  api_GetDeployment :: "'w \<Rightarrow> nsname \<Rightarrow> go_error + nfd"
  api_UpdateDeployment :: "'w \<Rightarrow> nfd \<Rightarrow> (go_error + nfd) \<times> 'w"
  api_StatusUpdateDeployment :: "'w \<Rightarrow> nfd \<Rightarrow> (go_error + nfd) \<times> 'w"
  api_StatusPatchDeployment :: "'w \<Rightarrow> nfd \<Rightarrow> nfd \<Rightarrow> (go_error + nfd) \<times> 'w"
  api_ListReplicaSets :: "'w \<Rightarrow> string \<Rightarrow> 'sel \<Rightarrow> go_error + nfrs list"
  api_GetReplicaSet :: "'w \<Rightarrow> nsname \<Rightarrow> go_error + nfrs"
  api_CreateReplicaSet :: "'w \<Rightarrow> nfrs \<Rightarrow> (go_error + nfrs) \<times> 'w"
  api_UpdateReplicaSet :: "'w \<Rightarrow> nfrs \<Rightarrow> (go_error + nfrs) \<times> 'w"
  api_DeleteReplicaSet :: "'w \<Rightarrow> nfrs \<Rightarrow> go_error option \<times> 'w"

section \<open>Listing and splitting\<close>

text \<open>
  \<open>sort.Sort\<close> works in place, so the sorted slice is a result too. The old replica sets are those
  whose UID is not the current one's.
\<close>

definition sortAndSplitReplicaSets ::
    "'sel deploy_lib \<Rightarrow> nfd \<Rightarrow> nfrs list \<Rightarrow> nfrs list \<times> nfrs option \<times> nfrs list" where
  "sortAndSplitReplicaSets lib d replicaSets =
     (let currentSpecHash = ComputeSpecHash lib d;
          sorted = go_sort ByCreationTimestamp_Less replicaSets;
          current = find (\<lambda>rs. gomap_str (om_Labels rs) NFSpecHashLabel = currentSpecHash) sorted;
          old = filter (\<lambda>rs. \<not> (case current of None \<Rightarrow> False | Some c \<Rightarrow> om_UID rs = om_UID c)) sorted
      in (sorted, current, old))"

definition listReplicaSets ::
    "'sel deploy_lib \<Rightarrow> ('w, 'sel) nfd_client \<Rightarrow> nfd \<Rightarrow> 'w \<Rightarrow> go_error + nfrs list" where
  "listReplicaSets lib cl d w =
     (case lib_LabelSelectorAsSelector lib (nds_Selector (nd_Spec d)) of
        Inl err \<Rightarrow> Inl (Errorf ''invalid label selector'' (Some err))
      | Inr sel \<Rightarrow>
          (case api_ListReplicaSets cl w (om_Namespace d) sel of
             Inl err \<Rightarrow> Inl (Errorf ''failed to list NetworkFunctionReplicaSets'' (Some err))
           | Inr items \<Rightarrow> Inr items))"

section \<open>The current replica set\<close>

text \<open>
  The replica set of the current template. The new object shares the label map of the deployment, so
  the hash label lands in the deployment too (when that map is not nil).
\<close>

definition new_replica_set :: "'sel deploy_lib \<Rightarrow> nfd \<Rightarrow> (nfrs \<times> nfd) option" where
  "new_replica_set lib d =
     (let h = ComputeSpecHash lib d
      in do { sel \<leftarrow> nds_Selector (nd_Spec d);
              labels \<leftarrow> gomap_put (gomap_make (om_Labels d)) NFSpecHashLabel h;
              matchLabels \<leftarrow> gomap_put (ls_MatchLabels sel) NFSpecHashLabel h;
              tplLabels \<leftarrow> gomap_put (om_Labels (nds_Template (nd_Spec d))) NFSpecHashLabel h;
              Some (\<lparr>om_Name = GenerateReplicaSetName lib (om_Name d) h, om_GenerateName = '''', om_Namespace = om_Namespace d,
                 om_UID = '''', om_Generation = 0, om_Labels = labels, om_Annotations = None,
                 om_Finalizers = [], om_OwnerReferences = [], om_CreationTimestamp = 0,
                 om_DeletionTimestamp = None,
                 rs_Spec = \<lparr>rss_Replicas = Some 0, rss_Selector = Some (sel\<lparr>ls_MatchLabels := matchLabels\<rparr>),
                   rss_Template = (nds_Template (nd_Spec d))\<lparr>om_Labels := tplLabels\<rparr>, rss_MinReadySeconds = 0\<rparr>,
                 rs_Status = \<lparr>rst_Replicas = 0, rst_FullyLabeledReplicas = 0, rst_ReadyReplicas = 0,
                   rst_AvailableReplicas = 0, rst_ObservedGeneration = 0, rst_Conditions = []\<rparr>\<rparr>,
               if om_Labels d = None then d else d\<lparr>om_Labels := labels\<rparr>) })"

text \<open>
  The result of \<open>ensureUpdatedReplicaSet\<close>: \<open>Inr updated\<close> or the error, the deployment object as
  the call leaves it, and the current replica set object (the caller's slice holds a pointer to it).
\<close>

definition record_revision ::
    "('w, 'sel) nfd_client \<Rightarrow> nfd \<Rightarrow> string \<Rightarrow> 'w \<Rightarrow> (go_error + nfd) \<times> 'w" where
  "record_revision cl d revision w =
     (let (needsUpdate, d) = SetNFDeploymentRevision d revision
      in if needsUpdate then api_StatusUpdateDeployment cl w d else (Inr d, w))"

definition handle_already_exists ::
    "'sel deploy_lib \<Rightarrow> ('w, 'sel) nfd_client \<Rightarrow> nfd \<Rightarrow> nfrs \<Rightarrow> 'w \<Rightarrow> bool \<times> nfd \<times> 'w" where
  "handle_already_exists lib cl d newRS w =
     (case api_GetReplicaSet cl w (meta_key newRS) of
        Inl getErr \<Rightarrow> (False, d, w)
      | Inr preExistingRS \<Rightarrow>
          (let ours = (case lib_GetControllerOf lib (om_OwnerReferences preExistingRS) of
                         None \<Rightarrow> False
                       | Some ref \<Rightarrow> or_UID ref = om_UID d \<and>
                           EqualIgnoreHash lib (nds_Template (nd_Spec d)) (rss_Template (rs_Spec preExistingRS)))
           in if ours then (True, d, w)
              else (let count = (case ndt_CollisionCount (nd_Status d) of None \<Rightarrow> 0 | Some c \<Rightarrow> c);
                        d = d\<lparr>nd_Status := (nd_Status d)\<lparr>ndt_CollisionCount := Some (i32 (count + 1))\<rparr>\<rparr>;
                        (r, w) = api_StatusUpdateDeployment cl w d
                    in (False, case r of Inl _ \<Rightarrow> d | Inr d' \<Rightarrow> d', w))))"

definition create_replica_set ::
    "'sel deploy_lib \<Rightarrow> ('w, 'sel) nfd_client \<Rightarrow> nfd \<Rightarrow> nfrs \<Rightarrow> 'w \<Rightarrow> (go_error option \<times> nfd) \<times> 'w" where
  "create_replica_set lib cl d newRS w =
     (case api_CreateReplicaSet cl w newRS of
        (Inr _, w) \<Rightarrow> ((None, d), w)
      | (Inl err, w) \<Rightarrow>
          if IsAlreadyExists err
          then (let (ours, d, w) = handle_already_exists lib cl d newRS w
                in ((if ours then None else Some err, d), w))
          else ((Some err, d), w))"

definition ensureUpdatedReplicaSet ::
    "'sel deploy_lib \<Rightarrow> ('w, 'sel) nfd_client \<Rightarrow> nfd \<Rightarrow> nfrs option \<Rightarrow> nfrs list \<Rightarrow> 'w \<Rightarrow>
      (((go_error + bool) \<times> nfd \<times> nfrs option) \<times> 'w) option" where
  "ensureUpdatedReplicaSet lib cl d existingNewRS allRSs w =
     (let newRevision = format_int (MaxRevision allRSs)
      in case existingNewRS of
           Some existing \<Rightarrow>
             do { (annotationsUpdated, existing) \<leftarrow> SetNewReplicaSetAnnotations lib d existing newRevision True;
                  Some (if annotationsUpdated then
                          (case api_UpdateReplicaSet cl w existing of
                             (Inl err, w) \<Rightarrow>
                               ((Inl (Errorf ''failed to update NetworkFunctionReplicaSet'' (Some err)), d, Some existing), w)
                           | (Inr stored, w) \<Rightarrow> ((Inr True, d, Some stored), w))
                        else
                          (case record_revision cl d (gomap_str (om_Annotations existing) RevisionAnnotation) w of
                             (Inl err, w) \<Rightarrow> ((Inl err, d, Some existing), w)
                           | (Inr d, w) \<Rightarrow> ((Inr True, d, Some existing), w))) }
         | None \<Rightarrow>
             do { (newRS, d) \<leftarrow> new_replica_set lib d;
                  count \<leftarrow> NewRSNewReplicas lib d allRSs newRS;
                  case count of
                    Inl err \<Rightarrow> Some ((Inl (Errorf ''failed to calculate new replicas count'' (Some err)), d, None), w)
                  | Inr newReplicasCount \<Rightarrow>
                      (let newRS = newRS\<lparr>rs_Spec := (rs_Spec newRS)\<lparr>rss_Replicas := Some newReplicasCount\<rparr>\<rparr>
                       in case lib_SetControllerReference lib d newRS of
                            Inl err \<Rightarrow> Some ((Inl (Errorf ''failed to set owner reference'' (Some err)), d, None), w)
                          | Inr newRS \<Rightarrow>
                              do { (_, newRS) \<leftarrow> SetNewReplicaSetAnnotations lib d newRS newRevision False;
                                   Some (case create_replica_set lib cl d newRS w of
                                           ((Some err, d), w) \<Rightarrow> ((Inl err, d, None), w)
                                         | ((None, d), w) \<Rightarrow>
                                             (case record_revision cl d newRevision w of
                                                (Inl err, w) \<Rightarrow> ((Inl err, d, None), w)
                                              | (Inr d, w) \<Rightarrow> ((Inr True, d, None), w))) }) })"

section \<open>Deleting and scaling replica sets\<close>

definition cleanable :: "nfrs \<Rightarrow> bool option" where
  "cleanable rs =
     (if rst_Replicas (rs_Status rs) \<noteq> 0 then Some False
      else do { n \<leftarrow> rss_Replicas (rs_Spec rs);
                Some (n = 0 \<and> \<not> om_Generation rs > rst_ObservedGeneration (rs_Status rs) \<and>
                      om_DeletionTimestamp rs = None) })"

fun cleanup_loop :: "('w, 'sel) nfd_client \<Rightarrow> nfrs list \<Rightarrow> 'w \<Rightarrow> (go_error option \<times> 'w) option" where
  "cleanup_loop cl [] w = Some (None, w)"
| "cleanup_loop cl (rs # rss) w =
     do { ok \<leftarrow> cleanable rs;
          if \<not> ok then cleanup_loop cl rss w
          else (case api_DeleteReplicaSet cl w rs of
                  (Some err, w) \<Rightarrow> if IsNotFound err then cleanup_loop cl rss w else Some (Some err, w)
                | (None, w) \<Rightarrow> cleanup_loop cl rss w) }"

definition cleanupOldReplicaSets ::
    "('w, 'sel) nfd_client \<Rightarrow> nfrs list \<Rightarrow> 'w \<Rightarrow> (go_error option \<times> 'w) option" where
  "cleanupOldReplicaSets cl oldRSs w =
     cleanup_loop cl (go_sort ByRevision_Less (FilterAliveReplicaSets oldRSs)) w"

text \<open>
  The named result \<open>scaled\<close> of \<open>scaleReplicaSet\<close> is never assigned (the assignment is commented
  out), and the replica set returned is the argument, not the scaled copy.
\<close>

definition scaleReplicaSet ::
    "'sel deploy_lib \<Rightarrow> ('w, 'sel) nfd_client \<Rightarrow> nfrs \<Rightarrow> int \<Rightarrow> nfd \<Rightarrow> bool \<Rightarrow> 'w \<Rightarrow>
      ((bool \<times> nfrs \<times> go_error option) \<times> 'w) option" where
  "scaleReplicaSet lib cl rs newScale d forceUpdate w =
     do { n \<leftarrow> rss_Replicas (rs_Spec rs);
          if \<not> forceUpdate \<and> n = newScale then Some ((False, rs, None), w)
          else do { replicas \<leftarrow> nds_Replicas (nd_Spec d);
            surge \<leftarrow> MaxSurge lib d;
            let maxReplicas = i32 (replicas + surge);
            let sizeNeedsUpdate = (n \<noteq> newScale);
            let annotationsNeedUpdate = ReplicasAnnotationsNeedUpdate rs replicas maxReplicas;
            if sizeNeedsUpdate \<or> annotationsNeedUpdate then
              (let rsCopy = rs\<lparr>rs_Spec := (rs_Spec rs)\<lparr>rss_Replicas := Some newScale\<rparr>\<rparr>;
                   (_, rsCopy) = SetReplicasAnnotations rsCopy replicas maxReplicas
               in case api_UpdateReplicaSet cl w rsCopy of
                    (Inl err, w) \<Rightarrow> Some ((False, rs, Some err), w)
                  | (Inr _, w) \<Rightarrow> Some ((False, rs, None), w))
            else Some ((False, rs, None), w) } }"

section \<open>The rolling update\<close>

fun cleanup_unhealthy_loop ::
    "'sel deploy_lib \<Rightarrow> ('w, 'sel) nfd_client \<Rightarrow> nfd \<Rightarrow> int \<Rightarrow> int \<Rightarrow> nfrs list \<Rightarrow> 'w \<Rightarrow>
      ((int \<times> go_error option) \<times> 'w) option" where
  "cleanup_unhealthy_loop lib cl d maxCleanupCount totalScaledDown [] w = Some ((totalScaledDown, None), w)"
| "cleanup_unhealthy_loop lib cl d maxCleanupCount totalScaledDown (targetRS # rss) w =
     (if totalScaledDown \<ge> maxCleanupCount then Some ((totalScaledDown, None), w)
      else do { n \<leftarrow> rss_Replicas (rs_Spec targetRS);
        let available = rst_AvailableReplicas (rs_Status targetRS);
        if n = 0 \<or> n = available then cleanup_unhealthy_loop lib cl d maxCleanupCount totalScaledDown rss w
        else (let scaledDownCount = min (i32 (maxCleanupCount - totalScaledDown)) (i32 (n - available));
                  newReplicasCount = i32 (n - scaledDownCount)
              in if newReplicasCount > n
                 then Some ((0, Some (Errorf ''invalid request to scale down'' None)), w)
                 else do { ((_, _, err), w) \<leftarrow> scaleReplicaSet lib cl targetRS newReplicasCount d False w;
                   case err of
                     Some e \<Rightarrow> Some ((totalScaledDown, Some e), w)
                   | None \<Rightarrow> cleanup_unhealthy_loop lib cl d maxCleanupCount
                               (i32 (totalScaledDown + scaledDownCount)) rss w }) })"

text \<open>The slice is sorted in place, so the sorted old replica sets are a result.\<close>

definition cleanupUnhealthyReplicas ::
    "'sel deploy_lib \<Rightarrow> ('w, 'sel) nfd_client \<Rightarrow> nfrs list \<Rightarrow> nfd \<Rightarrow> int \<Rightarrow> 'w \<Rightarrow>
      ((nfrs list \<times> int \<times> go_error option) \<times> 'w) option" where
  "cleanupUnhealthyReplicas lib cl oldRSs d maxCleanupCount w =
     (let oldRSs = go_sort ByCreationTimestamp_Less oldRSs
      in do { ((count, err), w) \<leftarrow> cleanup_unhealthy_loop lib cl d maxCleanupCount 0 oldRSs w;
              Some ((oldRSs, count, err), w) })"

definition reconcileNewReplicaSet ::
    "'sel deploy_lib \<Rightarrow> ('w, 'sel) nfd_client \<Rightarrow> nfrs list \<Rightarrow> nfrs \<Rightarrow> nfd \<Rightarrow> 'w \<Rightarrow>
      ((bool \<times> go_error option) \<times> 'w) option" where
  "reconcileNewReplicaSet lib cl allRSs currentRS d w =
     do { n \<leftarrow> rss_Replicas (rs_Spec currentRS);
          replicas \<leftarrow> nds_Replicas (nd_Spec d);
          if n = replicas then Some ((False, None), w)
          else if n > replicas then
            do { ((scaled, _, err), w) \<leftarrow> scaleReplicaSet lib cl currentRS replicas d False w;
                 Some ((scaled, err), w) }
          else do { r \<leftarrow> NewRSNewReplicas lib d allRSs currentRS;
            case r of
              Inl err \<Rightarrow> Some ((False, Some err), w)
            | Inr newReplicasCount \<Rightarrow>
                do { ((scaled, _, err), w) \<leftarrow> scaleReplicaSet lib cl currentRS newReplicasCount d False w;
                     Some ((scaled, err), w) } } }"

fun scale_down_loop ::
    "'sel deploy_lib \<Rightarrow> ('w, 'sel) nfd_client \<Rightarrow> nfd \<Rightarrow> int \<Rightarrow> int \<Rightarrow> nfrs list \<Rightarrow> 'w \<Rightarrow>
      ((int \<times> go_error option) \<times> 'w) option" where
  "scale_down_loop lib cl d totalScaleDownCount totalScaledDown [] w = Some ((totalScaledDown, None), w)"
| "scale_down_loop lib cl d totalScaleDownCount totalScaledDown (targetRS # rss) w =
     (if totalScaledDown \<ge> totalScaleDownCount then Some ((totalScaledDown, None), w)
      else do { n \<leftarrow> rss_Replicas (rs_Spec targetRS);
        if n = 0 then scale_down_loop lib cl d totalScaleDownCount totalScaledDown rss w
        else (let scaleDownCount = min n (i32 (totalScaleDownCount - totalScaledDown));
                  newReplicasCount = i32 (n - scaleDownCount)
              in if newReplicasCount > n
                 then Some ((0, Some (Errorf ''invalid request to scale down'' None)), w)
                 else do { ((_, _, err), w) \<leftarrow> scaleReplicaSet lib cl targetRS newReplicasCount d False w;
                   case err of
                     Some e \<Rightarrow> Some ((totalScaledDown, Some e), w)
                   | None \<Rightarrow> scale_down_loop lib cl d totalScaleDownCount
                               (i32 (totalScaledDown + scaleDownCount)) rss w }) })"

definition scaleDownOldReplicaSetsForRollingUpdate ::
    "'sel deploy_lib \<Rightarrow> ('w, 'sel) nfd_client \<Rightarrow> nfrs list \<Rightarrow> nfrs list \<Rightarrow> nfd \<Rightarrow> 'w \<Rightarrow>
      ((int \<times> go_error option) \<times> 'w) option" where
  "scaleDownOldReplicaSetsForRollingUpdate lib cl allRSs oldRSs d w =
     do { maxUnavailable \<leftarrow> MaxUnavailable lib d;
          replicas \<leftarrow> nds_Replicas (nd_Spec d);
          let minAvailable = i32 (replicas - maxUnavailable);
          let availableReplicaCount = GetAvailableReplicaCountForReplicaSets allRSs;
          if availableReplicaCount \<le> minAvailable then Some ((0, None), w)
          else scale_down_loop lib cl d (i32 (availableReplicaCount - minAvailable)) 0
                 (go_sort ByCreationTimestamp_Less oldRSs) w }"

definition reconcileOldReplicaSets ::
    "'sel deploy_lib \<Rightarrow> ('w, 'sel) nfd_client \<Rightarrow> nfrs list \<Rightarrow> nfrs list \<Rightarrow> nfrs \<Rightarrow> nfd \<Rightarrow> 'w \<Rightarrow>
      ((bool \<times> go_error option) \<times> 'w) option" where
  "reconcileOldReplicaSets lib cl allRSs oldRSs currentRS d w =
     (if GetReplicaCountForReplicaSets oldRSs = 0 then Some ((False, None), w)
      else do { let allPodsCount = GetReplicaCountForReplicaSets allRSs;
        maxUnavailable \<leftarrow> MaxUnavailable lib d;
        replicas \<leftarrow> nds_Replicas (nd_Spec d);
        n \<leftarrow> rss_Replicas (rs_Spec currentRS);
        let minAvailable = i32 (replicas - maxUnavailable);
        let newRSUnavailablePodCount = i32 (n - rst_AvailableReplicas (rs_Status currentRS));
        let maxScaledDown = i32 (i32 (allPodsCount - minAvailable) - newRSUnavailablePodCount);
        if maxScaledDown \<le> 0 then Some ((False, None), w)
        else do { ((oldRSs, cleanupCount, err), w) \<leftarrow> cleanupUnhealthyReplicas lib cl oldRSs d maxScaledDown w;
          if err \<noteq> None then Some ((False, None), w)
          else do { ((scaledDownCount, err), w) \<leftarrow>
                scaleDownOldReplicaSetsForRollingUpdate lib cl (oldRSs @ [currentRS]) oldRSs d w;
            if err \<noteq> None then Some ((False, None), w)
            else Some ((i32 (cleanupCount + scaledDownCount) > 0, None), w) } } })"

definition applyRollingUpdate ::
    "'sel deploy_lib \<Rightarrow> ('w, 'sel) nfd_client \<Rightarrow> nfd \<Rightarrow> nfrs list \<Rightarrow> nfrs list \<Rightarrow> nfrs \<Rightarrow> 'w \<Rightarrow>
      (go_error option \<times> 'w) option" where
  "applyRollingUpdate lib cl d allRSs oldRSs currentRS w =
     do { ((scaledUp, err), w) \<leftarrow> reconcileNewReplicaSet lib cl allRSs currentRS d w;
          if err \<noteq> None \<or> scaledUp then Some (err, w)
          else do { ((scaledDown, err), w) \<leftarrow> reconcileOldReplicaSets lib cl allRSs oldRSs currentRS d w;
            if err \<noteq> None \<or> scaledDown then Some (err, w)
            else do { complete \<leftarrow> NFDeploymentComplete d;
              if complete then cleanupOldReplicaSets cl oldRSs w else Some (None, w) } } }"

section \<open>The recreate strategy\<close>

fun scaleDownOldReplicaSetsForRecreate ::
    "'sel deploy_lib \<Rightarrow> ('w, 'sel) nfd_client \<Rightarrow> nfrs list \<Rightarrow> nfd \<Rightarrow> bool \<Rightarrow> 'w \<Rightarrow>
      ((bool \<times> go_error option) \<times> 'w) option" where
  "scaleDownOldReplicaSetsForRecreate lib cl [] d scaled w = Some ((scaled, None), w)"
| "scaleDownOldReplicaSetsForRecreate lib cl (rs # rss) d scaled w =
     do { n \<leftarrow> rss_Replicas (rs_Spec rs);
          if n = 0 then scaleDownOldReplicaSetsForRecreate lib cl rss d scaled w
          else do { ((scaledRS, _, err), w) \<leftarrow> scaleReplicaSet lib cl rs 0 d False w;
            case err of
              Some e \<Rightarrow> Some ((False, Some e), w)
            | None \<Rightarrow> scaleDownOldReplicaSetsForRecreate lib cl rss d (scaled \<or> scaledRS) w } }"

definition oldPodsRunning :: "nfrs list \<Rightarrow> bool" where
  "oldPodsRunning oldRSs \<longleftrightarrow> GetActualReplicaCountForReplicaSets oldRSs > 0"

definition scaleUpNewReplicaSetForRecreate ::
    "'sel deploy_lib \<Rightarrow> ('w, 'sel) nfd_client \<Rightarrow> nfrs \<Rightarrow> nfd \<Rightarrow> 'w \<Rightarrow> ((bool \<times> go_error option) \<times> 'w) option" where
  "scaleUpNewReplicaSetForRecreate lib cl currentRS d w =
     do { replicas \<leftarrow> nds_Replicas (nd_Spec d);
          ((scaled, _, err), w) \<leftarrow> scaleReplicaSet lib cl currentRS replicas d False w;
          Some ((scaled, err), w) }"

definition applyRecreate ::
    "'sel deploy_lib \<Rightarrow> ('w, 'sel) nfd_client \<Rightarrow> nfd \<Rightarrow> nfrs list \<Rightarrow> nfrs \<Rightarrow> 'w \<Rightarrow>
      (go_error option \<times> 'w) option" where
  "applyRecreate lib cl d oldRSs currentRS w =
     do { ((scaledDown, err), w) \<leftarrow> scaleDownOldReplicaSetsForRecreate lib cl oldRSs d False w;
          if err \<noteq> None \<or> scaledDown then Some (err, w)
          else if oldPodsRunning oldRSs then Some (err, w)
          else do { ((scaledUp, err), w) \<leftarrow> scaleUpNewReplicaSetForRecreate lib cl currentRS d w;
            if err \<noteq> None \<or> scaledUp then Some (err, w)
            else do { complete \<leftarrow> NFDeploymentComplete d;
              if complete then cleanupOldReplicaSets cl oldRSs w else Some (None, w) } } }"

section \<open>Status\<close>

definition calculateStatus ::
    "'sel deploy_lib \<Rightarrow> time \<Rightarrow> nfrs list \<Rightarrow> nfrs option \<Rightarrow> nfd \<Rightarrow> NetworkFunctionDeploymentStatus option" where
  "calculateStatus lib now allRSs newRS d =
     (let updatedReplicas = (case newRS of None \<Rightarrow> 0 | Some rs \<Rightarrow> GetActualReplicaCountForReplicaSets [rs]);
          availableReplicas = GetAvailableReplicaCountForReplicaSets allRSs;
          totalReplicas = GetReplicaCountForReplicaSets allRSs;
          unavailable = i32 (totalReplicas - availableReplicas);
          unavailableReplicas = (if unavailable < 0 then 0 else unavailable);
          status = \<lparr>ndt_ObservedGeneration = om_Generation d,
                    ndt_Replicas = GetActualReplicaCountForReplicaSets allRSs,
                    ndt_UpdatedReplicas = updatedReplicas,
                    ndt_ReadyReplicas = GetReadyReplicaCountForReplicaSets allRSs,
                    ndt_AvailableReplicas = availableReplicas,
                    ndt_UnavailableReplicas = unavailableReplicas,
                    ndt_CollisionCount = None,
                    ndt_Conditions = ndt_Conditions (nd_Status d)\<rparr>
      in do { replicas \<leftarrow> nds_Replicas (nd_Spec d);
              maxUnavailable \<leftarrow> MaxUnavailable lib d;
              Some (SetNfDeploymentCondition status
                (if availableReplicas \<ge> i32 (replicas - maxUnavailable)
                 then NewNfDeploymentCondition now NFDeploymentAvailable ConditionTrue
                        ''MinimumReplicasAvailable'' ''Network Function has minimum availability.''
                 else NewNfDeploymentCondition now NFDeploymentAvailable ConditionFalse
                        ''MinimumReplicasUnavailable'' ''Network Function does not have minimum availability.'')) })"

definition updateNFDeploymentStatus ::
    "'sel deploy_lib \<Rightarrow> ('w, 'sel) nfd_client \<Rightarrow> time \<Rightarrow> nfrs list \<Rightarrow> nfrs option \<Rightarrow> nfd \<Rightarrow> 'w \<Rightarrow>
      (go_error option \<times> 'w) option" where
  "updateNFDeploymentStatus lib cl now allRSs newRS d w =
     do { newStatus \<leftarrow> calculateStatus lib now allRSs newRS d;
          Some (case api_StatusPatchDeployment cl w d (d\<lparr>nd_Status := newStatus\<rparr>) of
                  (Inl err, w) \<Rightarrow> (Some err, w) | (Inr _, w) \<Rightarrow> (None, w)) }"

section \<open>Reconcile\<close>

text \<open>The pointer to the current replica set in the sorted slice sees what was written through it.\<close>

fun alias_update :: "nfrs option \<Rightarrow> nfrs option \<Rightarrow> nfrs list \<Rightarrow> nfrs list" where
  "alias_update (Some cur) (Some new) (rs # rss) =
     (if rs = cur then new # rss else rs # alias_update (Some cur) (Some new) rss)"
| "alias_update _ _ rss = rss"

definition reconcile_strategy ::
    "'sel deploy_lib \<Rightarrow> ('w, 'sel) nfd_client \<Rightarrow> time \<Rightarrow> nfd \<Rightarrow> nfrs list \<Rightarrow> nfrs list \<Rightarrow> nfrs option \<Rightarrow> 'w \<Rightarrow>
      ((go_error + ctrl_result) \<times> 'w) option" where
  "reconcile_strategy lib cl now d allRSs oldRSs currentRS w =
     do { needsScaling \<leftarrow> NeedsScaling d currentRS oldRSs;
          if \<not> needsScaling then
            do { (_, w) \<leftarrow> updateNFDeploymentStatus lib cl now allRSs currentRS d w; Some (Inr Done, w) }
          else do { strategy \<leftarrow> GetDeploymentStrategyType d;
            (err, w) \<leftarrow>
              (if strategy = StrategyRollingUpdate
               then do { cur \<leftarrow> currentRS; applyRollingUpdate lib cl d allRSs oldRSs cur w }
               else if strategy = StrategyRecreate
               then do { cur \<leftarrow> currentRS; applyRecreate lib cl d oldRSs cur w }
               else Some (Some (Errorf ''unknown deployment strategy type'' None), w));
            (statusErr, w) \<leftarrow> updateNFDeploymentStatus lib cl now allRSs currentRS d w;
            Some (case err of
                    Some e \<Rightarrow> (Inl e, w)
                  | None \<Rightarrow> (case statusErr of Some e \<Rightarrow> (Inl e, w) | None \<Rightarrow> (Inr Done, w))) } }"

definition Reconcile ::
    "'sel deploy_lib \<Rightarrow> ('w, 'sel) nfd_client \<Rightarrow> time \<Rightarrow> nsname \<Rightarrow> 'w \<Rightarrow>
      ((go_error + ctrl_result) \<times> 'w) option" where
  "Reconcile lib cl now req w =
     (case api_GetDeployment cl w req of
        Inl err \<Rightarrow> Some (if IsNotFound err then (Inr Done, w) else (Inl err, w))
      | Inr d \<Rightarrow>
          if \<not> time_ptr_IsZero (om_DeletionTimestamp d) then
            (if ContainsElement (om_Finalizers d) NFDeploymentFinalizer
             then Some (case api_UpdateDeployment cl w
                              (d\<lparr>om_Finalizers := RemoveElement (om_Finalizers d) NFDeploymentFinalizer\<rparr>) of
                          (Inl err, w) \<Rightarrow> (Inl err, w) | (Inr _, w) \<Rightarrow> (Inr Done, w))
             else Some (Inr Done, w))
          else
            (case (if ContainsElement (om_Finalizers d) NFDeploymentFinalizer then (Inr d, w)
                   else api_UpdateDeployment cl w (d\<lparr>om_Finalizers := om_Finalizers d @ [NFDeploymentFinalizer]\<rparr>)) of
               (Inl err, w) \<Rightarrow> Some (Inl err, w)
             | (Inr d, w) \<Rightarrow>
                 (case listReplicaSets lib cl d w of
                    Inl err \<Rightarrow> Some (Inl err, w)
                  | Inr listed \<Rightarrow>
                      (let (allRSs, currentRS, oldRSs) = sortAndSplitReplicaSets lib d listed
                       in do { ((r, d, currentRS'), w) \<leftarrow> ensureUpdatedReplicaSet lib cl d currentRS allRSs w;
                            let allRSs' = alias_update currentRS currentRS' allRSs;
                            case r of
                              Inl err \<Rightarrow> Some (Inl err, w)
                            | Inr updated \<Rightarrow>
                                if updated then
                                  do { (_, w) \<leftarrow> updateNFDeploymentStatus lib cl now allRSs' currentRS' d w;
                                       Some (Inr (RequeueAfter (5 * Second)), w) }
                                else reconcile_strategy lib cl now d allRSs' oldRSs currentRS' w }))))"

section \<open>Facts about the operations\<close>

lemma scaleReplicaSet_result:
  "scaleReplicaSet lib cl rs newScale d force w = Some ((scaled, rs', err), w') \<Longrightarrow> \<not> scaled \<and> rs' = rs"
  by (auto simp: scaleReplicaSet_def Let_def split_beta split: Option.bind_splits if_splits sum.splits prod.splits)

text \<open>An API server that accepts every update, with the updates it received as the world.\<close>

definition records_updates :: "(nfrs list, 'sel) nfd_client \<Rightarrow> bool" where
  "records_updates cl \<longleftrightarrow> (\<forall>w rs. api_UpdateReplicaSet cl w rs = (Inr rs, w @ [rs]))"

definition resized :: "nfrs \<Rightarrow> int \<Rightarrow> nfrs \<Rightarrow> bool" where
  "resized rs n u \<longleftrightarrow> om_Name u = om_Name rs \<and> rss_Replicas (rs_Spec u) = Some n \<and> rs_Status u = rs_Status rs"

lemma SetReplicasAnnotations_keeps:
  "snd (SetReplicasAnnotations rs a b) = rs\<lparr>om_Annotations := om_Annotations (snd (SetReplicasAnnotations rs a b))\<rparr>"
  by (simp add: SetReplicasAnnotations_eq Let_def)

lemma scaleReplicaSet_records:
  assumes "records_updates cl" "rss_Replicas (rs_Spec rs) = Some n" "n \<noteq> m"
    "nds_Replicas (nd_Spec d) = Some r" "MaxSurge lib d = Some s"
  shows "\<exists>u. scaleReplicaSet lib cl rs m d force w = Some ((False, rs, None), w @ [u]) \<and> resized rs m u"
proof -
  let ?u = "snd (SetReplicasAnnotations (rs\<lparr>rs_Spec := (rs_Spec rs)\<lparr>rss_Replicas := Some m\<rparr>\<rparr>) r (i32 (r + s)))"
  have "scaleReplicaSet lib cl rs m d force w = Some ((False, rs, None), w @ [?u])"
    using assms by (simp add: scaleReplicaSet_def records_updates_def Let_def split_beta)
  moreover have "resized rs m ?u"
    by (subst SetReplicasAnnotations_keeps) (simp add: resized_def)
  ultimately show ?thesis by blast
qed

text \<open>
  The scale-down loop on an accepting server: the updates resize a subsequence of the replica sets,
  each to a smaller non-negative size, and take away the requested total or everything there is.
\<close>

definition shrinks :: "(nfrs \<times> nfrs) list \<Rightarrow> bool" where
  "shrinks ps \<longleftrightarrow> (\<forall>(rs, u) \<in> set ps. \<exists>m. 0 \<le> m \<and> m < spec_replicas rs \<and> resized rs m u)"

definition removed :: "(nfrs \<times> nfrs) list \<Rightarrow> int" where
  "removed ps = (\<Sum>(rs, u)\<leftarrow>ps. spec_replicas rs - spec_replicas u)"

lemma removed_Cons [simp]: "removed ((rs, u) # ps) = spec_replicas rs - spec_replicas u + removed ps"
  "removed [] = 0"
  by (simp_all add: removed_def)

lemma shrinks_Cons [simp]:
  "shrinks ((rs, u) # ps) \<longleftrightarrow> (\<exists>m. 0 \<le> m \<and> m < spec_replicas rs \<and> resized rs m u) \<and> shrinks ps"
  "shrinks []"
  by (auto simp: shrinks_def)

lemma spec_replicas_resized [simp]: "resized rs m u \<Longrightarrow> spec_replicas u = m"
  by (simp add: resized_def spec_replicas_def)

definition sized :: "nfrs \<Rightarrow> bool" where
  "sized rs \<longleftrightarrow> (\<exists>n. rss_Replicas (rs_Spec rs) = Some n \<and> 0 \<le> n \<and> n < 2 ^ 31)"

lemma sizedE:
  assumes "sized rs"
  obtains n where "rss_Replicas (rs_Spec rs) = Some n" "spec_replicas rs = n" "0 \<le> n" "n < 2 ^ 31"
  using assms by (auto simp: sized_def spec_replicas_def)

lemma sum_spec_nonneg: "list_all sized rss \<Longrightarrow> 0 \<le> (\<Sum>rs\<leftarrow>rss. spec_replicas rs)"
  by (induction rss) (auto elim: sizedE)

lemma scale_down_loop_records:
  assumes "records_updates cl" "nds_Replicas (nd_Spec d) = Some r" "MaxSurge lib d = Some s"
  shows "list_all sized rss \<Longrightarrow> 0 \<le> acc \<Longrightarrow> acc \<le> T \<Longrightarrow> T < 2 ^ 31 \<Longrightarrow>
    \<exists>ps. scale_down_loop lib cl d T acc rss w =
        Some ((acc + min (T - acc) (\<Sum>rs\<leftarrow>rss. spec_replicas rs), None), w @ map snd ps) \<and>
      subseq (map fst ps) rss \<and> shrinks ps \<and> removed ps = min (T - acc) (\<Sum>rs\<leftarrow>rss. spec_replicas rs)"
proof (induction rss arbitrary: acc w)
  case Nil
  then show ?case by (intro exI [of _ "[]"]) simp
next
  case (Cons rs rss)
  from Cons.prems(1) obtain n where n: "rss_Replicas (rs_Spec rs) = Some n" "spec_replicas rs = n"
    "0 \<le> n" "n < 2 ^ 31" by (auto elim: sizedE)
  have rest: "list_all sized rss" "0 \<le> (\<Sum>rs\<leftarrow>rss. spec_replicas rs)"
    using Cons.prems(1) sum_spec_nonneg by auto
  show ?case
  proof (cases "acc = T \<or> n = 0")
    case True
    then show ?thesis
    proof (cases "acc = T")
      case True
      then show ?thesis using n rest by (intro exI [of _ "[]"]) simp
    next
      case False
      with True n have n0: "n = 0" and loop: "scale_down_loop lib cl d T acc (rs # rss) w = scale_down_loop lib cl d T acc rss w"
        using Cons.prems by auto
      obtain ps where "scale_down_loop lib cl d T acc rss w =
          Some ((acc + min (T - acc) (\<Sum>rs\<leftarrow>rss. spec_replicas rs), None), w @ map snd ps)"
        "subseq (map fst ps) rss" "shrinks ps" "removed ps = min (T - acc) (\<Sum>rs\<leftarrow>rss. spec_replicas rs)"
        using Cons.IH [OF rest(1) Cons.prems(2-4)] by blast
      then show ?thesis unfolding loop using n n0 by (intro exI [of _ ps]) (simp add: list_emb_Cons)
    qed
  next
    case False
    define k where "k = min n (T - acc)"
    have k: "0 < k" "k \<le> n" "k \<le> T - acc" using False n Cons.prems by (auto simp: k_def)
    have "i32 (T - acc) = T - acc" using Cons.prems by (intro i32_id in_i32I) auto
    then have w32: "min n (i32 (T - acc)) = k" "i32 (n - k) = n - k" "i32 (acc + k) = acc + k"
      using k n Cons.prems by (auto simp: k_def [symmetric] intro!: i32_id in_i32I)
    obtain u where u: "scaleReplicaSet lib cl rs (n - k) d False w = Some ((False, rs, None), w @ [u])"
        "resized rs (n - k) u"
      using scaleReplicaSet_records [OF assms(1) n(1) _ assms(2,3), of "n - k"] k by auto
    have loop: "scale_down_loop lib cl d T acc (rs # rss) w = scale_down_loop lib cl d T (acc + k) rss (w @ [u])"
      using False n k(1) w32 u(1) Cons.prems by (simp add: Let_def)
    have "0 \<le> acc + k" "acc + k \<le> T" using k Cons.prems by auto
    then obtain ps where ps: "scale_down_loop lib cl d T (acc + k) rss (w @ [u]) =
          Some ((acc + k + min (T - (acc + k)) (\<Sum>rs\<leftarrow>rss. spec_replicas rs), None), (w @ [u]) @ map snd ps)"
        "subseq (map fst ps) rss" "shrinks ps"
        "removed ps = min (T - (acc + k)) (\<Sum>rs\<leftarrow>rss. spec_replicas rs)"
      using Cons.IH [OF rest(1) _ _ Cons.prems(4)] by blast
    have sum: "k + min (T - (acc + k)) (\<Sum>rs\<leftarrow>rss. spec_replicas rs) =
        min (T - acc) (\<Sum>rs\<leftarrow>rs # rss. spec_replicas rs)"
      using n(2) rest(2) by (simp add: k_def min_def)
    show ?thesis
    proof (intro exI conjI)
      show "scale_down_loop lib cl d T acc (rs # rss) w =
          Some ((acc + min (T - acc) (\<Sum>rs\<leftarrow>rs # rss. spec_replicas rs), None), w @ map snd ((rs, u) # ps))"
        unfolding loop ps(1) sum [symmetric] by simp
      show "subseq (map fst ((rs, u) # ps)) (rs # rss)" using ps(2) by simp
      show "shrinks ((rs, u) # ps)" using ps(3) u(2) k n by (auto intro!: exI [of _ "n - k"])
      show "removed ((rs, u) # ps) = min (T - acc) (\<Sum>rs\<leftarrow>rs # rss. spec_replicas rs)"
        using ps(4) u(2) n(2) sum by simp
    qed
  qed
qed

lemma ensure_always_updated:
  "ensureUpdatedReplicaSet lib cl d cur allRSs w = Some ((Inr updated, d', cur'), w') \<Longrightarrow> updated"
  by (auto simp: ensureUpdatedReplicaSet_def Let_def
      split: option.splits Option.bind_splits sum.splits prod.splits if_splits)

lemma recreate_loop_records:
  assumes "records_updates cl" "nds_Replicas (nd_Spec d) = Some r" "MaxSurge lib d = Some s"
  shows "list_all sized rss \<Longrightarrow>
    \<exists>ups. scaleDownOldReplicaSetsForRecreate lib cl rss d scaled w = Some ((scaled, None), w @ ups) \<and>
      list_all2 (\<lambda>rs u. resized rs 0 u) (filter (\<lambda>rs. spec_replicas rs \<noteq> 0) rss) ups"
proof (induction rss arbitrary: w)
  case Nil
  then show ?case by simp
next
  case (Cons rs rss)
  from Cons.prems obtain n where n: "rss_Replicas (rs_Spec rs) = Some n" "spec_replicas rs = n"
    by (auto elim: sizedE)
  show ?case
  proof (cases "n = 0")
    case True
    with Cons n show ?thesis by simp
  next
    case False
    then obtain u where u: "scaleReplicaSet lib cl rs 0 d False w = Some ((False, rs, None), w @ [u])"
        "resized rs 0 u"
      using scaleReplicaSet_records [OF assms(1) n(1) _ assms(2,3)] by blast
    obtain ups where ups: "scaleDownOldReplicaSetsForRecreate lib cl rss d scaled (w @ [u]) =
          Some ((scaled, None), (w @ [u]) @ ups)"
        "list_all2 (\<lambda>rs u. resized rs 0 u) (filter (\<lambda>rs. spec_replicas rs \<noteq> 0) rss) ups"
      using Cons by fastforce
    have "scaleDownOldReplicaSetsForRecreate lib cl (rs # rss) d scaled w = Some ((scaled, None), w @ u # ups)"
      using n False u(1) ups(1) by simp
    with ups(2) u(2) n False show ?thesis by (intro exI [of _ "u # ups"]) simp
  qed
qed

definition deletable :: "nfrs \<Rightarrow> bool" where
  "deletable rs \<longleftrightarrow> rst_Replicas (rs_Status rs) = 0 \<and> spec_replicas rs = 0 \<and>
     om_Generation rs \<le> rst_ObservedGeneration (rs_Status rs) \<and> om_DeletionTimestamp rs = None"

lemma cleanable_sized: "sized rs \<Longrightarrow> cleanable rs = Some (deletable rs)"
  by (auto simp: cleanable_def deletable_def elim!: sizedE)

definition records_deletes :: "(nfrs list, 'sel) nfd_client \<Rightarrow> bool" where
  "records_deletes cl \<longleftrightarrow> (\<forall>w rs. api_DeleteReplicaSet cl w rs = (None, w @ [rs]))"

lemma cleanup_loop_records:
  assumes "records_deletes cl"
  shows "list_all sized rss \<Longrightarrow> cleanup_loop cl rss w = Some (None, w @ filter deletable rss)"
  using assms by (induction rss arbitrary: w) (auto simp: cleanable_sized records_deletes_def)

section \<open>Properties of the deployment controller\<close>

text \<open>An accepting server for the concrete instances.\<close>

definition ex_client :: "(nfrs list, unit) nfd_client" where
  "ex_client = \<lparr>api_GetDeployment = (\<lambda>_ _. Inl (ApiError NotFound)),
     api_UpdateDeployment = (\<lambda>w d. (Inr d, w)), api_StatusUpdateDeployment = (\<lambda>w d. (Inr d, w)),
     api_StatusPatchDeployment = (\<lambda>w _ d. (Inr d, w)), api_ListReplicaSets = (\<lambda>w _ _. Inr w),
     api_GetReplicaSet = (\<lambda>_ _. Inl (ApiError NotFound)), api_CreateReplicaSet = (\<lambda>w rs. (Inr rs, w @ [rs])),
     api_UpdateReplicaSet = (\<lambda>w rs. (Inr rs, w @ [rs])), api_DeleteReplicaSet = (\<lambda>w rs. (None, w @ [rs]))\<rparr>"

lemma ex_client_records [simp]: "records_updates ex_client" "records_deletes ex_client"
  by (simp_all add: ex_client_def records_updates_def records_deletes_def)

lemma ex_sized [simp]: "0 \<le> n \<Longrightarrow> n < 2 ^ 31 \<Longrightarrow> sized (ex_rs a n v)"
  by (simp add: sized_def)





text \<open>
  Once nothing of the old replica sets runs or is wanted, a recreate pass scales the new replica
  set to the desired count and sends no other update.
\<close>

theorem recreate_then_scales_up:
  assumes "records_updates cl" "nds_Replicas (nd_Spec d) = Some n" "MaxSurge lib d = Some s"
    and "list_all sized oldRSs" "\<forall>rs \<in> set oldRSs. spec_replicas rs = 0 \<and> rst_Replicas (rs_Status rs) = 0"
    and "rss_Replicas (rs_Spec currentRS) = Some m" "m \<noteq> n" "NFDeploymentComplete d = Some False"
  shows "\<exists>u. applyRecreate lib cl d oldRSs currentRS w = Some (None, w @ [u]) \<and> resized currentRS n u"
proof -
  have "(\<Sum>rs\<leftarrow>oldRSs. rst_Replicas (rs_Status rs)) = 0" using assms(5) by (induction oldRSs) auto
  then have quiet: "\<not> oldPodsRunning oldRSs" by (simp add: oldPodsRunning_def counts_sum)
  have "filter (\<lambda>rs. spec_replicas rs \<noteq> 0) oldRSs = []" using assms(5) by (simp add: filter_empty_conv)
  then have down: "scaleDownOldReplicaSetsForRecreate lib cl oldRSs d False w = Some ((False, None), w)"
    using recreate_loop_records [OF assms(1-4), of False w] by auto
  obtain u where "scaleReplicaSet lib cl currentRS n d False w = Some ((False, currentRS, None), w @ [u])"
      "resized currentRS n u"
    using scaleReplicaSet_records [OF assms(1,6,7,2,3)] by blast
  then show ?thesis
    using down quiet assms(2,8) by (auto simp: applyRecreate_def scaleUpNewReplicaSetForRecreate_def)
qed

theorem recreate_then_scales_up_witness:
  "\<exists>u. applyRecreate ex_lib ex_client (ex_nfd 4 StrategyRecreate (IntVal 1) (IntVal 0))
      [ex_rs ''a'' 0 0] (ex_rs ''b'' 0 0) [] = Some (None, [] @ [u]) \<and> resized (ex_rs ''b'' 0 0) 4 u"
proof -
  let ?d = "ex_nfd 4 StrategyRecreate (IntVal 1) (IntVal 0)"
  have "MaxSurge ex_lib ?d = Some 0" "NFDeploymentComplete ?d = Some False" by code_simp+
  then show ?thesis
    using recreate_then_scales_up [of ex_client ?d 4 ex_lib 0 "[ex_rs ''a'' 0 0]" "ex_rs ''b'' 0 0" 0 "[]"] by simp
qed

text \<open>
  Clean-up deletes exactly the old replica sets that are empty (specification and status), whose
  controller has seen their latest generation and that are not already being deleted.
\<close>

theorem cleanup_deletes_exactly_empty:
  assumes "records_deletes cl" "list_all sized oldRSs"
  shows "\<exists>gone. cleanupOldReplicaSets cl oldRSs w = Some (None, w @ gone) \<and>
    mset gone = filter_mset deletable (mset oldRSs)"
proof -
  let ?rss = "go_sort ByRevision_Less (FilterAliveReplicaSets oldRSs)"
  have "list_all sized ?rss" using assms(2) by (auto simp: list_all_iff FilterAliveReplicaSets_def)
  then have "cleanupOldReplicaSets cl oldRSs w = Some (None, w @ filter deletable ?rss)"
    unfolding cleanupOldReplicaSets_def by (rule cleanup_loop_records [OF assms(1)])
  moreover have "mset (filter deletable ?rss) = filter_mset deletable (mset oldRSs)"
    by (simp add: FilterAliveReplicaSets_def filter_filter_mset) (metis (mono_tags, lifting) deletable_def filter_mset_cong)
  ultimately show ?thesis by blast
qed

theorem cleanup_deletes_exactly_empty_witness:
  "\<exists>gone. cleanupOldReplicaSets ex_client [ex_rs ''a'' 0 0, ex_rs ''b'' 1 1] [] = Some (None, [] @ gone) \<and>
     mset gone = filter_mset deletable (mset [ex_rs ''a'' 0 0, ex_rs ''b'' 1 1])"
  by (rule cleanup_deletes_exactly_empty) simp_all

text \<open>
  C10: \<open>ensureUpdatedReplicaSet\<close> reports \<open>updated\<close> whenever it succeeds, so a reconcile of a live
  deployment never ends with the plain result of the scaling check and the rollout strategies
  (\<open>ctrl.Result{}\<close>): that part of the handler is not reached, whatever the cluster answers.
\<close>

theorem Reconcile_never_scales:
  "Reconcile lib (cl\<lparr>api_GetDeployment := \<lambda>_ _. Inr (d\<lparr>om_DeletionTimestamp := None\<rparr>)\<rparr>) now req w \<noteq> Some (Inr Done, w')"
proof
  assume "Reconcile lib (cl\<lparr>api_GetDeployment := \<lambda>_ _. Inr (d\<lparr>om_DeletionTimestamp := None\<rparr>)\<rparr>) now req w =
    Some (Inr Done, w')"
  then show False
    by (auto simp: Reconcile_def Let_def time_ptr_IsZero_def dest: ensure_always_updated
        split: if_splits sum.splits prod.splits Option.bind_splits)
qed

text \<open>
  The calculated status reports the sums over the replica sets (as int32 values), never a
  negative number of unavailable replicas, and an \<open>Available\<close> condition that is true exactly when
  the available replicas reach the desired count less \<open>MaxUnavailable\<close>; the collision count of the
  old status is not carried over.
\<close>

theorem calculateStatus_correct:
  assumes "nds_Replicas (nd_Spec d) = Some n" "MaxUnavailable lib d = Some mu"
  shows "\<exists>st c. calculateStatus lib now allRSs newRS d = Some st \<and>
    ndt_Replicas st = i32 (\<Sum>rs\<leftarrow>allRSs. rst_Replicas (rs_Status rs)) \<and>
    ndt_AvailableReplicas st = i32 (\<Sum>rs\<leftarrow>allRSs. rst_AvailableReplicas (rs_Status rs)) \<and>
    ndt_UnavailableReplicas st \<ge> 0 \<and> ndt_ObservedGeneration st = om_Generation d \<and>
    GetNfDeploymentCondition st NFDeploymentAvailable = Some c \<and>
    (c_Status c = ConditionTrue \<longleftrightarrow> i32 (n - mu) \<le> ndt_AvailableReplicas st) \<and>
    ndt_CollisionCount st = None"
proof -
  let ?avail = "GetAvailableReplicaCountForReplicaSets allRSs"
  let ?un = "i32 (GetReplicaCountForReplicaSets allRSs - ?avail)"
  let ?c = "if ?avail \<ge> i32 (n - mu)
      then NewNfDeploymentCondition now NFDeploymentAvailable ConditionTrue
             ''MinimumReplicasAvailable'' ''Network Function has minimum availability.''
      else NewNfDeploymentCondition now NFDeploymentAvailable ConditionFalse
             ''MinimumReplicasUnavailable'' ''Network Function does not have minimum availability.''"
  let ?st = "\<lparr>ndt_ObservedGeneration = om_Generation d,
      ndt_Replicas = GetActualReplicaCountForReplicaSets allRSs,
      ndt_UpdatedReplicas = (case newRS of None \<Rightarrow> 0 | Some rs \<Rightarrow> GetActualReplicaCountForReplicaSets [rs]),
      ndt_ReadyReplicas = GetReadyReplicaCountForReplicaSets allRSs, ndt_AvailableReplicas = ?avail,
      ndt_UnavailableReplicas = (if ?un < 0 then 0 else ?un), ndt_CollisionCount = None,
      ndt_Conditions = ndt_Conditions (nd_Status d)\<rparr>"
  have eq: "calculateStatus lib now allRSs newRS d = Some (SetNfDeploymentCondition ?st ?c)"
    using assms by (simp add: calculateStatus_def Let_def)
  have type: "c_Type ?c = NFDeploymentAvailable" by (simp add: NewNfDeploymentCondition_def)
  obtain c where c: "find (\<lambda>x. c_Type x = NFDeploymentAvailable) (upd_nfd_condition (ndt_Conditions ?st) ?c) = Some c"
      "same_outcome c ?c"
    using nfd_conditions.upd_lookup [of ?c "ndt_Conditions ?st"] unfolding type by blast
  have "c_Status c = ConditionTrue \<longleftrightarrow> i32 (n - mu) \<le> ?avail"
    using c(2) by (simp add: same_outcome_def NewNfDeploymentCondition_def)
  with c(1) eq show ?thesis
    by (intro exI [of _ "SetNfDeploymentCondition ?st ?c"] exI [of _ c])
       (simp add: SetNfDeploymentCondition_upd GetNfDeploymentCondition_def counts_sum)
qed

theorem calculateStatus_correct_witness:
  "\<exists>st c. calculateStatus ex_lib 9 [ex_rs ''a'' 3 3] None (ex_nfd 3 StrategyRecreate (IntVal 1) (IntVal 0)) = Some st \<and>
     GetNfDeploymentCondition st NFDeploymentAvailable = Some c"
proof -
  have "MaxUnavailable ex_lib (ex_nfd 3 StrategyRecreate (IntVal 1) (IntVal 0)) = Some 0" by code_simp
  from calculateStatus_correct [OF ex_simps(1) this, of 9 "[ex_rs ''a'' 3 3]" None]
  show ?thesis by blast
qed

text \<open>
  \<open>scaleReplicaSet\<close> never reports that it scaled and returns the replica set as it was. So the
  second phase of a rolling update works on stale sizes: here an old replica set of five, scaled to
  one by the clean-up of its unhealthy replicas, is scaled back to four in the same pass.
\<close>

theorem rolling_update_uses_stale_sizes:
  "\<exists>u1 u2. reconcileOldReplicaSets ex_lib ex_client [ex_rs ''old'' 5 1, ex_rs ''new'' 4 4] [ex_rs ''old'' 5 1]
      (ex_rs ''new'' 4 4) (ex_nfd 5 StrategyRollingUpdate (IntVal 1) (IntVal 0)) [] =
    Some ((True, None), [u1, u2]) \<and>
    om_Name u1 = ''old'' \<and> rss_Replicas (rs_Spec u1) = Some 1 \<and>
    om_Name u2 = ''old'' \<and> rss_Replicas (rs_Spec u2) = Some 4"
proof -
  have "(case reconcileOldReplicaSets ex_lib ex_client [ex_rs ''old'' 5 1, ex_rs ''new'' 4 4] [ex_rs ''old'' 5 1]
      (ex_rs ''new'' 4 4) (ex_nfd 5 StrategyRollingUpdate (IntVal 1) (IntVal 0)) [] of
        Some ((True, None), [u1, u2]) \<Rightarrow> om_Name u1 = ''old'' \<and> rss_Replicas (rs_Spec u1) = Some 1 \<and>
           om_Name u2 = ''old'' \<and> rss_Replicas (rs_Spec u2) = Some 4
      | _ \<Rightarrow> False)" by code_simp
  then show ?thesis by (auto split: option.splits prod.splits bool.splits list.splits)
qed

end
