(* ===== verification/Expectations.thy ===== *)
theory Expectations
  imports Api
begin

text \<open>
  The expectations of the replica set controller
  (\<open>networkfunctionreplicaset/util/expectations.go\<close>): how many creations and deletions a replica set
  still waits for, with the deletions tracked by key so that each counts once. The stores are
  client-go \<open>cache.Store\<close>s, given here by their operations; the entries are pointers that the code
  updates in place, which is a write under the same key. Each method holds its lock or works on
  atomic counters, so an execution is a sequence of method calls.
\<close>

section \<open>Stores\<close>

record ('s, 'v) store_ops =
  sto_GetByKey :: "'s \<Rightarrow> string \<Rightarrow> 'v option"
  sto_Add :: "'s \<Rightarrow> string \<Rightarrow> 'v \<Rightarrow> 's"
  sto_Delete :: "'s \<Rightarrow> string \<Rightarrow> 's"

text \<open>The documented behaviour of a store: the last write under a key is what a read returns.\<close>

definition store_ok :: "('s, 'v) store_ops \<Rightarrow> bool" where
  "store_ok so \<longleftrightarrow>
     (\<forall>s k v k'. sto_GetByKey so (sto_Add so s k v) k' = (if k' = k then Some v else sto_GetByKey so s k')) \<and>
     (\<forall>s k k'. sto_GetByKey so (sto_Delete so s k) k' = (if k' = k then None else sto_GetByKey so s k'))"

section \<open>Expectations of one controller\<close>

record ControlleeExpectations =
  ce_add :: int
  ce_del :: int
  ce_key :: string
  ce_timestamp :: time

definition ExpectationsTimeout :: duration where
  "ExpectationsTimeout = 5 * 60 * Second"

definition NFKey :: "NetworkFunction \<Rightarrow> string" where
  "NFKey nf = om_Namespace nf @ ''/'' @ om_Name nf"

definition ce_Add :: "ControlleeExpectations \<Rightarrow> int \<Rightarrow> int \<Rightarrow> ControlleeExpectations" where
  "ce_Add e add del = e\<lparr>ce_add := i64 (ce_add e + add), ce_del := i64 (ce_del e + del)\<rparr>"

definition Fulfilled :: "ControlleeExpectations \<Rightarrow> bool" where
  "Fulfilled e \<longleftrightarrow> ce_add e \<le> 0 \<and> ce_del e \<le> 0"

definition ce_GetExpectations :: "ControlleeExpectations \<Rightarrow> int \<times> int" where
  "ce_GetExpectations e = (ce_add e, ce_del e)"

definition isExpired :: "ControlleeExpectations \<Rightarrow> time \<Rightarrow> bool" where
  "isExpired e now \<longleftrightarrow> time_Sub now (ce_timestamp e) > ExpectationsTimeout"

section \<open>ControllerExpectations\<close>

type_synonym 's exp_ops = "('s, ControlleeExpectations) store_ops"

definition GetExpectations :: "'s exp_ops \<Rightarrow> 's \<Rightarrow> string \<Rightarrow> ControlleeExpectations option" where
  "GetExpectations so s controllerKey = sto_GetByKey so s controllerKey"

definition ctl_DeleteExpectations :: "'s exp_ops \<Rightarrow> 's \<Rightarrow> string \<Rightarrow> 's" where
  "ctl_DeleteExpectations so s controllerKey =
     (case sto_GetByKey so s controllerKey of None \<Rightarrow> s | Some e \<Rightarrow> sto_Delete so s (ce_key e))"

definition SatisfiedExpectations :: "'s exp_ops \<Rightarrow> 's \<Rightarrow> string \<Rightarrow> time \<Rightarrow> bool" where
  "SatisfiedExpectations so s controllerKey now =
     (case GetExpectations so s controllerKey of
        Some e \<Rightarrow> if Fulfilled e then True else if isExpired e now then True else False
      | None \<Rightarrow> True)"

definition SetExpectations :: "'s exp_ops \<Rightarrow> 's \<Rightarrow> string \<Rightarrow> int \<Rightarrow> int \<Rightarrow> time \<Rightarrow> 's" where
  "SetExpectations so s controllerKey add del now =
     sto_Add so s controllerKey \<lparr>ce_add = i64 add, ce_del = i64 del, ce_key = controllerKey, ce_timestamp = now\<rparr>"

definition ExpectCreations :: "'s exp_ops \<Rightarrow> 's \<Rightarrow> string \<Rightarrow> int \<Rightarrow> time \<Rightarrow> 's" where
  "ExpectCreations so s controllerKey adds now = SetExpectations so s controllerKey adds 0 now"

definition ctl_ExpectDeletions :: "'s exp_ops \<Rightarrow> 's \<Rightarrow> string \<Rightarrow> int \<Rightarrow> time \<Rightarrow> 's" where
  "ctl_ExpectDeletions so s controllerKey dels now = SetExpectations so s controllerKey 0 dels now"

definition LowerExpectations :: "'s exp_ops \<Rightarrow> 's \<Rightarrow> string \<Rightarrow> int \<Rightarrow> int \<Rightarrow> 's" where
  "LowerExpectations so s controllerKey add del =
     (case GetExpectations so s controllerKey of
        None \<Rightarrow> s | Some e \<Rightarrow> sto_Add so s controllerKey (ce_Add e (- add) (- del)))"

definition RaiseExpectations :: "'s exp_ops \<Rightarrow> 's \<Rightarrow> string \<Rightarrow> int \<Rightarrow> int \<Rightarrow> 's" where
  "RaiseExpectations so s controllerKey add del =
     (case GetExpectations so s controllerKey of
        None \<Rightarrow> s | Some e \<Rightarrow> sto_Add so s controllerKey (ce_Add e add del))"

definition CreationObserved :: "'s exp_ops \<Rightarrow> 's \<Rightarrow> string \<Rightarrow> 's" where
  "CreationObserved so s controllerKey = LowerExpectations so s controllerKey 1 0"

definition ctl_DeletionObserved :: "'s exp_ops \<Rightarrow> 's \<Rightarrow> string \<Rightarrow> 's" where
  "ctl_DeletionObserved so s controllerKey = LowerExpectations so s controllerKey 0 1"

section \<open>UIDTrackingControllerExpectations\<close>

record ('s, 'u) exp_lib =
  xl_ctl :: "'s exp_ops"
  xl_uid :: "('u, string set) store_ops"

record ('s, 'u) UIDTrackingControllerExpectations =
  ut_ctl :: 's
  ut_uidStore :: 'u

type_synonym ('s, 'u) uid_exps = "('s, 'u) UIDTrackingControllerExpectations"

definition GetUIDs :: "('s, 'u) exp_lib \<Rightarrow> ('s, 'u) uid_exps \<Rightarrow> string \<Rightarrow> string set option" where
  "GetUIDs xl u controllerKey = sto_GetByKey (xl_uid xl) (ut_uidStore u) controllerKey"

definition ExpectDeletions ::
    "('s, 'u) exp_lib \<Rightarrow> ('s, 'u) uid_exps \<Rightarrow> string \<Rightarrow> string list \<Rightarrow> time \<Rightarrow> ('s, 'u) uid_exps" where
  "ExpectDeletions xl u rcKey deletedKeys now =
     (let expectedUIDs = set deletedKeys
      in \<lparr>ut_ctl = ctl_ExpectDeletions (xl_ctl xl) (ut_ctl u) rcKey (int (card expectedUIDs)) now,
          ut_uidStore = sto_Add (xl_uid xl) (ut_uidStore u) rcKey expectedUIDs\<rparr>)"

definition DeletionObserved ::
    "('s, 'u) exp_lib \<Rightarrow> ('s, 'u) uid_exps \<Rightarrow> string \<Rightarrow> string \<Rightarrow> ('s, 'u) uid_exps" where
  "DeletionObserved xl u rcKey deleteKey =
     (case GetUIDs xl u rcKey of
        None \<Rightarrow> u
      | Some uids \<Rightarrow>
          if deleteKey \<in> uids
          then \<lparr>ut_ctl = ctl_DeletionObserved (xl_ctl xl) (ut_ctl u) rcKey,
                ut_uidStore = sto_Add (xl_uid xl) (ut_uidStore u) rcKey (uids - {deleteKey})\<rparr>
          else u)"

definition DeleteExpectations ::
    "('s, 'u) exp_lib \<Rightarrow> ('s, 'u) uid_exps \<Rightarrow> string \<Rightarrow> ('s, 'u) uid_exps" where
  "DeleteExpectations xl u rcKey =
     \<lparr>ut_ctl = ctl_DeleteExpectations (xl_ctl xl) (ut_ctl u) rcKey,
      ut_uidStore = (case sto_GetByKey (xl_uid xl) (ut_uidStore u) rcKey of
                       None \<Rightarrow> ut_uidStore u | Some _ \<Rightarrow> sto_Delete (xl_uid xl) (ut_uidStore u) rcKey)\<rparr>"

section \<open>How expectations evolve\<close>

lemma store_get_add:
  "store_ok so \<Longrightarrow> sto_GetByKey so (sto_Add so s k v) k' = (if k' = k then Some v else sto_GetByKey so s k')"
  by (simp add: store_ok_def)

lemma store_get_delete:
  "store_ok so \<Longrightarrow> sto_GetByKey so (sto_Delete so s k) k' = (if k' = k then None else sto_GetByKey so s k')"
  by (simp add: store_ok_def)

lemmas exp_defs = GetExpectations_def SetExpectations_def LowerExpectations_def CreationObserved_def
  ctl_DeletionObserved_def ExpectCreations_def ctl_ExpectDeletions_def ce_Add_def store_get_add

lemma Lower_get:
  assumes "store_ok so" "GetExpectations so s k = Some e"
  shows "GetExpectations so (LowerExpectations so s k a d) k = Some (ce_Add e (- a) (- d))"
  using assms by (simp add: exp_defs)

lemma creations_observed:
  assumes "store_ok so"
  shows "GetExpectations so s k = Some e \<Longrightarrow> - (2 ^ 62) \<le> ce_add e - int n \<Longrightarrow> ce_add e < 2 ^ 62 \<Longrightarrow>
    - (2 ^ 62) \<le> ce_del e \<Longrightarrow> ce_del e < 2 ^ 62 \<Longrightarrow>
    GetExpectations so (((\<lambda>s. CreationObserved so s k) ^^ n) s) k = Some (e\<lparr>ce_add := ce_add e - int n\<rparr>)"
proof (induction n)
  case 0
  then show ?case by simp
next
  case (Suc n)
  let ?s = "((\<lambda>s. CreationObserved so s k) ^^ n) s"
  have "GetExpectations so ?s k = Some (e\<lparr>ce_add := ce_add e - int n\<rparr>)" using Suc by simp
  then have "GetExpectations so (CreationObserved so ?s k) k =
      Some (ce_Add (e\<lparr>ce_add := ce_add e - int n\<rparr>) (- 1) (- 0))"
    unfolding CreationObserved_def by (rule Lower_get [OF assms])
  then show ?case using Suc.prems by (simp add: ce_Add_def algebra_simps)
qed

text \<open>The state of a replica set waiting for deletions: the counter is the size of the key set.\<close>

definition waits_for ::
    "('s, 'u) exp_lib \<Rightarrow> ('s, 'u) uid_exps \<Rightarrow> string \<Rightarrow> string set \<Rightarrow> time \<Rightarrow> bool" where
  "waits_for xl u k keys t \<longleftrightarrow> finite keys \<and> int (card keys) < 2 ^ 63 \<and> GetUIDs xl u k = Some keys \<and>
     GetExpectations (xl_ctl xl) (ut_ctl u) k =
       Some \<lparr>ce_add = 0, ce_del = int (card keys), ce_key = k, ce_timestamp = t\<rparr>"

lemma ExpectDeletions_waits:
  assumes "store_ok (xl_ctl xl)" "store_ok (xl_uid xl)" "int (length keys) < 2 ^ 63"
  shows "waits_for xl (ExpectDeletions xl u k keys t) k (set keys) t"
proof -
  have "int (card (set keys)) < 2 ^ 63"
    using card_length [of keys] assms(3) by linarith
  then show ?thesis using assms
    by (simp add: waits_for_def ExpectDeletions_def GetUIDs_def exp_defs Let_def)
qed

lemma DeletionObserved_waits:
  assumes "store_ok (xl_ctl xl)" "store_ok (xl_uid xl)" "waits_for xl u k keys t"
  shows "waits_for xl (DeletionObserved xl u k key) k (keys - {key}) t"
proof (cases "key \<in> keys")
  case False
  then show ?thesis using assms(3) by (simp add: DeletionObserved_def waits_for_def)
next
  case True
  let ?e = "\<lparr>ce_add = 0, ce_del = int (card keys), ce_key = k, ce_timestamp = t\<rparr>"
  have fin: "finite keys" and lim: "int (card keys) < 2 ^ 63" and uids: "GetUIDs xl u k = Some keys"
    and e: "GetExpectations (xl_ctl xl) (ut_ctl u) k = Some ?e"
    using assms(3) by (auto simp: waits_for_def)
  have card: "int (card (keys - {key})) = int (card keys) - 1"
    using fin True card_gt_0_iff [of keys] by (auto simp: of_nat_diff Suc_leI)
  then have "i64 (int (card keys) + - 1) = int (card (keys - {key}))"
    using lim by (subst i64_id) (simp_all add: algebra_simps)
  then have "ce_Add ?e (- 0) (- 1) =
      \<lparr>ce_add = 0, ce_del = int (card (keys - {key})), ce_key = k, ce_timestamp = t\<rparr>"
    by (simp add: ce_Add_def)
  moreover have "GetExpectations (xl_ctl xl) (ctl_DeletionObserved (xl_ctl xl) (ut_ctl u) k) k =
      Some (ce_Add ?e (- 0) (- 1))"
    unfolding ctl_DeletionObserved_def by (rule Lower_get [OF assms(1) e])
  moreover have "int (card (keys - {key})) < 2 ^ 63" unfolding card using lim by linarith
  ultimately show ?thesis using True fin uids assms(2)
    by (simp add: waits_for_def DeletionObserved_def) (simp add: GetUIDs_def store_get_add)
qed

lemma deletions_observed:
  assumes "store_ok (xl_ctl xl)" "store_ok (xl_uid xl)"
  shows "waits_for xl u k keys t \<Longrightarrow>
    waits_for xl (foldl (\<lambda>u key. DeletionObserved xl u k key) u seen) k (keys - set seen) t"
proof (induction seen arbitrary: u keys)
  case Nil
  then show ?case by simp
next
  case (Cons key seen)
  have "waits_for xl (DeletionObserved xl u k key) k (keys - {key}) t"
    using assms Cons.prems by (rule DeletionObserved_waits)
  moreover have "keys - {key} - set seen = keys - set (key # seen)" by auto
  ultimately show ?case using Cons.IH [of "DeletionObserved xl u k key" "keys - {key}"] by simp
qed

lemma waits_for_satisfied:
  assumes "waits_for xl u k keys t"
  shows "SatisfiedExpectations (xl_ctl xl) (ut_ctl u) k now \<longleftrightarrow> keys = {} \<or> time_Sub now t > ExpectationsTimeout"
  using assms by (auto simp: SatisfiedExpectations_def waits_for_def Fulfilled_def isExpired_def)

section \<open>Properties of the expectations\<close>

text \<open>A store kept in an association list, for the concrete instances.\<close>

definition ex_store :: "((string \<times> 'v) list, 'v) store_ops" where
  "ex_store = \<lparr>sto_GetByKey = map_of, sto_Add = (\<lambda>s k v. (k, v) # s),
     sto_Delete = (\<lambda>s k. filter (\<lambda>(k', _). k' \<noteq> k) s)\<rparr>"

lemma ex_store_ok [simp]: "store_ok ex_store"
  by (simp add: store_ok_def ex_store_def map_of_filter_key)

text \<open>
  A controller that expects \<open>n\<close> creations syncs again exactly when \<open>n\<close> creations have been
  observed or the five minutes are over.
\<close>

theorem creations_satisfied_iff:
  assumes "store_ok so" "0 \<le> n" "n < 2 ^ 62" "int m < 2 ^ 61"
  shows "SatisfiedExpectations so
      (((\<lambda>s. CreationObserved so s k) ^^ m) (ExpectCreations so s k n t)) k now \<longleftrightarrow>
    int m \<ge> n \<or> time_Sub now t > ExpectationsTimeout"
proof -
  let ?e = "\<lparr>ce_add = n, ce_del = 0, ce_key = k, ce_timestamp = t\<rparr>"
  have "GetExpectations so (ExpectCreations so s k n t) k = Some ?e"
    using assms by (simp add: exp_defs)
  then have "GetExpectations so (((\<lambda>s. CreationObserved so s k) ^^ m) (ExpectCreations so s k n t)) k =
      Some (?e\<lparr>ce_add := ce_add ?e - int m\<rparr>)"
    by (rule creations_observed [OF assms(1)]) (use assms in auto)
  then show ?thesis by (auto simp: SatisfiedExpectations_def Fulfilled_def isExpired_def)
qed

theorem creations_satisfied_iff_witness:
  "\<not> SatisfiedExpectations ex_store (((\<lambda>s. CreationObserved ex_store s ''ns/a'') ^^ 2)
       (ExpectCreations ex_store [] ''ns/a'' 3 100)) ''ns/a'' 200"
  using creations_satisfied_iff [of ex_store 3 2 "''ns/a''" "[]" 100 200]
  by (simp add: time_Sub_def ExpectationsTimeout_def Second_def)

text \<open>
  C7: deletions are counted exactly once: after any sequence of observed keys, with repetitions and
  keys of other objects in it, the controller syncs again exactly when every expected key has been
  seen or the five minutes are over.
\<close>

theorem deletions_satisfied_iff:
  assumes "store_ok (xl_ctl xl)" "store_ok (xl_uid xl)" "int (length keys) < 2 ^ 63"
  shows "SatisfiedExpectations (xl_ctl xl)
      (ut_ctl (foldl (\<lambda>u key. DeletionObserved xl u k key) (ExpectDeletions xl u k keys t) seen)) k now \<longleftrightarrow>
    set keys \<subseteq> set seen \<or> time_Sub now t > ExpectationsTimeout"
  using waits_for_satisfied [OF deletions_observed [OF assms(1,2) ExpectDeletions_waits [OF assms]]]
  by (simp add: Diff_eq_empty_iff)

theorem deletions_satisfied_iff_witness:
  "\<not> SatisfiedExpectations ex_store
     (ut_ctl (foldl (\<lambda>u key. DeletionObserved \<lparr>xl_ctl = ex_store, xl_uid = ex_store\<rparr> u ''ns/rs'' key)
        (ExpectDeletions \<lparr>xl_ctl = ex_store, xl_uid = ex_store\<rparr> \<lparr>ut_ctl = [], ut_uidStore = []\<rparr> ''ns/rs'' [''ns/a'', ''ns/b''] 100)
        [''ns/a'', ''ns/a'', ''ns/c''])) ''ns/rs'' 200"
  using deletions_satisfied_iff [of "\<lparr>xl_ctl = ex_store, xl_uid = ex_store\<rparr>" "[''ns/a'', ''ns/b'']" "''ns/rs''"
      "\<lparr>ut_ctl = [], ut_uidStore = []\<rparr>" 100 "[''ns/a'', ''ns/a'', ''ns/c'']" 200]
  by (simp add: time_Sub_def ExpectationsTimeout_def Second_def)

end
