(* ===== verification/RS_Util.thy ===== *)
theory RS_Util
  imports Expectations
begin

text \<open>
  The helpers of the replica set controller (\<open>networkfunctionreplicaset/util/rs_util.go\<close> and
  \<open>sorting.go\<close>): readiness and availability of network functions, the choice of functions to delete,
  conditions, replica counts, and the time of the next availability check.
\<close>

section \<open>Functions of other packages\<close>

text \<open>
  The Kubernetes library functions the replica set controller calls, with the selector type as a
  parameter. \<open>rl_Log2\<close> stands for \<open>int64(math.Log2(float64(d)))\<close>, whose floating-point rounding is
  not modelled.
\<close>

record 'sel rs_lib =
  rl_LabelSelectorAsSelector :: "label_selector option \<Rightarrow> go_error + 'sel"
  rl_LabelsMatch :: "strmap \<Rightarrow> strmap \<Rightarrow> bool"
  rl_NameIsDNSSubdomain :: "string \<Rightarrow> bool \<Rightarrow> string list"
  rl_SetOwnerReference :: "nfrs \<Rightarrow> nf \<Rightarrow> go_error + nf"
  rl_GetControllerOf :: "owner_reference list \<Rightarrow> owner_reference option"
  rl_IsControlledBy :: "nf \<Rightarrow> nfrs \<Rightarrow> bool"
  rl_KeyFunc :: "nfrs \<Rightarrow> go_error + string"
  rl_NamespacedNameString :: "nsname \<Rightarrow> string"
  rl_ErrorString :: "go_error \<Rightarrow> string"
  rl_Log2 :: "int \<Rightarrow> int"

section \<open>Readiness\<close>

definition GetNFCondition :: "nf \<Rightarrow> string \<Rightarrow> NetworkFunctionCondition option" where
  "GetNFCondition nf conditionType = find (\<lambda>c. c_Type c = conditionType) (nft_Conditions (nf_Status nf))"

definition IsNFReady :: "nf \<Rightarrow> bool" where
  "IsNFReady nf \<longleftrightarrow>
     (case GetNFCondition nf NFReady of None \<Rightarrow> False | Some c \<Rightarrow> c_Status c = ConditionTrue)"

definition IsNFAvailable :: "nf \<Rightarrow> int \<Rightarrow> time \<Rightarrow> bool" where
  "IsNFAvailable nf minReadySeconds now =
     (case GetNFCondition nf NFReady of
        None \<Rightarrow> False
      | Some c \<Rightarrow>
          if c_Status c \<noteq> ConditionTrue then False
          else if time_Sub now (c_LastTransitionTime c) < i64 (minReadySeconds * Second) then False
          else True)"

section \<open>New network functions\<close>

definition GetNFLabelSet :: "NetworkFunctionTemplate \<Rightarrow> strmap" where
  "GetNFLabelSet template =
     Some (foldl (\<lambda>m (k, v). kvs_put k v m) [] (case om_Labels template of None \<Rightarrow> [] | Some kvs \<Rightarrow> kvs))"

definition GetNFFinalizers :: "NetworkFunctionTemplate \<Rightarrow> string list" where
  "GetNFFinalizers template = om_Finalizers template"

definition GetNFAnnotationSet :: "NetworkFunctionTemplate \<Rightarrow> strmap" where
  "GetNFAnnotationSet template =
     Some (foldl (\<lambda>m (k, v). kvs_put k v m) [] (case om_Annotations template of None \<Rightarrow> [] | Some kvs \<Rightarrow> kvs))"

definition GetNFPrefix :: "'sel rs_lib \<Rightarrow> string \<Rightarrow> string" where
  "GetNFPrefix lib rsName =
     (let prefix = rsName @ ''-''
      in if length (rl_NameIsDNSSubdomain lib prefix True) \<noteq> 0 then rsName else prefix)"

section \<open>The order of deletion\<close>

definition nfPhaseToOrdinal :: "string \<Rightarrow> int" where
  "nfPhaseToOrdinal phase = (if phase = NetworkFunctionRunning then 1 else 0)"

definition afterOrZero :: "time \<Rightarrow> time \<Rightarrow> bool" where
  "afterOrZero t1 t2 = (if time_IsZero t1 \<or> time_IsZero t2 then time_IsZero t1 else t1 > t2)"

definition logarithmicRankDiff :: "'sel rs_lib \<Rightarrow> time \<Rightarrow> time \<Rightarrow> time \<Rightarrow> int" where
  "logarithmicRankDiff lib t1 t2 now =
     (let d1 = time_Sub now t1; d2 = time_Sub now t2;
          r1 = (if d1 > 0 then rl_Log2 lib d1 else -1);
          r2 = (if d2 > 0 then rl_Log2 lib d2 else -1)
      in i64 (r1 - r2))"

definition nfReadyTime :: "nf \<Rightarrow> time" where
  "nfReadyTime nf =
     (if IsNFReady nf
      then (case find (\<lambda>c. c_Type c = NFReady \<and> c_Status c = ConditionTrue) (nft_Conditions (nf_Status nf)) of
              None \<Rightarrow> 0 | Some c \<Rightarrow> c_LastTransitionTime c)
      else 0)"

text \<open>\<open>Less\<close> of \<open>ActiveNFsWithRanks\<close> on functions paired with their ranks.\<close>

definition ActiveNFsWithRanks_Less :: "'sel rs_lib \<Rightarrow> time \<Rightarrow> nf \<times> int \<Rightarrow> nf \<times> int \<Rightarrow> bool" where
  "ActiveNFsWithRanks_Less lib now x y =
     (let a = fst x; b = fst y; ta = nfs_TargetName (nf_Spec a); tb = nfs_TargetName (nf_Spec b);
          pa = nfPhaseToOrdinal (nft_Phase (nf_Status a)); pb = nfPhaseToOrdinal (nft_Phase (nf_Status b));
          ca = om_CreationTimestamp a; cb = om_CreationTimestamp b;
          byCreation =
            (if ca \<noteq> cb then
               (if time_IsZero now \<or> time_IsZero ca \<or> time_IsZero cb then afterOrZero ca cb
                else (let rankDiff = logarithmicRankDiff lib ca cb now
                      in if rankDiff = 0 then str_less (om_UID a) (om_UID b) else rankDiff < 0))
             else False)
      in if ta \<noteq> tb \<and> (ta = [] \<or> tb = []) then ta = []
         else if pa \<noteq> pb then pa < pb
         else if IsNFReady a \<noteq> IsNFReady b then \<not> IsNFReady a
         else if snd x \<noteq> snd y then snd x > snd y
         else if IsNFReady a \<and> IsNFReady b \<and> nfReadyTime a \<noteq> nfReadyTime b then
           (let ra = nfReadyTime a; rb = nfReadyTime b
            in if time_IsZero now \<or> time_IsZero ra \<or> time_IsZero rb then afterOrZero ra rb
               else (let rankDiff = logarithmicRankDiff lib ra rb now
                     in if rankDiff = 0 then str_less (om_UID a) (om_UID b) else rankDiff < 0))
         else byCreation)"

definition IsNFActive :: "nf \<Rightarrow> bool" where
  "IsNFActive b \<longleftrightarrow> NetworkFunctionFailed \<noteq> nft_Phase (nf_Status b) \<and> om_DeletionTimestamp b = None"

definition FilterActiveNFs :: "nf list \<Rightarrow> nf list" where
  "FilterActiveNFs nfs = filter IsNFActive nfs"

definition GetNFsRankedByRelatedNFsOnSameTarget :: "nf list \<Rightarrow> nf list \<Rightarrow> (nf \<times> int) list" where
  "GetNFsRankedByRelatedNFsOnSameTarget nfsToRank relatedNFs =
     map (\<lambda>b. (b, int (length (filter (\<lambda>nf. IsNFActive nf \<and>
                    nfs_TargetName (nf_Spec nf) = nfs_TargetName (nf_Spec b)) relatedNFs)))) nfsToRank"

text \<open>The result is the slice as the in-place sort leaves it, and the prefix to delete.\<close>

definition GetNFsToDelete ::
    "'sel rs_lib \<Rightarrow> time \<Rightarrow> nf list \<Rightarrow> nf list \<Rightarrow> nat \<Rightarrow> nf list \<times> nf list" where
  "GetNFsToDelete lib now filteredNFs relatedNFs diff =
     (let sorted =
            (if diff < length filteredNFs
             then map fst (go_sort (ActiveNFsWithRanks_Less lib now)
                             (GetNFsRankedByRelatedNFsOnSameTarget filteredNFs relatedNFs))
             else filteredNFs)
      in (sorted, take diff sorted))"

definition GetNFKeys :: "nf list \<Rightarrow> string list" where
  "GetNFKeys nfs = map NFKey nfs"

section \<open>Conditions\<close>

definition GetCondition :: "NetworkFunctionReplicaSetStatus \<Rightarrow> string \<Rightarrow> ReplicaSetCondition option" where
  "GetCondition status condType = find (\<lambda>c. c_Type c = condType) (rst_Conditions status)"

definition RemoveCondition ::
    "NetworkFunctionReplicaSetStatus \<Rightarrow> string \<Rightarrow> NetworkFunctionReplicaSetStatus" where
  "RemoveCondition status condType =
     status\<lparr>rst_Conditions := filter (\<lambda>c. c_Type c \<noteq> condType) (rst_Conditions status)\<rparr>"

definition EqualConditions :: "ReplicaSetCondition \<Rightarrow> ReplicaSetCondition \<Rightarrow> bool" where
  "EqualConditions c1 c2 \<longleftrightarrow>
     c_Type c1 = c_Type c2 \<and> c_Status c1 = c_Status c2 \<and> c_Reason c1 = c_Reason c2 \<and> c_Message c1 = c_Message c2"

definition SetCondition ::
    "NetworkFunctionReplicaSetStatus \<Rightarrow> ReplicaSetCondition \<Rightarrow> time \<Rightarrow> NetworkFunctionReplicaSetStatus" where
  "SetCondition status c now =
     (case GetCondition status (c_Type c) of
        Some pre \<Rightarrow>
          if EqualConditions c pre then status
          else (let c = c\<lparr>c_LastTransitionTime := c_LastTransitionTime pre\<rparr>;
                    status = RemoveCondition status (c_Type c)
                in status\<lparr>rst_Conditions := rst_Conditions status @ [c]\<rparr>)
      | None \<Rightarrow>
          (let c = (if time_IsZero (c_LastTransitionTime c) then c\<lparr>c_LastTransitionTime := now\<rparr> else c)
           in status\<lparr>rst_Conditions := rst_Conditions status @ [c]\<rparr>))"

definition NewReplicaSetCondition :: "time \<Rightarrow> string \<Rightarrow> string \<Rightarrow> string \<Rightarrow> string \<Rightarrow> ReplicaSetCondition" where
  "NewReplicaSetCondition now condType status reason message =
     \<lparr>c_Type = condType, c_Status = status, c_LastTransitionTime = now, c_Reason = reason, c_Message = message\<rparr>"

section \<open>Counting and planning\<close>

definition CountReplicas :: "'sel rs_lib \<Rightarrow> nfrs \<Rightarrow> nf list \<Rightarrow> time \<Rightarrow> int \<times> int \<times> int" where
  "CountReplicas lib rs activeNFs now =
     foldl (\<lambda>(fullyLabeled, ready, available) b.
         (if rl_LabelsMatch lib (om_Labels (rss_Template (rs_Spec rs))) (om_Labels b) then fullyLabeled + 1 else fullyLabeled,
          if IsNFReady b then ready + 1 else ready,
          if IsNFReady b \<and> IsNFAvailable b (rss_MinReadySeconds (rs_Spec rs)) now then available + 1 else available))
       (0, 0, 0) activeNFs"

definition GetNFReadyCondition :: "NetworkFunctionStatus \<Rightarrow> NetworkFunctionCondition option" where
  "GetNFReadyCondition status = find (\<lambda>c. c_Type c = NFReady) (nft_Conditions status)"

definition nextNFAvailabilityCheck :: "nf \<Rightarrow> int \<Rightarrow> time \<Rightarrow> duration option" where
  "nextNFAvailabilityCheck nf minReadySeconds now =
     (if \<not> IsNFReady nf \<or> minReadySeconds \<le> 0 then None
      else (case GetNFReadyCondition (nf_Status nf) of
              None \<Rightarrow> None
            | Some c \<Rightarrow>
                if time_IsZero (c_LastTransitionTime c) then None
                else (let nextCheck = time_Sub (c_LastTransitionTime c + i64 (minReadySeconds * Second)) now
                      in if nextCheck > 0 then Some nextCheck else None)))"

fun min_check_loop ::
    "int \<Rightarrow> time \<Rightarrow> nf list \<Rightarrow> (duration \<times> nf) option \<Rightarrow> (duration \<times> nf) option" where
  "min_check_loop minReadySeconds now [] best = best"
| "min_check_loop minReadySeconds now (p # nfs) best =
     min_check_loop minReadySeconds now nfs
       (case nextNFAvailabilityCheck p minReadySeconds now of
          None \<Rightarrow> best
        | Some next \<Rightarrow>
            (case best of
               None \<Rightarrow> Some (next, p)
             | Some (m, _) \<Rightarrow> if next < m then Some (next, p) else best))"

definition findMinNextNFAvailabilitySimpleCheck :: "nf list \<Rightarrow> int \<Rightarrow> time \<Rightarrow> (duration \<times> nf) option" where
  "findMinNextNFAvailabilitySimpleCheck nfs minReadySeconds now = min_check_loop minReadySeconds now nfs None"

text \<open>\<open>clock\<close> is the later reading of \<open>time.Now()\<close>.\<close>

definition FindMinNextNFAvailabilityCheck :: "nf list \<Rightarrow> int \<Rightarrow> time \<Rightarrow> time \<Rightarrow> duration option" where
  "FindMinNextNFAvailabilityCheck nfs minReadySeconds lastOwnerStatusEvaluation clock =
     (case findMinNextNFAvailabilitySimpleCheck nfs minReadySeconds lastOwnerStatusEvaluation of
        None \<Rightarrow> None
      | Some (_, checkNF) \<Rightarrow>
          (case nextNFAvailabilityCheck checkNF minReadySeconds clock of
             Some updated \<Rightarrow> Some updated
           | None \<Rightarrow> Some 0))"

section \<open>Facts about the helpers\<close>

text \<open>The condition writer meets the contract of condition lists.\<close>

definition upd_rs_condition :: "time \<Rightarrow> ReplicaSetCondition list \<Rightarrow> ReplicaSetCondition \<Rightarrow> ReplicaSetCondition list" where
  "upd_rs_condition now cs c =
     rst_Conditions (SetCondition \<lparr>rst_Replicas = 0, rst_FullyLabeledReplicas = 0, rst_ReadyReplicas = 0,
       rst_AvailableReplicas = 0, rst_ObservedGeneration = 0, rst_Conditions = cs\<rparr> c now)"

lemma upd_rs_condition_eq:
  "upd_rs_condition now cs c =
     (case find (\<lambda>x. c_Type x = c_Type c) cs of
        Some pre \<Rightarrow> if EqualConditions c pre then cs
          else filter (\<lambda>x. c_Type x \<noteq> c_Type c) cs @ [c\<lparr>c_LastTransitionTime := c_LastTransitionTime pre\<rparr>]
      | None \<Rightarrow> cs @ [if time_IsZero (c_LastTransitionTime c) then c\<lparr>c_LastTransitionTime := now\<rparr> else c])"
  by (simp add: upd_rs_condition_def SetCondition_def GetCondition_def RemoveCondition_def Let_def split: option.splits)

lemma SetCondition_upd:
  "SetCondition st c now = st\<lparr>rst_Conditions := upd_rs_condition now (rst_Conditions st) c\<rparr>"
  by (simp add: upd_rs_condition_eq SetCondition_def GetCondition_def RemoveCondition_def Let_def split: option.splits)

lemma find_none_filter: "find P xs = None \<Longrightarrow> filter (\<lambda>x. \<not> P x) xs = xs"
  by (induction xs) (auto split: if_splits)

interpretation rs_conditions: condition_store "upd_rs_condition now" c_Type same_outcome for now
proof (unfold_locales, goal_cases)
  case (1 c cs)
  have gone: "find (\<lambda>x. c_Type x = c_Type c) (filter (\<lambda>x. c_Type x \<noteq> c_Type c) cs) = None"
    by (rule find_filter_disjoint) simp
  show ?case
  proof (cases "find (\<lambda>x. c_Type x = c_Type c) cs")
    case None
    then show ?thesis by (simp add: upd_rs_condition_eq find_append same_outcome_def)
  next
    case (Some pre)
    then have "c_Type pre = c_Type c" using find_Some_iff_in by fastforce
    with Some gone show ?thesis
      by (simp add: upd_rs_condition_eq find_append same_outcome_def EqualConditions_def)
  qed
next
  case (2 t c cs)
  have "find (\<lambda>x. c_Type x = t) (filter (\<lambda>x. c_Type x \<noteq> c_Type c) cs) = find (\<lambda>x. c_Type x = t) cs"
    using 2 by (induction cs) auto
  with 2 show ?case by (simp add: upd_rs_condition_eq find_append split: option.splits)
next
  case (3 cs c)
  have "c_Type c \<notin> c_Type ` set cs" if "find (\<lambda>x. c_Type x = c_Type c) cs = None"
    using that unfolding find_None_iff_none by force
  with 3 show ?case
    by (auto simp: upd_rs_condition_eq distinct_map_filter split: option.splits)
qed

lemma CountReplicas_eq:
  "CountReplicas lib rs nfs now =
     (int (length (filter (\<lambda>b. rl_LabelsMatch lib (om_Labels (rss_Template (rs_Spec rs))) (om_Labels b)) nfs)),
      int (length (filter IsNFReady nfs)),
      int (length (filter (\<lambda>b. IsNFReady b \<and> IsNFAvailable b (rss_MinReadySeconds (rs_Spec rs)) now) nfs)))"
  unfolding CountReplicas_def by (induction nfs rule: rev_induct) auto

lemma IsNFAvailable_ready: "IsNFAvailable nf m now \<Longrightarrow> IsNFReady nf"
  by (auto simp: IsNFAvailable_def IsNFReady_def split: option.splits if_splits)

text \<open>A lexicographic order sorts by its first component, whatever the rest does.\<close>

lemma go_insert_key:
  assumes "\<And>x y. key x < key y \<Longrightarrow> lt x y" "\<And>x y. key x > key y \<Longrightarrow> \<not> lt x y"
    and "sorted (map key xs)"
  shows "sorted (map (key :: 'a \<Rightarrow> nat) (go_insert lt x xs))"
  using assms(3)
proof (induction xs)
  case Nil
  then show ?case by simp
next
  case (Cons y ys)
  show ?case
  proof (cases "lt y x")
    case True
    then have "key y \<le> key x" using assms(2) by (meson not_le)
    with True Cons show ?thesis by auto
  next
    case False
    then have "key x \<le> key y" using assms(1) by (meson not_le)
    with False Cons show ?thesis by auto
  qed
qed

lemma go_sort_key:
  assumes "\<And>x y. key x < key y \<Longrightarrow> lt x y" "\<And>x y. key x > key y \<Longrightarrow> \<not> lt x y"
  shows "sorted (map (key :: 'a \<Rightarrow> nat) (go_sort lt xs))"
  using assms by (induction xs) (auto intro!: go_insert_key)

definition deletion_class :: "nf \<Rightarrow> nat" where
  "deletion_class nf =
     (if nfs_TargetName (nf_Spec nf) = [] then 0
      else if nfPhaseToOrdinal (nft_Phase (nf_Status nf)) = 0 then 1
      else if \<not> IsNFReady nf then 2 else 3)"

end
