(* ===== verification/ReplicaSet.thy ===== *)
theory ReplicaSet
  imports RS_Util "HOL-Library.Sublist"
begin

text \<open>
  The replica set controller (\<open>networkfunctionreplicaset/replicas.go\<close>, \<open>status.go\<close> and
  \<open>networkfunctionreplicaset_controller.go\<close>): it creates and deletes network functions until the
  desired number is active. The state is the API world \<open>'w\<close> and the expectations. Goroutines that each
  make one API call are run in some order: the calls of a creation batch are alike, so their order
  does not matter; the deletions run in the order a scheduler \<open>sched\<close> picks. \<open>None\<close> is a panic.
\<close>

section \<open>The API client and the clock\<close>

record ('w, 'sel) rs_client =
  rc_GetRS :: "'w \<Rightarrow> nsname \<Rightarrow> go_error + nfrs"
  rc_StatusUpdateRS :: "'w \<Rightarrow> nfrs \<Rightarrow> (go_error + nfrs) \<times> 'w"
  rc_ListNFs :: "'w \<Rightarrow> 'sel \<Rightarrow> go_error + nf list"
  rc_ListRSsByController :: "'w \<Rightarrow> string \<Rightarrow> string \<Rightarrow> go_error + nfrs list"
  rc_CreateNF :: "'w \<Rightarrow> nf \<Rightarrow> go_error option \<times> 'w"
  rc_DeleteNF :: "'w \<Rightarrow> nsname \<Rightarrow> go_error option \<times> 'w"

text \<open>The readings of the clock during one reconcile.\<close>

record rs_clock =
  t_check :: time
  t_expect :: time
  t_rank :: time
  t_status :: time
  t_condition :: time
  t_requeue :: time

definition BurstReplicas :: int where
  "BurstReplicas = 500"

definition SlowStartInitialBatchSize :: int where
  "SlowStartInitialBatchSize = 1"

section \<open>Listing\<close>

definition listActiveNFs :: "'sel rs_lib \<Rightarrow> ('w, 'sel) rs_client \<Rightarrow> nfrs \<Rightarrow> 'w \<Rightarrow> go_error + nf list" where
  "listActiveNFs lib cl rs w =
     (case rl_LabelSelectorAsSelector lib (rss_Selector (rs_Spec rs)) of
        Inl err \<Rightarrow> Inl (Errorf ''nf replicaset has invalid label selector'' (Some err))
      | Inr nfSelector \<Rightarrow>
          (case rc_ListNFs cl w nfSelector of Inl err \<Rightarrow> Inl err | Inr items \<Rightarrow> Inr (FilterActiveNFs items)))"

definition filterOwnedPods :: "'sel rs_lib \<Rightarrow> nfrs \<Rightarrow> nf list \<Rightarrow> nf list" where
  "filterOwnedPods lib rs allActiveNFs = filter (\<lambda>b. rl_IsControlledBy lib b rs) allActiveNFs"

definition getReplicaSetsWithSameController ::
    "'sel rs_lib \<Rightarrow> ('w, 'sel) rs_client \<Rightarrow> nfrs \<Rightarrow> 'w \<Rightarrow> nfrs list" where
  "getReplicaSetsWithSameController lib cl rs w =
     (case rl_GetControllerOf lib (om_OwnerReferences rs) of
        None \<Rightarrow> []
      | Some ref \<Rightarrow>
          (case rc_ListRSsByController cl w (om_Namespace rs) (or_UID ref) of Inl _ \<Rightarrow> [] | Inr items \<Rightarrow> items))"

fun add_unseen :: "nf list \<Rightarrow> string list \<times> nf list \<Rightarrow> string list \<times> nf list" where
  "add_unseen [] acc = acc"
| "add_unseen (nf # nfs) (seen, related) =
     add_unseen nfs (if om_UID nf \<in> set seen then (seen, related) else (om_UID nf # seen, related @ [nf]))"

fun related_loop ::
    "'sel rs_lib \<Rightarrow> ('w, 'sel) rs_client \<Rightarrow> 'w \<Rightarrow> nfrs list \<Rightarrow> string list \<times> nf list \<Rightarrow> go_error + nf list" where
  "related_loop lib cl w [] acc = Inr (snd acc)"
| "related_loop lib cl w (relatedRS # rss) acc =
     (case rl_LabelSelectorAsSelector lib (rss_Selector (rs_Spec relatedRS)) of
        Inl _ \<Rightarrow> related_loop lib cl w rss acc
      | Inr selector \<Rightarrow>
          (case rc_ListNFs cl w selector of
             Inl err \<Rightarrow> Inl err
           | Inr items \<Rightarrow> related_loop lib cl w rss (add_unseen items acc)))"

definition getIndirectlyRelatedNFs ::
    "'sel rs_lib \<Rightarrow> ('w, 'sel) rs_client \<Rightarrow> nfrs \<Rightarrow> 'w \<Rightarrow> go_error + nf list" where
  "getIndirectlyRelatedNFs lib cl rs w =
     related_loop lib cl w (getReplicaSetsWithSameController lib cl rs w) ([], [])"

section \<open>Creating and deleting network functions\<close>

definition GetNetworkFunctionFromRS :: "'sel rs_lib \<Rightarrow> nfrs \<Rightarrow> go_error + nf" where
  "GetNetworkFunctionFromRS lib rs =
     (let template = rss_Template (rs_Spec rs);
          nf = \<lparr>om_Name = '''', om_GenerateName = GetNFPrefix lib (om_Name rs), om_Namespace = om_Namespace rs,
                om_UID = '''', om_Generation = 0, om_Labels = GetNFLabelSet template,
                om_Annotations = GetNFAnnotationSet template, om_Finalizers = GetNFFinalizers template,
                om_OwnerReferences = [], om_CreationTimestamp = 0, om_DeletionTimestamp = None,
                nf_Spec = \<lparr>nfs_TargetName = '''', nfs_ControlPlane = None, nfs_TargetSelector = None,
                  nfs_ConfigRef = None, nfs_P4File = ''''\<rparr>,
                nf_Status = \<lparr>nft_AssignedIP = '''', nft_ObservedGeneration = 0, nft_Phase = '''',
                  nft_Reason = '''', nft_Conditions = []\<rparr>\<rparr>
      in case rl_SetOwnerReference lib rs nf of
           Inl err \<Rightarrow> Inl (Errorf ''failed to set owner reference on nf'' (Some err))
         | Inr nf \<Rightarrow> Inr (nf\<lparr>nf_Spec := tpl_Spec template\<rparr>))"

definition createNFs :: "('w, 'sel) rs_client \<Rightarrow> nf \<Rightarrow> 'w \<Rightarrow> go_error option \<times> 'w" where
  "createNFs cl nf w =
     (if om_Labels nf = None \<or> om_Labels nf = Some [] then (Some (Errorf ''unable to create nf, no labels'' None), w)
      else rc_CreateNF cl w nf)"

definition CreateNFWithGenerateName ::
    "'sel rs_lib \<Rightarrow> ('w, 'sel) rs_client \<Rightarrow> nfrs \<Rightarrow> string \<Rightarrow> 'w \<Rightarrow> go_error option \<times> 'w" where
  "CreateNFWithGenerateName lib cl rs generateName w =
     (case GetNetworkFunctionFromRS lib rs of
        Inl err \<Rightarrow> (Some err, w)
      | Inr nf \<Rightarrow> createNFs cl (if length generateName > 0 then nf\<lparr>om_GenerateName := generateName\<rparr> else nf) w)"

definition CreateNFs :: "'sel rs_lib \<Rightarrow> ('w, 'sel) rs_client \<Rightarrow> nfrs \<Rightarrow> 'w \<Rightarrow> go_error option \<times> 'w" where
  "CreateNFs lib cl rs w = CreateNFWithGenerateName lib cl rs '''' w"

definition DeleteNF :: "('w, 'sel) rs_client \<Rightarrow> string \<Rightarrow> string \<Rightarrow> 'w \<Rightarrow> go_error option \<times> 'w" where
  "DeleteNF cl namespace podID w =
     (case rc_DeleteNF cl w (namespace, podID) of
        (None, w) \<Rightarrow> (None, w)
      | (Some err, w) \<Rightarrow>
          (Some (if IsNotFound err then err else Errorf ''unable to delete pods'' (Some err)), w))"

section \<open>Slow start\<close>

text \<open>One batch: \<open>n\<close> calls, with the errors in the order in which they arrive on the channel.\<close>

fun run_batch :: "('w \<Rightarrow> go_error option \<times> 'w) \<Rightarrow> nat \<Rightarrow> 'w \<Rightarrow> go_error list \<times> 'w" where
  "run_batch fn 0 w = ([], w)"
| "run_batch fn (Suc n) w =
     (let (r, w) = fn w; (errs, w) = run_batch fn n w
      in (case r of None \<Rightarrow> errs | Some e \<Rightarrow> e # errs, w))"

function slow_start_loop ::
    "('w \<Rightarrow> go_error option \<times> 'w) \<Rightarrow> int \<Rightarrow> int \<Rightarrow> int \<Rightarrow> 'w \<Rightarrow> (int \<times> go_error option) \<times> 'w" where
  "slow_start_loop fn sz remaining successes w =
     (let batchSize = min sz remaining
      in if batchSize \<le> 0 then ((successes, None), w)
         else (case run_batch fn (nat batchSize) w of
                 ([], w) \<Rightarrow> slow_start_loop fn (2 * batchSize) (remaining - batchSize) (successes + batchSize) w
               | (e # errs, w) \<Rightarrow> ((successes + (batchSize - int (length (e # errs))), Some e), w)))"
  by pat_completeness auto

termination
  by (relation "measure (\<lambda>(fn, sz, remaining, successes, w). nat remaining)") auto

declare slow_start_loop.simps [simp del]

definition slowStartBatch ::
    "int \<Rightarrow> int \<Rightarrow> ('w \<Rightarrow> go_error option \<times> 'w) \<Rightarrow> 'w \<Rightarrow> (int \<times> go_error option) \<times> 'w" where
  "slowStartBatch total_calls initialBatchSize fn w = slow_start_loop fn initialBatchSize total_calls 0 w"

section \<open>Managing the replicas\<close>

definition create_ignoring_terminating ::
    "'sel rs_lib \<Rightarrow> ('w, 'sel) rs_client \<Rightarrow> nfrs \<Rightarrow> 'w \<Rightarrow> go_error option \<times> 'w" where
  "create_ignoring_terminating lib cl rs w =
     (case CreateNFs lib cl rs w of
        (Some err, w) \<Rightarrow> (if IsNamespaceTerminating err then None else Some err, w)
      | (None, w) \<Rightarrow> (None, w))"

fun delete_loop ::
    "('s, 'u) exp_lib \<Rightarrow> ('w, 'sel) rs_client \<Rightarrow> string \<Rightarrow> string \<Rightarrow> nf list \<Rightarrow> ('s, 'u) uid_exps \<Rightarrow> 'w \<Rightarrow>
      go_error list \<times> ('s, 'u) uid_exps \<times> 'w" where
  "delete_loop xl cl ns rsKey [] u w = ([], u, w)"
| "delete_loop xl cl ns rsKey (targetNF # nfs) u w =
     (case DeleteNF cl ns (om_Name targetNF) w of
        (None, w) \<Rightarrow> delete_loop xl cl ns rsKey nfs u w
      | (Some err, w) \<Rightarrow>
          (let u = DeletionObserved xl u rsKey (NFKey targetNF);
               (errs, u, w) = delete_loop xl cl ns rsKey nfs u w
           in (if IsNotFound err then errs else err # errs, u, w)))"

text \<open>The result: the error, the slice as sorting left it, the expectations and the world.\<close>

definition manageReplicas ::
    "'sel rs_lib \<Rightarrow> ('s, 'u) exp_lib \<Rightarrow> ('w, 'sel) rs_client \<Rightarrow> (nf list \<Rightarrow> nf list) \<Rightarrow> rs_clock \<Rightarrow>
      nf list \<Rightarrow> nfrs \<Rightarrow> ('s, 'u) uid_exps \<Rightarrow> 'w \<Rightarrow>
      ((go_error option \<times> nf list) \<times> ('s, 'u) uid_exps \<times> 'w) option" where
  "manageReplicas lib xl cl sched clk activeNFs rs u w =
     do { replicas \<leftarrow> rss_Replicas (rs_Spec rs);
          let diff = int (length activeNFs) - replicas;
          case rl_KeyFunc lib rs of
            Inl _ \<Rightarrow> Some ((None, activeNFs), u, w)
          | Inr rsKey \<Rightarrow>
              if diff < 0 then
                (let diff = min (- diff) BurstReplicas;
                     u = u\<lparr>ut_ctl := ExpectCreations (xl_ctl xl) (ut_ctl u) rsKey diff (t_expect clk)\<rparr>;
                     ((successfulCreations, err), w) =
                       slowStartBatch diff SlowStartInitialBatchSize (create_ignoring_terminating lib cl rs) w;
                     skippedPods = diff - successfulCreations;
                     u = (if skippedPods > 0
                          then u\<lparr>ut_ctl := ((\<lambda>s. CreationObserved (xl_ctl xl) s rsKey) ^^ nat skippedPods) (ut_ctl u)\<rparr>
                          else u)
                 in Some ((err, activeNFs), u, w))
              else if diff > 0 then
                (let diff = min diff BurstReplicas;
                     relatedPods = (case getIndirectlyRelatedNFs lib cl rs w of Inl _ \<Rightarrow> [] | Inr nfs \<Rightarrow> nfs);
                     (activeNFs, nfsToDelete) = GetNFsToDelete lib (t_rank clk) activeNFs relatedPods (nat diff);
                     u = ExpectDeletions xl u rsKey (GetNFKeys nfsToDelete) (t_expect clk);
                     (errs, u, w) = delete_loop xl cl (om_Namespace rs) rsKey (sched nfsToDelete) u w
                 in Some ((case errs of [] \<Rightarrow> None | e # _ \<Rightarrow> Some e, activeNFs), u, w))
              else Some ((None, activeNFs), u, w) }"

section \<open>Status\<close>

abbreviation ReplicaSetReplicaFailure :: string where "ReplicaSetReplicaFailure \<equiv> ''ReplicaFailure''"

definition calculateStatus ::
    "'sel rs_lib \<Rightarrow> rs_clock \<Rightarrow> nfrs \<Rightarrow> nf list \<Rightarrow> go_error option \<Rightarrow> NetworkFunctionReplicaSetStatus option" where
  "calculateStatus lib clk rs activeNFs manageReplicasErr =
     (let (fullyLabeled, ready, available) = CountReplicas lib rs activeNFs (t_status clk);
          failureCond = GetCondition (rs_Status rs) ReplicaSetReplicaFailure
      in do { newStatus \<leftarrow>
                (case (manageReplicasErr, failureCond) of
                   (Some err, None) \<Rightarrow>
                     do { replicas \<leftarrow> rss_Replicas (rs_Spec rs);
                          let diff = int (length activeNFs) - replicas;
                          let reason = (if diff < 0 then ''FailedCreate'' else if diff > 0 then ''FailedDelete'' else '''');
                          Some (SetCondition (rs_Status rs)
                            (NewReplicaSetCondition (t_condition clk) ReplicaSetReplicaFailure ConditionTrue reason
                               (rl_ErrorString lib err)) (t_condition clk)) }
                 | (None, Some _) \<Rightarrow> Some (RemoveCondition (rs_Status rs) ReplicaSetReplicaFailure)
                 | _ \<Rightarrow> Some (rs_Status rs));
              Some (newStatus\<lparr>rst_Replicas := i32 (int (length activeNFs)), rst_FullyLabeledReplicas := i32 fullyLabeled,
                 rst_ReadyReplicas := i32 ready, rst_AvailableReplicas := i32 available\<rparr>) })"

definition StatusUpdateRetries :: nat where
  "StatusUpdateRetries = 1"

text \<open>The update loop with \<open>n\<close> retries left; the log line reads \<open>*rs.Spec.Replicas\<close>.\<close>

fun status_update_loop ::
    "('w, 'sel) rs_client \<Rightarrow> NetworkFunctionReplicaSetStatus \<Rightarrow> nat \<Rightarrow> nfrs \<Rightarrow> 'w \<Rightarrow> ((go_error + nfrs) \<times> 'w) option" where
  "status_update_loop cl newStatus n rs w =
     do { _ \<leftarrow> rss_Replicas (rs_Spec rs);
          case rc_StatusUpdateRS cl w (rs\<lparr>rs_Status := newStatus\<rparr>) of
            (Inr rs, w) \<Rightarrow> Some (Inr rs, w)
          | (Inl updateErr, w) \<Rightarrow>
              (case n of
                 0 \<Rightarrow> Some (Inl updateErr, w)
               | Suc m \<Rightarrow>
                   (case rc_GetRS cl w (meta_key rs) of
                      Inl getErr \<Rightarrow> Some (Inl getErr, w)
                    | Inr rs \<Rightarrow> status_update_loop cl newStatus m rs w)) }"

definition updateReplicaSetStatus ::
    "('w, 'sel) rs_client \<Rightarrow> nfrs \<Rightarrow> NetworkFunctionReplicaSetStatus \<Rightarrow> 'w \<Rightarrow> ((go_error + nfrs) \<times> 'w) option" where
  "updateReplicaSetStatus cl rs newStatus w =
     (let old = rs_Status rs
      in if rst_Replicas old = rst_Replicas newStatus \<and>
            rst_FullyLabeledReplicas old = rst_FullyLabeledReplicas newStatus \<and>
            rst_ReadyReplicas old = rst_ReadyReplicas newStatus \<and>
            rst_AvailableReplicas old = rst_AvailableReplicas newStatus \<and>
            om_Generation rs = rst_ObservedGeneration old \<and>
            rst_Conditions old = rst_Conditions newStatus
         then Some (Inr rs, w)
         else status_update_loop cl (newStatus\<lparr>rst_ObservedGeneration := om_Generation rs\<rparr>) StatusUpdateRetries rs w)"

section \<open>Reconcile\<close>

definition calculateTimeUntilNextRequeue :: "nfrs \<Rightarrow> nf list \<Rightarrow> rs_clock \<Rightarrow> duration option" where
  "calculateTimeUntilNextRequeue updatedRS activeNFs clk =
     (let m = rss_MinReadySeconds (rs_Spec updatedRS)
      in if m > 0 \<and> rst_ReadyReplicas (rs_Status updatedRS) \<noteq> rst_AvailableReplicas (rs_Status updatedRS)
         then (case FindMinNextNFAvailabilityCheck activeNFs m (t_status clk) (t_requeue clk) of
                 Some nextCheck \<Rightarrow> Some nextCheck
               | None \<Rightarrow> Some (i64 (m * Second)))
         else None)"

definition RS_Reconcile ::
    "'sel rs_lib \<Rightarrow> ('s, 'u) exp_lib \<Rightarrow> ('w, 'sel) rs_client \<Rightarrow> (nf list \<Rightarrow> nf list) \<Rightarrow> rs_clock \<Rightarrow> nsname \<Rightarrow>
      ('s, 'u) uid_exps \<Rightarrow> 'w \<Rightarrow> ((go_error + ctrl_result) \<times> ('s, 'u) uid_exps \<times> 'w) option" where
  "RS_Reconcile lib xl cl sched clk req u w =
     (case rc_GetRS cl w req of
        Inl err \<Rightarrow>
          if IsNotFound err
          then Some (Inr Done, DeleteExpectations xl u (rl_NamespacedNameString lib req), w)
          else Some (Inl err, u, w)
      | Inr rs \<Rightarrow>
          (let rsNeedsSync = SatisfiedExpectations (xl_ctl xl) (ut_ctl u) (rl_NamespacedNameString lib req) (t_check clk)
           in case listActiveNFs lib cl rs w of
                Inl err \<Rightarrow> Some (Inl err, u, w)
              | Inr allActiveNFs \<Rightarrow>
                  do { let owned = filterOwnedPods lib rs allActiveNFs;
                       ((manageReplicasErr, owned), u, w) \<leftarrow>
                         (if rsNeedsSync \<and> om_DeletionTimestamp rs = None
                          then manageReplicas lib xl cl sched clk owned rs u w
                          else Some ((None, owned), u, w));
                       newStatus \<leftarrow> calculateStatus lib clk rs owned manageReplicasErr;
                       (r, w) \<leftarrow> updateReplicaSetStatus cl rs newStatus w;
                       Some (case r of
                               Inl err \<Rightarrow> (Inl err, u, w)
                             | Inr updatedRS \<Rightarrow>
                                 (case manageReplicasErr of
                                    Some err \<Rightarrow> (Inl err, u, w)
                                  | None \<Rightarrow>
                                      (case calculateTimeUntilNextRequeue updatedRS owned clk of
                                         Some t \<Rightarrow> (Inr (RequeueAfter t), u, w)
                                       | None \<Rightarrow> (Inr Done, u, w)))) }))"

section \<open>Facts about the operations\<close>

lemma run_batch_add:
  "run_batch fn (m + n) w =
     (let (errs1, w1) = run_batch fn m w; (errs2, w2) = run_batch fn n w1 in (errs1 @ errs2, w2))"
  by (induction m arbitrary: w) (auto simp: Let_def split_beta split: option.splits)

lemma run_batch_length: "length (fst (run_batch fn n w)) \<le> n"
  by (induction n arbitrary: w) (auto simp: Let_def split_beta le_SucI split: option.splits)

text \<open>
  The slow start makes \<open>k\<close> calls in all, at most as many as asked, stops at the first batch with an
  error, and counts the successful ones.
\<close>

lemma slow_start_loop_calls:
  assumes "0 < sz" "0 \<le> remaining"
  shows "\<exists>k errs w'. run_batch fn k w = (errs, w') \<and> int k \<le> remaining \<and> (errs = [] \<longrightarrow> int k = remaining) \<and>
    slow_start_loop fn sz remaining successes w =
      ((successes + int k - int (length errs), case errs of [] \<Rightarrow> None | e # _ \<Rightarrow> Some e), w')"
  using assms
proof (induction fn sz remaining successes w rule: slow_start_loop.induct)
  case (1 fn sz remaining successes w)
  let ?b = "min sz remaining"
  show ?case
  proof (cases "?b \<le> 0")
    case True
    then have "remaining = 0" using 1(2,3) by auto
    moreover from True have "slow_start_loop fn sz remaining successes w = ((successes, None), w)"
      by (subst slow_start_loop.simps) (simp add: Let_def)
    ultimately show ?thesis by (intro exI [of _ 0]) simp
  next
    case False
    obtain errs w1 where b: "run_batch fn (nat ?b) w = (errs, w1)" by fastforce
    show ?thesis
    proof (cases errs)
      case Nil
      have "0 < 2 * ?b" "0 \<le> remaining - ?b" using False by auto
      then obtain k errs' w' where k: "run_batch fn k w1 = (errs', w')" "int k \<le> remaining - ?b"
          "errs' = [] \<longrightarrow> int k = remaining - ?b"
          "slow_start_loop fn (2 * ?b) (remaining - ?b) (successes + ?b) w1 =
            ((successes + ?b + int k - int (length errs'), case errs' of [] \<Rightarrow> None | e # _ \<Rightarrow> Some e), w')"
        using 1(1) [OF refl False b [symmetric] Nil] by blast
      have "run_batch fn (nat ?b + k) w = (errs', w')" using b Nil k(1) by (simp add: run_batch_add Let_def)
      moreover have "slow_start_loop fn sz remaining successes w =
          slow_start_loop fn (2 * ?b) (remaining - ?b) (successes + ?b) w1"
        using False b Nil by (subst slow_start_loop.simps) (simp add: Let_def)
      ultimately show ?thesis using k False
        by (intro exI [of _ "nat ?b + k"] exI [of _ errs'] exI [of _ w']) (simp add: add.assoc)
    next
      case (Cons e rest)
      then have "slow_start_loop fn sz remaining successes w =
          ((successes + (?b - int (length (e # rest))), Some e), w1)"
        using False b by (subst slow_start_loop.simps) (simp add: Let_def)
      then show ?thesis using b Cons False 1(2,3)
        by (intro exI [of _ "nat ?b"] exI [of _ errs] exI [of _ w1]) simp
    qed
  qed
qed

lemma GetNFsToDelete_parts:
  assumes "GetNFsToDelete lib now nfs related k = (nfs', del)"
  shows "mset nfs' = mset nfs" "del = take k nfs'"
proof -
  let ?ranked = "GetNFsRankedByRelatedNFsOnSameTarget nfs related"
  have "mset (map fst (go_sort (ActiveNFsWithRanks_Less lib now) ?ranked)) = mset (map fst ?ranked)"
    unfolding mset_map by simp
  also have "map fst ?ranked = nfs" by (simp add: GetNFsRankedByRelatedNFsOnSameTarget_def comp_def)
  finally show "mset nfs' = mset nfs" "del = take k nfs'"
    using assms by (auto simp: GetNFsToDelete_def Let_def split: if_splits)
qed

lemma delete_loop_records:
  assumes "\<And>w k. rc_DeleteNF cl w k = (None, w @ [k])"
  shows "delete_loop xl cl ns rsKey nfs u w = ([], u, w @ map (\<lambda>nf. (ns, om_Name nf)) nfs)"
  using assms by (induction nfs arbitrary: w) (auto simp: DeleteNF_def)

lemma Less_head:
  "\<exists>R. ActiveNFsWithRanks_Less lib now x y =
    (if nfs_TargetName (nf_Spec (fst x)) \<noteq> nfs_TargetName (nf_Spec (fst y)) \<and>
        (nfs_TargetName (nf_Spec (fst x)) = [] \<or> nfs_TargetName (nf_Spec (fst y)) = [])
     then nfs_TargetName (nf_Spec (fst x)) = []
     else if nfPhaseToOrdinal (nft_Phase (nf_Status (fst x))) \<noteq> nfPhaseToOrdinal (nft_Phase (nf_Status (fst y)))
     then nfPhaseToOrdinal (nft_Phase (nf_Status (fst x))) < nfPhaseToOrdinal (nft_Phase (nf_Status (fst y)))
     else if IsNFReady (fst x) \<noteq> IsNFReady (fst y) then \<not> IsNFReady (fst x) else R)"
  unfolding ActiveNFsWithRanks_Less_def Let_def by (rule exI) (rule refl)

lemma ordinal_cases: "nfPhaseToOrdinal p = 0 \<or> nfPhaseToOrdinal p = 1"
  by (simp add: nfPhaseToOrdinal_def)

lemma deletion_class_less:
  "deletion_class (fst x) < deletion_class (fst y) \<Longrightarrow> ActiveNFsWithRanks_Less lib now x y"
  "deletion_class (fst x) > deletion_class (fst y) \<Longrightarrow> \<not> ActiveNFsWithRanks_Less lib now x y"
  using Less_head [of lib now x y] ordinal_cases [of "nft_Phase (nf_Status (fst x))"]
    ordinal_cases [of "nft_Phase (nf_Status (fst y))"]
  by (auto simp: deletion_class_def split: if_splits)

lemma sorted_by_class:
  assumes "k < length nfs" "GetNFsToDelete lib now nfs related k = (nfs', del)"
  shows "sorted (map deletion_class nfs')"
proof -
  have "sorted (map (\<lambda>x. deletion_class (fst x)) (go_sort (ActiveNFsWithRanks_Less lib now) xs))" for xs
    by (rule go_sort_key) (auto intro: deletion_class_less(1) dest: deletion_class_less(2))
  then show ?thesis using assms by (auto simp: GetNFsToDelete_def Let_def comp_def)
qed

section \<open>Properties of the replica set controller\<close>

text \<open>A library, a client and objects for the concrete instances.\<close>

definition ex_rlib :: "unit rs_lib" where
  "ex_rlib = \<lparr>rl_LabelSelectorAsSelector = (\<lambda>_. Inr ()), rl_LabelsMatch = (\<lambda>_ _. True),
     rl_NameIsDNSSubdomain = (\<lambda>_ _. []),
     rl_SetOwnerReference = (\<lambda>rs nf. Inr (nf\<lparr>om_OwnerReferences := om_OwnerReferences nf @
        [\<lparr>or_Kind = ''NetworkFunctionReplicaSet'', or_Name = om_Name rs, or_UID = om_UID rs, or_Controller = False\<rparr>]\<rparr>)),
     rl_GetControllerOf = find or_Controller,
     rl_IsControlledBy = (\<lambda>nf rs. list_ex (\<lambda>r. or_Controller r \<and> or_UID r = om_UID rs) (om_OwnerReferences nf)),
     rl_KeyFunc = (\<lambda>rs. Inr (om_Namespace rs @ ''/'' @ om_Name rs)),
     rl_NamespacedNameString = (\<lambda>(ns, n). ns @ ''/'' @ n), rl_ErrorString = (\<lambda>_. ''error''),
     rl_Log2 = (\<lambda>d. 0)\<rparr>"

definition ex_rclient :: "(nsname list, unit) rs_client" where
  "ex_rclient = \<lparr>rc_GetRS = (\<lambda>_ _. Inl (ApiError NotFound)), rc_StatusUpdateRS = (\<lambda>w rs. (Inr rs, w)),
     rc_ListNFs = (\<lambda>_ _. Inr []), rc_ListRSsByController = (\<lambda>_ _ _. Inr []),
     rc_CreateNF = (\<lambda>w nf. (None, w @ [(om_Namespace nf, om_GenerateName nf)])),
     rc_DeleteNF = (\<lambda>w k. (None, w @ [k]))\<rparr>"

definition ex_nf_spec :: "string \<Rightarrow> NetworkFunctionSpec" where
  "ex_nf_spec target = \<lparr>nfs_TargetName = target, nfs_ControlPlane = None, nfs_TargetSelector = None,
     nfs_ConfigRef = None, nfs_P4File = ''prog''\<rparr>"

definition ex_nf :: "string \<Rightarrow> string \<Rightarrow> string \<Rightarrow> nf" where
  "ex_nf name target phase = \<lparr>om_Name = name, om_GenerateName = '''', om_Namespace = ''default'', om_UID = name,
     om_Generation = 1, om_Labels = Some [(''app'', ''fw'')], om_Annotations = None, om_Finalizers = [],
     om_OwnerReferences = [], om_CreationTimestamp = 5, om_DeletionTimestamp = None,
     nf_Spec = ex_nf_spec target,
     nf_Status = \<lparr>nft_AssignedIP = '''', nft_ObservedGeneration = 1, nft_Phase = phase, nft_Reason = '''',
       nft_Conditions = []\<rparr>\<rparr>"

definition ex_replica_set :: "int \<Rightarrow> nfrs" where
  "ex_replica_set n = \<lparr>om_Name = ''fw-1'', om_GenerateName = '''', om_Namespace = ''default'', om_UID = ''u1'',
     om_Generation = 1, om_Labels = Some [], om_Annotations = None, om_Finalizers = [], om_OwnerReferences = [],
     om_CreationTimestamp = 5, om_DeletionTimestamp = None,
     rs_Spec = \<lparr>rss_Replicas = Some n, rss_Selector = None,
       rss_Template = \<lparr>om_Name = '''', om_GenerateName = '''', om_Namespace = '''', om_UID = '''', om_Generation = 0,
         om_Labels = Some [(''app'', ''fw'')], om_Annotations = None, om_Finalizers = [], om_OwnerReferences = [],
         om_CreationTimestamp = 0, om_DeletionTimestamp = None, tpl_Spec = ex_nf_spec ''''\<rparr>,
       rss_MinReadySeconds = 0\<rparr>,
     rs_Status = \<lparr>rst_Replicas = 0, rst_FullyLabeledReplicas = 0, rst_ReadyReplicas = 0,
       rst_AvailableReplicas = 0, rst_ObservedGeneration = 0, rst_Conditions = []\<rparr>\<rparr>"

definition ex_xlib where
  "ex_xlib = \<lparr>xl_ctl = (ex_store :: (_, ControlleeExpectations) store_ops), xl_uid = (ex_store :: (_, string set) store_ops)\<rparr>"

definition ex_clock :: rs_clock where
  "ex_clock = \<lparr>t_check = 10, t_expect = 11, t_rank = 12, t_status = 13, t_condition = 14, t_requeue = 15\<rparr>"

lemma ex_rs_simps [simp]:
  "store_ok (xl_ctl ex_xlib)" "store_ok (xl_uid ex_xlib)"
  "rss_Replicas (rs_Spec (ex_replica_set n)) = Some n" "om_Namespace (ex_replica_set n) = ''default''"
  "rl_KeyFunc ex_rlib (ex_replica_set n) = Inr ''default/fw-1''"
  "rc_DeleteNF ex_rclient w k = (None, w @ [k])"
  by (simp_all add: ex_xlib_def ex_replica_set_def ex_rlib_def ex_rclient_def)



text \<open>
  Scaling up. With fewer active functions than desired, \<open>manageReplicas\<close> attempts at most
  \<open>min missing 500\<close> creations (all of them unless one fails), returns the first failure, and leaves
  the controller expecting exactly the creations that succeeded.
\<close>

theorem manageReplicas_scale_up:
  assumes "store_ok (xl_ctl xl)" "rss_Replicas (rs_Spec rs) = Some n" "rl_KeyFunc lib rs = Inr key"
    and "int (length active) < n" and "want = min (n - int (length active)) BurstReplicas"
  shows "\<exists>k errs w' u'. run_batch (create_ignoring_terminating lib cl rs) k w = (errs, w') \<and>
    int k \<le> want \<and> (errs = [] \<longrightarrow> int k = want) \<and>
    manageReplicas lib xl cl sched clk active rs u w =
      Some ((case errs of [] \<Rightarrow> None | e # _ \<Rightarrow> Some e, active), u', w') \<and>
    GetExpectations (xl_ctl xl) (ut_ctl u') key =
      Some \<lparr>ce_add = int k - int (length errs), ce_del = 0, ce_key = key, ce_timestamp = t_expect clk\<rparr>"
proof -
  have want: "0 < want" "want \<le> 500" using assms(4,5) by (auto simp: BurstReplicas_def)
  obtain k errs w' where k: "run_batch (create_ignoring_terminating lib cl rs) k w = (errs, w')"
      "int k \<le> want" "errs = [] \<longrightarrow> int k = want"
      "slowStartBatch want SlowStartInitialBatchSize (create_ignoring_terminating lib cl rs) w =
        ((int k - int (length errs), case errs of [] \<Rightarrow> None | e # _ \<Rightarrow> Some e), w')"
    using slow_start_loop_calls [of 1 want "create_ignoring_terminating lib cl rs" w 0] want
    by (auto simp: slowStartBatch_def SlowStartInitialBatchSize_def)
  let ?ok = "int k - int (length errs)"
  have okb: "0 \<le> ?ok" "?ok \<le> want"
    using run_batch_length [of "create_ignoring_terminating lib cl rs" k w] k(1,2) by auto
  let ?s0 = "ExpectCreations (xl_ctl xl) (ut_ctl u) key want (t_expect clk)"
  let ?e = "\<lparr>ce_add = want, ce_del = 0, ce_key = key, ce_timestamp = t_expect clk\<rparr>"
  let ?u' = "u\<lparr>ut_ctl := ((\<lambda>s. CreationObserved (xl_ctl xl) s key) ^^ nat (want - ?ok)) ?s0\<rparr>"
  have e: "GetExpectations (xl_ctl xl) ?s0 key = Some ?e" using assms(1) want by (simp add: exp_defs)
  have "GetExpectations (xl_ctl xl) (ut_ctl ?u') key = Some \<lparr>ce_add = ?ok, ce_del = 0, ce_key = key, ce_timestamp = t_expect clk\<rparr>"
    using creations_observed [OF assms(1) e, of "nat (want - ?ok)"] want okb by simp
  moreover have "manageReplicas lib xl cl sched clk active rs u w =
      Some ((case errs of [] \<Rightarrow> None | e # _ \<Rightarrow> Some e, active), ?u', w')"
    using assms(2-4) k(4) okb
    by (cases "want = ?ok") (simp_all add: manageReplicas_def Let_def assms(5) [symmetric])
  ultimately show ?thesis using k(1-3) by blast
qed

theorem manageReplicas_scale_up_witness:
  "\<exists>k errs w' u'. run_batch (create_ignoring_terminating ex_rlib ex_rclient (ex_replica_set 3)) k [] = (errs, w') \<and>
    manageReplicas ex_rlib ex_xlib ex_rclient rev ex_clock [ex_nf ''a'' ''t1'' NetworkFunctionRunning]
      (ex_replica_set 3) \<lparr>ut_ctl = [], ut_uidStore = []\<rparr> [] =
      Some ((case errs of [] \<Rightarrow> None | e # _ \<Rightarrow> Some e, [ex_nf ''a'' ''t1'' NetworkFunctionRunning]), u', w')"
  using manageReplicas_scale_up [of ex_xlib "ex_replica_set 3" 3 ex_rlib "''default/fw-1''"
      "[ex_nf ''a'' ''t1'' NetworkFunctionRunning]" 2 ex_rclient "[]" rev ex_clock "\<lparr>ut_ctl = [], ut_uidStore = []\<rparr>"]
  by (auto simp: BurstReplicas_def)

text \<open>
  Scaling down. With more active functions than desired, and whatever order the deletions run
  in, \<open>manageReplicas\<close> deletes exactly \<open>min surplus 500\<close> of them, each once, in the replica set's
  namespace, and waits for the keys of just those.
\<close>

theorem manageReplicas_scale_down:
  assumes "store_ok (xl_ctl xl)" "store_ok (xl_uid xl)" "rss_Replicas (rs_Spec rs) = Some n"
    and "rl_KeyFunc lib rs = Inr key" "0 \<le> n" "n < int (length active)"
    and "\<And>w k. rc_DeleteNF cl w k = (None, w @ [k])" "\<And>xs. mset (sched xs) = mset xs"
    and "k = nat (min (int (length active) - n) BurstReplicas)"
  shows "\<exists>active' del u' gone. manageReplicas lib xl cl sched clk active rs u w =
      Some ((None, active'), u', w @ map (\<lambda>nf. (om_Namespace rs, om_Name nf)) gone) \<and>
    mset active' = mset active \<and> del = take k active' \<and> length del = k \<and> mset gone = mset del \<and>
    waits_for xl u' key (set (GetNFKeys del)) (t_expect clk)"
proof -
  let ?related = "case getIndirectlyRelatedNFs lib cl rs w of Inl _ \<Rightarrow> [] | Inr nfs \<Rightarrow> nfs"
  obtain active' del where g: "GetNFsToDelete lib (t_rank clk) active ?related k = (active', del)" by fastforce
  note parts = GetNFsToDelete_parts [OF g]
  have k: "k \<le> length active" "k \<le> 500" using assms(5,6,9) by (auto simp: BurstReplicas_def)
  have len: "length active' = length active" using parts(1) by (metis size_mset)
  then have del: "length del = k" using parts(2) k by simp
  let ?u' = "ExpectDeletions xl u key (GetNFKeys del) (t_expect clk)"
  have "waits_for xl ?u' key (set (GetNFKeys del)) (t_expect clk)"
    using del k by (intro ExpectDeletions_waits assms(1,2)) (simp add: GetNFKeys_def)
  moreover have "manageReplicas lib xl cl sched clk active rs u w =
      Some ((None, active'), ?u', w @ map (\<lambda>nf. (om_Namespace rs, om_Name nf)) (sched del))"
    using assms(3-6) g delete_loop_records [OF assms(7), of xl _ _ "sched del"]
    by (simp add: manageReplicas_def Let_def assms(9))
  ultimately show ?thesis using parts del assms(8) by blast
qed

theorem manageReplicas_scale_down_witness:
  "\<exists>active' u' gone. manageReplicas ex_rlib ex_xlib ex_rclient rev ex_clock
      [ex_nf ''a'' ''t1'' NetworkFunctionRunning, ex_nf ''b'' '''' NetworkFunctionPending]
      (ex_replica_set 1) \<lparr>ut_ctl = [], ut_uidStore = []\<rparr> [] =
      Some ((None, active'), u', [] @ map (\<lambda>nf. (''default'', om_Name nf)) (gone :: nf list)) \<and> length gone = 1"
proof -
  let ?active = "[ex_nf ''a'' ''t1'' NetworkFunctionRunning, ex_nf ''b'' '''' NetworkFunctionPending]"
  have "\<exists>active' del u' gone. manageReplicas ex_rlib ex_xlib ex_rclient rev ex_clock ?active
      (ex_replica_set 1) \<lparr>ut_ctl = [], ut_uidStore = []\<rparr> [] =
      Some ((None, active'), u', [] @ map (\<lambda>nf. (om_Namespace (ex_replica_set 1), om_Name nf)) (gone :: nf list)) \<and>
    mset active' = mset ?active \<and> del = take 1 active' \<and> length del = 1 \<and> mset gone = mset del \<and>
    waits_for ex_xlib u' ''default/fw-1'' (set (GetNFKeys del)) (t_expect ex_clock)"
    by (rule manageReplicas_scale_down [where n = 1]) (simp_all add: BurstReplicas_def)
  then obtain active' del u' gone where g: "manageReplicas ex_rlib ex_xlib ex_rclient rev ex_clock ?active
      (ex_replica_set 1) \<lparr>ut_ctl = [], ut_uidStore = []\<rparr> [] =
      Some ((None, active'), u', [] @ map (\<lambda>nf. (om_Namespace (ex_replica_set 1), om_Name nf)) (gone :: nf list))"
      "length del = 1" "mset gone = mset del" by (elim exE conjE) (rule that)
  have "length gone = 1" using g(2,3) by (metis size_mset)
  with g(1) show ?thesis by auto
qed

text \<open>
  C9: scaling down takes the least useful functions: no function that is kept is in a lower class
  (unassigned, then assigned but not running, then running but not ready, then ready) than one
  that is deleted.
\<close>

theorem deletes_least_useful_first:
  assumes "k < length active" "GetNFsToDelete lib now active related k = (active', del)"
    and "kept \<in> set (drop k active')" "gone \<in> set del"
  shows "deletion_class gone \<le> deletion_class kept"
proof -
  have "sorted (map deletion_class (take k active') @ map deletion_class (drop k active'))"
    using sorted_by_class [OF assms(1,2)] by (simp flip: map_append)
  then show ?thesis
    using assms(3,4) GetNFsToDelete_parts(2) [OF assms(2)] by (auto simp: sorted_append)
qed

theorem deletes_least_useful_first_witness:
  "deletion_class (ex_nf ''b'' '''' NetworkFunctionPending) \<le> deletion_class (ex_nf ''a'' ''t1'' NetworkFunctionRunning)"
proof (rule deletes_least_useful_first)
  show "1 < length [ex_nf ''a'' ''t1'' NetworkFunctionRunning, ex_nf ''b'' '''' NetworkFunctionPending]" by simp
  show "GetNFsToDelete ex_rlib 12 [ex_nf ''a'' ''t1'' NetworkFunctionRunning, ex_nf ''b'' '''' NetworkFunctionPending] [] 1 =
    ([ex_nf ''b'' '''' NetworkFunctionPending, ex_nf ''a'' ''t1'' NetworkFunctionRunning], [ex_nf ''b'' '''' NetworkFunctionPending])"
    by (simp add: GetNFsToDelete_def GetNFsRankedByRelatedNFsOnSameTarget_def ActiveNFsWithRanks_Less_def
        ex_nf_def ex_nf_spec_def Let_def)
qed simp_all

text \<open>
  The status counts: ready functions are among the active ones and available functions among
  the ready ones, the counts are the numbers of such functions, and the \<open>ReplicaFailure\<close> condition
  is present exactly when managing the replicas failed.
\<close>

theorem RS_calculateStatus_correct:
  assumes "rss_Replicas (rs_Spec rs) = Some n" "int (length active) < 2 ^ 31"
  shows "\<exists>st. calculateStatus lib clk rs active err = Some st \<and>
    rst_Replicas st = int (length active) \<and>
    rst_ReadyReplicas st = int (length (filter IsNFReady active)) \<and>
    rst_AvailableReplicas st =
      int (length (filter (\<lambda>b. IsNFAvailable b (rss_MinReadySeconds (rs_Spec rs)) (t_status clk)) active)) \<and>
    0 \<le> rst_AvailableReplicas st \<and> rst_AvailableReplicas st \<le> rst_ReadyReplicas st \<and>
    rst_ReadyReplicas st \<le> rst_Replicas st \<and>
    (GetCondition st ReplicaSetReplicaFailure = None \<longleftrightarrow> err = None)"
proof -
  let ?av = "\<lambda>b. IsNFAvailable b (rss_MinReadySeconds (rs_Spec rs)) (t_status clk)"
  have both: "filter (\<lambda>b. IsNFReady b \<and> ?av b) active = filter ?av active"
    by (rule filter_cong) (auto dest: IsNFAvailable_ready)
  have le: "length (filter ?av active) \<le> length (filter IsNFReady active)"
    unfolding both [symmetric] filter_filter [symmetric] by (metis (no_types, lifting) filter_filter length_filter_le)
  have id: "i32 (int (length (filter P active))) = int (length (filter P active))" for P
    using assms(2) length_filter_le [of P active] by (intro i32_id in_i32I) linarith+
  have id0: "i32 (int (length active)) = int (length active)" using assms(2) by (intro i32_id in_i32I) auto
  note counts = CountReplicas_eq both id id0
  let ?c = "\<lambda>e reason. NewReplicaSetCondition (t_condition clk) ReplicaSetReplicaFailure ConditionTrue reason (rl_ErrorString lib e)"
  have set: "find (\<lambda>x. c_Type x = ReplicaSetReplicaFailure)
      (upd_rs_condition (t_condition clk) (rst_Conditions (rs_Status rs)) (?c e reason)) \<noteq> None" for e reason
    using rs_conditions.upd_lookup [of "?c e reason" "t_condition clk" "rst_Conditions (rs_Status rs)"]
    by (auto simp: NewReplicaSetCondition_def)
  have gone: "find (\<lambda>x. c_Type x = ReplicaSetReplicaFailure)
      (filter (\<lambda>x. c_Type x \<noteq> ReplicaSetReplicaFailure) (rst_Conditions (rs_Status rs))) = None"
    by (rule find_filter_disjoint) simp
  show ?thesis
  proof (cases err)
    case None
    then show ?thesis using le gone
      by (cases "GetCondition (rs_Status rs) ReplicaSetReplicaFailure")
         (auto simp: calculateStatus_def counts GetCondition_def RemoveCondition_def)
  next
    case (Some e)
    then show ?thesis using le set assms(1)
      by (cases "GetCondition (rs_Status rs) ReplicaSetReplicaFailure")
         (simp_all add: calculateStatus_def counts GetCondition_def SetCondition_upd Let_def)
  qed
qed

theorem RS_calculateStatus_correct_witness:
  "\<exists>st. calculateStatus ex_rlib ex_clock (ex_replica_set 2) [ex_nf ''a'' ''t1'' NetworkFunctionRunning]
      (Some (ApiError Conflict)) = Some st \<and> GetCondition st ReplicaSetReplicaFailure \<noteq> None"
  using RS_calculateStatus_correct [of "ex_replica_set 2" 2 "[ex_nf ''a'' ''t1'' NetworkFunctionRunning]" ex_rlib ex_clock
      "Some (ApiError Conflict)"] by auto

text \<open>
  The planned availability check is exact: when \<open>nextNFAvailabilityCheck\<close> asks to look again in
  \<open>d\<close>, the function is not available at any earlier time and is available at that time (its ready
  condition being unchanged).
\<close>

theorem next_check_is_exact:
  assumes "nextNFAvailabilityCheck nf m now = Some d" and "m < 2 ^ 31"
    and "GetNFCondition nf NFReady = Some c" and "c_LastTransitionTime c + m * Second - now < 2 ^ 63"
  shows "IsNFAvailable nf m (now + d) \<and> (\<forall>t. t < now + d \<longrightarrow> \<not> IsNFAvailable nf m t)"
proof -
  let ?l = "c_LastTransitionTime c"
  have c: "GetNFReadyCondition (nf_Status nf) = Some c"
    using assms(3) by (simp add: GetNFReadyCondition_def GetNFCondition_def)
  have ready: "c_Status c = ConditionTrue" and m: "0 < m"
    using assms(1,3) by (auto simp: nextNFAvailabilityCheck_def IsNFReady_def split: if_splits)
  have ms: "i64 (m * Second) = m * Second" "0 < m * Second" "m * Second < 2 ^ 62"
    using m assms(2) by (simp_all add: Second_def)
  have d: "d = time_Sub (?l + m * Second) now" "0 < d"
    using assms(1) c ms(1) by (auto simp: nextNFAvailabilityCheck_def Let_def split: if_splits)
  have dd: "d = ?l + m * Second - now" using d assms(4) by (auto simp: time_Sub_def)
  have "IsNFAvailable nf m t \<longleftrightarrow> ?l + m * Second \<le> t" for t
    using assms(3) ready ms by (auto simp: IsNFAvailable_def time_Sub_def)
  then show ?thesis using dd by simp
qed

theorem next_check_is_exact_witness:
  "IsNFAvailable ((ex_nf ''a'' ''t1'' NetworkFunctionRunning)\<lparr>nf_Status := (nf_Status (ex_nf ''a'' ''t1'' NetworkFunctionRunning))
      \<lparr>nft_Conditions := [\<lparr>c_Type = NFReady, c_Status = ConditionTrue, c_LastTransitionTime = 100, c_Reason = '''',
         c_Message = '''', c_LastProbeTime = 0\<rparr>]\<rparr>\<rparr>) 2 (500 + (2000000100 - 500))"
proof -
  let ?nf = "(ex_nf ''a'' ''t1'' NetworkFunctionRunning)\<lparr>nf_Status := (nf_Status (ex_nf ''a'' ''t1'' NetworkFunctionRunning))
      \<lparr>nft_Conditions := [\<lparr>c_Type = NFReady, c_Status = ConditionTrue, c_LastTransitionTime = 100, c_Reason = '''',
         c_Message = '''', c_LastProbeTime = 0\<rparr>]\<rparr>\<rparr>"
  have "nextNFAvailabilityCheck ?nf 2 500 = Some (2000000100 - 500)" by code_simp
  then show ?thesis
    using next_check_is_exact [of ?nf 2 500 "2000000100 - 500"] by (simp add: GetNFCondition_def Second_def)
qed

text \<open>
  The controller never counts the functions it creates: they carry the owner reference of
  \<open>SetOwnerReference\<close>, which is not a controller reference, while \<open>filterOwnedPods\<close> keeps only
  functions controlled by the replica set. So the active count stays below the desired one and every
  sync creates the full number again.
\<close>

theorem created_nfs_never_counted:
  assumes "\<And>rs nf nf'. rl_SetOwnerReference lib rs nf = Inr nf' \<Longrightarrow>
      \<exists>r. om_OwnerReferences nf' = om_OwnerReferences nf @ [r] \<and> \<not> or_Controller r"
    and "\<And>nf rs. rl_IsControlledBy lib nf rs \<Longrightarrow> \<exists>r \<in> set (om_OwnerReferences nf). or_Controller r"
    and "GetNetworkFunctionFromRS lib rs = Inr nf"
    and "\<forall>s \<in> set stored. om_OwnerReferences s = om_OwnerReferences nf"
  shows "filterOwnedPods lib rs stored = []"
proof -
  obtain nf0 nf1 where "rl_SetOwnerReference lib rs nf0 = Inr nf1" "om_OwnerReferences nf0 = []"
      "om_OwnerReferences nf = om_OwnerReferences nf1"
    using assms(3) by (fastforce simp: GetNetworkFunctionFromRS_def Let_def split: sum.splits)
  with assms(1) [of rs nf0 nf1] obtain r where r: "om_OwnerReferences nf = [r]" "\<not> or_Controller r" by auto
  have "\<not> rl_IsControlledBy lib s rs" if "s \<in> set stored" for s
  proof
    assume "rl_IsControlledBy lib s rs"
    then obtain r' where "r' \<in> set (om_OwnerReferences s)" "or_Controller r'" using assms(2) by blast
    with that assms(4) r show False by auto
  qed
  then show ?thesis unfolding filterOwnedPods_def by (simp add: filter_empty_conv)
qed

theorem created_nfs_never_counted_witness:
  "\<exists>nf. GetNetworkFunctionFromRS ex_rlib (ex_replica_set 2) = Inr nf \<and>
     filterOwnedPods ex_rlib (ex_replica_set 2) [nf\<lparr>om_Name := ''fw-1-x''\<rparr>] = []"
proof -
  obtain nf where nf: "GetNetworkFunctionFromRS ex_rlib (ex_replica_set 2) = Inr nf"
    by (simp add: GetNetworkFunctionFromRS_def ex_rlib_def Let_def)
  have "filterOwnedPods ex_rlib (ex_replica_set 2) [nf\<lparr>om_Name := ''fw-1-x''\<rparr>] = []"
    by (rule created_nfs_never_counted [OF _ _ nf]) (auto simp: ex_rlib_def list_ex_iff)
  with nf show ?thesis by blast
qed

end
