(* ===== verification/NfGc.thy ===== *)
theory NfGc
  imports Api
begin

text \<open>
  The garbage collector of network functions (\<open>src/operator/internal/controller/core/nfgc\<close>, with
  \<open>pkg/util/nf\<close>, \<open>pkg/util/p4target\<close> and \<open>pkg/util/taints\<close>): a periodic pass over all functions that
  deletes terminated ones beyond a threshold, terminating ones on out-of-service targets, ones bound to
  targets that no longer exist, and terminating ones that were never scheduled.

  The passes share the objects they list, and marking a function changes the object. So the objects are
  a list, a pass takes it and returns it changed, and pointers into it are indices.
\<close>

section \<open>Helpers\<close>

definition TaintKeyExists :: "Taint list \<Rightarrow> string \<Rightarrow> bool" where
  "TaintKeyExists taints taintKeyToMatch = list_ex (\<lambda>taint. tt_Key taint = taintKeyToMatch) taints"

definition IsTargetReady :: "P4Target \<Rightarrow> bool" where
  "IsTargetReady target =
     (case find (\<lambda>c. c_Type c = P4TargetConditionReady) (ptt_Conditions (pt_Status target)) of
        None \<Rightarrow> False | Some c \<Rightarrow> c_Status c = ConditionTrue)"

fun GetNFConditionFromList ::
    "NetworkFunctionCondition list \<Rightarrow> string \<Rightarrow> (nat \<times> NetworkFunctionCondition) option" where
  "GetNFConditionFromList [] conditionType = None"
| "GetNFConditionFromList (c # conditions) conditionType =
     (if c_Type c = conditionType then Some (0, c)
      else map_option (\<lambda>(i, c). (Suc i, c)) (GetNFConditionFromList conditions conditionType))"

definition GetNFCondition ::
    "NetworkFunctionStatus option \<Rightarrow> string \<Rightarrow> (nat \<times> NetworkFunctionCondition) option" where
  "GetNFCondition status conditionType =
     (case status of None \<Rightarrow> None | Some st \<Rightarrow> GetNFConditionFromList (nft_Conditions st) conditionType)"

text \<open>The result is the flag and the status; the condition argument is not used by the callers again.\<close>

definition UpdateNFCondition ::
    "time \<Rightarrow> NetworkFunctionStatus \<Rightarrow> NetworkFunctionCondition \<Rightarrow> bool \<times> NetworkFunctionStatus" where
  "UpdateNFCondition now status condition =
     (let condition = condition\<lparr>c_LastTransitionTime := now\<rparr> in
      case GetNFCondition (Some status) (c_Type condition) of
        None \<Rightarrow> (True, status\<lparr>nft_Conditions := nft_Conditions status @ [condition]\<rparr>)
      | Some (conditionIndex, oldCondition) \<Rightarrow>
          (let condition = (if c_Status condition = c_Status oldCondition
                            then condition\<lparr>c_LastTransitionTime := c_LastTransitionTime oldCondition\<rparr> else condition);
               isEqual = (c_Status condition = c_Status oldCondition \<and> c_Reason condition = c_Reason oldCondition \<and>
                          c_Message condition = c_Message oldCondition \<and>
                          c_LastProbeTime condition = c_LastProbeTime oldCondition \<and>
                          c_LastTransitionTime condition = c_LastTransitionTime oldCondition)
           in (\<not> isEqual, status\<lparr>nft_Conditions := (nft_Conditions status)[conditionIndex := condition]\<rparr>)))"

section \<open>Order of deletion (\<open>sort.go\<close>)\<close>

definition NFIsEvicted :: "NetworkFunctionStatus \<Rightarrow> bool" where
  "NFIsEvicted podStatus \<longleftrightarrow> nft_Phase podStatus = NetworkFunctionFailed \<and> nft_Reason podStatus = ReasonEvicted"

definition byEvictionAndCreationTimestamp_Less :: "nf \<Rightarrow> nf \<Rightarrow> bool" where
  "byEvictionAndCreationTimestamp_Less a b =
     (let iEvicted = NFIsEvicted (nf_Status a); jEvicted = NFIsEvicted (nf_Status b) in
      if iEvicted \<noteq> jEvicted then iEvicted
      else if om_CreationTimestamp a = om_CreationTimestamp b then str_less (om_Name a) (om_Name b)
      else om_CreationTimestamp a < om_CreationTimestamp b)"

section \<open>The client and the queue\<close>

text \<open>
  The API client, and the delaying work queue of client-go that holds the names of unknown targets
  during their quarantine.
\<close>

record 'w gc_client =
  gc_ListNFs :: "'w \<Rightarrow> go_error + nf list"
  gc_ListTargets :: "'w \<Rightarrow> go_error + P4Target list"
  gc_GetTarget :: "'w \<Rightarrow> string \<Rightarrow> go_error + P4Target"
  gc_StatusPatch :: "'w \<Rightarrow> nf \<Rightarrow> nf \<Rightarrow> (go_error + nf) \<times> 'w"
  gc_Delete :: "'w \<Rightarrow> nf \<Rightarrow> go_error option \<times> 'w"

record 'q queue_ops =
  q_AddAfter :: "'q \<Rightarrow> string \<Rightarrow> duration \<Rightarrow> 'q"
  q_Len :: "'q \<Rightarrow> nat"
  q_Get :: "'q \<Rightarrow> (string \<times> bool) \<times> 'q"
  q_Done :: "'q \<Rightarrow> string \<Rightarrow> 'q"

record gc_config =
  TerminatedNFThreshold :: int
  QuarantineTime :: duration

section \<open>The passes\<close>

definition isNFTerminated :: "nf \<Rightarrow> bool" where
  "isNFTerminated nf \<longleftrightarrow> nft_Phase (nf_Status nf) \<noteq> NetworkFunctionPending \<and> nft_Phase (nf_Status nf) \<noteq> NetworkFunctionRunning"

definition isNFTerminating :: "nf \<Rightarrow> bool" where
  "isNFTerminating nf \<longleftrightarrow> om_DeletionTimestamp nf \<noteq> None"

text \<open>The result: the error, the object as it is afterwards, and the world.\<close>

definition markFailedAndDeleteNFWithCondition ::
    "'w gc_client \<Rightarrow> time \<Rightarrow> nf \<Rightarrow> NetworkFunctionCondition option \<Rightarrow> 'w \<Rightarrow> go_error option \<times> nf \<times> 'w" where
  "markFailedAndDeleteNFWithCondition cl now nf condition w =
     (if nft_Phase (nf_Status nf) \<noteq> NetworkFunctionFailed
      then (let status = (nf_Status nf)\<lparr>nft_Phase := NetworkFunctionFailed, nft_ObservedGeneration := om_Generation nf\<rparr>;
                status = (case condition of None \<Rightarrow> status | Some c \<Rightarrow> snd (UpdateNFCondition now status c));
                marked = nf\<lparr>nf_Status := status\<rparr>
            in case gc_StatusPatch cl w nf marked of
                 (Inl err, w) \<Rightarrow> (Some err, marked, w)
               | (Inr answer, w) \<Rightarrow> (case gc_Delete cl w answer of (err, w) \<Rightarrow> (err, answer, w)))
      else (case gc_Delete cl w nf of (err, w) \<Rightarrow> (err, nf, w)))"

definition markFailedAndDeleteNF :: "'w gc_client \<Rightarrow> time \<Rightarrow> nf \<Rightarrow> 'w \<Rightarrow> go_error option \<times> nf \<times> 'w" where
  "markFailedAndDeleteNF cl now nf w = markFailedAndDeleteNFWithCondition cl now nf None w"

definition checkIfTargetExists :: "'w gc_client \<Rightarrow> string \<Rightarrow> 'w \<Rightarrow> bool \<times> go_error option" where
  "checkIfTargetExists cl name w =
     (case gc_GetTarget cl w name of
        Inl fetchErr \<Rightarrow> if IsNotFound fetchErr then (False, None) else (False, Some fetchErr)
      | Inr _ \<Rightarrow> (True, None))"

text \<open>
  The loop that empties the queue of names whose quarantine is over. \<open>Inr\<close> are the deleted targets,
  \<open>Inl ()\<close> says that the queue was shut down. It is a loop over the queue, so not returning is \<open>None\<close>.
\<close>

partial_function (option) discoverDeletedTargets ::
    "'w gc_client \<Rightarrow> 'q queue_ops \<Rightarrow> string list \<Rightarrow> 'w \<Rightarrow> string list \<Rightarrow> 'q \<Rightarrow> ((unit + string list) \<times> 'q) option" where
  "discoverDeletedTargets cl qo existingTargetNames w deletedTargetNames q =
     (if q_Len qo q > 0
      then (case q_Get qo q of ((item, quit), q1) \<Rightarrow>
              if quit then Some (Inl (), q1)
              else discoverDeletedTargets cl qo existingTargetNames w
                     (if item \<notin> set existingTargetNames \<and> checkIfTargetExists cl item w = (False, None)
                      then List.insert item deletedTargetNames else deletedTargetNames)
                     (q_Done qo q1 item))
      else Some (Inr deletedTargetNames, q))"

text \<open>
  The goroutines of a pass each mark and delete one object. They run in the order a scheduler \<open>sched\<close>
  picks; their errors are logged.
\<close>

fun gc_delete_all :: "'w gc_client \<Rightarrow> time \<Rightarrow> NetworkFunctionCondition option \<Rightarrow> nat list \<Rightarrow> nf list \<Rightarrow> 'w \<Rightarrow> nf list \<times> 'w" where
  "gc_delete_all cl now condition [] nfs w = (nfs, w)"
| "gc_delete_all cl now condition (i # rest) nfs w =
     (case markFailedAndDeleteNFWithCondition cl now (nfs ! i) condition w of
        (err, nf, w) \<Rightarrow> gc_delete_all cl now condition rest (nfs[i := nf]) w)"

definition gcTerminated ::
    "'w gc_client \<Rightarrow> (nat list \<Rightarrow> nat list) \<Rightarrow> time \<Rightarrow> int \<Rightarrow> nf list \<Rightarrow> 'w \<Rightarrow> nf list \<times> 'w" where
  "gcTerminated cl sched now threshold nfs w =
     (let terminatedNfs = filter (\<lambda>i. isNFTerminated (nfs ! i)) [0..<length nfs];
          deleteCount = int (length terminatedNfs) - threshold
      in if deleteCount \<le> 0 then (nfs, w)
         else (let sorted_nfs = go_sort (\<lambda>i j. byEvictionAndCreationTimestamp_Less (nfs ! i) (nfs ! j)) terminatedNfs
               in gc_delete_all cl now None (sched (take (nat deleteCount) sorted_nfs)) nfs w))"

definition on_dead_target :: "'w gc_client \<Rightarrow> 'w \<Rightarrow> nf \<Rightarrow> bool" where
  "on_dead_target cl w nf =
     (case gc_GetTarget cl w (nfs_TargetName (nf_Spec nf)) of
        Inl _ \<Rightarrow> False
      | Inr target \<Rightarrow> \<not> IsTargetReady target \<and> TaintKeyExists (pts_Taints (pt_Spec target)) TaintP4TargetOutOfService)"

definition gcTerminating ::
    "'w gc_client \<Rightarrow> (nat list \<Rightarrow> nat list) \<Rightarrow> time \<Rightarrow> nf list \<Rightarrow> 'w \<Rightarrow> nf list \<times> 'w" where
  "gcTerminating cl sched now nfs w =
     (let terminatingNFs = filter (\<lambda>i. isNFTerminating (nfs ! i) \<and> on_dead_target cl w (nfs ! i)) [0..<length nfs]
      in if length terminatingNFs = 0 then (nfs, w)
         else gc_delete_all cl now None
                (sched (go_sort (\<lambda>i j. byEvictionAndCreationTimestamp_Less (nfs ! i) (nfs ! j)) terminatingNFs)) nfs w)"

definition orphan_condition :: NetworkFunctionCondition where
  "orphan_condition = \<lparr>c_Type = DisruptionTarget, c_Status = ConditionTrue, c_LastTransitionTime = 0,
     c_Reason = ''DeletionByNetworkFunctionGC'', c_Message = ''NFGC: target no longer exists'', c_LastProbeTime = 0\<rparr>"

text \<open>
  The loops of the last two passes test each object when they reach it. An object is not changed by
  the deletion of another, so the indices can be chosen first.
\<close>

definition gcOrphaned ::
    "'w gc_client \<Rightarrow> 'q queue_ops \<Rightarrow> time \<Rightarrow> duration \<Rightarrow> nf list \<Rightarrow> P4Target list \<Rightarrow> 'q \<Rightarrow> 'w \<Rightarrow> (nf list \<times> 'q \<times> 'w) option" where
  "gcOrphaned cl qo now quarantine nfs targets q w =
     (let existing = map om_Name targets;
          q = foldl (\<lambda>q nf. if nfs_TargetName (nf_Spec nf) \<noteq> '''' \<and> nfs_TargetName (nf_Spec nf) \<notin> set existing
                            then q_AddAfter qo q (nfs_TargetName (nf_Spec nf)) quarantine else q) q nfs
      in case discoverDeletedTargets cl qo existing w [] q of
           None \<Rightarrow> None
         | Some (Inl _, q) \<Rightarrow> Some (nfs, q, w)
         | Some (Inr deleted, q) \<Rightarrow>
             (case gc_delete_all cl now (Some orphan_condition)
                     (filter (\<lambda>i. nfs_TargetName (nf_Spec (nfs ! i)) \<in> set deleted) [0..<length nfs]) nfs w of
                (nfs, w) \<Rightarrow> Some (nfs, q, w)))"

definition gcUnscheduledTerminating :: "'w gc_client \<Rightarrow> time \<Rightarrow> nf list \<Rightarrow> 'w \<Rightarrow> nf list \<times> 'w" where
  "gcUnscheduledTerminating cl now nfs w =
     gc_delete_all cl now None
       (filter (\<lambda>i. \<not> (om_DeletionTimestamp (nfs ! i) = None \<or> length (nfs_TargetName (nf_Spec (nfs ! i))) > 0))
          [0..<length nfs]) nfs w"

definition Reconcile ::
    "'w gc_client \<Rightarrow> 'q queue_ops \<Rightarrow> gc_config \<Rightarrow> (nat list \<Rightarrow> nat list) \<Rightarrow> time \<Rightarrow> 'q \<Rightarrow> 'w \<Rightarrow> ('q \<times> 'w) option" where
  "Reconcile cl qo cfg sched now q w =
     (case gc_ListNFs cl w of
        Inl err \<Rightarrow> Some (q, w)
      | Inr nfs \<Rightarrow>
          (case gc_ListTargets cl w of
             Inl err \<Rightarrow> Some (q, w)
           | Inr allTargets \<Rightarrow>
               (let (nfs, w) = (if TerminatedNFThreshold cfg > 0
                                then gcTerminated cl sched now (TerminatedNFThreshold cfg) nfs w else (nfs, w));
                    (nfs, w) = gcTerminating cl sched now nfs w
                in case gcOrphaned cl qo now (QuarantineTime cfg) nfs allTargets q w of
                     None \<Rightarrow> None
                   | Some (nfs, q, w) \<Rightarrow> Some (q, snd (gcUnscheduledTerminating cl now nfs w)))))"

section \<open>The order of deletion\<close>

lemma gc_Less_negtrans:
  assumes "\<not> byEvictionAndCreationTimestamp_Less x y" "\<not> byEvictionAndCreationTimestamp_Less y z"
  shows "\<not> byEvictionAndCreationTimestamp_Less x z"
  using assms str_less_trans str_less_total
  by (auto simp: byEvictionAndCreationTimestamp_Less_def Let_def split: if_splits) (metis str_less_trans str_less_total)+

interpretation gc_order: keyed_order byEvictionAndCreationTimestamp_Less om_Name
proof (unfold_locales, goal_cases)
  case (1 x y)
  then show ?case
    by (auto simp: byEvictionAndCreationTimestamp_Less_def Let_def split: if_splits) (metis str_less_trans str_less_irrefl)+
next
  case (2 x y z)
  then show ?case by (rule gc_Less_negtrans)
next
  case (3 x y)
  then show ?case using str_less_total by (auto simp: byEvictionAndCreationTimestamp_Less_def Let_def)
qed

section \<open>What a pass sends\<close>

text \<open>
  A client over the log of the requests it was sent. A status patch may fail; the answer of a
  successful one is the object as patched, up to bookkeeping fields.
\<close>

datatype gc_event = Marked nf | Deleted nf

fun ev_obj :: "gc_event \<Rightarrow> nf" where
  "ev_obj (Marked n) = n"
| "ev_obj (Deleted n) = n"

definition same_obj :: "nf \<Rightarrow> nf \<Rightarrow> bool" where
  "same_obj a b \<longleftrightarrow> meta_key a = meta_key b \<and> nf_Spec a = nf_Spec b \<and> om_DeletionTimestamp a = om_DeletionTimestamp b"

definition logs :: "gc_event list gc_client \<Rightarrow> bool" where
  "logs cl \<longleftrightarrow>
     (\<forall>w n0 n. snd (gc_StatusPatch cl w n0 n) = w @ [Marked n] \<and>
        (\<forall>a. fst (gc_StatusPatch cl w n0 n) = Inr a \<longrightarrow> same_obj a n \<and> nf_Status a = nf_Status n)) \<and>
     (\<forall>w n. snd (gc_Delete cl w n) = w @ [Deleted n])"

lemma logsD:
  assumes "logs cl"
  shows "snd (gc_StatusPatch cl w n0 n) = w @ [Marked n]"
    and "gc_StatusPatch cl w n0 n = (Inr a, w') \<Longrightarrow> same_obj a n \<and> nf_Status a = nf_Status n"
    and "snd (gc_Delete cl w n) = w @ [Deleted n]"
  using assms unfolding logs_def by (blast, metis fst_conv, blast)

lemma same_obj_refl [simp]: "same_obj n n" "same_obj (n\<lparr>nf_Status := s\<rparr>) n" "same_obj n (n\<lparr>nf_Status := s\<rparr>)"
  by (simp_all add: same_obj_def meta_key_def)

lemma same_obj_trans: "same_obj a b \<Longrightarrow> same_obj b c \<Longrightarrow> same_obj a c"
  by (simp add: same_obj_def)

definition sent_about :: "nf \<Rightarrow> gc_event list \<Rightarrow> bool" where
  "sent_about nf evs \<longleftrightarrow> (\<forall>e \<in> set evs. same_obj (ev_obj e) nf) \<and>
     (\<forall>n. Deleted n \<in> set evs \<longrightarrow> nft_Phase (nf_Status n) = NetworkFunctionFailed)"

lemma UpdateNFCondition_phase [simp]: "nft_Phase (snd (UpdateNFCondition now st c)) = nft_Phase st"
  by (simp add: UpdateNFCondition_def Let_def split: option.splits)

lemma mark_log:
  assumes "logs cl" "markFailedAndDeleteNFWithCondition cl now nf c w = (err, nf', w')"
  shows "same_obj nf' nf \<and> (\<exists>evs. w' = w @ evs \<and> sent_about nf evs)"
proof (cases "nft_Phase (nf_Status nf) = NetworkFunctionFailed")
  case True
  then have "nf' = nf \<and> w' = w @ [Deleted nf]"
    using assms(2) logsD(3) [OF assms(1), of w nf]
    by (auto simp: markFailedAndDeleteNFWithCondition_def split: prod.splits)
  then show ?thesis using True by (simp add: sent_about_def)
next
  case False
  define m where "m = nf\<lparr>nf_Status := (case c of None \<Rightarrow> (nf_Status nf)\<lparr>nft_Phase := NetworkFunctionFailed, nft_ObservedGeneration := om_Generation nf\<rparr>
     | Some c \<Rightarrow> snd (UpdateNFCondition now ((nf_Status nf)\<lparr>nft_Phase := NetworkFunctionFailed, nft_ObservedGeneration := om_Generation nf\<rparr>) c))\<rparr>"
  have m: "nft_Phase (nf_Status m) = NetworkFunctionFailed" "same_obj m nf"
    by (simp_all add: m_def split: option.splits)
  obtain r w1 where p: "gc_StatusPatch cl w nf m = (r, w1)" by (cases "gc_StatusPatch cl w nf m")
  have w1: "w1 = w @ [Marked m]" using logsD(1) [OF assms(1), of w nf m] p by simp
  have run: "markFailedAndDeleteNFWithCondition cl now nf c w =
      (case r of Inl err \<Rightarrow> (Some err, m, w1) | Inr a \<Rightarrow> (case gc_Delete cl w1 a of (err, w2) \<Rightarrow> (err, a, w2)))"
    using False p unfolding m_def by (cases c; cases r) (simp_all add: markFailedAndDeleteNFWithCondition_def Let_def)
  show ?thesis
  proof (cases r)
    case (Inl e)
    then have "nf' = m" "w' = w @ [Marked m]" using run assms(2) w1 by auto
    then show ?thesis using m by (auto simp: sent_about_def)
  next
    case (Inr a)
    then have a: "same_obj a m" "nf_Status a = nf_Status m" using logsD(2) [OF assms(1)] p by blast+
    have "nf' = a" "w' = w @ [Marked m, Deleted a]"
      using run assms(2) w1 Inr logsD(3) [OF assms(1), of w1 a] by (auto split: prod.splits)
    then show ?thesis using m a same_obj_trans [OF a(1) m(2)] by (auto simp: sent_about_def)
  qed
qed

lemma gc_delete_all_log:
  assumes "logs cl" "set is \<subseteq> {..<length nfs}" "gc_delete_all cl now c is nfs w = (nfs', w')"
  shows "list_all2 same_obj nfs' nfs \<and> (\<exists>evs. w' = w @ evs \<and>
    (\<forall>e \<in> set evs. \<exists>i \<in> set is. same_obj (ev_obj e) (nfs ! i)) \<and>
    (\<forall>n. Deleted n \<in> set evs \<longrightarrow> nft_Phase (nf_Status n) = NetworkFunctionFailed))"
  using assms(2,3)
proof (induction "is" arbitrary: nfs w)
  case Nil
  then show ?case by (simp add: list_all2_conv_all_nth)
next
  case (Cons i rest)
  obtain err n w1 where mk: "markFailedAndDeleteNFWithCondition cl now (nfs ! i) c w = (err, n, w1)"
    by (cases "markFailedAndDeleteNFWithCondition cl now (nfs ! i) c w")
  from mark_log [OF assms(1) mk] obtain evs1 where n: "same_obj n (nfs ! i)" "w1 = w @ evs1" "sent_about (nfs ! i) evs1" by blast
  have run: "gc_delete_all cl now c rest (nfs[i := n]) w1 = (nfs', w')" using Cons.prems(2) mk by simp
  have in_range: "set rest \<subseteq> {..<length (nfs[i := n])}" "i < length nfs" using Cons.prems(1) by auto
  have step: "same_obj (nfs[i := n] ! j) (nfs ! j)" if "j < length nfs" for j
    using n(1) that by (cases "j = i") auto
  from Cons.IH [OF in_range(1) run] obtain evs2 where e2: "list_all2 same_obj nfs' (nfs[i := n])" "w' = w1 @ evs2"
      "\<forall>e \<in> set evs2. \<exists>j \<in> set rest. same_obj (ev_obj e) (nfs[i := n] ! j)"
      "\<forall>n. Deleted n \<in> set evs2 \<longrightarrow> nft_Phase (nf_Status n) = NetworkFunctionFailed" by blast
  have "list_all2 same_obj nfs' nfs"
    using e2(1) step by (auto simp: list_all2_conv_all_nth) (metis same_obj_trans)
  moreover have "\<exists>j \<in> set (i # rest). same_obj (ev_obj e) (nfs ! j)" if e: "e \<in> set (evs1 @ evs2)" for e
  proof (cases "e \<in> set evs1")
    case True
    then show ?thesis using n(3) by (auto simp: sent_about_def)
  next
    case False
    then obtain j where "j \<in> set rest" "same_obj (ev_obj e) (nfs[i := n] ! j)" using e2(3) e by auto
    then show ?thesis using step [of j] in_range same_obj_trans by fastforce
  qed
  moreover have "Deleted x \<in> set (evs1 @ evs2) \<Longrightarrow> nft_Phase (nf_Status x) = NetworkFunctionFailed" for x
    using n(3) e2(4) by (auto simp: sent_about_def)
  ultimately show ?case using n(2) e2(2) by (intro conjI exI [of _ "evs1 @ evs2"]) auto
qed

section \<open>The queue\<close>

text \<open>
  The behaviour of the work queue the collector relies on, while nothing else is added to it:
  \<open>items\<close> are the names it holds, waiting or ready; taking one makes the queue of ready names shorter.
\<close>

definition quiet_queue :: "'q queue_ops \<Rightarrow> ('q \<Rightarrow> string set) \<Rightarrow> bool" where
  "quiet_queue qo items \<longleftrightarrow>
     (\<forall>q x d. items (q_AddAfter qo q x d) \<subseteq> insert x (items q)) \<and>
     (\<forall>q. q_Len qo q > 0 \<longrightarrow> fst (fst (q_Get qo q)) \<in> items q \<and> items (snd (q_Get qo q)) \<subseteq> items q \<and>
        q_Len qo (snd (q_Get qo q)) < q_Len qo q) \<and>
     (\<forall>q x. items (q_Done qo q x) \<subseteq> items q \<and> q_Len qo (q_Done qo q x) \<le> q_Len qo q)"

lemma discover_returns:
  assumes "quiet_queue qo items" "'''' \<notin> items q" "'''' \<notin> set del" "set del \<inter> set existing = {}"
  shows "\<exists>r q'. discoverDeletedTargets cl qo existing w del q = Some (r, q') \<and> '''' \<notin> items q' \<and>
    (\<forall>d. r = Inr d \<longrightarrow> '''' \<notin> set d \<and> set d \<inter> set existing = {})"
  using assms(2-4)
proof (induction "q_Len qo q" arbitrary: q del rule: less_induct)
  case less
  show ?case
  proof (cases "q_Len qo q > 0")
    case False
    then show ?thesis using less.prems by (subst discoverDeletedTargets.simps) simp
  next
    case True
    obtain item quit q1 where g: "q_Get qo q = ((item, quit), q1)" by (metis surj_pair)
    have q1: "item \<in> items q" "items q1 \<subseteq> items q" "q_Len qo q1 < q_Len qo q"
      using assms(1) True g unfolding quiet_queue_def by (metis fst_conv snd_conv)+
    let ?q2 = "q_Done qo q1 item"
    have q2: "items ?q2 \<subseteq> items q1" "q_Len qo ?q2 \<le> q_Len qo q1" using assms(1) unfolding quiet_queue_def by blast+
    let ?del = "if item \<notin> set existing \<and> checkIfTargetExists cl item w = (False, None) then List.insert item del else del"
    have "'''' \<notin> items ?q2" "'''' \<notin> set ?del" "set ?del \<inter> set existing = {}"
      using less.prems q1(1,2) q2(1) by auto
    then have ih: "\<exists>r q'. discoverDeletedTargets cl qo existing w ?del ?q2 = Some (r, q') \<and> '''' \<notin> items q' \<and>
        (\<forall>d. r = Inr d \<longrightarrow> '''' \<notin> set d \<and> set d \<inter> set existing = {})"
      using q1(3) q2(2) by (intro less.hyps) auto
    show ?thesis
    proof (cases quit)
      case True': True
      then show ?thesis using True g q1(2) less.prems(1) by (subst discoverDeletedTargets.simps) auto
    next
      case False
      then have "discoverDeletedTargets cl qo existing w del q = discoverDeletedTargets cl qo existing w ?del ?q2"
        using True g by (subst discoverDeletedTargets.simps) simp
      then show ?thesis using ih by simp
    qed
  qed
qed

section \<open>A whole pass\<close>

definition permutes_jobs :: "(nat list \<Rightarrow> nat list) \<Rightarrow> bool" where
  "permutes_jobs sched \<longleftrightarrow> (\<forall>is. mset (sched is) = mset is)"

lemma permutes_set: "permutes_jobs sched \<Longrightarrow> set (sched is) = set is"
  unfolding permutes_jobs_def by (metis set_mset_mset)

text \<open>The functions a pass may touch: the phase is compared with the listed object.\<close>

definition collectable :: "P4Target list \<Rightarrow> nf \<Rightarrow> bool" where
  "collectable targets nf \<longleftrightarrow> isNFTerminated nf \<or> om_DeletionTimestamp nf \<noteq> None \<or>
     (nfs_TargetName (nf_Spec nf) \<noteq> '''' \<and> nfs_TargetName (nf_Spec nf) \<notin> om_Name ` set targets)"

definition only_touches :: "P4Target list \<Rightarrow> nf list \<Rightarrow> gc_event list \<Rightarrow> bool" where
  "only_touches targets nfs evs \<longleftrightarrow>
     (\<forall>e \<in> set evs. \<exists>nf \<in> set nfs. same_obj (ev_obj e) nf \<and> collectable targets nf) \<and>
     (\<forall>n. Deleted n \<in> set evs \<longrightarrow> nft_Phase (nf_Status n) = NetworkFunctionFailed)"

lemma only_touches_append: "only_touches ts nfs (a @ b) \<longleftrightarrow> only_touches ts nfs a \<and> only_touches ts nfs b"
  by (auto simp: only_touches_def)

lemma gc_delete_all_touches:
  assumes "logs cl" "set is \<subseteq> {..<length nfs1}" "list_all2 same_obj nfs1 nfs"
    and "\<And>i. i \<in> set is \<Longrightarrow> collectable ts (nfs ! i)"
  shows "\<exists>nfs2 evs. gc_delete_all cl now c is nfs1 w = (nfs2, w @ evs) \<and> list_all2 same_obj nfs2 nfs \<and> only_touches ts nfs evs"
proof -
  obtain nfs2 w2 where run: "gc_delete_all cl now c is nfs1 w = (nfs2, w2)" by (cases "gc_delete_all cl now c is nfs1 w")
  from gc_delete_all_log [OF assms(1,2) run] obtain evs where e: "list_all2 same_obj nfs2 nfs1" "w2 = w @ evs"
      "\<forall>e \<in> set evs. \<exists>i \<in> set is. same_obj (ev_obj e) (nfs1 ! i)"
      "\<forall>n. Deleted n \<in> set evs \<longrightarrow> nft_Phase (nf_Status n) = NetworkFunctionFailed" by blast
  have "list_all2 same_obj nfs2 nfs" by (rule list_all2_trans [OF _ e(1) assms(3)]) (rule same_obj_trans)
  moreover have "\<exists>nf \<in> set nfs. same_obj (ev_obj x) nf \<and> collectable ts nf" if x: "x \<in> set evs" for x
  proof -
    obtain i where i: "i \<in> set is" "same_obj (ev_obj x) (nfs1 ! i)" using e(3) x by blast
    then have "i < length nfs1" "same_obj (nfs1 ! i) (nfs ! i)" using assms(2,3) by (auto simp: list_all2_conv_all_nth)
    then have "same_obj (ev_obj x) (nfs ! i)" "nfs ! i \<in> set nfs"
      using i(2) same_obj_trans list_all2_lengthD [OF assms(3)] by (metis, simp)
    then show ?thesis using assms(4) [OF i(1)] by blast
  qed
  ultimately show ?thesis using run e(2,4) by (auto simp: only_touches_def)
qed

text \<open>Each pass, from objects that are still the listed ones up to their status.\<close>

lemma gcTerminated_touches:
  assumes log: "logs cl" and sched: "permutes_jobs sched"
  shows "\<exists>nfs1 evs. gcTerminated cl sched now th nfs w = (nfs1, w @ evs) \<and> list_all2 same_obj nfs1 nfs \<and>
    only_touches ts nfs evs"
proof -
  have refl: "list_all2 same_obj nfs nfs" by (simp add: list_all2_conv_all_nth)
  let ?t = "filter (\<lambda>i. isNFTerminated (nfs ! i)) [0..<length nfs]"
  let ?is = "sched (take (nat (int (length ?t) - th))
    (go_sort (\<lambda>i j. byEvictionAndCreationTimestamp_Less (nfs ! i) (nfs ! j)) ?t))"
  have sub: "set ?is \<subseteq> set ?t" by (metis permutes_set [OF sched] set_go_sort set_take_subset)
  have "\<exists>nfs2 evs. gc_delete_all cl now None ?is nfs w = (nfs2, w @ evs) \<and> list_all2 same_obj nfs2 nfs \<and>
      only_touches ts nfs evs"
    by (rule gc_delete_all_touches [OF log _ refl]) (use sub in \<open>auto simp: collectable_def\<close>)
  then show ?thesis using refl by (auto simp: gcTerminated_def Let_def only_touches_def)
qed

lemma gcTerminating_touches:
  assumes log: "logs cl" and sched: "permutes_jobs sched" and same: "list_all2 same_obj nfs1 nfs"
  shows "\<exists>nfs2 evs. gcTerminating cl sched now nfs1 w = (nfs2, w @ evs) \<and> list_all2 same_obj nfs2 nfs \<and>
    only_touches ts nfs evs"
proof -
  let ?t = "filter (\<lambda>i. isNFTerminating (nfs1 ! i) \<and> on_dead_target cl w (nfs1 ! i)) [0..<length nfs1]"
  let ?is = "sched (go_sort (\<lambda>i j. byEvictionAndCreationTimestamp_Less (nfs1 ! i) (nfs1 ! j)) ?t)"
  have sub: "set ?is = set ?t" by (simp add: permutes_set [OF sched])
  have "\<exists>nfs2 evs. gc_delete_all cl now None ?is nfs1 w = (nfs2, w @ evs) \<and> list_all2 same_obj nfs2 nfs \<and>
      only_touches ts nfs evs"
    by (rule gc_delete_all_touches [OF log _ same])
       (use sub same [unfolded list_all2_conv_all_nth] in \<open>auto simp: collectable_def isNFTerminating_def same_obj_def\<close>)
  then show ?thesis using same by (auto simp: gcTerminating_def Let_def only_touches_def)
qed

lemma quarantine_items:
  assumes "quiet_queue qo items" "'''' \<notin> items q"
  shows "'''' \<notin> items (foldl (\<lambda>q nf. if nfs_TargetName (nf_Spec nf) \<noteq> '''' \<and> nfs_TargetName (nf_Spec nf) \<notin> ex
     then q_AddAfter qo q (nfs_TargetName (nf_Spec nf)) d else q) q nfs)"
  using assms(2)
proof (induction nfs arbitrary: q)
  case (Cons nf nfs)
  have "items (q_AddAfter qo q (nfs_TargetName (nf_Spec nf)) d) \<subseteq> insert (nfs_TargetName (nf_Spec nf)) (items q)"
    using assms(1) unfolding quiet_queue_def by blast
  then have "'''' \<notin> items (if nfs_TargetName (nf_Spec nf) \<noteq> '''' \<and> nfs_TargetName (nf_Spec nf) \<notin> ex
     then q_AddAfter qo q (nfs_TargetName (nf_Spec nf)) d else q)" using Cons.prems by auto
  then show ?case unfolding foldl.simps by (rule Cons.IH)
qed simp

lemma gcOrphaned_touches:
  assumes log: "logs cl" and queue: "quiet_queue qo items" "'''' \<notin> items q" and same: "list_all2 same_obj nfs1 nfs"
  shows "\<exists>nfs2 q' evs. gcOrphaned cl qo now d nfs1 ts q w = Some (nfs2, q', w @ evs) \<and>
      '''' \<notin> items q' \<and> list_all2 same_obj nfs2 nfs \<and> only_touches ts nfs evs"
proof -
  let ?ex = "map om_Name ts"
  define q1 where "q1 = foldl (\<lambda>q nf. if nfs_TargetName (nf_Spec nf) \<noteq> '''' \<and> nfs_TargetName (nf_Spec nf) \<notin> set ?ex
     then q_AddAfter qo q (nfs_TargetName (nf_Spec nf)) d else q) q nfs1"
  have "'''' \<notin> items q1" unfolding q1_def by (rule quarantine_items [OF queue])
  then obtain r q' where disc: "discoverDeletedTargets cl qo ?ex w [] q1 = Some (r, q')" "'''' \<notin> items q'"
      "\<And>del. r = Inr del \<Longrightarrow> '''' \<notin> set del \<and> set del \<inter> set ?ex = {}"
    using discover_returns [OF queue(1), of q1 "[]" ?ex cl w] by auto
  show ?thesis
  proof (cases r)
    case (Inl u)
    then have "gcOrphaned cl qo now d nfs1 ts q w = Some (nfs1, q', w @ [])"
      using disc(1) by (simp add: gcOrphaned_def Let_def q1_def)
    then show ?thesis using disc(2) same by (metis empty_iff empty_set only_touches_def)
  next
    case (Inr del)
    let ?is = "filter (\<lambda>i. nfs_TargetName (nf_Spec (nfs1 ! i)) \<in> set del) [0..<length nfs1]"
    have "\<exists>nfs2 evs. gc_delete_all cl now (Some orphan_condition) ?is nfs1 w = (nfs2, w @ evs) \<and>
        list_all2 same_obj nfs2 nfs \<and> only_touches ts nfs evs"
      by (rule gc_delete_all_touches [OF log _ same])
         (use disc(3) [OF Inr] same [unfolded list_all2_conv_all_nth] in \<open>auto simp: collectable_def same_obj_def\<close>)
    then show ?thesis using disc(1,2) Inr by (auto simp: gcOrphaned_def Let_def q1_def)
  qed
qed

lemma gcUnscheduledTerminating_touches:
  assumes log: "logs cl" and same: "list_all2 same_obj nfs1 nfs"
  shows "\<exists>nfs2 evs. gcUnscheduledTerminating cl now nfs1 w = (nfs2, w @ evs) \<and> only_touches ts nfs evs"
proof -
  let ?is = "filter (\<lambda>i. \<not> (om_DeletionTimestamp (nfs1 ! i) = None \<or> length (nfs_TargetName (nf_Spec (nfs1 ! i))) > 0))
     [0..<length nfs1]"
  have "\<exists>nfs2 evs. gc_delete_all cl now None ?is nfs1 w = (nfs2, w @ evs) \<and> list_all2 same_obj nfs2 nfs \<and>
      only_touches ts nfs evs"
    by (rule gc_delete_all_touches [OF log _ same])
       (use same [unfolded list_all2_conv_all_nth] in \<open>auto simp: collectable_def same_obj_def\<close>)
  then show ?thesis unfolding gcUnscheduledTerminating_def by blast
qed


section \<open>Terminated functions\<close>

text \<open>A client whose status patches succeed; deletions may still fail.\<close>

definition patches :: "gc_event list gc_client \<Rightarrow> bool" where
  "patches cl \<longleftrightarrow> (\<forall>w n0 n. gc_StatusPatch cl w n0 n = (Inr n, w @ [Marked n])) \<and>
     (\<forall>w n. snd (gc_Delete cl w n) = w @ [Deleted n])"

definition marked_failed :: "nf \<Rightarrow> nf" where
  "marked_failed nf = (if nft_Phase (nf_Status nf) = NetworkFunctionFailed then nf
     else nf\<lparr>nf_Status := (nf_Status nf)\<lparr>nft_Phase := NetworkFunctionFailed, nft_ObservedGeneration := om_Generation nf\<rparr>\<rparr>)"

definition deletions :: "gc_event list \<Rightarrow> nf list" where
  "deletions evs = concat (map (\<lambda>e. case e of Marked _ \<Rightarrow> [] | Deleted n \<Rightarrow> [n]) evs)"

lemma deletions_simps [simp]:
  "deletions [] = []" "deletions (Marked n # evs) = deletions evs" "deletions (Deleted n # evs) = n # deletions evs"
  "deletions (a @ b) = deletions a @ deletions b"
  by (simp_all add: deletions_def)

lemma mark_patches:
  assumes "patches cl"
  shows "\<exists>err evs. markFailedAndDeleteNFWithCondition cl now nf None w = (err, marked_failed nf, w @ evs) \<and>
    deletions evs = [marked_failed nf]"
proof -
  have d: "snd (gc_Delete cl w' n) = w' @ [Deleted n]" for w' n using assms unfolding patches_def by blast
  have p: "gc_StatusPatch cl w nf n = (Inr n, w @ [Marked n])" for n using assms unfolding patches_def by blast
  show ?thesis
  proof (cases "nft_Phase (nf_Status nf) = NetworkFunctionFailed")
    case True
    then have "markFailedAndDeleteNFWithCondition cl now nf None w = (fst (gc_Delete cl w nf), marked_failed nf, w @ [Deleted nf])"
      using d [of w nf] by (simp add: markFailedAndDeleteNFWithCondition_def marked_failed_def case_prod_beta)
    then show ?thesis using True by (auto simp: marked_failed_def)
  next
    case False
    then have "markFailedAndDeleteNFWithCondition cl now nf None w =
        (fst (gc_Delete cl (w @ [Marked (marked_failed nf)]) (marked_failed nf)), marked_failed nf, w @ [Marked (marked_failed nf), Deleted (marked_failed nf)])"
      using d [of "w @ [Marked (marked_failed nf)]" "marked_failed nf"] p
      by (simp add: markFailedAndDeleteNFWithCondition_def marked_failed_def Let_def case_prod_beta)
    then show ?thesis by auto
  qed
qed

lemma gc_delete_all_patches:
  assumes "patches cl" "distinct is"
  shows "\<exists>nfs' evs. gc_delete_all cl now None is nfs w = (nfs', w @ evs) \<and>
    deletions evs = map (\<lambda>i. marked_failed (nfs ! i)) is"
  using assms(2)
proof (induction "is" arbitrary: nfs w)
  case (Cons i rest)
  obtain err evs1 where m: "markFailedAndDeleteNFWithCondition cl now (nfs ! i) None w = (err, marked_failed (nfs ! i), w @ evs1)"
      "deletions evs1 = [marked_failed (nfs ! i)]" using mark_patches [OF assms(1)] by blast
  obtain nfs' evs2 where r: "gc_delete_all cl now None rest (nfs[i := marked_failed (nfs ! i)]) (w @ evs1) = (nfs', (w @ evs1) @ evs2)"
      "deletions evs2 = map (\<lambda>j. marked_failed (nfs[i := marked_failed (nfs ! i)] ! j)) rest"
    using Cons.IH Cons.prems by (metis distinct.simps(2))
  have "map (\<lambda>j. marked_failed (nfs[i := marked_failed (nfs ! i)] ! j)) rest = map (\<lambda>j. marked_failed (nfs ! j)) rest"
    using Cons.prems by (intro map_cong refl) (metis distinct.simps(2) nth_list_update_neq)
  then have "gc_delete_all cl now None (i # rest) nfs w = (nfs', w @ (evs1 @ evs2)) \<and>
      deletions (evs1 @ evs2) = map (\<lambda>i. marked_failed (nfs ! i)) (i # rest)" using m r by simp
  then show ?case by blast
qed simp

lemma sorted_take_drop:
  assumes "sorted_wrt P xs" "x \<in> set (take n xs)" "y \<in> set (drop n xs)"
  shows "P x y"
  using assms sorted_wrt_append [of P "take n xs" "drop n xs"] by simp


section \<open>Examples\<close>

definition ex_gc_nf :: "string \<Rightarrow> string \<Rightarrow> string \<Rightarrow> time \<Rightarrow> nf" where
  "ex_gc_nf name phase reason created =
     \<lparr>om_Name = name, om_GenerateName = '''', om_Namespace = '''', om_UID = name, om_Generation = 1,
      om_Labels = None, om_Annotations = None, om_Finalizers = [], om_OwnerReferences = [],
      om_CreationTimestamp = created, om_DeletionTimestamp = None,
      nf_Spec = \<lparr>nfs_TargetName = '''', nfs_ControlPlane = None, nfs_TargetSelector = None,
        nfs_ConfigRef = None, nfs_P4File = ''''\<rparr>,
      nf_Status = \<lparr>nft_AssignedIP = '''', nft_ObservedGeneration = 0, nft_Phase = phase, nft_Reason = reason,
        nft_Conditions = []\<rparr>\<rparr>"

definition ex_gc_client :: "nf list \<Rightarrow> gc_event list gc_client" where
  "ex_gc_client nfs = \<lparr>gc_ListNFs = (\<lambda>_. Inr nfs), gc_ListTargets = (\<lambda>_. Inr []), gc_GetTarget = (\<lambda>_ _. Inl (ApiError NotFound)),
     gc_StatusPatch = (\<lambda>w _ n. (Inr n, w @ [Marked n])), gc_Delete = (\<lambda>w n. (None, w @ [Deleted n]))\<rparr>"

text \<open>A queue as the list of the names that are ready, without delay.\<close>

definition ex_queue :: "string list queue_ops" where
  "ex_queue = \<lparr>q_AddAfter = (\<lambda>q x _. if x \<in> set q then q else q @ [x]), q_Len = length,
     q_Get = (\<lambda>q. ((hd q, False), tl q)), q_Done = (\<lambda>q _. q)\<rparr>"

lemma ex_gc_laws: "logs (ex_gc_client nfs)" "patches (ex_gc_client nfs)" "quiet_queue ex_queue set" "permutes_jobs rev"
  by (auto simp: logs_def patches_def quiet_queue_def permutes_jobs_def ex_gc_client_def ex_queue_def
      dest: list.set_sel(2) intro: list.set_sel(1))


end
