(* ===== verification/Netip.thy ===== *)
theory Netip
  imports Go_Std
begin

text \<open>
  The part of Go's standard package \<open>net/netip\<close> the allocators use: addresses with their
  family and zone, successor, IPv4-mapped addresses, prefixes, masking and containment. The last
  section enumerates the addresses of a masked prefix (\<open>pfx_nth\<close>), which the allocator
  proofs work with.
\<close>

section \<open>Addresses\<close>

datatype addr = NoAddr | V4 "32 word" | V6 "128 word" string

fun addr_IsValid :: "addr \<Rightarrow> bool" where
  "addr_IsValid NoAddr = False"
| "addr_IsValid _ = True"

fun addr_Is4 :: "addr \<Rightarrow> bool" where
  "addr_Is4 (V4 _) = True"
| "addr_Is4 _ = False"

fun addr_BitLen :: "addr \<Rightarrow> int" where
  "addr_BitLen NoAddr = 0"
| "addr_BitLen (V4 _) = 32"
| "addr_BitLen (V6 _ _) = 128"

fun addr_hasZone :: "addr \<Rightarrow> bool" where
  "addr_hasZone (V6 _ z) = (z \<noteq> [])"
| "addr_hasZone _ = False"

fun addr_withoutZone :: "addr \<Rightarrow> addr" where
  "addr_withoutZone (V6 a _) = V6 a []"
| "addr_withoutZone a = a"

fun addr_Is4In6 :: "addr \<Rightarrow> bool" where
  "addr_Is4In6 (V6 a _) = (drop_bit 32 a = 0xFFFF)"
| "addr_Is4In6 _ = False"

fun addr_Unmap :: "addr \<Rightarrow> addr" where
  "addr_Unmap (V6 a z) = (if addr_Is4In6 (V6 a z) then V4 (ucast a) else V6 a z)"
| "addr_Unmap a = a"

text \<open>
  \<open>Next\<close> wraps to the zero \<open>Addr\<close> after the last address of the family. (Go leaves an invalid
  value with a nonzero payload when \<open>Next\<close> is called on the zero \<open>Addr\<close>; it is as invalid
  as \<open>NoAddr\<close> for every observer used here.)
\<close>

fun addr_Next :: "addr \<Rightarrow> addr" where
  "addr_Next NoAddr = NoAddr"
| "addr_Next (V4 a) = (if a + 1 = 0 then NoAddr else V4 (a + 1))"
| "addr_Next (V6 a z) = (if a + 1 = 0 then NoAddr else V6 (a + 1) z)"

text \<open>The 16-byte big-endian form; IPv4 addresses are written as IPv4-mapped ones.\<close>

definition bytes_of :: "128 word \<Rightarrow> 8 word list" where
  "bytes_of w = map (\<lambda>k. ucast (drop_bit (8 * (15 - k)) w)) [0..<16]"

definition word_of_bytes :: "8 word list \<Rightarrow> 128 word" where
  "word_of_bytes bs = foldl (\<lambda>w b. push_bit 8 w OR ucast b) 0 bs"

fun addr_As16 :: "addr \<Rightarrow> 8 word list" where
  "addr_As16 NoAddr = bytes_of 0"
| "addr_As16 (V4 a) = bytes_of (push_bit 32 0xFFFF OR ucast a)"
| "addr_As16 (V6 a _) = bytes_of a"

definition addr_From16 :: "8 word list \<Rightarrow> addr" where
  "addr_From16 bs = V6 (word_of_bytes bs) []"

section \<open>Prefixes\<close>

record prefix =
  pfx_ip :: addr
  pfx_bits :: int

text \<open>
  \<open>Bits()\<close> is -1 for an invalid prefix. The library's constructors keep the length within the
  family's width and drop the zone, so both are part of validity.
\<close>

definition zero_prefix :: prefix where
  "zero_prefix = \<lparr>pfx_ip = NoAddr, pfx_bits = -1\<rparr>"

definition prefix_IsValid :: "prefix \<Rightarrow> bool" where
  "prefix_IsValid p \<longleftrightarrow> addr_IsValid (pfx_ip p) \<and> 0 \<le> pfx_bits p \<and>
     pfx_bits p \<le> addr_BitLen (pfx_ip p) \<and> \<not> addr_hasZone (pfx_ip p)"

definition prefix_From :: "addr \<Rightarrow> int \<Rightarrow> prefix" where
  "prefix_From ip b =
     \<lparr>pfx_ip = addr_withoutZone ip,
      pfx_bits = (if addr_IsValid ip \<and> 0 \<le> b \<and> b \<le> addr_BitLen ip then b else -1)\<rparr>"

text \<open>Clearing the low \<open>h\<close> bits of an address.\<close>

fun addr_clear :: "nat \<Rightarrow> addr \<Rightarrow> addr" where
  "addr_clear h NoAddr = NoAddr"
| "addr_clear h (V4 a) = V4 (push_bit h (drop_bit h a))"
| "addr_clear h (V6 a z) = V6 (push_bit h (drop_bit h a)) z"

datatype netip_error = NegativeBits | BitsTooLarge

definition addr_Prefix :: "addr \<Rightarrow> int \<Rightarrow> netip_error + prefix" where
  "addr_Prefix ip b =
     (if b < 0 then Inl NegativeBits
      else if \<not> addr_IsValid ip then Inr zero_prefix
      else if b > addr_BitLen ip then Inl BitsTooLarge
      else Inr (prefix_From (addr_clear (nat (addr_BitLen ip - b)) ip) b))"

definition prefix_Masked :: "prefix \<Rightarrow> prefix" where
  "prefix_Masked p = (case addr_Prefix (pfx_ip p) (pfx_bits p) of Inl _ \<Rightarrow> zero_prefix | Inr m \<Rightarrow> m)"

fun same_prefix :: "nat \<Rightarrow> addr \<Rightarrow> addr \<Rightarrow> bool" where
  "same_prefix h (V4 a) (V4 b) = (drop_bit h a = drop_bit h b)"
| "same_prefix h (V6 a _) (V6 b _) = (drop_bit h a = drop_bit h b)"
| "same_prefix h _ _ = False"

definition host_bits :: "prefix \<Rightarrow> nat" where
  "host_bits p = nat (addr_BitLen (pfx_ip p) - pfx_bits p)"

definition prefix_Contains :: "prefix \<Rightarrow> addr \<Rightarrow> bool" where
  "prefix_Contains p ip \<longleftrightarrow> prefix_IsValid p \<and> \<not> addr_hasZone ip \<and>
     same_prefix (host_bits p) ip (pfx_ip p)"

lemma prefix_Contains_NoAddr [simp]: "\<not> prefix_Contains p NoAddr"
  by (cases "pfx_ip p") (auto simp: prefix_Contains_def)

lemma not_valid_zero_prefix [simp]: "\<not> prefix_IsValid zero_prefix"
  by (simp add: zero_prefix_def prefix_IsValid_def)

section \<open>Text form\<close>

definition hex_char :: "nat \<Rightarrow> char" where
  "hex_char d = (if d < 10 then char_of (48 + d) else char_of (87 + d))"

fun format_hex :: "nat \<Rightarrow> string" where
  "format_hex n = (if n < 16 then [hex_char n] else format_hex (n div 16) @ [hex_char (n mod 16)])"

declare format_hex.simps [simp del]

definition addr_string4 :: "32 word \<Rightarrow> string" where
  "addr_string4 a =
     (let o1 = (\<lambda>k. format_nat (unat (drop_bit k a AND 0xFF)))
      in o1 24 @ ''.'' @ o1 16 @ ''.'' @ o1 8 @ ''.'' @ o1 0)"

definition addr_groups :: "128 word \<Rightarrow> nat list" where
  "addr_groups a = map (\<lambda>i. unat (drop_bit (16 * (7 - i)) a AND 0xFFFF)) [0..<8]"

text \<open>The leftmost longest run of at least two zero groups, as its bounds (255, 255 if there is none).\<close>

definition zero_run :: "nat list \<Rightarrow> nat \<times> nat" where
  "zero_run gs =
     foldl (\<lambda>(zs, ze) i.
         (let j = i + length (takeWhile (\<lambda>g. g = 0) (drop i gs))
          in if j - i \<ge> 2 \<and> j - i > ze - zs then (i, j) else (zs, ze)))
       (255, 255) [0..<8]"

fun join_groups :: "nat list \<Rightarrow> string" where
  "join_groups [] = []"
| "join_groups [g] = format_hex g"
| "join_groups (g # gs) = format_hex g @ '':'' @ join_groups gs"

definition addr_string6 :: "128 word \<Rightarrow> string \<Rightarrow> string" where
  "addr_string6 a z =
     (let gs = addr_groups a; (zs, ze) = zero_run gs
      in (if zs = 255 then join_groups gs
          else join_groups (take zs gs) @ ''::'' @ join_groups (drop ze gs)) @
         (if z = [] then [] else CHR 0x25 # z))"

definition addr_String :: "addr \<Rightarrow> string" where
  "addr_String a =
     (case a of
        NoAddr \<Rightarrow> ''invalid IP''
      | V4 w \<Rightarrow> addr_string4 w
      | V6 w z \<Rightarrow>
          if addr_Is4In6 a then ''::ffff:'' @ addr_string4 (ucast w) @ (if z = [] then [] else CHR 0x25 # z)
          else addr_string6 w z)"

definition prefix_String :: "prefix \<Rightarrow> string" where
  "prefix_String p =
     (if \<not> prefix_IsValid p then ''invalid Prefix''
      else addr_String (pfx_ip p) @ ''/'' @ format_int (pfx_bits p))"

section \<open>The addresses of a masked prefix\<close>

text \<open>
  \<open>base_ok\<close> is what every constructor of the allocators checks: a valid prefix equal to its
  masked form.
\<close>

definition base_ok :: "prefix \<Rightarrow> bool" where
  "base_ok p \<longleftrightarrow> prefix_IsValid p \<and> p = prefix_Masked p"

definition pfx_size :: "prefix \<Rightarrow> nat" where
  "pfx_size p = 2 ^ host_bits p"

fun addr_plus :: "addr \<Rightarrow> nat \<Rightarrow> addr" where
  "addr_plus NoAddr i = NoAddr"
| "addr_plus (V4 a) i = V4 (a + of_nat i)"
| "addr_plus (V6 a z) i = V6 (a + of_nat i) z"

definition pfx_nth :: "prefix \<Rightarrow> nat \<Rightarrow> addr" where
  "pfx_nth p i = addr_plus (pfx_ip p) i"

lemma pfx_nth_0 [simp]: "pfx_nth p 0 = pfx_ip p"
  by (cases "pfx_ip p") (simp_all add: pfx_nth_def)

lemma pfx_size_pos [simp]: "0 < pfx_size p"
  by (simp add: pfx_size_def)

lemma unat_push_drop:
  "unat (push_bit h (drop_bit h (w :: 'a::len word))) = 2 ^ h * (unat w div 2 ^ h)"
proof -
  have "2 ^ h * (unat w div 2 ^ h) \<le> unat w" by (metis times_div_less_eq_dividend)
  then have "2 ^ h * (unat w div 2 ^ h) < 2 ^ LENGTH('a)"
    using unsigned_less [of w, where ?'a = nat] by (rule le_less_trans)
  moreover have "unat (push_bit h (drop_bit h w)) = take_bit LENGTH('a) (push_bit h (unat w div 2 ^ h))"
    by (simp add: unsigned_push_bit_eq unat_drop_bit_div)
  ultimately show ?thesis by (simp add: push_bit_eq_mult take_bit_eq_mod mult.commute)
qed

lemma push_drop_dvd: "2 ^ h dvd unat (push_bit h (drop_bit h (w :: 'a::len word)))"
  by (simp add: unat_push_drop)

lemma push_drop_aligned: "2 ^ h dvd unat w \<Longrightarrow> push_bit h (drop_bit h w) = (w :: 'a::len word)"
  by (simp add: word_unat_eq_iff unat_push_drop)

text \<open>The three facts of a base prefix from which the enumeration follows, per family.\<close>

lemma base_ok_cases:
  assumes "base_ok p"
  obtains (v4) a where "pfx_ip p = V4 a" "2 ^ host_bits p dvd unat a" "host_bits p \<le> 32"
    | (v6) a where "pfx_ip p = V6 a []" "2 ^ host_bits p dvd unat a" "host_bits p \<le> 128"
proof (cases "pfx_ip p")
  case NoAddr
  with assms show ?thesis by (simp add: base_ok_def prefix_IsValid_def)
next
  case (V4 a)
  with assms have b: "0 \<le> pfx_bits p" "pfx_bits p \<le> 32" and m: "p = prefix_Masked p"
    by (auto simp: base_ok_def prefix_IsValid_def)
  from m b V4 have "pfx_ip p = V4 (push_bit (host_bits p) (drop_bit (host_bits p) a))"
    by (auto simp: prefix_Masked_def addr_Prefix_def prefix_From_def host_bits_def
             dest!: arg_cong [where f = pfx_ip])
  then have "2 ^ host_bits p dvd unat a" by (metis V4 addr.inject(1) push_drop_dvd)
  with V4 b show ?thesis by (intro v4) (auto simp: host_bits_def)
next
  case (V6 a z)
  with assms have b: "0 \<le> pfx_bits p" "pfx_bits p \<le> 128" "z = []" and m: "p = prefix_Masked p"
    by (auto simp: base_ok_def prefix_IsValid_def)
  from m b V6 have "pfx_ip p = V6 (push_bit (host_bits p) (drop_bit (host_bits p) a)) []"
    by (auto simp: prefix_Masked_def addr_Prefix_def prefix_From_def host_bits_def
             dest!: arg_cong [where f = pfx_ip])
  then have "2 ^ host_bits p dvd unat a" by (metis V6 addr.inject(2) push_drop_dvd)
  with V6 b show ?thesis by (intro v6) (auto simp: host_bits_def)
qed

lemma Contains_iff_nth:
  assumes "base_ok p"
  shows "prefix_Contains p a \<longleftrightarrow> (\<exists>i < pfx_size p. a = pfx_nth p i)"
  using assms
proof (cases rule: base_ok_cases)
  case (v4 w)
  with assms show ?thesis
    by (cases a) (auto simp: prefix_Contains_def base_ok_def pfx_nth_def pfx_size_def same_block_iff)
next
  case (v6 w)
  with assms show ?thesis
    by (cases a) (auto simp: prefix_Contains_def base_ok_def pfx_nth_def pfx_size_def same_block_iff)
qed

lemma Contains_nth [simp]: "base_ok p \<Longrightarrow> i < pfx_size p \<Longrightarrow> prefix_Contains p (pfx_nth p i)"
  by (auto simp: Contains_iff_nth)

lemma nth_inj:
  assumes "base_ok p" "i < pfx_size p" "j < pfx_size p"
  shows "pfx_nth p i = pfx_nth p j \<longleftrightarrow> i = j"
  using assms(1)
proof (cases rule: base_ok_cases)
  case (v4 w)
  have "unat (w + of_nat k) = unat w + k" if "k < pfx_size p" for k
    using that v4 by (intro of_nat_word_add_unat aligned_block_bound) (auto simp: pfx_size_def)
  with v4 assms show ?thesis by (auto simp: pfx_nth_def word_unat_eq_iff)
next
  case (v6 w)
  have "unat (w + of_nat k) = unat w + k" if "k < pfx_size p" for k
    using that v6 by (intro of_nat_word_add_unat aligned_block_bound) (auto simp: pfx_size_def)
  with v6 assms show ?thesis by (auto simp: pfx_nth_def word_unat_eq_iff)
qed

text \<open>Successors stay inside the prefix until its last address, and leave it there.\<close>

lemma Next_nth:
  assumes "base_ok p" "Suc i < pfx_size p"
  shows "addr_Next (pfx_nth p i) = pfx_nth p (Suc i)"
  using assms(1)
proof (cases rule: base_ok_cases)
  case (v4 w)
  have "unat (w + of_nat (Suc i)) = unat w + Suc i"
    using assms v4 by (intro of_nat_word_add_unat aligned_block_bound) (auto simp: pfx_size_def)
  then have "w + of_nat (Suc i) \<noteq> 0" by (metis add_Suc_right nat.distinct(1) unat_0)
  with v4 show ?thesis by (simp add: pfx_nth_def ac_simps)
next
  case (v6 w)
  have "unat (w + of_nat (Suc i)) = unat w + Suc i"
    using assms v6 by (intro of_nat_word_add_unat aligned_block_bound) (auto simp: pfx_size_def)
  then have "w + of_nat (Suc i) \<noteq> 0" by (metis add_Suc_right nat.distinct(1) unat_0)
  with v6 show ?thesis by (simp add: pfx_nth_def ac_simps)
qed

lemma after_block_outside:
  fixes w :: "'a::len word"
  assumes "2 ^ h dvd unat w" "h \<le> LENGTH('a)" "w + of_nat (2 ^ h) \<noteq> 0"
  shows "drop_bit h (w + of_nat (2 ^ h)) \<noteq> drop_bit h w"
proof -
  have le: "unat w + 2 ^ h \<le> 2 ^ LENGTH('a)"
    using aligned_block_bound [OF assms(1,2), of "2 ^ h - 1"]
    by (simp add: Suc_leI add.commute less_eq_Suc_le)
  have "unat w + 2 ^ h \<noteq> 2 ^ LENGTH('a)"
  proof
    assume "unat w + 2 ^ h = 2 ^ LENGTH('a)"
    then have "w + of_nat (2 ^ h) = of_nat (2 ^ LENGTH('a))"
      by (metis of_nat_add of_nat_unat ucast_id)
    with assms(3) show False by simp
  qed
  with le have "unat (w + of_nat (2 ^ h)) = unat w + 2 ^ h"
    by (intro of_nat_word_add_unat) simp
  with assms(1) show ?thesis by (simp add: drop_bit_eq_iff_div)
qed

lemma Next_last:
  assumes "base_ok p" "Suc i = pfx_size p"
  shows "\<not> prefix_Contains p (addr_Next (pfx_nth p i))"
  using assms(1)
proof (cases rule: base_ok_cases)
  case (v4 w)
  have "w + of_nat i + 1 = w + of_nat (2 ^ host_bits p)"
    using arg_cong [OF assms(2), of "of_nat :: nat \<Rightarrow> 32 word"] by (simp add: pfx_size_def ac_simps)
  then have nx: "addr_Next (pfx_nth p i) =
      (if w + of_nat (2 ^ host_bits p) = 0 then NoAddr else V4 (w + of_nat (2 ^ host_bits p)))"
    by (simp only: pfx_nth_def v4(1) addr_plus.simps addr_Next.simps)
  show ?thesis
    using v4 after_block_outside [of "host_bits p" w] unfolding nx
    by (simp add: prefix_Contains_def)
next
  case (v6 w)
  have "w + of_nat i + 1 = w + of_nat (2 ^ host_bits p)"
    using arg_cong [OF assms(2), of "of_nat :: nat \<Rightarrow> 128 word"] by (simp add: pfx_size_def ac_simps)
  then have nx: "addr_Next (pfx_nth p i) =
      (if w + of_nat (2 ^ host_bits p) = 0 then NoAddr else V6 (w + of_nat (2 ^ host_bits p)) [])"
    by (simp only: pfx_nth_def v6(1) addr_plus.simps addr_Next.simps)
  show ?thesis
    using v6 after_block_outside [of "host_bits p" w] unfolding nx
    by (simp add: prefix_Contains_def)
qed

section \<open>Alignment\<close>

fun addr_aligned :: "nat \<Rightarrow> addr \<Rightarrow> bool" where
  "addr_aligned h NoAddr = False"
| "addr_aligned h (V4 a) = (2 ^ h dvd unat a)"
| "addr_aligned h (V6 a _) = (2 ^ h dvd unat a)"

lemma addr_clear_aligned: "addr_aligned h a \<Longrightarrow> addr_clear h a = a"
  by (cases a) (simp_all add: push_drop_aligned)

lemma nth_aligned:
  assumes "base_ok p" "h \<le> host_bits p" "i < pfx_size p" "2 ^ h dvd i"
  shows "addr_aligned h (pfx_nth p i)"
  using assms(1)
proof (cases rule: base_ok_cases)
  case (v4 w)
  have "unat (w + of_nat i) = unat w + i"
    using assms v4 by (intro of_nat_word_add_unat aligned_block_bound) (auto simp: pfx_size_def)
  moreover have "2 ^ h dvd unat w" using v4(2) assms(2) power_le_dvd by blast
  ultimately show ?thesis using v4(1) assms(4) by (simp add: pfx_nth_def)
next
  case (v6 w)
  have "unat (w + of_nat i) = unat w + i"
    using assms v6 by (intro of_nat_word_add_unat aligned_block_bound) (auto simp: pfx_size_def)
  moreover have "2 ^ h dvd unat w" using v6(2) assms(2) power_le_dvd by blast
  ultimately show ?thesis using v6(1) assms(4) by (simp add: pfx_nth_def)
qed

lemma addr_plus_family [simp]:
  "addr_BitLen (addr_plus a i) = addr_BitLen a"
  "addr_IsValid (addr_plus a i) = addr_IsValid a"
  "addr_hasZone (addr_plus a i) = addr_hasZone a"
  "\<not> addr_hasZone a \<Longrightarrow> addr_withoutZone (addr_plus a i) = addr_plus a i"
  by (cases a; simp)+

lemma addr_plus_plus: "addr_plus (addr_plus a i) j = addr_plus a (i + j)"
  by (cases a) (simp_all add: add.assoc)

lemma addr_Next_family:
  "addr_Next a = NoAddr \<or> addr_BitLen (addr_Next a) = addr_BitLen a \<and> addr_IsValid (addr_Next a)"
  by (cases a) auto

lemma drop_bit_clear: "h' \<le> h \<Longrightarrow> drop_bit h (push_bit h' (drop_bit h' w)) = drop_bit h (w :: 'a::len word)"
  by (intro bit_word_eqI) (auto simp: bit_simps dest: bit_imp_le_length)

lemma Contains_clear:
  assumes "h' \<le> host_bits p" "prefix_Contains p (addr_clear h' a)" "\<not> addr_hasZone a"
  shows "prefix_Contains p a"
  using assms by (cases a; cases "pfx_ip p") (auto simp: prefix_Contains_def drop_bit_clear)

end
