(* ===== verification/Ipam.thy ===== *)
theory Ipam
  imports Netip
begin

text \<open>
  The IP address management of the operator (\<open>src/operator/pkg/ipam\<close>; the daemon and the BMv2
  driver carry the same allocators): the sequential address and prefix allocators, and the
  address pool of the service controller with its wrap-around scan.
\<close>

section \<open>Broadcast addresses\<close>

datatype ipam_error =
  InvalidBase | NotMasked | InvalidSubnetLen | NoMoreIPs | PrefixFailed netip_error
  | NoMorePrefixes | ErrPoolExhausted | NotAvailable | AlreadyAssigned nsname

definition set_host_bits :: "nat \<Rightarrow> 8 word list \<Rightarrow> 8 word list" where
  "set_host_bits hostBits ip =
     fold (\<lambda>i ip. ip[15 - i div 8 := (ip ! (15 - i div 8)) OR push_bit (i mod 8) 1]) [0..<hostBits] ip"

definition broadcastAddr :: "prefix \<Rightarrow> addr" where
  "broadcastAddr p =
     (let addr = pfx_ip p;
          ip = addr_As16 addr;
          bits = addr_BitLen addr;
          ones = pfx_bits p;
          hostBits = bits - ones
      in addr_Unmap (addr_From16 (set_host_bits (nat hostBits) ip)))"

section \<open>AddrAllocator\<close>

record addr_allocator =
  aa_BaseNetwork :: prefix
  aa_LastAssignedIP :: addr

definition NewAddrAllocator :: "prefix \<Rightarrow> ipam_error + addr_allocator" where
  "NewAddrAllocator base =
     (if \<not> prefix_IsValid base then Inl InvalidBase
      else if base \<noteq> prefix_Masked base then Inl NotMasked
      else Inr \<lparr>aa_BaseNetwork = base, aa_LastAssignedIP = pfx_ip base\<rparr>)"

definition AddrAllocator_Next :: "addr_allocator \<Rightarrow> ipam_error + (addr \<times> addr_allocator)" where
  "AddrAllocator_Next a =
     (let nxt = addr_Next (aa_LastAssignedIP a);
          isOutOfRange = (\<not> prefix_Contains (aa_BaseNetwork a) nxt);
          isBroadcast = (\<not> prefix_Contains (aa_BaseNetwork a) (addr_Next nxt))
      in if isOutOfRange \<or> isBroadcast then Inl NoMoreIPs
         else Inr (nxt, a\<lparr>aa_LastAssignedIP := nxt\<rparr>))"

section \<open>PrefixAllocator\<close>

record prefix_allocator =
  pa_BaseNetwork :: prefix
  pa_LastAssigned :: prefix
  pa_PrefixLen :: int

definition NewPrefixAllocator :: "prefix \<Rightarrow> int \<Rightarrow> ipam_error + prefix_allocator" where
  "NewPrefixAllocator base subnetPrefixLen =
     (if \<not> prefix_IsValid base then Inl InvalidBase
      else if base \<noteq> prefix_Masked base then Inl NotMasked
      else if subnetPrefixLen \<le> pfx_bits base \<or> subnetPrefixLen > addr_BitLen (pfx_ip base)
        then Inl InvalidSubnetLen
      else Inr \<lparr>pa_BaseNetwork = base, pa_LastAssigned = zero_prefix, pa_PrefixLen = subnetPrefixLen\<rparr>)"

definition PrefixAllocator_Next :: "prefix_allocator \<Rightarrow> ipam_error + (prefix \<times> prefix_allocator)" where
  "PrefixAllocator_Next a =
     (let nextPrefixNetAddress =
            (if prefix_IsValid (pa_LastAssigned a) then addr_Next (broadcastAddr (pa_LastAssigned a))
             else pfx_ip (pa_BaseNetwork a))
      in case addr_Prefix nextPrefixNetAddress (pa_PrefixLen a) of
           Inl e \<Rightarrow> Inl (PrefixFailed e)
         | Inr nextPrefix \<Rightarrow>
             if \<not> prefix_Contains (pa_BaseNetwork a) (pfx_ip nextPrefix) then Inl NoMorePrefixes
             else Inr (nextPrefix, a\<lparr>pa_LastAssigned := nextPrefix\<rparr>))"

section \<open>AddrPool\<close>

record addr_pool =
  po_base :: prefix
  po_owners :: "addr \<rightharpoonup> nsname"
  po_addrs :: "nsname \<rightharpoonup> addr"
  po_last :: addr

definition NewAddrPool :: "prefix \<Rightarrow> ipam_error + addr_pool" where
  "NewAddrPool base =
     (if \<not> prefix_IsValid base then Inl InvalidBase
      else if base \<noteq> prefix_Masked base then Inl NotMasked
      else Inr \<lparr>po_base = base, po_owners = Map.empty, po_addrs = Map.empty, po_last = pfx_ip base\<rparr>)"

definition pool_Contains :: "addr_pool \<Rightarrow> addr \<Rightarrow> bool" where
  "pool_Contains p a0 =
     (let a = addr_Unmap a0
      in if \<not> prefix_Contains (po_base p) a \<or> a = pfx_ip (po_base p) then False
         else \<not> addr_Is4 a \<or> a \<noteq> broadcastAddr (po_base p))"

definition pool_next :: "addr_pool \<Rightarrow> addr \<Rightarrow> addr" where
  "pool_next p a =
     (let n = addr_Next a
      in if addr_IsValid n \<and> prefix_Contains (po_base p) n then n else pfx_ip (po_base p))"

definition pool_assign :: "addr_pool \<Rightarrow> addr \<Rightarrow> nsname \<Rightarrow> addr_pool" where
  "pool_assign p a owner =
     p\<lparr>po_owners := (po_owners p)(a \<mapsto> owner), po_addrs := (po_addrs p)(owner \<mapsto> a)\<rparr>"

definition pool_release :: "addr_pool \<Rightarrow> nsname \<Rightarrow> addr_pool" where
  "pool_release p owner =
     (case po_addrs p owner of
        None \<Rightarrow> p
      | Some a \<Rightarrow> p\<lparr>po_owners := (po_owners p)(a := None), po_addrs := (po_addrs p)(owner := None)\<rparr>)"

text \<open>
  The \<open>for\<close> loop of \<open>Allocate\<close>: \<open>Some (Some a)\<close> is the address it assigns, \<open>Some None\<close> the
  exhausted pool, \<open>None\<close> a loop that never ends.
\<close>

partial_function (option) pool_scan :: "addr_pool \<Rightarrow> addr \<Rightarrow> addr \<Rightarrow> addr option option" where
  "pool_scan p start a =
     (if po_owners p a = None \<and> pool_Contains p a then Some (Some a)
      else if pool_next p a = start then Some None
      else pool_scan p start (pool_next p a))"

definition pool_Allocate :: "addr_pool \<Rightarrow> nsname \<Rightarrow> ((ipam_error + addr) \<times> addr_pool) option" where
  "pool_Allocate p owner =
     (case po_addrs p owner of
        Some a \<Rightarrow> Some (Inr a, p)
      | None \<Rightarrow>
          (let start = pool_next p (po_last p)
           in case pool_scan p start start of
                None \<Rightarrow> None
              | Some None \<Rightarrow> Some (Inl ErrPoolExhausted, p)
              | Some (Some a) \<Rightarrow> Some (Inr a, (pool_assign p a owner)\<lparr>po_last := a\<rparr>)))"

definition pool_Reserve :: "addr_pool \<Rightarrow> addr \<Rightarrow> nsname \<Rightarrow> (ipam_error + unit) \<times> addr_pool" where
  "pool_Reserve p a0 owner =
     (let a = addr_Unmap a0
      in if \<not> pool_Contains p a then (Inl NotAvailable, p)
         else case po_owners p a of
                Some current \<Rightarrow> if current = owner then (Inr (), p) else (Inl (AlreadyAssigned current), p)
              | None \<Rightarrow> (Inr (), pool_assign (pool_release p owner) a owner))"

definition pool_Release :: "addr_pool \<Rightarrow> nsname \<Rightarrow> addr_pool" where
  "pool_Release p owner = pool_release p owner"

section \<open>The broadcast address of a prefix\<close>

lemma foldl_bytes_bit:
  "i < 128 \<Longrightarrow>
   bit (foldl (\<lambda>w b. push_bit 8 w OR ucast b) (0 :: 128 word) (bs :: 8 word list)) i \<longleftrightarrow>
   i < 8 * length bs \<and> bit (bs ! (length bs - 1 - i div 8)) (i mod 8)"
proof (induction bs arbitrary: i rule: rev_induct)
  case Nil
  then show ?case by simp
next
  case (snoc b bs)
  show ?case
  proof (cases "i < 8")
    case True
    then show ?thesis by (simp add: bit_simps)
  next
    case False
    have "bs ! (length bs - 1 - (i - 8) div 8) = (bs @ [b]) ! (length bs - i div 8)"
      if "i - 8 < 8 * length bs"
      using False that by (subst nth_append) (auto simp: div_le_mono le_div_geq)
    with False snoc show ?thesis
      by (auto simp: bit_simps le_mod_geq dest: bit_imp_le_length)
  qed
qed

lemma word_of_bytes_bit:
  assumes "length bs = 16" "i < 128"
  shows "bit (word_of_bytes bs) i \<longleftrightarrow> bit (bs ! (15 - i div 8)) (i mod 8)"
  unfolding word_of_bytes_def using assms by (simp add: foldl_bytes_bit)

lemma bytes_of_bit:
  assumes "i < 128"
  shows "bit (bytes_of w ! (15 - i div 8)) (i mod 8) \<longleftrightarrow> bit w i"
proof -
  have "15 - (15 - i div 8) = i div 8" using assms by auto
  then show ?thesis using assms by (simp add: bytes_of_def bit_simps)
qed

lemma length_bytes_of [simp]: "length (bytes_of w) = 16"
  by (simp add: bytes_of_def)

lemma set_host_bits_bit:
  assumes "length ip = 16" "h \<le> 128"
  shows "length (set_host_bits h ip) = 16 \<and>
    (\<forall>i < 128. bit (set_host_bits h ip ! (15 - i div 8)) (i mod 8) \<longleftrightarrow>
       bit (ip ! (15 - i div 8)) (i mod 8) \<or> i < h)"
  using assms(2)
proof (induction h)
  case 0
  then show ?case using assms(1) by (simp add: set_host_bits_def)
next
  case (Suc h)
  let ?ip = "set_host_bits h ip"
  have step: "set_host_bits (Suc h) ip =
      ?ip[15 - h div 8 := (?ip ! (15 - h div 8)) OR push_bit (h mod 8) 1]"
    by (simp add: set_host_bits_def)
  have IH: "length ?ip = 16" and bits: "\<And>i. i < 128 \<Longrightarrow>
      bit (?ip ! (15 - i div 8)) (i mod 8) \<longleftrightarrow> bit (ip ! (15 - i div 8)) (i mod 8) \<or> i < h"
    using Suc by auto
  have "bit (set_host_bits (Suc h) ip ! (15 - i div 8)) (i mod 8) \<longleftrightarrow>
      bit (ip ! (15 - i div 8)) (i mod 8) \<or> i < Suc h" if i: "i < 128" for i
  proof (cases "i div 8 = h div 8")
    case True
    then have "i = h \<longleftrightarrow> i mod 8 = h mod 8" by (metis mult_div_mod_eq)
    then show ?thesis
      using True IH bits [OF i] unfolding step by (auto simp: bit_simps less_Suc_eq)
  next
    case False
    moreover have "15 - i div 8 \<noteq> 15 - h div 8"
      using False i Suc.prems by auto
    ultimately show ?thesis using IH bits [OF i] unfolding step by (auto simp: less_Suc_eq)
  qed
  then show ?case using IH by (simp add: step)
qed

lemma word_of_set_host_bits:
  assumes "h \<le> 128"
  shows "word_of_bytes (set_host_bits h (bytes_of w)) = w OR mask h"
proof (rule bit_word_eqI)
  fix i assume "i < LENGTH(128)"
  then have "i < 128" by simp
  then show "bit (word_of_bytes (set_host_bits h (bytes_of w))) i \<longleftrightarrow> bit (w OR mask h) i"
    using set_host_bits_bit [of "bytes_of w" h] assms
    by (simp add: word_of_bytes_bit bytes_of_bit bit_simps)
qed

lemma broadcastAddr_V4:
  assumes "pfx_ip p = V4 a" "host_bits p \<le> 32"
  shows "broadcastAddr p = V4 (a OR mask (host_bits p))"
proof -
  define hi :: "128 word" where "hi = push_bit 32 0xFFFF"
  let ?w = "(hi OR ucast a) OR mask (host_bits p) :: 128 word"
  have hi_low: "\<not> bit hi n" if "n < 32" for n
    unfolding hi_def using that by (subst bit_push_bit_iff) simp
  have hi_high: "drop_bit 32 hi = 0xFFFF" by (simp add: hi_def)
  have hb: "nat (32 - pfx_bits p) = host_bits p" using assms(1) by (simp add: host_bits_def)
  have word: "word_of_bytes (set_host_bits (host_bits p) (addr_As16 (V4 a))) = ?w"
    using assms(2) by (simp add: word_of_set_host_bits hi_def)
  have "drop_bit 32 (ucast a OR mask (host_bits p) :: 128 word) = 0"
    using assms(2) by (intro bit_word_eqI) (auto simp: bit_simps dest: bit_imp_le_length)
  then have "drop_bit 32 ?w = 0xFFFF" using hi_high by (simp add: drop_bit_or or.assoc)
  moreover have "(ucast ?w :: 32 word) = a OR mask (host_bits p)"
    by (intro bit_word_eqI) (auto simp: bit_simps hi_low)
  ultimately show ?thesis
    using assms word by (simp add: broadcastAddr_def addr_From16_def hb Let_def)
qed

lemma broadcastAddr_V6:
  assumes "pfx_ip p = V6 a z" "host_bits p \<le> 128"
  shows "broadcastAddr p = addr_Unmap (V6 (a OR mask (host_bits p)) [])"
proof -
  have hb: "nat (128 - pfx_bits p) = host_bits p" using assms(1) by (simp add: host_bits_def)
  show ?thesis using assms
    by (simp add: broadcastAddr_def addr_From16_def word_of_set_host_bits hb Let_def)
qed

lemma aligned_or_mask:
  fixes a :: "'a::len word"
  assumes "2 ^ h dvd unat a"
  shows "a OR mask h = a + of_nat (2 ^ h - 1)"
proof -
  have "unat (take_bit h a) = take_bit h (unat a)" by (rule unsigned_take_bit_eq)
  also have "\<dots> = 0" using assms by (simp add: take_bit_eq_mod)
  finally have zero: "take_bit h a = 0" by (simp add: unat_eq_zero)
  have "a AND mask h = 0" using zero by (simp add: take_bit_eq_mask)
  then have sum: "a OR mask h = a + mask h" by (simp add: disjunctive_add_eq_or)
  have "(mask h :: 'a word) = of_nat (2 ^ h - 1)"
    by (simp add: mask_eq_exp_minus_1 of_nat_diff)
  with sum show ?thesis by simp
qed

text \<open>
  On a base prefix the broadcast address is its last address, except that an IPv6 result inside
  \<open>::ffff:0:0/96\<close> is turned into an IPv4 address by \<open>Unmap\<close>.
\<close>

lemma broadcastAddr_last:
  assumes "base_ok p"
  shows "broadcastAddr p = addr_Unmap (pfx_nth p (pfx_size p - 1))"
  using assms
proof (cases rule: base_ok_cases)
  case (v4 a)
  then show ?thesis
    by (simp add: broadcastAddr_V4 aligned_or_mask pfx_nth_def pfx_size_def)
next
  case (v6 a)
  then show ?thesis
    by (simp add: broadcastAddr_V6 aligned_or_mask pfx_nth_def pfx_size_def del: addr_Unmap.simps)
qed

section \<open>The sequential allocators\<close>

text \<open>
  The contract of a \<open>Next() (T, error)\<close> allocator: it hands out a fixed sequence of items that
  never conflict, one per call, and fails from then on.
\<close>

fun take_next :: "('s \<Rightarrow> 'e + ('a \<times> 's)) \<Rightarrow> nat \<Rightarrow> 's \<Rightarrow> 'a list" where
  "take_next nxt 0 s = []"
| "take_next nxt (Suc n) s = (case nxt s of Inl _ \<Rightarrow> [] | Inr (x, s') \<Rightarrow> x # take_next nxt n s')"

locale sequential_allocator =
  fixes nxt :: "'s \<Rightarrow> 'e + ('a \<times> 's)"
    and inv :: "'s \<Rightarrow> bool"
    and given :: "'s \<Rightarrow> nat"
    and limit :: "'s \<Rightarrow> nat"
    and item :: "'s \<Rightarrow> nat \<Rightarrow> 'a"
    and apart :: "'a \<Rightarrow> 'a \<Rightarrow> bool"
  assumes next_ok: "inv s \<Longrightarrow> given s < limit s \<Longrightarrow>
      \<exists>s'. nxt s = Inr (item s (given s), s') \<and> inv s' \<and> given s' = Suc (given s) \<and>
           limit s' = limit s \<and> item s' = item s"
    and next_fail: "inv s \<Longrightarrow> limit s \<le> given s \<Longrightarrow> \<exists>e. nxt s = Inl e"
    and items_apart: "inv s \<Longrightarrow> i < limit s \<Longrightarrow> j < limit s \<Longrightarrow> i \<noteq> j \<Longrightarrow> apart (item s i) (item s j)"
begin

lemma take_next_eq:
  "inv s \<Longrightarrow> take_next nxt n s = map (item s) [given s..<min (limit s) (given s + n)]"
proof (induction n arbitrary: s)
  case 0
  then show ?case by simp
next
  case (Suc n)
  show ?case
  proof (cases "given s < limit s")
    case True
    then obtain s' where s': "nxt s = Inr (item s (given s), s')" "inv s'"
      "given s' = Suc (given s)" "limit s' = limit s" "item s' = item s"
      using next_ok [OF Suc.prems] by blast
    have "take_next nxt (Suc n) s = item s (given s) # take_next nxt n s'" using s'(1) by simp
    also have "take_next nxt n s' = map (item s) [Suc (given s)..<min (limit s) (Suc (given s) + n)]"
      using Suc.IH [OF s'(2)] s' by simp
    finally show ?thesis using True by (simp add: upt_conv_Cons)
  next
    case False
    then obtain e where "nxt s = Inl e" using next_fail [OF Suc.prems] by force
    with False show ?thesis by simp
  qed
qed

lemma take_next_apart:
  "inv s \<Longrightarrow> i < length (take_next nxt n s) \<Longrightarrow> j < length (take_next nxt n s) \<Longrightarrow> i \<noteq> j \<Longrightarrow>
   apart (take_next nxt n s ! i) (take_next nxt n s ! j)"
  by (simp add: take_next_eq items_apart less_diff_conv)

end

subsection \<open>Addresses\<close>

text \<open>\<open>aa_at k a\<close>: the last address \<open>a\<close> gave out is number \<open>k\<close> of its base network.\<close>

definition aa_inv :: "addr_allocator \<Rightarrow> bool" where
  "aa_inv a \<longleftrightarrow> base_ok (aa_BaseNetwork a) \<and> prefix_Contains (aa_BaseNetwork a) (aa_LastAssignedIP a)"

definition aa_index :: "addr_allocator \<Rightarrow> nat" where
  "aa_index a = (LEAST k. aa_LastAssignedIP a = pfx_nth (aa_BaseNetwork a) k)"

lemma aa_index_eqI:
  assumes "base_ok (aa_BaseNetwork a)" "k < pfx_size (aa_BaseNetwork a)"
    "aa_LastAssignedIP a = pfx_nth (aa_BaseNetwork a) k"
  shows "aa_index a = k"
  unfolding aa_index_def
proof (rule Least_equality)
  show "aa_LastAssignedIP a = pfx_nth (aa_BaseNetwork a) k" by fact
next
  fix j assume j: "aa_LastAssignedIP a = pfx_nth (aa_BaseNetwork a) j"
  show "k \<le> j"
  proof (rule ccontr)
    assume "\<not> k \<le> j"
    then have "j < pfx_size (aa_BaseNetwork a)" using assms(2) by simp
    with j assms have "j = k" by (simp add: nth_inj)
    with \<open>\<not> k \<le> j\<close> show False by simp
  qed
qed

lemma aa_invE:
  assumes "aa_inv a"
  obtains k where "k < pfx_size (aa_BaseNetwork a)" "aa_index a = k"
    "aa_LastAssignedIP a = pfx_nth (aa_BaseNetwork a) k"
  using assms unfolding aa_inv_def by (metis Contains_iff_nth aa_index_eqI)

lemma AddrAllocator_Next_index:
  assumes "aa_inv a" and base: "b = aa_BaseNetwork a"
  shows "AddrAllocator_Next a =
    (if Suc (Suc (aa_index a)) < pfx_size b
     then Inr (pfx_nth b (Suc (aa_index a)), a\<lparr>aa_LastAssignedIP := pfx_nth b (Suc (aa_index a))\<rparr>)
     else Inl NoMoreIPs)"
proof -
  have ok: "base_ok b" using assms by (simp add: aa_inv_def)
  from assms obtain k where k: "k < pfx_size b" "aa_index a = k" "aa_LastAssignedIP a = pfx_nth b k"
    by (auto elim: aa_invE)
  consider "Suc (Suc k) < pfx_size b" | "Suc (Suc k) = pfx_size b" | "Suc k = pfx_size b"
    using k(1) by linarith
  then show ?thesis
  proof cases
    case 1
    with ok k base show ?thesis by (simp add: AddrAllocator_Next_def Next_nth Let_def)
  next
    case 2
    with ok have "\<not> prefix_Contains b (addr_Next (pfx_nth b (Suc k)))" by (intro Next_last) auto
    with 2 ok k base show ?thesis by (simp add: AddrAllocator_Next_def Next_nth Let_def)
  next
    case 3
    with ok have "\<not> prefix_Contains b (addr_Next (pfx_nth b k))" by (intro Next_last) auto
    with 3 k base show ?thesis by (simp add: AddrAllocator_Next_def Let_def)
  qed
qed

interpretation addr_seq: sequential_allocator AddrAllocator_Next aa_inv aa_index
  "\<lambda>a. pfx_size (aa_BaseNetwork a) - 2" "\<lambda>a k. pfx_nth (aa_BaseNetwork a) (Suc k)" "\<lambda>x y. x \<noteq> y"
proof (unfold_locales, goal_cases)
  case (1 a)
  let ?b = "aa_BaseNetwork a" and ?k = "aa_index a"
  let ?a = "a\<lparr>aa_LastAssignedIP := pfx_nth ?b (Suc ?k)\<rparr>"
  have ok: "base_ok ?b" using 1 by (simp add: aa_inv_def)
  have lt: "Suc (Suc ?k) < pfx_size ?b" using 1(2) by simp
  have "aa_inv ?a" using ok lt by (simp add: aa_inv_def)
  moreover have "aa_index ?a = Suc ?k" using ok lt by (intro aa_index_eqI) auto
  ultimately show ?case using 1 lt by (auto simp: AddrAllocator_Next_index)
next
  case (2 a)
  then have "\<not> Suc (Suc (aa_index a)) < pfx_size (aa_BaseNetwork a)" by simp
  with 2(1) show ?case by (simp add: AddrAllocator_Next_index)
next
  case (3 a i j)
  then show ?case by (simp add: aa_inv_def nth_inj)
qed

subsection \<open>Prefixes\<close>

text \<open>
  Subnet number \<open>k\<close> of length \<open>len\<close> in a base network. The allocator loses track of its position
  on IPv4-mapped IPv6 addresses, because \<open>broadcastAddr\<close> unmaps them, so its contract asks for a
  base without them.
\<close>

definition no_mapped :: "prefix \<Rightarrow> bool" where
  "no_mapped b \<longleftrightarrow> (\<forall>i < pfx_size b. \<not> addr_Is4In6 (pfx_nth b i))"

definition sub_bits :: "prefix \<Rightarrow> int \<Rightarrow> nat" where
  "sub_bits b len = nat (addr_BitLen (pfx_ip b) - len)"

definition subnet :: "prefix \<Rightarrow> int \<Rightarrow> nat \<Rightarrow> prefix" where
  "subnet b len k = prefix_From (pfx_nth b (k * 2 ^ sub_bits b len)) len"

definition subnet_count :: "prefix \<Rightarrow> int \<Rightarrow> nat" where
  "subnet_count b len = 2 ^ nat (len - pfx_bits b)"

definition subnet_ok :: "prefix \<Rightarrow> int \<Rightarrow> bool" where
  "subnet_ok b len \<longleftrightarrow> base_ok b \<and> pfx_bits b < len \<and> len \<le> addr_BitLen (pfx_ip b)"

lemma subnet_sizes:
  assumes "subnet_ok b len"
  shows "pfx_size b = subnet_count b len * 2 ^ sub_bits b len" "sub_bits b len \<le> host_bits b"
proof -
  have "0 \<le> pfx_bits b" using assms by (simp add: subnet_ok_def base_ok_def prefix_IsValid_def)
  then have "host_bits b = nat (len - pfx_bits b) + sub_bits b len"
    using assms by (simp add: host_bits_def sub_bits_def subnet_ok_def flip: nat_add_distrib)
  then show "pfx_size b = subnet_count b len * 2 ^ sub_bits b len" "sub_bits b len \<le> host_bits b"
    by (simp_all add: pfx_size_def subnet_count_def power_add)
qed

lemma subnet_index_bound:
  assumes "subnet_ok b len" "k < subnet_count b len" "i < 2 ^ sub_bits b len"
  shows "k * 2 ^ sub_bits b len + i < pfx_size b"
proof -
  have "k * 2 ^ sub_bits b len + i < Suc k * 2 ^ sub_bits b len" using assms(3) by simp
  also have "\<dots> \<le> subnet_count b len * 2 ^ sub_bits b len"
    using assms(2) by (intro mult_le_mono1) simp
  finally show ?thesis using subnet_sizes [OF assms(1)] by simp
qed

lemma subnet_fields:
  assumes "subnet_ok b len"
  shows "pfx_ip (subnet b len k) = pfx_nth b (k * 2 ^ sub_bits b len)"
    and "pfx_bits (subnet b len k) = len"
    and "host_bits (subnet b len k) = sub_bits b len"
    and "prefix_IsValid (subnet b len k)"
  using assms
  by (simp_all add: subnet_def subnet_ok_def base_ok_def prefix_IsValid_def prefix_From_def
        pfx_nth_def host_bits_def sub_bits_def)

lemma addr_Prefix_subnet:
  assumes "subnet_ok b len" "k < subnet_count b len"
  shows "addr_Prefix (pfx_nth b (k * 2 ^ sub_bits b len)) len = Inr (subnet b len k)"
proof -
  have "addr_aligned (sub_bits b len) (pfx_nth b (k * 2 ^ sub_bits b len))"
    using assms subnet_sizes [OF assms(1)] subnet_index_bound [OF assms, of 0]
    by (intro nth_aligned) (auto simp: subnet_ok_def)
  then have "addr_clear (sub_bits b len) (pfx_nth b (k * 2 ^ sub_bits b len)) =
      pfx_nth b (k * 2 ^ sub_bits b len)"
    by (rule addr_clear_aligned)
  then show ?thesis using assms(1)
    by (auto simp: addr_Prefix_def subnet_def subnet_ok_def base_ok_def prefix_IsValid_def
          pfx_nth_def sub_bits_def)
qed

lemma subnet_base_ok:
  assumes "subnet_ok b len" "k < subnet_count b len"
  shows "base_ok (subnet b len k)"
  using addr_Prefix_subnet [OF assms] subnet_fields [OF assms(1), of k]
  by (simp add: base_ok_def prefix_Masked_def)

lemma subnet_nth:
  assumes "subnet_ok b len"
  shows "pfx_nth (subnet b len k) i = pfx_nth b (k * 2 ^ sub_bits b len + i)"
proof -
  have "pfx_nth (subnet b len k) i = addr_plus (pfx_ip (subnet b len k)) i" by (rule pfx_nth_def)
  then show ?thesis unfolding subnet_fields(1) [OF assms] by (simp add: pfx_nth_def addr_plus_plus)
qed

lemma broadcast_subnet:
  assumes "subnet_ok b len" "no_mapped b" "k < subnet_count b len"
  shows "broadcastAddr (subnet b len k) = pfx_nth b (Suc k * 2 ^ sub_bits b len - 1)"
proof -
  have idx: "k * 2 ^ sub_bits b len + (2 ^ sub_bits b len - 1) = Suc k * 2 ^ sub_bits b len - 1"
    by (simp add: add.commute)
  have "broadcastAddr (subnet b len k) = addr_Unmap (pfx_nth b (Suc k * 2 ^ sub_bits b len - 1))"
    using subnet_base_ok [OF assms(1,3)] subnet_fields(3) [OF assms(1), of k] assms(1)
    by (simp add: broadcastAddr_last subnet_nth pfx_size_def add.commute flip: idx)
  moreover have "\<not> addr_Is4In6 (pfx_nth b (Suc k * 2 ^ sub_bits b len - 1))"
    using assms(2) subnet_index_bound [OF assms(1,3), of "2 ^ sub_bits b len - 1"] idx
    by (simp add: no_mapped_def)
  moreover have "addr_Unmap a = a" if "\<not> addr_Is4In6 a" for a using that by (cases a) auto
  ultimately show ?thesis by simp
qed

text \<open>The position of a prefix allocator and one step of it.\<close>

definition pa_at :: "prefix_allocator \<Rightarrow> nat \<Rightarrow> bool" where
  "pa_at a n \<longleftrightarrow> (if n = 0 then pa_LastAssigned a = zero_prefix
     else n \<le> subnet_count (pa_BaseNetwork a) (pa_PrefixLen a) \<and>
       pa_LastAssigned a = subnet (pa_BaseNetwork a) (pa_PrefixLen a) (n - 1))"

definition pa_ok :: "prefix_allocator \<Rightarrow> bool" where
  "pa_ok a \<longleftrightarrow> subnet_ok (pa_BaseNetwork a) (pa_PrefixLen a) \<and> no_mapped (pa_BaseNetwork a)"

lemma PrefixAllocator_Next_at:
  assumes "pa_ok a" "pa_at a n" and b: "b = pa_BaseNetwork a" and len: "len = pa_PrefixLen a"
    and lt: "n < subnet_count b len"
  shows "PrefixAllocator_Next a = Inr (subnet b len n, a\<lparr>pa_LastAssigned := subnet b len n\<rparr>)"
proof -
  have ok: "subnet_ok b len" "no_mapped b" using assms by (simp_all add: pa_ok_def)
  let ?next = "if prefix_IsValid (pa_LastAssigned a) then addr_Next (broadcastAddr (pa_LastAssigned a))
             else pfx_ip b"
  have "?next = pfx_nth b (n * 2 ^ sub_bits b len)"
  proof (cases n)
    case 0
    with assms show ?thesis by (simp add: pa_at_def)
  next
    case (Suc k)
    have "Suc (Suc k * 2 ^ sub_bits b len - 1) = Suc k * 2 ^ sub_bits b len" by simp
    moreover have "Suc k * 2 ^ sub_bits b len < pfx_size b"
      using subnet_index_bound [OF ok(1) lt, of 0] Suc by simp
    ultimately have "addr_Next (pfx_nth b (Suc k * 2 ^ sub_bits b len - 1)) =
        pfx_nth b (Suc k * 2 ^ sub_bits b len)"
      using Next_nth [of b "Suc k * 2 ^ sub_bits b len - 1"] ok by (simp add: subnet_ok_def)
    with Suc assms ok lt show ?thesis
      by (simp add: pa_at_def subnet_fields broadcast_subnet)
  qed
  moreover have "prefix_Contains b (pfx_ip (subnet b len n))"
    using ok lt subnet_index_bound [OF ok(1) lt, of 0] by (simp add: subnet_fields subnet_ok_def)
  ultimately show ?thesis using addr_Prefix_subnet [OF ok(1) lt]
    unfolding PrefixAllocator_Next_def b [symmetric] len [symmetric] by (simp only: Let_def) simp
qed

lemma addr_Prefix_outside:
  assumes "subnet_ok b len" "x = NoAddr \<or> addr_IsValid x \<and> addr_BitLen x = addr_BitLen (pfx_ip b)"
    "\<not> prefix_Contains b x" "\<not> addr_hasZone x"
  shows "\<exists>q. addr_Prefix x len = Inr q \<and> \<not> prefix_Contains b (pfx_ip q)"
proof (cases "x = NoAddr")
  case True
  have "0 \<le> len" using assms(1) by (simp add: subnet_ok_def base_ok_def prefix_IsValid_def)
  with True show ?thesis by (simp add: addr_Prefix_def zero_prefix_def)
next
  case False
  let ?q = "prefix_From (addr_clear (sub_bits b len) x) len"
  have "0 \<le> len" "len \<le> addr_BitLen x" "addr_IsValid x"
    using assms False by (auto simp: subnet_ok_def base_ok_def prefix_IsValid_def)
  then have q: "addr_Prefix x len = Inr ?q"
    using assms(2) False by (auto simp: addr_Prefix_def sub_bits_def)
  have "pfx_ip ?q = addr_clear (sub_bits b len) x"
    using assms(4) by (cases x) (simp_all add: prefix_From_def)
  with q show ?thesis
    using Contains_clear [of "sub_bits b len" b x] subnet_sizes(2) [OF assms(1)] assms(3,4) by auto
qed

lemma PrefixAllocator_Next_full:
  assumes "pa_ok a" "pa_at a n" "subnet_count (pa_BaseNetwork a) (pa_PrefixLen a) \<le> n"
  shows "PrefixAllocator_Next a = Inl NoMorePrefixes"
proof -
  define b len where bl: "b = pa_BaseNetwork a" "len = pa_PrefixLen a"
  have ok: "subnet_ok b len" "no_mapped b" using assms bl by (simp_all add: pa_ok_def)
  have "0 < subnet_count b len" by (simp add: subnet_count_def)
  then obtain k where k: "n = Suc k" "Suc k = subnet_count b len" "pa_LastAssigned a = subnet b len k"
    using assms bl by (cases n) (auto simp: pa_at_def)
  have ends: "Suc (Suc k * 2 ^ sub_bits b len - 1) = pfx_size b"
    using k(2) subnet_sizes(1) [OF ok(1)] by simp
  let ?x = "addr_Next (pfx_nth b (Suc k * 2 ^ sub_bits b len - 1))"
  have "\<not> prefix_Contains b ?x" using Next_last [OF _ ends] ok by (simp add: subnet_ok_def)
  moreover have "\<not> addr_hasZone ?x"
    using ok by (cases "pfx_ip b") (auto simp: pfx_nth_def subnet_ok_def base_ok_def prefix_IsValid_def)
  moreover have "?x = NoAddr \<or> addr_IsValid ?x \<and> addr_BitLen ?x = addr_BitLen (pfx_ip b)"
    using addr_Next_family [of "pfx_nth b (Suc k * 2 ^ sub_bits b len - 1)"] by (auto simp: pfx_nth_def)
  ultimately obtain q where "addr_Prefix ?x len = Inr q" "\<not> prefix_Contains b (pfx_ip q)"
    using addr_Prefix_outside [OF ok(1)] by blast
  with k ok bl show ?thesis
    by (simp add: PrefixAllocator_Next_def subnet_fields broadcast_subnet)
qed

lemma subnet_ip_inj:
  assumes "subnet_ok b len" "i < subnet_count b len" "j < subnet_count b len"
    "pfx_nth b (i * 2 ^ sub_bits b len + x) = pfx_nth b (j * 2 ^ sub_bits b len + y)"
    "x < 2 ^ sub_bits b len" "y < 2 ^ sub_bits b len"
  shows "i = j"
proof -
  have "i * 2 ^ sub_bits b len + x = j * 2 ^ sub_bits b len + y"
    using assms subnet_index_bound [OF assms(1)] by (simp add: nth_inj subnet_ok_def)
  then have "(i * 2 ^ sub_bits b len + x) div 2 ^ sub_bits b len =
      (j * 2 ^ sub_bits b len + y) div 2 ^ sub_bits b len" by simp
  with assms(5,6) show ?thesis by simp
qed

lemma subnet_Contains_nth:
  assumes "subnet_ok b len" "k < subnet_count b len" "prefix_Contains (subnet b len k) x"
  shows "\<exists>u < 2 ^ sub_bits b len. x = pfx_nth b (k * 2 ^ sub_bits b len + u)"
  using assms subnet_base_ok [OF assms(1,2)] subnet_fields(3) [OF assms(1)]
  by (auto simp: Contains_iff_nth pfx_size_def subnet_nth)

lemma subnets_disjoint:
  assumes "subnet_ok b len" "i < subnet_count b len" "j < subnet_count b len"
    "prefix_Contains (subnet b len i) x" "prefix_Contains (subnet b len j) x"
  shows "i = j"
proof -
  obtain u where u: "u < 2 ^ sub_bits b len" "x = pfx_nth b (i * 2 ^ sub_bits b len + u)"
    using subnet_Contains_nth assms by blast
  obtain v where v: "v < 2 ^ sub_bits b len" "x = pfx_nth b (j * 2 ^ sub_bits b len + v)"
    using subnet_Contains_nth assms by blast
  show ?thesis by (rule subnet_ip_inj [OF assms(1-3) _ u(1) v(1)]) (use u v in simp)
qed

lemma subnet_within:
  assumes "subnet_ok b len" "k < subnet_count b len" "prefix_Contains (subnet b len k) x"
  shows "prefix_Contains b x"
  using subnet_Contains_nth [OF assms] subnet_index_bound [OF assms(1,2)] assms(1)
  by (auto simp: subnet_ok_def)

lemma pa_at_unique:
  assumes "pa_ok a" "pa_at a n" "pa_at a m"
  shows "n = m"
proof -
  have ok: "subnet_ok (pa_BaseNetwork a) (pa_PrefixLen a)" using assms(1) by (simp add: pa_ok_def)
  have "subnet (pa_BaseNetwork a) (pa_PrefixLen a) k \<noteq> zero_prefix \<and>
      zero_prefix \<noteq> subnet (pa_BaseNetwork a) (pa_PrefixLen a) k" for k
    using subnet_fields(4) [OF ok] by (metis not_valid_zero_prefix)
  moreover have "n - 1 = m - 1"
    if "0 < n" "0 < m"
  proof -
    have "pfx_nth (pa_BaseNetwork a) ((n - 1) * 2 ^ sub_bits (pa_BaseNetwork a) (pa_PrefixLen a) + 0) =
        pfx_nth (pa_BaseNetwork a) ((m - 1) * 2 ^ sub_bits (pa_BaseNetwork a) (pa_PrefixLen a) + 0)"
      using assms(2,3) that subnet_fields(1) [OF ok, of "n - 1"] subnet_fields(1) [OF ok, of "m - 1"]
      by (simp add: pa_at_def)
    moreover have "n - 1 < subnet_count (pa_BaseNetwork a) (pa_PrefixLen a)"
      "m - 1 < subnet_count (pa_BaseNetwork a) (pa_PrefixLen a)"
      using assms(2,3) that by (auto simp: pa_at_def)
    ultimately show ?thesis using subnet_ip_inj [OF ok, of "n - 1" "m - 1" 0 0] by simp
  qed
  ultimately show ?thesis using assms(2,3) by (cases n; cases m) (auto simp: pa_at_def)
qed

definition pa_inv :: "prefix_allocator \<Rightarrow> bool" where
  "pa_inv a \<longleftrightarrow> pa_ok a \<and> (\<exists>n. pa_at a n)"

definition pa_given :: "prefix_allocator \<Rightarrow> nat" where
  "pa_given a = (LEAST n. pa_at a n)"

lemma pa_given_eq: "pa_ok a \<Longrightarrow> pa_at a n \<Longrightarrow> pa_given a = n"
  unfolding pa_given_def by (rule Least_equality) (auto dest: pa_at_unique)

interpretation prefix_seq: sequential_allocator PrefixAllocator_Next pa_inv pa_given
  "\<lambda>a. subnet_count (pa_BaseNetwork a) (pa_PrefixLen a)"
  "\<lambda>a. subnet (pa_BaseNetwork a) (pa_PrefixLen a)"
  "\<lambda>p q. \<forall>x. \<not> (prefix_Contains p x \<and> prefix_Contains q x)"
proof (unfold_locales, goal_cases)
  case (1 a)
  then obtain n where n: "pa_ok a" "pa_at a n" "pa_given a = n"
    by (auto simp: pa_inv_def pa_given_eq)
  let ?a = "a\<lparr>pa_LastAssigned := subnet (pa_BaseNetwork a) (pa_PrefixLen a) n\<rparr>"
  have "pa_ok ?a" "pa_at ?a (Suc n)" using n 1(2) by (auto simp: pa_ok_def pa_at_def)
  then have "pa_inv ?a \<and> pa_given ?a = Suc n" by (auto simp: pa_inv_def pa_given_eq)
  then show ?case using n 1(2) PrefixAllocator_Next_at [OF n(1,2)] by auto
next
  case (2 a)
  then obtain n where "pa_ok a" "pa_at a n" "pa_given a = n" by (auto simp: pa_inv_def pa_given_eq)
  with 2(2) show ?case using PrefixAllocator_Next_full by blast
next
  case (3 a i j)
  then show ?case using subnets_disjoint by (auto simp: pa_inv_def pa_ok_def)
qed

section \<open>The pool\<close>

text \<open>
  \<open>pool_usable\<close> are the addresses the pool may hand out. The invariant: the two maps are
  inverse to each other, hold usable addresses only, and the cursor is in the base network.
\<close>

definition pool_usable :: "addr_pool \<Rightarrow> addr set" where
  "pool_usable p = {a. addr_Unmap a = a \<and> pool_Contains p a}"

definition pool_inv :: "addr_pool \<Rightarrow> bool" where
  "pool_inv p \<longleftrightarrow> base_ok (po_base p) \<and> prefix_Contains (po_base p) (po_last p) \<and>
     inverse_maps (po_owners p) (po_addrs p) \<and>
     dom (po_owners p) \<subseteq> pool_usable p"

lemma pool_Contains_cong:
  "po_base p = po_base q \<Longrightarrow> pool_Contains p = pool_Contains q"
  by (rule ext) (simp add: pool_Contains_def Let_def)

lemma Unmap_idem [simp]: "addr_Unmap (addr_Unmap a) = addr_Unmap a"
  by (cases a) auto

lemma pool_Contains_Unmap [simp]: "pool_Contains p (addr_Unmap a) = pool_Contains p a"
  by (simp add: pool_Contains_def)

text \<open>An address of the base network that the pool may hand out is in unmapped form.\<close>

lemma pool_Contains_unmapped:
  assumes "pool_Contains p a" "prefix_Contains (po_base p) a"
  shows "addr_Unmap a = a"
  using assms
  by (cases a; cases "pfx_ip (po_base p)")
     (auto simp: pool_Contains_def prefix_Contains_def Let_def split: if_splits)

lemma pool_next_nth:
  assumes "base_ok (po_base p)" "i < pfx_size (po_base p)"
  shows "pool_next p (pfx_nth (po_base p) i) = pfx_nth (po_base p) (Suc i mod pfx_size (po_base p))"
proof (cases "Suc i = pfx_size (po_base p)")
  case True
  with assms Next_last [OF assms(1) True] show ?thesis by (simp add: pool_next_def Let_def)
next
  case False
  then have lt: "Suc i < pfx_size (po_base p)" using assms(2) by simp
  have valid: "addr_IsValid (pfx_nth (po_base p) (Suc i))"
    using assms(1) by (simp add: pfx_nth_def base_ok_def prefix_IsValid_def)
  have inside: "prefix_Contains (po_base p) (pfx_nth (po_base p) (Suc i))"
    using assms(1) lt by (rule Contains_nth)
  show ?thesis
    using Next_nth [OF assms(1) lt] valid inside lt by (simp add: pool_next_def Let_def)
qed

text \<open>
  The scan visits every address of the base network once, from \<open>start\<close> around to \<open>start\<close>, and
  stops at the first free one.
\<close>

abbreviation pool_free :: "addr_pool \<Rightarrow> addr \<Rightarrow> bool" where
  "pool_free p a \<equiv> po_owners p a = None \<and> pool_Contains p a"

lemma cycle_back:
  fixes s k N :: nat
  assumes "s < N" "k < N"
  shows "(s + Suc k) mod N = s \<longleftrightarrow> Suc k = N"
proof (cases "s + Suc k < N")
  case False
  then have "(s + Suc k) mod N = s + Suc k - N" using assms by (simp add: mod_if)
  then show ?thesis using False assms by auto
qed simp

lemma pool_scan_from:
  assumes "base_ok (po_base p)" "b = po_base p" "N = pfx_size b" "k < N" "s < N"
  shows "pool_scan p (pfx_nth b s) (pfx_nth b ((s + k) mod N)) =
    Some (find (pool_free p) (map (\<lambda>j. pfx_nth b ((s + j) mod N)) [k..<N]))"
  using assms(4)
proof (induction "N - k" arbitrary: k)
  case 0
  then show ?case by simp
next
  case (Suc m)
  let ?a = "pfx_nth b ((s + k) mod N)"
  have N: "0 < N" using assms(3) by simp
  have nx: "pool_next p ?a = pfx_nth b ((s + Suc k) mod N)"
    using pool_next_nth [of p "(s + k) mod N"] assms N by (simp add: mod_Suc_eq)
  have wraps: "pfx_nth b ((s + Suc k) mod N) = pfx_nth b s \<longleftrightarrow> Suc k = N"
    using assms N cycle_back [OF assms(5) Suc.prems] by (simp add: nth_inj)
  define rest where
    "rest = find (pool_free p) (map (\<lambda>j. pfx_nth b ((s + j) mod N)) [Suc k..<N])"
  have scan: "pool_scan p (pfx_nth b s) ?a =
      (if pool_free p ?a then Some (Some ?a)
       else if pfx_nth b ((s + Suc k) mod N) = pfx_nth b s then Some None
       else pool_scan p (pfx_nth b s) (pfx_nth b ((s + Suc k) mod N)))"
    by (subst pool_scan.simps) (simp only: nx)
  have split: "find (pool_free p) (map (\<lambda>j. pfx_nth b ((s + j) mod N)) [k..<N]) =
      (if pool_free p ?a then Some ?a else rest)"
    using Suc.prems by (simp only: upt_conv_Cons list.map find.simps rest_def)
  have IH: "pool_scan p (pfx_nth b s) (pfx_nth b ((s + Suc k) mod N)) = Some rest" if "Suc k \<noteq> N"
    unfolding rest_def using Suc.prems Suc.hyps(2) that by (intro Suc.hyps(1)) auto
  have "rest = None" if "Suc k = N" using that by (simp add: rest_def)
  with IH show ?case unfolding scan split wraps by (simp only: split: if_split) blast
qed

lemma usable_in_base: "a \<in> pool_usable p \<Longrightarrow> prefix_Contains (po_base p) a"
  by (simp add: pool_usable_def pool_Contains_def Let_def split: if_splits)

lemma usable_iff: "a \<in> pool_usable p \<longleftrightarrow> prefix_Contains (po_base p) a \<and> pool_Contains p a"
  using usable_in_base pool_Contains_unmapped by (auto simp: pool_usable_def)

lemma usable_update [simp]:
  "pool_usable (p\<lparr>po_owners := m\<rparr>) = pool_usable p" "pool_usable (p\<lparr>po_addrs := n\<rparr>) = pool_usable p"
  "pool_usable (p\<lparr>po_last := l\<rparr>) = pool_usable p"
  by (simp_all add: pool_usable_def pool_Contains_def)

lemma pool_scan_start:
  assumes "pool_inv p"
  obtains s where "s < pfx_size (po_base p)"
    "po_last p = pfx_nth (po_base p) ((s + (pfx_size (po_base p) - 1)) mod pfx_size (po_base p))"
    "pool_scan p (pool_next p (po_last p)) (pool_next p (po_last p)) =
      Some (find (pool_free p)
        (map (\<lambda>j. pfx_nth (po_base p) ((s + j) mod pfx_size (po_base p))) [0..<pfx_size (po_base p)]))"
proof -
  let ?b = "po_base p" and ?N = "pfx_size (po_base p)"
  have ok: "base_ok ?b" using assms by (simp add: pool_inv_def)
  obtain l where l: "l < ?N" "po_last p = pfx_nth ?b l"
    using assms by (auto simp: pool_inv_def Contains_iff_nth)
  have "(Suc l mod ?N + (?N - 1)) mod ?N = (Suc l + (?N - 1)) mod ?N" by (simp add: mod_add_left_eq)
  also have "Suc l + (?N - 1) = l + ?N" by simp
  also have "(l + ?N) mod ?N = l" using l(1) by simp
  finally have "(Suc l mod ?N + (?N - 1)) mod ?N = l" .
  then show ?thesis
    using that [of "Suc l mod ?N"] pool_scan_from [OF ok refl refl, of 0 "Suc l mod ?N"]
      pool_next_nth [OF ok l(1)] l(2) by simp
qed

lemma cycle_inj:
  fixes s i j N :: nat
  assumes "s < N" "i < N" "j < N" "(s + i) mod N = (s + j) mod N"
  shows "i = j"
proof -
  have "(s + k) mod N = (if s + k < N then s + k else s + k - N)" if "k < N" for k
    using assms(1) that by (simp add: mod_if)
  with assms show ?thesis by (auto split: if_splits)
qed

lemma cycle_covers:
  fixes s i N :: nat
  assumes "s < N" "i < N"
  shows "\<exists>j < N. i = (s + j) mod N"
proof (cases "s \<le> i")
  case True
  with assms show ?thesis by (intro exI [of _ "i - s"]) auto
next
  case False
  with assms show ?thesis by (intro exI [of _ "i + N - s"]) auto
qed

lemma scan_covers:
  assumes "base_ok b" "s < pfx_size b"
  shows "set (map (\<lambda>j. pfx_nth b ((s + j) mod pfx_size b)) [0..<pfx_size b]) = {a. prefix_Contains b a}"
proof (intro equalityI subsetI)
  fix a assume "a \<in> {a. prefix_Contains b a}"
  then obtain i where i: "i < pfx_size b" "a = pfx_nth b i" using assms(1) by (auto simp: Contains_iff_nth)
  then obtain j where "j < pfx_size b" "i = (s + j) mod pfx_size b" using cycle_covers assms(2) by blast
  with i show "a \<in> set (map (\<lambda>j. pfx_nth b ((s + j) mod pfx_size b)) [0..<pfx_size b])" by auto
qed (use assms(1) in auto)

lemma pool_Allocate_new:
  assumes "pool_inv p" "po_addrs p owner = None"
  shows "(\<exists>a. pool_Allocate p owner = Some (Inr a, (pool_assign p a owner)\<lparr>po_last := a\<rparr>) \<and>
            a \<in> pool_usable p \<and> po_owners p a = None) \<or>
         pool_Allocate p owner = Some (Inl ErrPoolExhausted, p) \<and>
            (\<forall>a \<in> pool_usable p. po_owners p a \<noteq> None)"
proof -
  let ?b = "po_base p" and ?N = "pfx_size (po_base p)"
  have ok: "base_ok ?b" using assms by (simp add: pool_inv_def)
  obtain s where s: "s < ?N" "pool_scan p (pool_next p (po_last p)) (pool_next p (po_last p)) =
      Some (find (pool_free p) (map (\<lambda>j. pfx_nth ?b ((s + j) mod ?N)) [0..<?N]))"
    by (rule pool_scan_start [OF assms(1)])
  show ?thesis
  proof (cases "find (pool_free p) (map (\<lambda>j. pfx_nth ?b ((s + j) mod ?N)) [0..<?N])")
    case None
    then have "\<forall>a. prefix_Contains ?b a \<longrightarrow> \<not> pool_free p a"
      unfolding find_None_iff_none scan_covers [OF ok s(1)] by simp
    then show ?thesis using s(2) assms(2) None by (auto simp: pool_Allocate_def usable_iff Let_def)
  next
    case (Some a)
    have "a \<in> {a. prefix_Contains ?b a} \<and> pool_free p a"
      using find_Some_iff_in [OF Some] unfolding scan_covers [OF ok s(1)] .
    then show ?thesis using s(2) assms(2) Some by (auto simp: pool_Allocate_def usable_iff Let_def)
  qed
qed

lemma pool_inv_assign:
  assumes "pool_inv p" "a \<in> pool_usable p" "po_owners p a = None" "po_addrs p owner = None"
  shows "pool_inv (pool_assign p a owner)" "pool_inv ((pool_assign p a owner)\<lparr>po_last := a\<rparr>)"
  using assms usable_in_base [OF assms(2)]
  by (auto simp: pool_inv_def pool_assign_def inverse_maps_assign)

lemma pool_inv_release:
  assumes "pool_inv p"
  shows "pool_inv (pool_release p owner)"
proof (cases "po_addrs p owner")
  case None
  with assms show ?thesis by (simp add: pool_release_def)
next
  case (Some a)
  with assms have "inverse_maps ((po_owners p)(a := None)) ((po_addrs p)(owner := None))"
    by (intro inverse_maps_delete) (simp_all add: pool_inv_def)
  with assms Some show ?thesis by (auto simp: pool_inv_def pool_release_def)
qed

lemma pool_release_addrs:
  "po_addrs (pool_release p owner) = (po_addrs p)(owner := None)"
  "pool_usable (pool_release p owner) = pool_usable p"
  by (auto simp: pool_release_def split: option.splits)

lemma pool_release_free: "po_owners p a = None \<Longrightarrow> po_owners (pool_release p owner) a = None"
  by (auto simp: pool_release_def split: option.splits)

section \<open>The contract of the pool\<close>

text \<open>
  What the service controller relies on: the pool is an injective assignment of usable addresses
  to owners; \<open>Allocate\<close> returns, keeps what an owner holds and fails only when every usable
  address is taken; \<open>Reserve\<close> moves an owner to the given address unless another owner has it.
  Arguments are compared in a canonical form (\<open>Unmap\<close>).
\<close>

datatype ('a, 'o) pool_op = OpAllocate 'o | OpReserve 'a 'o | OpRelease 'o

fun op_owner :: "('a, 'o) pool_op \<Rightarrow> 'o" where
  "op_owner (OpAllocate o1) = o1"
| "op_owner (OpReserve _ o1) = o1"
| "op_owner (OpRelease o1) = o1"

fun run_ops :: "('s \<Rightarrow> 'o \<Rightarrow> (('e + 'a) \<times> 's) option) \<Rightarrow> ('s \<Rightarrow> 'a \<Rightarrow> 'o \<Rightarrow> ('e + unit) \<times> 's) \<Rightarrow>
    ('s \<Rightarrow> 'o \<Rightarrow> 's) \<Rightarrow> ('a, 'o) pool_op list \<Rightarrow> 's \<Rightarrow> 's option" where
  "run_ops allocate reserve release [] s = Some s"
| "run_ops allocate reserve release (OpAllocate o1 # ops) s =
     (case allocate s o1 of None \<Rightarrow> None | Some (_, s') \<Rightarrow> run_ops allocate reserve release ops s')"
| "run_ops allocate reserve release (OpReserve a o1 # ops) s =
     run_ops allocate reserve release ops (snd (reserve s a o1))"
| "run_ops allocate reserve release (OpRelease o1 # ops) s =
     run_ops allocate reserve release ops (release s o1)"

locale owner_pool =
  fixes allocate :: "'s \<Rightarrow> 'o \<Rightarrow> (('e + 'a) \<times> 's) option"
    and reserve :: "'s \<Rightarrow> 'a \<Rightarrow> 'o \<Rightarrow> ('e + unit) \<times> 's"
    and release :: "'s \<Rightarrow> 'o \<Rightarrow> 's"
    and inv :: "'s \<Rightarrow> bool"
    and held :: "'s \<Rightarrow> 'o \<rightharpoonup> 'a"
    and usable :: "'s \<Rightarrow> 'a set"
    and canon :: "'a \<Rightarrow> 'a"
  assumes held_inj: "inv s \<Longrightarrow> held s o1 = Some a \<Longrightarrow> held s o2 = Some a \<Longrightarrow> o1 = o2"
    and held_usable: "inv s \<Longrightarrow> ran (held s) \<subseteq> usable s"
    and allocate_law: "inv s \<Longrightarrow> \<exists>r s'. allocate s o1 = Some (r, s') \<and> inv s' \<and> usable s' = usable s \<and>
      (case r of
         Inr a \<Rightarrow> held s' = (held s)(o1 \<mapsto> a) \<and> (held s o1 = Some a \<or> held s o1 = None \<and> a \<notin> ran (held s))
       | Inl _ \<Rightarrow> s' = s \<and> held s o1 = None \<and> usable s \<subseteq> ran (held s))"
    and reserve_law: "inv s \<Longrightarrow> \<exists>r s'. reserve s a o1 = (r, s') \<and> inv s' \<and> usable s' = usable s \<and>
      (case r of
         Inr _ \<Rightarrow> held s' = (held s)(o1 \<mapsto> canon a)
       | Inl _ \<Rightarrow> s' = s \<and> (canon a \<notin> usable s \<or> (\<exists>o2. o2 \<noteq> o1 \<and> held s o2 = Some (canon a))))"
    and release_law: "inv s \<Longrightarrow>
      inv (release s o1) \<and> usable (release s o1) = usable s \<and> held (release s o1) = (held s)(o1 := None)"
begin

lemma run_ops_inv:
  "inv s \<Longrightarrow> \<exists>s'. run_ops allocate reserve release ops s = Some s' \<and> inv s' \<and> usable s' = usable s"
proof (induction ops arbitrary: s)
  case Nil
  then show ?case by simp
next
  case (Cons op ops)
  then show ?case
  proof (cases op)
    case (OpAllocate o1)
    obtain r s' where "allocate s o1 = Some (r, s')" "inv s'" "usable s' = usable s"
      using allocate_law [OF Cons.prems] by blast
    with OpAllocate Cons.IH [of s'] show ?thesis by auto
  next
    case (OpReserve a o1)
    obtain r s' where "reserve s a o1 = (r, s')" "inv s'" "usable s' = usable s"
      using reserve_law [OF Cons.prems] by blast
    with OpReserve Cons.IH [of s'] show ?thesis by auto
  next
    case (OpRelease o1)
    with release_law [OF Cons.prems] Cons.IH [of "release s o1"] show ?thesis by auto
  qed
qed

lemma step_others:
  assumes "inv s" "op_owner op \<noteq> o1" "run_ops allocate reserve release [op] s = Some s'"
  shows "inv s' \<and> held s' o1 = held s o1"
proof (cases op)
  case (OpAllocate o2)
  obtain r t where rt: "allocate s o2 = Some (r, t)" "inv t" "case r of
      Inr a \<Rightarrow> held t = (held s)(o2 \<mapsto> a) \<and> (held s o2 = Some a \<or> held s o2 = None \<and> a \<notin> ran (held s))
    | Inl _ \<Rightarrow> t = s \<and> held s o2 = None \<and> usable s \<subseteq> ran (held s)"
    using allocate_law [OF assms(1), of o2] by blast
  with OpAllocate assms show ?thesis by (cases r) auto
next
  case (OpReserve a o2)
  obtain r t where rt: "reserve s a o2 = (r, t)" "inv t" "case r of
      Inr _ \<Rightarrow> held t = (held s)(o2 \<mapsto> canon a)
    | Inl _ \<Rightarrow> t = s \<and> (canon a \<notin> usable s \<or> (\<exists>o3. o3 \<noteq> o2 \<and> held s o3 = Some (canon a)))"
    using reserve_law [OF assms(1), of a o2] by blast
  with OpReserve assms show ?thesis by (cases r) auto
next
  case (OpRelease o2)
  with assms release_law [OF assms(1), of o2] show ?thesis by auto
qed

lemma run_ops_Cons:
  "run_ops allocate reserve release (op # ops) s =
   (case run_ops allocate reserve release [op] s of None \<Rightarrow> None
    | Some s' \<Rightarrow> run_ops allocate reserve release ops s')"
  by (cases op) (auto split: option.splits)

lemma run_ops_others:
  "inv s \<Longrightarrow> (\<forall>op \<in> set ops. op_owner op \<noteq> o1) \<Longrightarrow>
   run_ops allocate reserve release ops s = Some s' \<Longrightarrow> held s' o1 = held s o1"
proof (induction ops arbitrary: s)
  case Nil
  then show ?case by simp
next
  case (Cons op ops)
  obtain t where t: "run_ops allocate reserve release [op] s = Some t"
    "run_ops allocate reserve release ops t = Some s'"
    using Cons.prems(3) by (subst (asm) run_ops_Cons) (auto split: option.splits)
  with step_others [OF Cons.prems(1) _ t(1), of o1] Cons show ?case by auto
qed

lemma allocate_capacity:
  assumes "inv s" "finite (dom (held s))" "card (dom (held s)) < card (usable s)"
  shows "\<exists>a s'. allocate s o1 = Some (Inr a, s') \<and> held s' o1 = Some a"
proof -
  have "\<not> usable s \<subseteq> ran (held s)"
  proof
    assume sub: "usable s \<subseteq> ran (held s)"
    have ran: "ran (held s) = (\<lambda>o2. the (held s o2)) ` dom (held s)" by (force simp: ran_def image_def)
    then have "card (usable s) \<le> card (ran (held s))" using sub assms(2) by (intro card_mono) auto
    also have "\<dots> \<le> card (dom (held s))" unfolding ran by (rule card_image_le [OF assms(2)])
    finally show False using assms(3) by simp
  qed
  moreover obtain r t where "allocate s o1 = Some (r, t)" "case r of
      Inr a \<Rightarrow> held t = (held s)(o1 \<mapsto> a) \<and> (held s o1 = Some a \<or> held s o1 = None \<and> a \<notin> ran (held s))
    | Inl _ \<Rightarrow> t = s \<and> held s o1 = None \<and> usable s \<subseteq> ran (held s)"
    using allocate_law [OF assms(1), of o1] by blast
  ultimately show ?thesis by (cases r) auto
qed

end

interpretation pool: owner_pool pool_Allocate pool_Reserve pool_Release pool_inv po_addrs pool_usable addr_Unmap
proof (unfold_locales, goal_cases)
  case (1 p o1 a o2)
  then have "inverse_maps (po_owners p) (po_addrs p)" by (simp add: pool_inv_def)
  then show ?case using 1(2,3) by (rule inverse_maps_inj)
next
  case (2 p)
  then show ?case
    using inverse_maps_dom_ran [of "po_owners p" "po_addrs p"] by (simp add: pool_inv_def)
next
  case (3 p o1)
  have dom: "dom (po_owners p) = ran (po_addrs p)"
    using 3 inverse_maps_dom_ran [of "po_owners p" "po_addrs p"] by (simp add: pool_inv_def)
  show ?case
  proof (cases "po_addrs p o1")
    case None
    have inv': "pool_inv ((pool_assign p a o1)\<lparr>po_last := a\<rparr>)"
      if "a \<in> pool_usable p" "po_owners p a = None" for a
      using pool_inv_assign(2) 3 None that by blast
    from pool_Allocate_new [OF 3 None] show ?thesis
      using None inv' 3 by (auto simp: pool_assign_def simp flip: dom)
  next
    case (Some a)
    then have "pool_Allocate p o1 = Some (Inr a, p)" by (simp add: pool_Allocate_def)
    with Some 3 show ?thesis by (auto simp: fun_upd_idem)
  qed
next
  case (4 p a o1)
  have inverse: "inverse_maps (po_owners p) (po_addrs p)" using 4 by (simp add: pool_inv_def)
  show ?case
  proof (cases "pool_Contains p (addr_Unmap a)")
    case False
    then show ?thesis using 4 by (simp add: pool_Reserve_def pool_usable_def)
  next
    case True
    show ?thesis
    proof (cases "po_owners p (addr_Unmap a)")
      case (Some current)
      with inverse have "po_addrs p current = Some (addr_Unmap a)"
        unfolding inverse_maps_def by blast
      with Some True 4 show ?thesis
        by (cases current; cases "current = o1") (auto simp: pool_Reserve_def fun_upd_idem)
    next
      case None
      have "pool_inv (pool_assign (pool_release p o1) (addr_Unmap a) o1)"
        using True None 4
        by (intro pool_inv_assign pool_inv_release)
           (simp_all add: pool_release_free pool_release_addrs, simp add: pool_usable_def)
      with True None show ?thesis
        by (simp add: pool_Reserve_def pool_assign_def pool_release_addrs Let_def)
    qed
  qed
next
  case (5 p o1)
  then show ?case by (simp add: pool_Release_def pool_inv_release pool_release_addrs)
qed

lemma NewAddrPool_inv: "NewAddrPool b = Inr p \<Longrightarrow> pool_inv p"
  using Contains_nth [of b 0]
  by (auto simp: NewAddrPool_def pool_inv_def base_ok_def split: if_splits)

text \<open>The scan meets the cursor last.\<close>

lemma pool_Allocate_not_last:
  assumes "pool_inv p" "po_addrs p owner = None"
    and x: "x \<in> pool_usable p" "x \<notin> ran (po_addrs p)" "x \<noteq> po_last p"
  shows "\<exists>a p'. pool_Allocate p owner = Some (Inr a, p') \<and> a \<noteq> po_last p"
proof -
  let ?b = "po_base p" and ?N = "pfx_size (po_base p)"
  let ?at = "\<lambda>s j. pfx_nth ?b ((s + j) mod ?N)"
  have ok: "base_ok ?b" using assms by (simp add: pool_inv_def)
  obtain s where s: "s < ?N" "po_last p = ?at s (?N - 1)"
      "pool_scan p (pool_next p (po_last p)) (pool_next p (po_last p)) =
        Some (find (pool_free p) (map (?at s) [0..<?N]))"
    by (rule pool_scan_start [OF assms(1)])
  have "dom (po_owners p) = ran (po_addrs p)"
    using assms inverse_maps_dom_ran [of "po_owners p" "po_addrs p"] by (simp add: pool_inv_def)
  then have free: "pool_free p x" using x by (auto simp: pool_usable_def)
  have split: "[0..<?N] = [0..<?N - 1] @ [?N - 1]"
    by (metis Suc_pred' pfx_size_pos upt_Suc_append zero_le)
  have "x \<in> set (map (?at s) [0..<?N])"
    unfolding scan_covers [OF ok s(1)] using usable_in_base [OF x(1)] by simp
  then have xin: "x \<in> set (map (?at s) [0..<?N - 1])" using x(3) s(2) by (subst (asm) split) auto
  have "find (pool_free p) (map (?at s) [0..<?N - 1]) \<noteq> None"
    unfolding find_None_iff_none using xin free by blast
  then obtain a where a: "find (pool_free p) (map (?at s) [0..<?N - 1]) = Some a" by blast
  have "a \<in> set (map (?at s) [0..<?N - 1])" using find_Some_iff_in [OF a] by blast
  then obtain j where j: "j < ?N - 1" "a = ?at s j" by auto
  have "a \<noteq> po_last p"
  proof
    assume "a = po_last p"
    then have eq: "(s + j) mod ?N = (s + (?N - 1)) mod ?N"
      unfolding j(2) s(2) by (subst (asm) nth_inj [OF ok]) auto
    have "j < ?N" using j(1) by (rule less_le_trans) simp
    then have "j = ?N - 1" by (rule cycle_inj [OF s(1) _ _ eq]) simp
    with j(1) show False by simp
  qed
  moreover have "pool_Allocate p owner = Some (Inr a, (pool_assign p a owner)\<lparr>po_last := a\<rparr>)"
    using assms(2) s(3) a unfolding pool_Allocate_def Let_def
    by (subst (asm) split) (simp add: find_append)
  ultimately show ?thesis by blast
qed

section \<open>What the allocators hand out\<close>

lemma AddrAllocator_sequence_facts:
  assumes "NewAddrAllocator b = Inr al"
  shows "take_next AddrAllocator_Next n al =
      map (pfx_nth b) [1..<1 + min n (2 ^ host_bits b - 2)]"
    and "distinct (take_next AddrAllocator_Next n al)"
    and "\<forall>a \<in> set (take_next AddrAllocator_Next n al). prefix_Contains b a"
proof -
  have b: "base_ok b" "aa_BaseNetwork al = b" "aa_LastAssignedIP al = pfx_nth b 0"
    using assms by (auto simp: NewAddrAllocator_def base_ok_def split: if_splits)
  have inv: "aa_inv al" using b Contains_nth [of b 0] by (simp add: aa_inv_def)
  have idx: "aa_index al = 0" using b by (intro aa_index_eqI) auto
  have "take_next AddrAllocator_Next n al = map (\<lambda>k. pfx_nth b (Suc k)) [0..<min (pfx_size b - 2) n]"
    using addr_seq.take_next_eq [OF inv, of n] by (simp add: b idx)
  also have "\<dots> = map (pfx_nth b) (map Suc [0..<min (pfx_size b - 2) n])" by simp
  also have "\<dots> = map (pfx_nth b) [1..<1 + min n (2 ^ host_bits b - 2)]"
    unfolding map_Suc_upt by (simp add: pfx_size_def min.commute)
  finally show eq: "take_next AddrAllocator_Next n al =
      map (pfx_nth b) [1..<1 + min n (2 ^ host_bits b - 2)]" .
  have small: "k < pfx_size b" if "k \<in> set [1..<1 + min n (2 ^ host_bits b - 2)]" for k
    using that by (auto simp: pfx_size_def)
  have "inj_on (pfx_nth b) (set [1..<1 + min n (2 ^ host_bits b - 2)])"
    by (intro inj_onI) (use b small nth_inj in blast)
  then show "distinct (take_next AddrAllocator_Next n al)" unfolding eq distinct_map by simp
  show "\<forall>a \<in> set (take_next AddrAllocator_Next n al). prefix_Contains b a"
    unfolding eq using b small by auto
qed

lemma NewPrefixAllocator_inv:
  assumes "NewPrefixAllocator b len = Inr al" and "no_mapped b"
  shows "pa_inv al \<and> pa_given al = 0 \<and> pa_BaseNetwork al = b \<and> pa_PrefixLen al = len \<and> subnet_ok b len"
proof -
  have f: "pa_BaseNetwork al = b" "pa_PrefixLen al = len" "pa_at al 0" and ok: "subnet_ok b len"
    using assms by (auto simp: NewPrefixAllocator_def base_ok_def subnet_ok_def pa_at_def split: if_splits)
  moreover have "pa_ok al" using f ok assms(2) by (simp add: pa_ok_def)
  ultimately show ?thesis by (auto simp: pa_inv_def pa_given_eq)
qed

lemma PrefixAllocator_sequence_facts:
  assumes "NewPrefixAllocator b len = Inr al" and "no_mapped b"
  shows "take_next PrefixAllocator_Next n al = map (subnet b len) [0..<min n (2 ^ nat (len - pfx_bits b))]"
    and "i < length (take_next PrefixAllocator_Next n al) \<Longrightarrow>
      j < length (take_next PrefixAllocator_Next n al) \<Longrightarrow> i \<noteq> j \<Longrightarrow>
      \<not> (prefix_Contains (take_next PrefixAllocator_Next n al ! i) x \<and>
         prefix_Contains (take_next PrefixAllocator_Next n al ! j) x)"
    and "q \<in> set (take_next PrefixAllocator_Next n al) \<Longrightarrow> prefix_Contains q x \<Longrightarrow> prefix_Contains b x"
proof -
  have f: "pa_BaseNetwork al = b" "pa_PrefixLen al = len" and inv: "pa_inv al" "pa_given al = 0"
    and ok: "subnet_ok b len"
    using NewPrefixAllocator_inv [OF assms] by simp_all
  show eq: "take_next PrefixAllocator_Next n al =
      map (subnet b len) [0..<min n (2 ^ nat (len - pfx_bits b))]"
    using prefix_seq.take_next_eq [OF inv(1), of n]
    by (simp add: f inv(2) subnet_count_def min.commute)
  show "\<not> (prefix_Contains (take_next PrefixAllocator_Next n al ! i) x \<and>
         prefix_Contains (take_next PrefixAllocator_Next n al ! j) x)"
    if "i < length (take_next PrefixAllocator_Next n al)"
      "j < length (take_next PrefixAllocator_Next n al)" "i \<noteq> j"
    using prefix_seq.take_next_apart [OF inv(1) that] by blast
  show "prefix_Contains b x"
    if "q \<in> set (take_next PrefixAllocator_Next n al)" "prefix_Contains q x"
    using that subnet_within [OF ok] unfolding eq by (auto simp: subnet_count_def)
qed

section \<open>Properties of the allocators and the pool\<close>

text \<open>The network \<open>10.0.1.0/24\<close> of the concrete instances.\<close>

lemma net24_ok:
  "prefix_Masked \<lparr>pfx_ip = V4 0x0A000100, pfx_bits = 24\<rparr> = \<lparr>pfx_ip = V4 0x0A000100, pfx_bits = 24\<rparr>"
  "prefix_IsValid \<lparr>pfx_ip = V4 0x0A000100, pfx_bits = 24\<rparr>"
  by code_simp+

text \<open>
  The bit-by-bit loop of \<open>broadcastAddr\<close> (\<open>allocator.go\<close>) over the 16-byte form of an address
  computes the last address of a masked prefix; only a result in the IPv4-mapped range changes
  family.
\<close>

theorem broadcastAddr_is_last:
  assumes "NewAddrAllocator b = Inr al"
  shows "broadcastAddr b = addr_Unmap (pfx_nth b (2 ^ nat (addr_BitLen (pfx_ip b) - pfx_bits b) - 1))"
proof -
  have "base_ok b" using assms by (simp add: NewAddrAllocator_def base_ok_def split: if_splits)
  then show ?thesis by (simp add: broadcastAddr_last pfx_size_def host_bits_def)
qed

theorem broadcastAddr_is_last_witness:
  "broadcastAddr \<lparr>pfx_ip = V4 0x0A000100, pfx_bits = 24\<rparr> = V4 0x0A0001FF"
  using broadcastAddr_is_last [of "\<lparr>pfx_ip = V4 0x0A000100, pfx_bits = 24\<rparr>"]
  by (simp add: net24_ok NewAddrAllocator_def pfx_nth_def)

text \<open>
  An address allocator over any masked base network hands out, in order and without a
  repetition, every address of the network but the first (the network address) and the last, and
  then fails: after \<open>n\<close> calls of \<open>Next\<close> exactly the addresses 1 to \<open>min n (size - 2)\<close> are out.
\<close>

theorem AddrAllocator_sequence:
  assumes "NewAddrAllocator b = Inr al"
  shows "take_next AddrAllocator_Next n al = map (pfx_nth b) [1..<1 + min n (2 ^ host_bits b - 2)] \<and>
    distinct (take_next AddrAllocator_Next n al) \<and>
    (\<forall>a \<in> set (take_next AddrAllocator_Next n al). prefix_Contains b a)"
  using AddrAllocator_sequence_facts [OF assms] by blast

theorem AddrAllocator_sequence_witness:
  "take_next AddrAllocator_Next 300
     \<lparr>aa_BaseNetwork = \<lparr>pfx_ip = V4 0x0A000100, pfx_bits = 24\<rparr>, aa_LastAssignedIP = V4 0x0A000100\<rparr> =
   map (\<lambda>k. V4 (0x0A000100 + of_nat k)) [1..<255]"
  using AddrAllocator_sequence [of "\<lparr>pfx_ip = V4 0x0A000100, pfx_bits = 24\<rparr>" _ 300]
  by (simp add: net24_ok NewAddrAllocator_def pfx_nth_def host_bits_def del: upt_rec_numeral)

text \<open>
  C1: a prefix allocator hands out, in order, all \<open>2 ^ (len - bits)\<close> subnets of the requested
  length, pairwise disjoint and inside the base network, and then fails. The base must be free of
  IPv4-mapped addresses.
\<close>

theorem PrefixAllocator_sequence:
  assumes "NewPrefixAllocator b len = Inr al" and "no_mapped b"
    and "given = take_next PrefixAllocator_Next n al"
  shows "given = map (subnet b len) [0..<min n (2 ^ nat (len - pfx_bits b))] \<and>
    (\<forall>i < length given. \<forall>j < length given. i \<noteq> j \<longrightarrow>
       (\<forall>x. \<not> (prefix_Contains (given ! i) x \<and> prefix_Contains (given ! j) x))) \<and>
    (\<forall>q \<in> set given. \<forall>x. prefix_Contains q x \<longrightarrow> prefix_Contains b x)"
  unfolding assms(3) using PrefixAllocator_sequence_facts [OF assms(1,2)] by blast

theorem PrefixAllocator_sequence_witness:
  "take_next PrefixAllocator_Next 2
     \<lparr>pa_BaseNetwork = \<lparr>pfx_ip = V4 0x0A000100, pfx_bits = 24\<rparr>, pa_LastAssigned = zero_prefix,
      pa_PrefixLen = 25\<rparr> =
   [\<lparr>pfx_ip = V4 0x0A000100, pfx_bits = 25\<rparr>, \<lparr>pfx_ip = V4 0x0A000180, pfx_bits = 25\<rparr>]"
  using PrefixAllocator_sequence [of "\<lparr>pfx_ip = V4 0x0A000100, pfx_bits = 24\<rparr>" 25 _ _ 2, OF _ _ refl]
  by (simp add: net24_ok NewPrefixAllocator_def no_mapped_def pfx_nth_def subnet_def sub_bits_def
      prefix_From_def upt_rec)

text \<open>
  C2: from a fresh pool, every sequence of \<open>Allocate\<close>, \<open>Reserve\<close> and \<open>Release\<close> calls returns (the
  scan of \<open>Allocate\<close> terminates) and leaves a consistent pool: no two owners hold the same
  address, every held address may be handed out, and \<open>owners\<close> is the inverse of \<open>addrs\<close>.
\<close>

theorem pool_always_consistent:
  assumes "NewAddrPool b = Inr p0"
  shows "\<exists>p. run_ops pool_Allocate pool_Reserve pool_Release ops p0 = Some p \<and>
    (\<forall>o1 o2 a. po_addrs p o1 = Some a \<and> po_addrs p o2 = Some a \<longrightarrow> o1 = o2) \<and>
    (\<forall>a. a \<in> ran (po_addrs p) \<longrightarrow> pool_Contains p0 a \<and> prefix_Contains b a) \<and>
    (\<forall>o1 a. po_owners p a = Some o1 \<longleftrightarrow> po_addrs p o1 = Some a)"
proof -
  have b: "po_base p0 = b" "base_ok b" using assms
    by (auto simp: NewAddrPool_def base_ok_def split: if_splits)
  then obtain p where p: "run_ops pool_Allocate pool_Reserve pool_Release ops p0 = Some p"
      "pool_inv p" "pool_usable p = pool_usable p0"
    using pool.run_ops_inv [OF NewAddrPool_inv [OF assms]] by blast
  have "pool_Contains p0 a \<and> prefix_Contains b a" if "a \<in> ran (po_addrs p)" for a
    using pool.held_usable [OF p(2)] that p(3) b(1) usable_iff by blast
  moreover have "inverse_maps (po_owners p) (po_addrs p)" using p(2) by (simp add: pool_inv_def)
  ultimately show ?thesis
    using p(1) pool.held_inj [OF p(2)] unfolding inverse_maps_def by (intro exI [of _ p]) blast
qed

theorem pool_always_consistent_witness:
  "\<exists>p. run_ops pool_Allocate pool_Reserve pool_Release
       [OpAllocate (''ns'', ''a''), OpReserve (V4 0x0A000107) (''ns'', ''b''), OpRelease (''ns'', ''a'')]
       \<lparr>po_base = \<lparr>pfx_ip = V4 0x0A000100, pfx_bits = 24\<rparr>, po_owners = Map.empty,
        po_addrs = Map.empty, po_last = V4 0x0A000100\<rparr> = Some p"
  using pool_always_consistent [of "\<lparr>pfx_ip = V4 0x0A000100, pfx_bits = 24\<rparr>"]
  unfolding NewAddrPool_def by (simp add: net24_ok del: run_ops.simps) blast

text \<open>
  C3: \<open>Allocate\<close> always returns. An owner that holds an address gets it back and the pool is
  unchanged; otherwise it gets a usable address nobody held, and only its own entry changes; it
  gets \<open>ErrPoolExhausted\<close> exactly when every usable address is held by somebody else.
\<close>

theorem pool_Allocate_spec:
  assumes "pool_inv p"
  shows "\<exists>r p'. pool_Allocate p owner = Some (r, p') \<and> pool_inv p' \<and>
    (case po_addrs p owner of
       Some a \<Rightarrow> r = Inr a \<and> p' = p
     | None \<Rightarrow> if pool_usable p \<subseteq> ran (po_addrs p) then r = Inl ErrPoolExhausted \<and> p' = p
         else \<exists>a \<in> pool_usable p - ran (po_addrs p). r = Inr a \<and> po_last p' = a \<and>
           po_addrs p' = (po_addrs p)(owner \<mapsto> a) \<and> po_owners p' = (po_owners p)(a \<mapsto> owner))"
proof (cases "po_addrs p owner")
  case (Some a)
  then show ?thesis using assms by (simp add: pool_Allocate_def)
next
  case None
  have dom: "dom (po_owners p) = ran (po_addrs p)"
    using assms inverse_maps_dom_ran [of "po_owners p" "po_addrs p"] by (simp add: pool_inv_def)
  from pool_Allocate_new [OF assms None] show ?thesis
  proof (elim disjE exE conjE)
    fix a assume a: "pool_Allocate p owner = Some (Inr a, (pool_assign p a owner)\<lparr>po_last := a\<rparr>)"
      "a \<in> pool_usable p" "po_owners p a = None"
    then have "a \<notin> ran (po_addrs p)" unfolding dom [symmetric] by auto
    then show ?thesis
      using a None pool_inv_assign(2) [OF assms a(2,3) None] by (auto simp: pool_assign_def)
  next
    assume "pool_Allocate p owner = Some (Inl ErrPoolExhausted, p)"
      "\<forall>a \<in> pool_usable p. po_owners p a \<noteq> None"
    then show ?thesis using None assms unfolding dom [symmetric] by auto
  qed
qed

theorem pool_Allocate_spec_witness:
  "\<exists>r p'. pool_Allocate \<lparr>po_base = \<lparr>pfx_ip = V4 0x0A000100, pfx_bits = 24\<rparr>, po_owners = Map.empty,
        po_addrs = Map.empty, po_last = V4 0x0A000100\<rparr> (''ns'', ''a'') = Some (r, p')"
  using pool_Allocate_spec [OF NewAddrPool_inv [of "\<lparr>pfx_ip = V4 0x0A000100, pfx_bits = 24\<rparr>"],
      of _ "(''ns'', ''a'')"]
  unfolding NewAddrPool_def by (simp add: net24_ok) blast

text \<open>
  As the comment of \<open>AddrPool.last\<close> says, an address released right after it was allocated is
  not handed out again as long as another address is free.
\<close>

theorem pool_last_not_reused:
  assumes "pool_inv p" "po_addrs p owner = None"
    and "x \<in> pool_usable p" "x \<notin> ran (po_addrs p)" "x \<noteq> po_last p"
  shows "\<exists>a p'. pool_Allocate p owner = Some (Inr a, p') \<and> a \<noteq> po_last p"
  by (rule pool_Allocate_not_last [OF assms])

theorem pool_last_not_reused_witness:
  "\<exists>a p'. pool_Allocate \<lparr>po_base = \<lparr>pfx_ip = V4 0x0A000100, pfx_bits = 24\<rparr>, po_owners = Map.empty,
        po_addrs = Map.empty, po_last = V4 0x0A000107\<rparr> (''ns'', ''a'') = Some (Inr a, p') \<and>
     a \<noteq> V4 0x0A000107"
proof -
  let ?p = "\<lparr>po_base = \<lparr>pfx_ip = V4 0x0A000100, pfx_bits = 24\<rparr>, po_owners = Map.empty,
        po_addrs = Map.empty, po_last = V4 0x0A000107\<rparr>"
  have last: "prefix_Contains \<lparr>pfx_ip = V4 0x0A000100, pfx_bits = 24\<rparr> (V4 0x0A000107)" by code_simp
  then have inv: "pool_inv ?p" by (simp add: pool_inv_def base_ok_def net24_ok)
  have "pool_Contains ?p (V4 0x0A000101)" by code_simp
  then have "V4 0x0A000101 \<in> pool_usable ?p" by (simp add: pool_usable_def)
  with inv show ?thesis using pool_last_not_reused [of ?p "(''ns'', ''a'')" "V4 0x0A000101"] by simp
qed

text \<open>
  An owner keeps its address through any sequence of operations of other owners.
\<close>

theorem pool_address_stable:
  assumes "pool_inv p" "po_addrs p owner = Some a" "\<forall>op \<in> set ops. op_owner op \<noteq> owner"
  shows "\<exists>p'. run_ops pool_Allocate pool_Reserve pool_Release ops p = Some p' \<and> po_addrs p' owner = Some a"
  using pool.run_ops_inv [OF assms(1), of ops] pool.run_ops_others [OF assms(1,3)] assms(2) by metis

theorem pool_address_stable_witness:
  "\<exists>p'. run_ops pool_Allocate pool_Reserve pool_Release
      [OpReserve (V4 0x0A000105) (''ns'', ''b''), OpRelease (''ns'', ''b'')]
      \<lparr>po_base = \<lparr>pfx_ip = V4 0x0A000100, pfx_bits = 24\<rparr>, po_owners = [V4 0x0A000105 \<mapsto> (''ns'', ''a'')],
       po_addrs = [(''ns'', ''a'') \<mapsto> V4 0x0A000105], po_last = V4 0x0A000105\<rparr> = Some p' \<and>
     po_addrs p' (''ns'', ''a'') = Some (V4 0x0A000105)"
proof -
  let ?p = "\<lparr>po_base = \<lparr>pfx_ip = V4 0x0A000100, pfx_bits = 24\<rparr>,
       po_owners = [V4 0x0A000105 \<mapsto> (''ns'', ''a'')],
       po_addrs = [(''ns'', ''a'') \<mapsto> V4 0x0A000105], po_last = V4 0x0A000105\<rparr>"
  have "prefix_Contains (po_base ?p) (V4 0x0A000105)" by code_simp
  moreover have "pool_Contains ?p (V4 0x0A000105)" by code_simp
  ultimately have "pool_inv ?p"
    by (simp add: pool_inv_def base_ok_def net24_ok pool_usable_def inverse_maps_def)
  then show ?thesis
    using pool_address_stable [of ?p "(''ns'', ''a'')" "V4 0x0A000105"
      "[OpReserve (V4 0x0A000105) (''ns'', ''b''), OpRelease (''ns'', ''b'')]"] by simp
qed

end
