(* ===== verification/Netip_Parse.thy ===== *)
theory Netip_Parse
  imports Netip
begin

text \<open>
  \<open>netip.ParseAddr\<close> and \<open>netip.ParsePrefix\<close> of Go's standard library, which the controllers use to read
  addresses back from the API objects. An IPv6 address is collected as 16-bit groups. The last
  sections show that an address is read back from its own text form.
\<close>

section \<open>IPv4\<close>

text \<open>
  The loop of \<open>parseIPv4Fields\<close>: the fields before the current one, the value and the number of
  digits of the current one, and whether the previous character was a dot (or there was none).
\<close>

fun ipv4_fields :: "nat list \<Rightarrow> nat \<Rightarrow> nat \<Rightarrow> bool \<Rightarrow> string \<Rightarrow> nat list option" where
  "ipv4_fields fs val digLen atDot [] = (if length fs < 3 then None else Some (fs @ [val]))"
| "ipv4_fields fs val digLen atDot (c # s) =
     (case digit_val c of
        Some d \<Rightarrow>
          if digLen = 1 \<and> val = 0 then None
          else if 10 * val + d > 255 then None
          else ipv4_fields fs (10 * val + d) (digLen + 1) False s
      | None \<Rightarrow>
          if c = CHR ''.''
          then (if atDot \<or> s = [] then None
                else if length fs = 3 then None
                else ipv4_fields (fs @ [val]) 0 0 True s)
          else None)"

definition word_of_fields :: "nat list \<Rightarrow> 32 word" where
  "word_of_fields fs = foldl (\<lambda>w f. push_bit 8 w OR of_nat f) 0 fs"

definition parseIPv4 :: "string \<Rightarrow> addr option" where
  "parseIPv4 s = map_option (\<lambda>fs. V4 (word_of_fields fs)) (ipv4_fields [] 0 0 True s)"

section \<open>IPv6\<close>

definition hex_val :: "char \<Rightarrow> nat option" where
  "hex_val c =
     (let n = of_char c :: nat
      in if 48 \<le> n \<and> n \<le> 57 then Some (n - 48)
         else if 97 \<le> n \<and> n \<le> 102 then Some (n - 87)
         else if 65 \<le> n \<and> n \<le> 70 then Some (n - 55) else None)"

text \<open>
  One group: its value, how many digits it has (\<open>off\<close>), and the rest of the string. \<open>None\<close> is a group of
  more than four digits, which is also the only way to leave 16 bits.
\<close>

fun hex_group :: "nat \<Rightarrow> nat \<Rightarrow> string \<Rightarrow> (nat \<times> nat \<times> string) option" where
  "hex_group acc off [] = Some (acc, off, [])"
| "hex_group acc off (c # s) =
     (case hex_val c of
        None \<Rightarrow> Some (acc, off, c # s)
      | Some d \<Rightarrow> if off > 3 then None else hex_group (16 * acc + d) (off + 1) s)"

text \<open>
  The loop: at most eight groups, the position of the ellipsis among them, and the unread string.
\<close>

function ipv6_groups :: "nat list \<Rightarrow> nat option \<Rightarrow> string \<Rightarrow> (nat list \<times> nat option \<times> string) option" where
  "ipv6_groups gs ellipsis s =
     (if length gs \<ge> 8 then Some (gs, ellipsis, s)
      else (case hex_group 0 0 s of
              None \<Rightarrow> None
            | Some (acc, off, rest) \<Rightarrow>
                if off = 0 then None
                else if rest \<noteq> [] \<and> hd rest = CHR ''.''
                then (if ellipsis = None \<and> length gs \<noteq> 6 then None
                      else if length gs + 2 > 8 then None
                      else (case ipv4_fields [] 0 0 True s of
                              Some [a, b, c, d] \<Rightarrow> Some (gs @ [256 * a + b, 256 * c + d], ellipsis, [])
                            | _ \<Rightarrow> None))
                else if rest = [] then Some (gs @ [acc], ellipsis, [])
                else if hd rest \<noteq> CHR '':'' then None
                else if tl rest = [] then None
                else if hd (tl rest) = CHR '':''
                then (if ellipsis \<noteq> None then None
                      else if tl (tl rest) = [] then Some (gs @ [acc], Some (Suc (length gs)), [])
                      else ipv6_groups (gs @ [acc]) (Some (Suc (length gs))) (tl (tl rest)))
                else ipv6_groups (gs @ [acc]) ellipsis (tl rest)))"
  by pat_completeness auto
termination by (relation "measure (\<lambda>(gs, _, _). 8 - length gs)") auto

declare ipv6_groups.simps [simp del]

definition word_of_groups :: "nat list \<Rightarrow> 128 word" where
  "word_of_groups gs = foldl (\<lambda>w g. push_bit 16 w OR of_nat g) 0 gs"

definition expand_ellipsis :: "nat list \<Rightarrow> nat \<Rightarrow> nat list" where
  "expand_ellipsis gs e = take e gs @ replicate (8 - length gs) 0 @ drop e gs"

definition ipv6_finish :: "string \<Rightarrow> nat list \<Rightarrow> nat option \<Rightarrow> string \<Rightarrow> addr option" where
  "ipv6_finish zone gs ellipsis rest =
     (if rest \<noteq> [] then None
      else (case ellipsis of
              None \<Rightarrow> if length gs < 8 then None else Some (V6 (word_of_groups gs) zone)
            | Some e \<Rightarrow> if length gs < 8 then Some (V6 (word_of_groups (expand_ellipsis gs e)) zone) else None))"

definition ipv6_body :: "string \<Rightarrow> string \<Rightarrow> addr option" where
  "ipv6_body s zone =
     (let lead = take 2 s = ''::'';
          s = (if lead then drop 2 s else s);
          ellipsis = (if lead then Some 0 else None)
      in if lead \<and> s = [] then Some (V6 0 zone)
         else (case ipv6_groups [] ellipsis s of
                 None \<Rightarrow> None
               | Some (gs, ellipsis, rest) \<Rightarrow> ipv6_finish zone gs ellipsis rest))"

definition parseIPv6 :: "string \<Rightarrow> addr option" where
  "parseIPv6 s =
     (if CHR 0x25 \<in> set s
      then (let zone = tl (dropWhile (\<lambda>c. c \<noteq> CHR 0x25) s)
            in if zone = [] then None else ipv6_body (takeWhile (\<lambda>c. c \<noteq> CHR 0x25) s) zone)
      else ipv6_body s [])"

section \<open>ParseAddr and ParsePrefix\<close>

definition ParseAddr :: "string \<Rightarrow> addr option" where
  "ParseAddr s =
     (case find (\<lambda>c. c = CHR ''.'' \<or> c = CHR '':'' \<or> c = CHR 0x25) s of
        None \<Rightarrow> None
      | Some c \<Rightarrow> if c = CHR ''.'' then parseIPv4 s else if c = CHR '':'' then parseIPv6 s else None)"

definition ParsePrefix :: "string \<Rightarrow> prefix option" where
  "ParsePrefix s =
     (if CHR ''/'' \<notin> set s then None
      else (let bitsStr = rev (takeWhile (\<lambda>c. c \<noteq> CHR ''/'') (rev s));
                addrStr = take (length s - length bitsStr - 1) s
            in case ParseAddr addrStr of
                 None \<Rightarrow> None
               | Some ip \<Rightarrow>
                   if addr_hasZone ip then None
                   else if length bitsStr > 1 \<and> \<not> (of_char (hd bitsStr) \<ge> (49 :: nat) \<and> of_char (hd bitsStr) \<le> (57 :: nat))
                   then None
                   else (case ParseInt64 bitsStr of
                           None \<Rightarrow> None
                         | Some bits \<Rightarrow>
                             if bits < 0 \<or> bits > (if addr_Is4 ip then 32 else 128) then None
                             else Some \<lparr>pfx_ip = ip, pfx_bits = bits\<rparr>)))"

section \<open>Reading back an IPv4 address\<close>

lemma format_nat_small:
  "n < 10 \<Longrightarrow> format_nat n = [digit_char n]"
  "10 \<le> n \<Longrightarrow> n < 100 \<Longrightarrow> format_nat n = [digit_char (n div 10), digit_char (n mod 10)]"
  "100 \<le> n \<Longrightarrow> n < 1000 \<Longrightarrow>
   format_nat n = [digit_char (n div 100), digit_char (n div 10 mod 10), digit_char (n mod 10)]"
proof -
  show one: "n < 10 \<Longrightarrow> format_nat n = [digit_char n]" for n by (subst format_nat.simps) simp
  show two: "10 \<le> n \<Longrightarrow> n < 100 \<Longrightarrow> format_nat n = [digit_char (n div 10), digit_char (n mod 10)]" for n
    by (subst format_nat.simps) (simp add: one)
  have "n div 10 div 10 = n div 100" by (simp add: div_mult2_eq [symmetric])
  then show "100 \<le> n \<Longrightarrow> n < 1000 \<Longrightarrow>
      format_nat n = [digit_char (n div 100), digit_char (n div 10 mod 10), digit_char (n mod 10)]"
    by (subst format_nat.simps) (simp add: two)
qed

lemma ipv4_field:
  assumes "n < 256"
  shows "\<exists>k. ipv4_fields fs 0 0 b (format_nat n @ s) = ipv4_fields fs n k False s"
proof -
  consider "n < 10" | "10 \<le> n" "n < 100" | "100 \<le> n" "n < 1000" using assms by linarith
  then show ?thesis
  proof cases
    case 1
    then show ?thesis by (auto simp: format_nat_small)
  next
    case 2
    then have "n div 10 < 10" "n div 10 \<noteq> 0" "10 * (n div 10) + n mod 10 = n" by auto
    with 2 assms show ?thesis by (auto simp: format_nat_small)
  next
    case 3
    then have d: "n div 100 < 10" "n div 100 \<noteq> 0" "n div 10 mod 10 < 10" "n mod 10 < 10" by auto
    have e: "10 * (n div 100) + n div 10 mod 10 = n div 10" "10 * (n div 10) + n mod 10 = n"
      using div_mult2_eq [of n 10 10] mult_div_mod_eq [of 10 "n div 10"] by auto
    have "n div 10 \<le> 255" using assms by linarith
    with 3 assms d e show ?thesis by (auto simp: format_nat_small)
  qed
qed

lemma digit_val_dot [simp]: "digit_val CHR ''.'' = None" "digit_val CHR '':'' = None"
  by (simp_all add: digit_val_def)

lemma format_nat_nonempty [simp]: "format_nat n \<noteq> []"
  using format_nat_hd [of n] by auto

lemma ipv4_fields_string:
  assumes "a < 256" "b < 256" "c < 256" "d < 256"
  shows "ipv4_fields [] 0 0 True
    (format_nat a @ ''.'' @ format_nat b @ ''.'' @ format_nat c @ ''.'' @ format_nat d) = Some [a, b, c, d]"
proof -
  note step = ipv4_field [of a "[]" True "''.'' @ format_nat b @ ''.'' @ format_nat c @ ''.'' @ format_nat d"]
    ipv4_field [of b "[a]" True "''.'' @ format_nat c @ ''.'' @ format_nat d"]
    ipv4_field [of c "[a, b]" True "''.'' @ format_nat d"] ipv4_field [of d "[a, b, c]" True "[]"]
  show ?thesis using step assms by auto
qed

lemma word_of_fields_bytes:
  "word_of_fields [unat (drop_bit 24 a AND 0xFF), unat (drop_bit 16 a AND 0xFF),
     unat (drop_bit 8 a AND 0xFF), unat (drop_bit 0 a AND 0xFF)] = (a :: 32 word)"
proof -
  have "bit a i = bit (push_bit 8 (push_bit 8 (push_bit 8 (drop_bit 24 a AND 0xFF) OR drop_bit 16 a AND 0xFF) OR
      drop_bit 8 a AND 0xFF) OR a AND 0xFF) i" if "i < 32" for i
  proof -
    have m: "(0xFF :: 32 word) = mask 8" by (simp add: mask_eq_exp_minus_1)
    consider "i < 8" | "8 \<le> i" "i < 16" | "16 \<le> i" "i < 24" | "24 \<le> i" using that by linarith
    then show ?thesis using that by cases (auto simp: m bit_simps)
  qed
  then show ?thesis unfolding word_of_fields_def by (simp add: bit_eq_iff)
qed

lemma byte_bound: "unat (drop_bit k (a :: 'a::len word) AND 0xFF) < 256"
proof -
  have "unat (drop_bit k a AND 0xFF) \<le> unat (0xFF :: 'a word)"
    using word_and_le1 word_le_nat_alt by blast
  also have "\<dots> \<le> 255" by (simp add: unsigned_numeral take_bit_eq_mod)
  finally show ?thesis by simp
qed

lemma parseIPv4_string: "parseIPv4 (addr_string4 a) = Some (V4 a)"
  unfolding parseIPv4_def addr_string4_def Let_def
  by (simp only: ipv4_fields_string [OF byte_bound byte_bound byte_bound byte_bound] option.map word_of_fields_bytes)

section \<open>Reading back an IPv6 address\<close>

lemma hex_val_char [simp]: "d < 16 \<Longrightarrow> hex_val (hex_char d) = Some d"
  by (auto simp: hex_val_def hex_char_def)

lemma hex_val_colon [simp]: "hex_val CHR '':'' = None"
  by (simp add: hex_val_def)

lemma format_hex_small:
  "n < 16 \<Longrightarrow> format_hex n = [hex_char n]"
  "16 \<le> n \<Longrightarrow> n < 256 \<Longrightarrow> format_hex n = [hex_char (n div 16), hex_char (n mod 16)]"
  "256 \<le> n \<Longrightarrow> n < 4096 \<Longrightarrow>
   format_hex n = [hex_char (n div 256), hex_char (n div 16 mod 16), hex_char (n mod 16)]"
  "4096 \<le> n \<Longrightarrow> n < 65536 \<Longrightarrow>
   format_hex n = [hex_char (n div 4096), hex_char (n div 256 mod 16), hex_char (n div 16 mod 16), hex_char (n mod 16)]"
proof -
  have d: "n div 16 div 16 = n div 256" "n div 16 div 256 = n div 4096" by (simp_all add: div_mult2_eq [symmetric])
  show one: "n < 16 \<Longrightarrow> format_hex n = [hex_char n]" for n by (subst format_hex.simps) simp
  show two: "16 \<le> n \<Longrightarrow> n < 256 \<Longrightarrow> format_hex n = [hex_char (n div 16), hex_char (n mod 16)]" for n
    by (subst format_hex.simps) (simp add: one)
  show three: "256 \<le> n \<Longrightarrow> n < 4096 \<Longrightarrow>
      format_hex n = [hex_char (n div 256), hex_char (n div 16 mod 16), hex_char (n mod 16)]" for n
    by (subst format_hex.simps) (simp add: two div_mult2_eq [symmetric])
  show "4096 \<le> n \<Longrightarrow> n < 65536 \<Longrightarrow> format_hex n =
      [hex_char (n div 4096), hex_char (n div 256 mod 16), hex_char (n div 16 mod 16), hex_char (n mod 16)]"
    by (subst format_hex.simps) (simp add: three d)
qed

lemma hex_digits:
  "16 * (n div 16) + n mod 16 = (n :: nat)" "16 * (n div 256) + n div 16 mod 16 = n div 16"
  "16 * (n div 4096) + n div 256 mod 16 = n div 256"
  using mult_div_mod_eq [of 16 "n div 16"] mult_div_mod_eq [of 16 "n div 256"]
  by (auto simp: div_mult2_eq [symmetric])

lemma hex_group_format:
  assumes "g < 65536" "s = [] \<or> hex_val (hd s) = None"
  shows "\<exists>k. hex_group 0 0 (format_hex g @ s) = Some (g, Suc k, s)"
proof -
  have rest: "hex_group acc off s = Some (acc, off, s)" for acc off using assms(2) by (cases s) auto
  consider "g < 16" | "16 \<le> g" "g < 256" | "256 \<le> g" "g < 4096" | "4096 \<le> g" using assms(1) by linarith
  then show ?thesis
  proof cases
    case 1
    then show ?thesis by (simp add: format_hex_small rest)
  next
    case 2
    then have "g div 16 < 16" by linarith
    with 2 show ?thesis by (simp add: format_hex_small rest)
  next
    case 3
    then have "g div 256 < 16" by linarith
    with 3 show ?thesis by (simp add: format_hex_small rest hex_digits)
  next
    case 4
    then have "g div 4096 < 16" using assms(1) by linarith
    with 4 assms(1) show ?thesis by (simp add: format_hex_small rest hex_digits)
  qed
qed

lemma format_hex_hd: "\<exists>d cs. d < 16 \<and> format_hex n = hex_char d # cs"
proof (induction n rule: format_hex.induct)
  case (1 n)
  show ?case
  proof (cases "n < 16")
    case True
    then show ?thesis by (subst format_hex.simps) auto
  next
    case False
    with 1 obtain d cs where "d < 16" "format_hex (n div 16) = hex_char d # cs" by blast
    with False show ?thesis by (subst format_hex.simps) auto
  qed
qed

lemma format_hex_no_colon: "c \<in> set (format_hex n) \<Longrightarrow> hex_val c \<noteq> None"
proof (induction n rule: format_hex.induct)
  case (1 n)
  then show ?case by (cases "n < 16") (auto simp: format_hex.simps [of n])
qed

lemma join_groups_Cons: "join_groups (g # gs) = format_hex g @ (if gs = [] then [] else '':'' @ join_groups gs)"
  by (cases gs) auto

lemma join_groups_hd:
  assumes "gs \<noteq> []"
  shows "\<exists>c cs. join_groups gs = c # cs \<and> hex_val c \<noteq> None"
proof -
  obtain g gs' where "gs = g # gs'" using assms by (cases gs) auto
  with format_hex_hd [of g] show ?thesis by (fastforce simp: join_groups_Cons)
qed

lemma ipv6_groups_step:
  assumes "length gs < 8" "g < 65536"
  shows "ipv6_groups gs e (format_hex g) = Some (gs @ [g], e, [])"
    and "c \<noteq> CHR '':'' \<Longrightarrow> ipv6_groups gs e (format_hex g @ CHR '':'' # c # s) = ipv6_groups (gs @ [g]) e (c # s)"
    and "e = None \<Longrightarrow> ipv6_groups gs e (format_hex g @ ''::'') = Some (gs @ [g], Some (Suc (length gs)), [])"
    and "e = None \<Longrightarrow> ipv6_groups gs e (format_hex g @ ''::'' @ c # s) =
           ipv6_groups (gs @ [g]) (Some (Suc (length gs))) (c # s)"
  using assms hex_group_format [OF assms(2), of "[]"] hex_group_format [OF assms(2), of "CHR '':'' # c # s"]
    hex_group_format [OF assms(2), of "''::''"] hex_group_format [OF assms(2), of "''::'' @ c # s"]
  by (auto simp: ipv6_groups.simps [of gs])

lemma ipv6_groups_join:
  assumes "xs \<noteq> []" "length gs + length xs \<le> 8" "\<forall>g \<in> set xs. g < 65536"
  shows "ipv6_groups gs e (join_groups xs) = Some (gs @ xs, e, [])"
  using assms
proof (induction xs arbitrary: gs)
  case (Cons x xs)
  show ?case
  proof (cases "xs = []")
    case True
    with Cons.prems show ?thesis by (simp add: ipv6_groups_step)
  next
    case False
    then obtain c cs where c: "join_groups xs = c # cs" "hex_val c \<noteq> None" using join_groups_hd by blast
    then have "c \<noteq> CHR '':''" by auto
    then have "ipv6_groups gs e (join_groups (x # xs)) = ipv6_groups (gs @ [x]) e (c # cs)"
      using Cons.prems False c by (simp add: join_groups_Cons ipv6_groups_step)
    with Cons.IH [of "gs @ [x]"] Cons.prems False c show ?thesis by simp
  qed
qed simp

lemma ipv6_groups_ellipsis:
  assumes "xs \<noteq> []" "length gs + length xs + length ys < 8" "\<forall>g \<in> set (xs @ ys). g < 65536"
  shows "ipv6_groups gs None (join_groups xs @ ''::'' @ join_groups ys) =
    Some (gs @ xs @ ys, Some (length gs + length xs), [])"
  using assms
proof (induction xs arbitrary: gs)
  case (Cons x xs)
  show ?case
  proof (cases "xs = []")
    case True
    show ?thesis
    proof (cases "ys = []")
      case True
      with \<open>xs = []\<close> Cons.prems show ?thesis by (simp add: ipv6_groups_step)
    next
      case False
      then obtain c cs where c: "join_groups ys = c # cs" using join_groups_hd by blast
      have "ipv6_groups (gs @ [x]) (Some (Suc (length gs))) (c # cs) = Some (gs @ x # ys, Some (Suc (length gs)), [])"
        using ipv6_groups_join [OF False, of "gs @ [x]"] Cons.prems c by auto
      with \<open>xs = []\<close> Cons.prems c show ?thesis
        using ipv6_groups_step(4) [of gs x None c cs] by simp
    qed
  next
    case False
    then obtain c cs where c: "join_groups xs = c # cs" "hex_val c \<noteq> None" using join_groups_hd by blast
    then have "c \<noteq> CHR '':''" by auto
    then have "ipv6_groups gs None (join_groups (x # xs) @ ''::'' @ join_groups ys) =
        ipv6_groups (gs @ [x]) None (join_groups xs @ ''::'' @ join_groups ys)"
      using Cons.prems False c by (simp add: join_groups_Cons ipv6_groups_step)
    with Cons.IH [of "gs @ [x]"] Cons.prems False show ?thesis by simp
  qed
qed simp

lemma foldl_groups_bit:
  "i < 128 \<Longrightarrow> \<forall>g \<in> set gs. g < 2 ^ 16 \<Longrightarrow>
   bit (foldl (\<lambda>w g. push_bit 16 w OR of_nat g) (0 :: 128 word) gs) i \<longleftrightarrow>
   i < 16 * length gs \<and> bit (gs ! (length gs - 1 - i div 16)) (i mod 16)"
proof (induction gs arbitrary: i rule: rev_induct)
  case Nil
  then show ?case by simp
next
  case (snoc g gs)
  have high: "\<not> bit g i" if "16 \<le> i"
  proof -
    have "g < 2 ^ 16" using snoc.prems(2) by simp
    also have "(2 :: nat) ^ 16 \<le> 2 ^ i" using that by (intro power_increasing) auto
    finally have "g < 2 ^ i" .
    then show ?thesis by (simp add: bit_iff_odd)
  qed
  show ?case
  proof (cases "i < 16")
    case True
    with snoc.prems show ?thesis by (simp add: bit_simps nth_append)
  next
    case False
    have "i div 16 = Suc ((i - 16) div 16)" "i mod 16 = (i - 16) mod 16"
      using False by (simp_all add: le_div_geq le_mod_geq)
    moreover have "i - 16 < 16 * length gs \<longleftrightarrow> i < 16 * length (gs @ [g])" using False by auto
    ultimately show ?thesis
      using False snoc high by (auto simp: bit_simps nth_append less_diff_conv2 div_less_iff_less_mult)
  qed
qed

lemma addr_groups_bound: "g \<in> set (addr_groups a) \<Longrightarrow> g < 65536"
proof -
  assume "g \<in> set (addr_groups a)"
  then obtain i where "g = unat (drop_bit (16 * (7 - i)) a AND 0xFFFF)" by (auto simp: addr_groups_def)
  moreover have "unat (drop_bit (16 * (7 - i)) a AND 0xFFFF) \<le> unat (0xFFFF :: 128 word)"
    using word_and_le1 word_le_nat_alt by blast
  ultimately show ?thesis by simp
qed

lemma length_addr_groups [simp]: "length (addr_groups a) = 8"
  by (simp add: addr_groups_def)

lemma word_of_addr_groups: "word_of_groups (addr_groups a) = a"
proof (rule bit_word_eqI)
  fix i assume i: "i < LENGTH(128)"
  have m: "(0xFFFF :: 128 word) = mask 16" by (simp add: mask_eq_exp_minus_1)
  have d: "i div 16 < 8" using i by auto
  have "i mod 16 < 128" using mod_less_divisor [of 16 i] by linarith
  moreover have "addr_groups a ! (7 - i div 16) = unat (drop_bit (16 * (i div 16)) a AND mask 16)"
    unfolding addr_groups_def m using d by (subst nth_map) auto
  ultimately show "bit (word_of_groups (addr_groups a)) i = bit a i"
    using i d addr_groups_bound [of _ a]
    by (simp add: word_of_groups_def foldl_groups_bit) (simp add: bit_simps)
qed

text \<open>The run of zeros that the text form leaves out.\<close>

definition run_ok :: "nat list \<Rightarrow> nat \<times> nat \<Rightarrow> bool" where
  "run_ok gs r \<longleftrightarrow> fst r = 255 \<or>
     fst r + 2 \<le> snd r \<and> snd r \<le> length gs \<and> (\<forall>k. fst r \<le> k \<and> k < snd r \<longrightarrow> gs ! k = 0)"

lemma foldl_invariant: "P x \<Longrightarrow> (\<And>x i. P x \<Longrightarrow> i \<in> set is \<Longrightarrow> P (f x i)) \<Longrightarrow> P (foldl f x is)"
  by (induction "is" arbitrary: x) auto

lemma zero_run_ok:
  assumes "length gs = 8"
  shows "run_ok gs (zero_run gs)"
  unfolding zero_run_def
proof (rule foldl_invariant)
  show "run_ok gs (255, 255)" by (simp add: run_ok_def)
next
  fix r :: "nat \<times> nat" and i
  assume r: "run_ok gs r" and "i \<in> set [0..<8]"
  define n where "n = length (takeWhile (\<lambda>g. g = 0) (drop i gs))"
  have "i + n \<le> length gs"
    using length_takeWhile_le [of "\<lambda>g. g = 0" "drop i gs"] \<open>i \<in> set [0..<8]\<close> assms by (auto simp: n_def)
  moreover have "gs ! k = 0" if "i \<le> k" "k < i + n" for k
  proof -
    have "takeWhile (\<lambda>g. g = 0) (drop i gs) ! (k - i) = drop i gs ! (k - i)"
      using that by (intro takeWhile_nth) (auto simp: n_def)
    moreover have "takeWhile (\<lambda>g. g = 0) (drop i gs) ! (k - i) \<in> set (takeWhile (\<lambda>g. g = 0) (drop i gs))"
      using that by (intro nth_mem) (auto simp: n_def)
    ultimately show ?thesis using that \<open>i \<in> set [0..<8]\<close> assms by (auto dest: set_takeWhileD)
  qed
  ultimately show "run_ok gs ((case r of (zs, ze) \<Rightarrow> \<lambda>i.
      let j = i + length (takeWhile (\<lambda>g. g = 0) (drop i gs))
      in if 2 \<le> j - i \<and> ze - zs < j - i then (i, j) else (zs, ze)) i)"
    using r by (cases r) (auto simp: run_ok_def Let_def simp flip: n_def)
qed

lemma expand_run:
  assumes "zs \<le> ze" "ze \<le> length gs" "length gs = 8" "\<forall>k. zs \<le> k \<and> k < ze \<longrightarrow> gs ! k = 0"
  shows "expand_ellipsis (take zs gs @ drop ze gs) zs = gs"
proof -
  have "replicate (ze - zs) 0 = take (ze - zs) (drop zs gs)"
    using assms by (intro nth_equalityI) auto
  then have "expand_ellipsis (take zs gs @ drop ze gs) zs = take zs gs @ take (ze - zs) (drop zs gs) @ drop ze gs"
    using assms by (simp add: expand_ellipsis_def)
  also have "take (ze - zs) (drop zs gs) @ drop ze gs = drop zs gs"
    using assms append_take_drop_id [of "ze - zs" "drop zs gs"] by simp
  finally show ?thesis by simp
qed

lemma join_groups_no_lead: "gs \<noteq> [] \<Longrightarrow> take 2 (join_groups gs @ s) \<noteq> ''::''"
  using join_groups_hd [of gs] by auto

lemma ipv6_body_string: "ipv6_body (addr_string6 a []) [] = Some (V6 a [])"
proof -
  define gs where "gs = addr_groups a"
  obtain zs ze where z: "zero_run gs = (zs, ze)" by fastforce
  have gs: "length gs = 8" "gs \<noteq> []" "\<forall>g \<in> set gs. g < 65536" "word_of_groups gs = a"
    using addr_groups_bound word_of_addr_groups length_addr_groups [of a] by (auto simp: gs_def simp del: length_addr_groups)
  show ?thesis
  proof (cases "zs = 255")
    case True
    then have "addr_string6 a [] = join_groups gs" using z by (simp add: addr_string6_def gs_def [symmetric])
    moreover have "ipv6_groups [] None (join_groups gs) = Some (gs, None, [])"
      using gs ipv6_groups_join [of gs "[]"] by simp
    ultimately show ?thesis
      using gs join_groups_no_lead [of gs "[]"] by (simp add: ipv6_body_def ipv6_finish_def)
  next
    case False
    have run: "zs + 2 \<le> ze" "ze \<le> 8" "\<forall>k. zs \<le> k \<and> k < ze \<longrightarrow> gs ! k = 0"
      using zero_run_ok [OF gs(1)] False gs(1) by (auto simp: z run_ok_def)
    let ?xs = "take zs gs" and ?ys = "drop ze gs"
    have s: "addr_string6 a [] = join_groups ?xs @ ''::'' @ join_groups ?ys"
      using z False by (simp add: addr_string6_def gs_def [symmetric])
    have len: "length ?xs + length ?ys < 8" "length ?xs = zs" using run gs(1) by auto
    have small: "\<forall>g \<in> set (?xs @ ?ys). g < 65536" using gs(3) by (auto dest: in_set_takeD in_set_dropD)
    have fin: "ipv6_finish [] (?xs @ ?ys) (Some zs) [] = Some (V6 a [])"
      using expand_run [of zs ze gs] run gs len by (simp add: ipv6_finish_def)
    show ?thesis
    proof (cases "?xs = []")
      case True
      then have zs: "zs = 0" using gs by simp
      show ?thesis
      proof (cases "?ys = []")
        case True
        then have "gs = replicate 8 0" using zs run gs by (intro nth_equalityI) auto
        then have "a = 0" using gs(4) by (simp add: word_of_groups_def eval_nat_numeral)
        then show ?thesis using s zs True by (simp add: ipv6_body_def)
      next
        case False
        then obtain c cs where "join_groups ?ys = c # cs" using join_groups_hd by blast
        moreover have "ipv6_groups [] (Some 0) (join_groups ?ys) = Some (?ys, Some 0, [])"
          using ipv6_groups_join [OF False, of "[]" "Some 0"] small len by auto
        ultimately show ?thesis using s zs fin by (simp add: ipv6_body_def)
      qed
    next
      case False
      have "ipv6_groups [] None (join_groups ?xs @ ''::'' @ join_groups ?ys) = Some (?xs @ ?ys, Some zs, [])"
        using ipv6_groups_ellipsis [OF False, of "[]" ?ys] small len by simp
      then show ?thesis using s fin join_groups_no_lead [OF False, of "''::'' @ join_groups ?ys"]
        by (simp add: ipv6_body_def)
    qed
  qed
qed

section \<open>Reading back an address\<close>

lemma find_first: "\<forall>c \<in> set xs. \<not> P c \<Longrightarrow> P y \<Longrightarrow> find P (xs @ y # ys) = Some y"
  by (induction xs) auto

lemma format_nat_digits: "c \<in> set (format_nat n) \<Longrightarrow> digit_val c \<noteq> None"
proof (induction n rule: format_nat.induct)
  case (1 n)
  then show ?case by (cases "n < 10") (auto simp: format_nat.simps [of n])
qed

lemma percent_not_digit [simp]: "digit_val CHR 0x25 = None" "hex_val CHR 0x25 = None" "hex_val CHR ''.'' = None"
  by (simp_all add: digit_val_def hex_val_def)

lemma digits_no_mark: "c \<in> set (format_nat n) \<Longrightarrow> \<not> (c = CHR ''.'' \<or> c = CHR '':'' \<or> c = CHR 0x25)"
  using format_nat_digits by fastforce

lemma ParseAddr_string4: "ParseAddr (addr_string4 a) = Some (V4 a)"
proof -
  obtain n s where s: "addr_string4 a = format_nat n @ CHR ''.'' # s" by (simp add: addr_string4_def)
  have "find (\<lambda>c. c = CHR ''.'' \<or> c = CHR '':'' \<or> c = CHR 0x25) (addr_string4 a) = Some (CHR ''.'')"
    unfolding s by (rule find_first) (auto dest: digits_no_mark)
  then show ?thesis by (simp add: ParseAddr_def parseIPv4_string)
qed

lemma join_groups_chars: "c \<in> set (join_groups gs) \<Longrightarrow> c = CHR '':'' \<or> hex_val c \<noteq> None"
  by (induction gs) (auto simp: join_groups_Cons dest: format_hex_no_colon split: if_splits)

lemma addr_string6_chars: "c \<in> set (addr_string6 a []) \<Longrightarrow> c = CHR '':'' \<or> hex_val c \<noteq> None"
  by (auto simp: addr_string6_def Let_def split: prod.splits if_splits dest: join_groups_chars)

lemma addr_string6_colon: "CHR '':'' \<in> set (addr_string6 a [])"
proof -
  obtain g h gs where "addr_groups a = g # h # gs"
    using length_addr_groups [of a] by (cases "addr_groups a"; cases "tl (addr_groups a)") auto
  then show ?thesis by (cases "zero_run (g # h # gs)") (simp add: addr_string6_def join_groups_Cons Let_def)
qed

lemma ParseAddr_string6: "ParseAddr (addr_string6 a []) = Some (V6 a [])"
proof -
  let ?P = "\<lambda>c. c = CHR ''.'' \<or> c = CHR '':'' \<or> c = CHR 0x25" and ?s = "addr_string6 a []"
  obtain c where c: "find ?P ?s = Some c"
    using addr_string6_colon [of a] find_None_iff_none [of ?P ?s] by fastforce
  then have "c \<in> set ?s" and mark: "?P c" using find_Some_iff_in [OF c] by blast+
  then have "c = CHR '':'' \<or> hex_val c \<noteq> None" by (intro addr_string6_chars)
  moreover from mark have "c \<noteq> CHR '':'' \<Longrightarrow> hex_val c = None" by (elim disjE) simp_all
  ultimately have "c = CHR '':''" by metis
  moreover have "CHR 0x25 \<notin> set ?s"
  proof
    assume "CHR 0x25 \<in> set ?s"
    from addr_string6_chars [OF this] show False by simp
  qed
  ultimately show ?thesis using c by (simp add: ParseAddr_def parseIPv6_def ipv6_body_string)
qed

text \<open>An address that is neither zoned nor IPv4-mapped, such as every address of a pool, is read back.\<close>

lemma ParseAddr_String:
  assumes "addr_IsValid a" "\<not> addr_hasZone a" "\<not> addr_Is4In6 a"
  shows "ParseAddr (addr_String a) = Some a"
  using assms by (cases a) (auto simp: addr_String_def ParseAddr_string4 ParseAddr_string6)
end
