(* ===== verification/LoomService.thy ===== *)
theory LoomService
  imports Ipam Netip_Parse Api
begin

text \<open>
  Loom services: the helpers of \<open>src/operator/pkg/util/loomservice\<close> and the service controller
  (\<open>src/operator/internal/controller/core/service\<close>), which gives every service a virtual address
  from the pool of \<open>Ipam\<close> and keeps a Kubernetes service with that address as external IP.
\<close>

section \<open>Resources\<close>

record ServicePort =
  sp_Name :: string
  sp_Protocol :: string
  sp_Port :: int

record ServiceSpec =
  ss_Type :: string
  ss_Selector :: strmap
  ss_Ports :: "ServicePort list"

record ServiceCondition = condition +
  c_ObservedGeneration :: int

record ServiceStatus =
  svt_ServiceName :: string
  svt_Hostname :: string
  svt_ClusterIPs :: "string list"
  svt_ObservedGeneration :: int
  svt_Conditions :: "ServiceCondition list"

record Service = object_meta +
  sv_Spec :: ServiceSpec
  sv_Status :: ServiceStatus

abbreviation ServiceFinalizer :: string where "ServiceFinalizer \<equiv> ''service.loom.io/finalizer''"
abbreviation ServiceTargetNamespace :: string where "ServiceTargetNamespace \<equiv> ''loom-system''"
abbreviation ServiceNameLabel :: string where "ServiceNameLabel \<equiv> ''service.loom.io/name''"
abbreviation ServiceNamespaceLabel :: string where "ServiceNamespaceLabel \<equiv> ''service.loom.io/namespace''"
abbreviation LoomCNINetworkName :: string where "LoomCNINetworkName \<equiv> ''loom-cni''"
abbreviation ServiceConditionReady :: string where "ServiceConditionReady \<equiv> ''Ready''"
abbreviation ServiceTypeClusterIP :: string where "ServiceTypeClusterIP \<equiv> ''ClusterIP''"
abbreviation ProtocolTCP :: string where "ProtocolTCP \<equiv> ''TCP''"

text \<open>
  The part of the Kubernetes service the controller reads or writes; \<open>ks_Rest\<close> is the rest of it, with
  the cluster addresses the API server assigns.
\<close>

record KubeServicePort =
  kp_Name :: string
  kp_Protocol :: string
  kp_Port :: int
  kp_TargetPort :: IntOrString

record KubeService = object_meta +
  ks_Type :: string
  ks_IPFamilyPolicy :: "string option"
  ks_Selector :: strmap
  ks_Ports :: "KubeServicePort list"
  ks_ExternalIPs :: "string list"
  ks_Rest :: opaque

section \<open>Functions of other packages\<close>

text \<open>
  \<open>sl_SetStatusCondition\<close> is \<open>meta.SetStatusCondition\<close>, \<open>sl_StatusEqual\<close> the semantic equality of
  statuses, \<open>sl_ErrorText\<close> the text of an error and \<open>sl_Quote\<close> the verb \<open>%q\<close>. The client has one field
  per kind of request; \<open>CreateOrPatch\<close> of the controller runtime takes the mutation as an argument.
\<close>

record svc_lib =
  sl_DNS1035LabelMaxLength :: int
  sl_SafeEncodeString :: "string \<Rightarrow> string"
  sl_SetStatusCondition :: "ServiceCondition list \<Rightarrow> ServiceCondition \<Rightarrow> ServiceCondition list"
  sl_StatusEqual :: "ServiceStatus \<Rightarrow> ServiceStatus \<Rightarrow> bool"
  sl_ErrorText :: "go_error \<Rightarrow> string"
  sl_Quote :: "string \<Rightarrow> string"

record 'w svc_client =
  sc_GetService :: "'w \<Rightarrow> nsname \<Rightarrow> go_error + Service"
  sc_ListServices :: "'w \<Rightarrow> go_error + Service list"
  sc_UpdateService :: "'w \<Rightarrow> Service \<Rightarrow> (go_error + Service) \<times> 'w"
  sc_StatusPatch :: "'w \<Rightarrow> Service \<Rightarrow> Service \<Rightarrow> (go_error + Service) \<times> 'w"
  sc_GetKube :: "'w \<Rightarrow> nsname \<Rightarrow> go_error + KubeService"
  sc_ListKube :: "'w \<Rightarrow> string \<Rightarrow> string list \<Rightarrow> go_error + KubeService list"
  sc_DeleteKube :: "'w \<Rightarrow> KubeService \<Rightarrow> string \<Rightarrow> go_error option \<times> 'w"
  sc_CreateOrPatchKube :: "'w \<Rightarrow> nsname \<Rightarrow> (KubeService \<Rightarrow> go_error + KubeService) \<Rightarrow> (go_error + KubeService) \<times> 'w"

text \<open>\<open>errors.Is\<close>, which looks through wrapped errors.\<close>

fun errors_Is :: "go_error \<Rightarrow> go_error \<Rightarrow> bool" where
  "errors_Is (Wrapf m e) t = (Wrapf m e = t \<or> errors_Is e t)"
| "errors_Is e t = (e = t)"

section \<open>Names, labels and networks\<close>

definition trim_right_dash :: "string \<Rightarrow> string" where
  "trim_right_dash s = rev (dropWhile (\<lambda>c. c = CHR ''-'') (rev s))"

text \<open>The hash has at most ten digits, so the cut is never at a negative position.\<close>

definition KubeServiceName :: "svc_lib \<Rightarrow> string \<Rightarrow> string \<Rightarrow> string" where
  "KubeServiceName lib namespace name =
     (let fullName = name @ ''--'' @ namespace
      in if int (length fullName) \<le> sl_DNS1035LabelMaxLength lib then fullName
         else (let h = fnv32a_write fnv32a_init (string_bytes (namespace @ ''/'' @ name));
                   suffix = sl_SafeEncodeString lib (format_nat (unat h));
                   pre = trim_right_dash (take (nat (sl_DNS1035LabelMaxLength lib - int (length suffix) - 1)) fullName)
               in pre @ ''-'' @ suffix))"

definition Hostname :: "string \<Rightarrow> string" where
  "Hostname kubeServiceName = kubeServiceName @ ''.'' @ ServiceTargetNamespace @ ''.svc.cluster.local''"

definition OwnerLabels :: "Service \<Rightarrow> (string \<times> string) list" where
  "OwnerLabels svc = [(ServiceNameLabel, om_Name svc), (ServiceNamespaceLabel, om_Namespace svc)]"

definition OwnerKeyFromLabels :: "strmap \<Rightarrow> nsname option" where
  "OwnerKeyFromLabels labels =
     (case (gomap_get labels ServiceNameLabel, gomap_get labels ServiceNamespaceLabel) of
        (Some name, Some namespace) \<Rightarrow>
          if name = '''' \<or> namespace = '''' then None else Some (namespace, name)
      | _ \<Rightarrow> None)"

definition IsOwnedBy :: "strmap \<Rightarrow> Service \<Rightarrow> bool" where
  "IsOwnedBy labels svc =
     (case OwnerKeyFromLabels labels of
        None \<Rightarrow> False
      | Some (namespace, name) \<Rightarrow> name = om_Name svc \<and> namespace = om_Namespace svc)"

definition isLoomNetwork :: "string \<Rightarrow> bool" where
  "isLoomNetwork name =
     (if name = LoomCNINetworkName then True
      else CHR ''/'' \<in> set name \<and> tl (dropWhile (\<lambda>c. c \<noteq> CHR ''/'') name) = LoomCNINetworkName)"

section \<open>The service controller\<close>

abbreviation managedByLabel :: string where "managedByLabel \<equiv> ''app.kubernetes.io/managed-by''"
abbreviation managedByValue :: string where "managedByValue \<equiv> ''loom-operator''"

definition errNameConflict :: go_error where
  "errNameConflict = TypedError ''kubernetes Service name is already in use''"

definition pool_error :: "addr_pool \<Rightarrow> go_error" where
  "pool_error p = TypedError (''no more addresses available in network '' @ prefix_String (po_base p))"

text \<open>The state of the reconciler: the pool and whether it was rebuilt from the cluster.\<close>

record svc_state =
  svs_ServiceIPs :: addr_pool
  svs_poolSynced :: bool

definition reserveServiceIPs :: "nsname \<Rightarrow> string list \<Rightarrow> addr_pool \<Rightarrow> addr_pool" where
  "reserveServiceIPs owner ips p =
     foldl (\<lambda>p ip. case ParseAddr ip of
                     None \<Rightarrow> p
                   | Some a \<Rightarrow> if \<not> pool_Contains p a then p else snd (pool_Reserve p a owner)) p ips"

definition reserve_statuses :: "Service list \<Rightarrow> addr_pool \<Rightarrow> addr_pool" where
  "reserve_statuses services p =
     foldl (\<lambda>p s. reserveServiceIPs (meta_key s) (svt_ClusterIPs (sv_Status s)) p) p services"

definition reserve_kube :: "KubeService list \<Rightarrow> addr_pool \<Rightarrow> addr_pool" where
  "reserve_kube kubeServices p =
     foldl (\<lambda>p k. case OwnerKeyFromLabels (om_Labels k) of
                    None \<Rightarrow> p
                  | Some owner \<Rightarrow> reserveServiceIPs owner (ks_ExternalIPs k) p) p kubeServices"

definition ensurePoolSynced :: "'w svc_client \<Rightarrow> svc_state \<Rightarrow> 'w \<Rightarrow> go_error option \<times> svc_state" where
  "ensurePoolSynced cl st w =
     (if svs_poolSynced st then (None, st)
      else (case sc_ListServices cl w of
              Inl err \<Rightarrow> (Some err, st)
            | Inr services \<Rightarrow>
                (let p = reserve_statuses services (svs_ServiceIPs st)
                 in case sc_ListKube cl w ServiceTargetNamespace [ServiceNameLabel, ServiceNamespaceLabel] of
                      Inl err \<Rightarrow> (Some err, st\<lparr>svs_ServiceIPs := p\<rparr>)
                    | Inr kubeServices \<Rightarrow>
                        (None, \<lparr>svs_ServiceIPs = reserve_kube kubeServices p, svs_poolSynced = True\<rparr>))))"

definition validateService :: "svc_lib \<Rightarrow> Service \<Rightarrow> string \<times> string" where
  "validateService lib service =
     (if ss_Type (sv_Spec service) \<noteq> '''' \<and> ss_Type (sv_Spec service) \<noteq> ServiceTypeClusterIP
      then (''UnsupportedType'', ''Service type '' @ sl_Quote lib (ss_Type (sv_Spec service)) @ '' is not supported'')
      else if length (ss_Ports (sv_Spec service)) = 0
      then (''NoPorts'', ''A ClusterIP Service requires at least one port'')
      else ('''', ''''))"

definition kubeServicePorts :: "Service \<Rightarrow> KubeServicePort list" where
  "kubeServicePorts service =
     map (\<lambda>port. \<lparr>kp_Name = sp_Name port,
                  kp_Protocol = (if sp_Protocol port = '''' then ProtocolTCP else sp_Protocol port),
                  kp_Port = sp_Port port, kp_TargetPort = IntVal (sp_Port port)\<rparr>) (ss_Ports (sv_Spec service))"

definition mutate_kube :: "Service \<Rightarrow> addr \<Rightarrow> KubeService \<Rightarrow> go_error + KubeService" where
  "mutate_kube service serviceIP k =
     (if \<not> time_IsZero (om_CreationTimestamp k) \<and> \<not> IsOwnedBy (om_Labels k) service then Inl errNameConflict
      else Inr (k\<lparr>om_Labels := Some (kvs_put managedByLabel managedByValue
                     (foldl (\<lambda>l (key, v). kvs_put key v l)
                        (case om_Labels k of None \<Rightarrow> [] | Some l \<Rightarrow> l) (OwnerLabels service))),
                  ks_Type := ServiceTypeClusterIP, ks_IPFamilyPolicy := Some ''PreferDualStack'',
                  ks_Selector := None, ks_Ports := kubeServicePorts service,
                  ks_ExternalIPs := [addr_String serviceIP]\<rparr>))"

definition ensureKubeService ::
    "'w svc_client \<Rightarrow> Service \<Rightarrow> string \<Rightarrow> addr \<Rightarrow> 'w \<Rightarrow> (go_error + KubeService) \<times> 'w" where
  "ensureKubeService cl service kubeServiceName serviceIP w =
     sc_CreateOrPatchKube cl w (ServiceTargetNamespace, kubeServiceName) (mutate_kube service serviceIP)"

definition ignore_not_found :: "go_error \<Rightarrow> go_error option" where
  "ignore_not_found err = (if IsNotFound err then None else Some err)"

definition deleteKubeService :: "'w svc_client \<Rightarrow> Service \<Rightarrow> string \<Rightarrow> 'w \<Rightarrow> go_error option \<times> 'w" where
  "deleteKubeService cl service kubeServiceName w =
     (case sc_GetKube cl w (ServiceTargetNamespace, kubeServiceName) of
        Inl err \<Rightarrow> (ignore_not_found err, w)
      | Inr k \<Rightarrow>
          if \<not> IsOwnedBy (om_Labels k) service then (None, w)
          else (case sc_DeleteKube cl w k (om_UID k) of
                  (None, w) \<Rightarrow> (None, w)
                | (Some err, w) \<Rightarrow> (ignore_not_found err, w)))"

definition updateStatus ::
    "svc_lib \<Rightarrow> 'w svc_client \<Rightarrow> Service \<Rightarrow> KubeService option \<Rightarrow> addr \<Rightarrow> string \<Rightarrow> string \<Rightarrow> string \<Rightarrow> 'w \<Rightarrow>
     go_error option \<times> 'w" where
  "updateStatus lib cl service kubeService serviceIP status reason message w =
     (let st = (sv_Status service)\<lparr>svt_ObservedGeneration := om_Generation service\<rparr>;
          st = (case kubeService of
                  Some k \<Rightarrow> st\<lparr>svt_ServiceName := om_Name k, svt_Hostname := Hostname (om_Name k),
                              svt_ClusterIPs := [addr_String serviceIP]\<rparr>
                | None \<Rightarrow> st\<lparr>svt_ServiceName := '''', svt_Hostname := '''', svt_ClusterIPs := []\<rparr>);
          st = st\<lparr>svt_Conditions := sl_SetStatusCondition lib (svt_Conditions st)
                 \<lparr>c_Type = ServiceConditionReady, c_Status = status, c_LastTransitionTime = 0,
                  c_Reason = reason, c_Message = message, c_ObservedGeneration = om_Generation service\<rparr>\<rparr>
      in if sl_StatusEqual lib (sv_Status service) st then (None, w)
         else (case sc_StatusPatch cl w service (service\<lparr>sv_Status := st\<rparr>) of
                 (Inl err, w) \<Rightarrow> (Some err, w) | (Inr _, w) \<Rightarrow> (None, w)))"

definition reconcile_result :: "go_error option \<times> 'w \<Rightarrow> svc_state \<Rightarrow> ((go_error + ctrl_result) \<times> svc_state \<times> 'w) option" where
  "reconcile_result r st = (case r of (None, w) \<Rightarrow> Some (Inr Done, st, w) | (Some err, w) \<Rightarrow> Some (Inl err, st, w))"

definition release_ip :: "nsname \<Rightarrow> svc_state \<Rightarrow> svc_state" where
  "release_ip req st = st\<lparr>svs_ServiceIPs := pool_Release (svs_ServiceIPs st) req\<rparr>"

text \<open>The reconcile of a service that is not being deleted and carries the finalizer.\<close>

definition reconcile_live ::
    "svc_lib \<Rightarrow> 'w svc_client \<Rightarrow> nsname \<Rightarrow> Service \<Rightarrow> string \<Rightarrow> svc_state \<Rightarrow> 'w \<Rightarrow>
     ((go_error + ctrl_result) \<times> svc_state \<times> 'w) option" where
  "reconcile_live lib cl req service kubeServiceName st w =
     (case validateService lib service of (reason, message) \<Rightarrow>
      if reason \<noteq> ''''
      then reconcile_result (updateStatus lib cl service None NoAddr ConditionFalse reason message w) (release_ip req st)
      else (case pool_Allocate (svs_ServiceIPs st) req of
              None \<Rightarrow> None
            | Some (Inl _, p) \<Rightarrow>
                (let err = pool_error (svs_ServiceIPs st)
                 in Some (Inl err, st\<lparr>svs_ServiceIPs := p\<rparr>,
                          snd (updateStatus lib cl service None NoAddr ConditionFalse ''IPAllocationFailed''
                                 (sl_ErrorText lib err) w)))
            | Some (Inr serviceIP, p) \<Rightarrow>
                (let st = st\<lparr>svs_ServiceIPs := p\<rparr>
                 in case ensureKubeService cl service kubeServiceName serviceIP w of
                      (Inl err, w) \<Rightarrow>
                        if errors_Is err errNameConflict
                        then reconcile_result
                               (updateStatus lib cl service None NoAddr ConditionFalse ''NameConflict''
                                  (''Service '' @ ServiceTargetNamespace @ ''/'' @ kubeServiceName @
                                   '' already exists and belongs to another loom Service'') w) (release_ip req st)
                        else Some (Inl err, st,
                                   snd (updateStatus lib cl service None NoAddr ConditionFalse ''ServiceError''
                                          (sl_ErrorText lib err) w))
                    | (Inr k, w) \<Rightarrow>
                        reconcile_result
                          (updateStatus lib cl service (Some k) serviceIP ConditionTrue ''ServiceCreated''
                             (''Service is reachable at '' @ Hostname kubeServiceName) w) st)))"

definition Reconcile ::
    "svc_lib \<Rightarrow> 'w svc_client \<Rightarrow> nsname \<Rightarrow> svc_state \<Rightarrow> 'w \<Rightarrow>
     ((go_error + ctrl_result) \<times> svc_state \<times> 'w) option" where
  "Reconcile lib cl req st w =
     (case sc_GetService cl w req of
        Inl err \<Rightarrow> Some (if IsNotFound err then Inr Done else Inl err, st, w)
      | Inr service \<Rightarrow>
          (case ensurePoolSynced cl st w of
             (Some err, st) \<Rightarrow> Some (Inl err, st, w)
           | (None, st) \<Rightarrow>
               (let kubeServiceName = KubeServiceName lib (om_Namespace service) (om_Name service)
                in if \<not> time_ptr_IsZero (om_DeletionTimestamp service)
                   then (if ServiceFinalizer \<notin> set (om_Finalizers service) then Some (Inr Done, st, w)
                         else (case deleteKubeService cl service kubeServiceName w of
                                 (Some err, w) \<Rightarrow> Some (Inl err, st, w)
                               | (None, w) \<Rightarrow>
                                   (case sc_UpdateService cl w (service\<lparr>om_Finalizers :=
                                           filter (\<lambda>f. f \<noteq> ServiceFinalizer) (om_Finalizers service)\<rparr>) of
                                      (Inl err, w) \<Rightarrow> Some (Inl err, release_ip req st, w)
                                    | (Inr _, w) \<Rightarrow> Some (Inr Done, release_ip req st, w))))
                   else if ServiceFinalizer \<in> set (om_Finalizers service)
                   then reconcile_live lib cl req service kubeServiceName st w
                   else (case sc_UpdateService cl w (service\<lparr>om_Finalizers := om_Finalizers service @ [ServiceFinalizer]\<rparr>) of
                           (Inl err, w) \<Rightarrow> Some (Inl err, st, w)
                         | (Inr service, w) \<Rightarrow> reconcile_live lib cl req service kubeServiceName st w))))"


section \<open>The pool under the controller\<close>

lemma pool_Reserve_keeps:
  assumes "pool_inv p"
  shows "pool_inv (snd (pool_Reserve p a o1)) \<and> pool_usable (snd (pool_Reserve p a o1)) = pool_usable p"
proof -
  obtain r s' where "pool_Reserve p a o1 = (r, s')" "pool_inv s'" "pool_usable s' = pool_usable p"
    using pool.reserve_law [OF assms, of a o1] by blast
  then show ?thesis by simp
qed

lemma pool_step_keeps:
  assumes "pool_inv p"
  shows "pool_inv (case ParseAddr ip of None \<Rightarrow> p | Some a \<Rightarrow> if \<not> pool_Contains p a then p else snd (pool_Reserve p a owner)) \<and>
    pool_usable (case ParseAddr ip of None \<Rightarrow> p | Some a \<Rightarrow> if \<not> pool_Contains p a then p else snd (pool_Reserve p a owner)) = pool_usable p"
  using pool_Reserve_keeps [OF assms] assms by (auto split: option.split)

lemma foldl_keeps:
  assumes "\<And>p x. pool_inv p \<Longrightarrow> pool_inv (f p x) \<and> pool_usable (f p x) = pool_usable p" "pool_inv p"
  shows "pool_inv (foldl f p xs) \<and> pool_usable (foldl f p xs) = pool_usable p"
  using assms(2) by (induction xs arbitrary: p) (auto simp: assms(1))

lemma reserveServiceIPs_keeps:
  "pool_inv p \<Longrightarrow> pool_inv (reserveServiceIPs owner ips p) \<and> pool_usable (reserveServiceIPs owner ips p) = pool_usable p"
  unfolding reserveServiceIPs_def by (rule foldl_keeps) (rule pool_step_keeps)

lemma reserve_all_keeps:
  assumes "pool_inv p"
  shows "pool_inv (reserve_statuses ss p) \<and> pool_usable (reserve_statuses ss p) = pool_usable p"
    and "pool_inv (reserve_kube ks p) \<and> pool_usable (reserve_kube ks p) = pool_usable p"
proof -
  show "pool_inv (reserve_statuses ss p) \<and> pool_usable (reserve_statuses ss p) = pool_usable p"
    unfolding reserve_statuses_def by (rule foldl_keeps [OF reserveServiceIPs_keeps assms])
  show "pool_inv (reserve_kube ks p) \<and> pool_usable (reserve_kube ks p) = pool_usable p"
    unfolding reserve_kube_def
    by (rule foldl_keeps [OF _ assms]) (simp add: reserveServiceIPs_keeps split: option.split)
qed

text \<open>What a step of the controller may do to its state: keep the pool consistent, and move \<open>req\<close> only.\<close>

definition moves_only :: "nsname \<Rightarrow> svc_state \<Rightarrow> svc_state \<Rightarrow> bool" where
  "moves_only req st st' \<longleftrightarrow> pool_inv (svs_ServiceIPs st') \<and>
     pool_usable (svs_ServiceIPs st') = pool_usable (svs_ServiceIPs st) \<and> svs_poolSynced st' = svs_poolSynced st \<and>
     (\<forall>o1. o1 \<noteq> req \<longrightarrow> po_addrs (svs_ServiceIPs st') o1 = po_addrs (svs_ServiceIPs st) o1)"

lemma moves_only_refl: "pool_inv (svs_ServiceIPs st) \<Longrightarrow> moves_only req st st"
  by (simp add: moves_only_def)

lemma moves_only_trans: "moves_only req s t \<Longrightarrow> moves_only req t u \<Longrightarrow> moves_only req s u"
  by (simp add: moves_only_def)

lemma moves_only_release: "pool_inv (svs_ServiceIPs st) \<Longrightarrow> moves_only req st (release_ip req st)"
  using pool.release_law [of "svs_ServiceIPs st" req] by (simp add: moves_only_def release_ip_def)

lemma moves_only_Allocate:
  assumes "pool_inv (svs_ServiceIPs st)"
  obtains r p where "pool_Allocate (svs_ServiceIPs st) req = Some (r, p)" "moves_only req st (st\<lparr>svs_ServiceIPs := p\<rparr>)"
    "\<And>a. r = Inr a \<Longrightarrow> po_addrs p req = Some a"
proof -
  obtain r p where rp: "pool_Allocate (svs_ServiceIPs st) req = Some (r, p)" "pool_inv p"
      "pool_usable p = pool_usable (svs_ServiceIPs st)"
      "case r of Inr a \<Rightarrow> po_addrs p = (po_addrs (svs_ServiceIPs st))(req \<mapsto> a) \<and>
           (po_addrs (svs_ServiceIPs st) req = Some a \<or> po_addrs (svs_ServiceIPs st) req = None \<and> a \<notin> ran (po_addrs (svs_ServiceIPs st)))
       | Inl _ \<Rightarrow> p = svs_ServiceIPs st \<and> po_addrs (svs_ServiceIPs st) req = None \<and>
           pool_usable (svs_ServiceIPs st) \<subseteq> ran (po_addrs (svs_ServiceIPs st))"
    using pool.allocate_law [OF assms, of req] by blast
  then have "moves_only req st (st\<lparr>svs_ServiceIPs := p\<rparr>)" by (cases r) (auto simp: moves_only_def)
  with rp show thesis by (intro that [of r p]) auto
qed

lemma reconcile_live_moves:
  assumes "pool_inv (svs_ServiceIPs st)"
  shows "\<exists>r st' w'. reconcile_live lib cl req service name st w = Some (r, st', w') \<and> moves_only req st st'"
proof -
  obtain r p where rp: "pool_Allocate (svs_ServiceIPs st) req = Some (r, p)" "moves_only req st (st\<lparr>svs_ServiceIPs := p\<rparr>)"
    using moves_only_Allocate [OF assms, of req] by blast
  have "pool_inv (svs_ServiceIPs (st\<lparr>svs_ServiceIPs := p\<rparr>))" using rp(2) by (simp add: moves_only_def)
  then have rel: "moves_only req st (release_ip req (st\<lparr>svs_ServiceIPs := p\<rparr>))"
    using rp(2) moves_only_release moves_only_trans by blast
  obtain reason message where "validateService lib service = (reason, message)" by fastforce
  then show ?thesis
    using moves_only_release [OF assms, of req] rp rel
    by (auto simp: reconcile_live_def reconcile_result_def Let_def split: sum.split prod.split option.split)
qed

lemma ensurePoolSynced_synced: "svs_poolSynced st \<Longrightarrow> ensurePoolSynced cl st w = (None, st)"
  by (simp add: ensurePoolSynced_def)

lemma ensurePoolSynced_keeps:
  assumes "pool_inv (svs_ServiceIPs st)" "ensurePoolSynced cl st w = (e, st')"
  shows "pool_inv (svs_ServiceIPs st') \<and> pool_usable (svs_ServiceIPs st') = pool_usable (svs_ServiceIPs st)"
  using assms reserve_all_keeps(1) [OF assms(1)] reserve_all_keeps(2)
  by (auto simp: ensurePoolSynced_def Let_def split: if_splits sum.splits)

lemma after_sync_moves:
  assumes "pool_inv (svs_ServiceIPs st)" "sc_GetService cl w req = Inr s" "ensurePoolSynced cl st w = (None, st1)"
  shows "\<exists>r st' w'. Reconcile lib cl req st w = Some (r, st', w') \<and> moves_only req st1 st'"
proof -
  have inv: "pool_inv (svs_ServiceIPs st1)" using ensurePoolSynced_keeps [OF assms(1,3)] by simp
  show ?thesis
    using assms(2,3) moves_only_refl [OF inv, of req] moves_only_release [OF inv, of req]
      reconcile_live_moves [OF inv, of lib cl req]
    by (auto simp: Reconcile_def Let_def split: sum.split prod.split option.split)
qed

section \<open>Rebuilding the pool\<close>

text \<open>
  An address list of one owner that avoids \<open>a\<close> leaves the holder of \<open>a\<close> alone, unless that owner gives
  \<open>a\<close> up.
\<close>

definition avoids :: "addr \<Rightarrow> string list \<Rightarrow> bool" where
  "avoids a ips \<longleftrightarrow> (\<forall>ip \<in> set ips. \<forall>b. ParseAddr ip = Some b \<longrightarrow> addr_Unmap b \<noteq> a)"

definition not_taken :: "addr_pool \<Rightarrow> addr \<Rightarrow> nsname \<Rightarrow> bool" where
  "not_taken p a o1 \<longleftrightarrow> (\<forall>o2. po_addrs p o2 = Some a \<longrightarrow> o2 = o1)"

lemma reserve_avoid:
  assumes "pool_inv p" "o2 \<noteq> o1 \<longrightarrow> avoids a ips" "not_taken p a o1"
  shows "not_taken (reserveServiceIPs o2 ips p) a o1"
  using assms
proof (induction ips arbitrary: p)
  case Nil
  then show ?case by (simp add: reserveServiceIPs_def)
next
  case (Cons ip ips)
  define p1 where "p1 = (case ParseAddr ip of None \<Rightarrow> p
    | Some b \<Rightarrow> if \<not> pool_Contains p b then p else snd (pool_Reserve p b o2))"
  have inv: "pool_inv p1" using pool_step_keeps [OF Cons.prems(1)] by (simp add: p1_def)
  have "not_taken p1 a o1"
  proof (cases "ParseAddr ip")
    case None
    with Cons.prems show ?thesis by (simp add: p1_def)
  next
    case (Some b)
    obtain r q where q: "pool_Reserve p b o2 = (r, q)" "case r of Inr _ \<Rightarrow> po_addrs q = (po_addrs p)(o2 \<mapsto> addr_Unmap b)
        | Inl _ \<Rightarrow> q = p \<and> (addr_Unmap b \<notin> pool_usable p \<or> (\<exists>o3. o3 \<noteq> o2 \<and> po_addrs p o3 = Some (addr_Unmap b)))"
      using pool.reserve_law [OF Cons.prems(1), of b o2] by blast
    have "o2 \<noteq> o1 \<longrightarrow> addr_Unmap b \<noteq> a" using Cons.prems(2) Some by (simp add: avoids_def)
    then show ?thesis
      using q Cons.prems(3) Some by (cases r) (auto simp: p1_def not_taken_def)
  qed
  with inv Cons show ?case by (simp add: reserveServiceIPs_def avoids_def p1_def)
qed

lemma usable_read_back:
  assumes "a \<in> pool_usable p"
  shows "ParseAddr (addr_String a) = Some a" "addr_Unmap a = a"
proof -
  have "addr_Unmap a = a" "prefix_Contains (po_base p) a"
    using assms usable_in_base [OF assms] by (simp_all add: pool_usable_def)
  then show "ParseAddr (addr_String a) = Some a" "addr_Unmap a = a"
    by (cases a; auto simp: prefix_Contains_def split: if_splits intro!: ParseAddr_String)+
qed

lemma reserve_own:
  assumes "pool_inv p" "a \<in> pool_usable p" "not_taken p a o1"
  shows "po_addrs (reserveServiceIPs o1 [addr_String a] p) = (po_addrs p)(o1 \<mapsto> a)"
proof -
  note rb = usable_read_back [OF assms(2)]
  obtain r q where q: "pool_Reserve p a o1 = (r, q)" "case r of Inr _ \<Rightarrow> po_addrs q = (po_addrs p)(o1 \<mapsto> addr_Unmap a)
      | Inl _ \<Rightarrow> q = p \<and> (addr_Unmap a \<notin> pool_usable p \<or> (\<exists>o3. o3 \<noteq> o1 \<and> po_addrs p o3 = Some (addr_Unmap a)))"
    using pool.reserve_law [OF assms(1), of a o1] by blast
  have "po_addrs q = (po_addrs p)(o1 \<mapsto> a)"
    using q assms(2,3) rb by (cases r) (auto simp: not_taken_def)
  moreover have "pool_Contains p a" using assms(2) by (simp add: usable_iff)
  ultimately show ?thesis using rb q by (simp add: reserveServiceIPs_def)
qed

lemma reserve_statuses_avoid:
  assumes "pool_inv p" "not_taken p a o1"
    and "\<forall>s \<in> set ss. meta_key s \<noteq> o1 \<longrightarrow> avoids a (svt_ClusterIPs (sv_Status s))"
  shows "not_taken (reserve_statuses ss p) a o1"
  using assms
proof (induction ss arbitrary: p)
  case Nil
  then show ?case by (simp add: reserve_statuses_def)
next
  case (Cons s ss)
  let ?q = "reserveServiceIPs (meta_key s) (svt_ClusterIPs (sv_Status s)) p"
  have "not_taken ?q a o1" using Cons.prems by (intro reserve_avoid) auto
  moreover have "pool_inv ?q" using reserveServiceIPs_keeps [OF Cons.prems(1)] by simp
  ultimately show ?case using Cons by (simp add: reserve_statuses_def)
qed

text \<open>
  The records of the cluster: every owned Kubernetes service has one external IP, of the pool;
  different owners have different ones; and no status claims the external IP of another service.
\<close>

definition recorded :: "KubeService list \<Rightarrow> addr \<Rightarrow> nsname \<Rightarrow> bool" where
  "recorded ks a o1 \<longleftrightarrow>
     (\<exists>k \<in> set ks. OwnerKeyFromLabels (om_Labels k) = Some o1 \<and> ks_ExternalIPs k = [addr_String a])"

definition records_ok :: "addr_pool \<Rightarrow> Service list \<Rightarrow> KubeService list \<Rightarrow> bool" where
  "records_ok p ss ks \<longleftrightarrow>
     (\<forall>k \<in> set ks. OwnerKeyFromLabels (om_Labels k) \<noteq> None \<longrightarrow>
        (\<exists>a \<in> pool_usable p. ks_ExternalIPs k = [addr_String a])) \<and>
     (\<forall>a o1 b o2. recorded ks a o1 \<and> recorded ks b o2 \<longrightarrow> (addr_String a = addr_String b \<longleftrightarrow> o1 = o2)) \<and>
     (\<forall>a o1. recorded ks a o1 \<and> a \<in> pool_usable p \<longrightarrow>
        (\<forall>s \<in> set ss. meta_key s \<noteq> o1 \<longrightarrow> avoids a (svt_ClusterIPs (sv_Status s))))"

lemma usable_string_inj: "a \<in> pool_usable p \<Longrightarrow> b \<in> pool_usable p \<Longrightarrow> addr_String a = addr_String b \<Longrightarrow> a = b"
  using usable_read_back(1) by (metis option.inject)

definition settled :: "(addr \<times> nsname) set \<Rightarrow> addr_pool \<Rightarrow> addr_pool \<Rightarrow> bool" where
  "settled R p0 p \<longleftrightarrow> pool_inv p \<and> pool_usable p = pool_usable p0 \<and> (\<forall>(a, o1) \<in> R. not_taken p a o1)"

lemma reserve_kube_step:
  assumes "settled R p0 p" "(b, o2) \<in> R" "\<forall>(a, o1) \<in> R. a \<in> pool_usable p0 \<and> (a = b \<longleftrightarrow> o1 = o2)"
  shows "settled R p0 (reserveServiceIPs o2 [addr_String b] p)"
    and "(a, o1) \<in> R \<Longrightarrow> po_addrs p o1 = Some a \<or> o1 = o2 \<Longrightarrow> po_addrs (reserveServiceIPs o2 [addr_String b] p) o1 = Some a"
proof -
  have "pool_inv p" "b \<in> pool_usable p" "not_taken p b o2" using assms by (auto simp: settled_def)
  note own = reserve_own [OF this] and keeps = reserveServiceIPs_keeps [OF this(1), of o2 "[addr_String b]"]
  show "settled R p0 (reserveServiceIPs o2 [addr_String b] p)"
    using assms(1,3) keeps by (auto simp: settled_def not_taken_def own split: if_splits)
  show "po_addrs (reserveServiceIPs o2 [addr_String b] p) o1 = Some a"
    if "(a, o1) \<in> R" "po_addrs p o1 = Some a \<or> o1 = o2"
    using that assms(3) by (auto simp: own)
qed

lemma reserve_kube_settles:
  assumes "settled R p0 p"
    and "\<forall>(a, o1) \<in> R. \<forall>(b, o2) \<in> R. a \<in> pool_usable p0 \<and> (a = b \<longleftrightarrow> o1 = o2)"
    and "\<forall>k \<in> set ks. \<forall>o1. OwnerKeyFromLabels (om_Labels k) = Some o1 \<longrightarrow>
           (\<exists>a. (a, o1) \<in> R \<and> ks_ExternalIPs k = [addr_String a])"
    and "(a, o1) \<in> R" "po_addrs p o1 = Some a \<or> recorded ks a o1"
  shows "po_addrs (reserve_kube ks p) o1 = Some a"
  using assms
proof (induction ks arbitrary: p)
  case Nil
  then show ?case by (simp add: reserve_kube_def recorded_def)
next
  case (Cons k ks)
  show ?case
  proof (cases "OwnerKeyFromLabels (om_Labels k)")
    case None
    with Cons show ?thesis by (simp add: reserve_kube_def recorded_def)
  next
    case (Some o2)
    then obtain b where b: "(b, o2) \<in> R" "ks_ExternalIPs k = [addr_String b]"
      using Cons.prems(3) by (meson list.set_intros(1))
    have compat: "\<forall>(a, o1) \<in> R. a \<in> pool_usable p0 \<and> (a = b \<longleftrightarrow> o1 = o2)" using Cons.prems(2) b(1) by fastforce
    let ?q = "reserveServiceIPs o2 [addr_String b] p"
    have "po_addrs ?q o1 = Some a \<or> recorded ks a o1"
      using Cons.prems(5) reserve_kube_step(2) [OF Cons.prems(1) b(1) compat Cons.prems(4)] Some
      by (auto simp: recorded_def)
    then have "po_addrs (reserve_kube ks ?q) o1 = Some a"
      using Cons.IH [OF reserve_kube_step(1) [OF Cons.prems(1) b(1) compat] Cons.prems(2) _ Cons.prems(4)] Cons.prems(3)
      by simp
    then show ?thesis using Some b by (simp add: reserve_kube_def)
  qed
qed

lemma rebuild_recovers:
  assumes "pool_inv p" "po_addrs p = Map.empty" "records_ok p ss ks" "recorded ks a o1" "a \<in> pool_usable p"
  shows "po_addrs (reserve_kube ks (reserve_statuses ss p)) o1 = Some a"
proof -
  define R where "R = {(a, o1). a \<in> pool_usable p \<and> recorded ks a o1}"
  have ok: "\<forall>(a, o1) \<in> R. \<forall>(b, o2) \<in> R. a \<in> pool_usable p \<and> (a = b \<longleftrightarrow> o1 = o2)"
    using assms(3) usable_string_inj by (auto simp: R_def records_ok_def; metis)
  have "settled R p (reserve_statuses ss p)"
    using reserve_all_keeps(1) [OF assms(1), of ss] assms
    by (auto simp: settled_def R_def records_ok_def intro!: reserve_statuses_avoid)
       (auto simp: not_taken_def)
  moreover have "\<forall>k \<in> set ks. \<forall>o1. OwnerKeyFromLabels (om_Labels k) = Some o1 \<longrightarrow>
      (\<exists>a. (a, o1) \<in> R \<and> ks_ExternalIPs k = [addr_String a])"
    using assms(3) unfolding records_ok_def R_def recorded_def by fastforce
  ultimately show ?thesis
    using reserve_kube_settles [OF _ ok, of "reserve_statuses ss p" ks a o1] assms(4,5) by (auto simp: R_def)
qed

section \<open>The Kubernetes services\<close>

text \<open>
  The API server as a store. A named, namespaced object is read as it is stored; the requests about
  loom services leave the Kubernetes services alone; a deletion removes at most the object with the
  given UID; \<open>CreateOrPatch\<close> applies the mutation to the stored object, or to a blank one of that
  name, and stores the result or nothing.
\<close>

record svc_world =
  sw_services :: "nsname \<rightharpoonup> Service"
  sw_kube :: "nsname \<rightharpoonup> KubeService"

definition found :: "svc_world \<Rightarrow> nsname \<Rightarrow> KubeService \<Rightarrow> bool" where
  "found w key k0 \<longleftrightarrow> meta_key k0 = key \<and>
     (case sw_kube w key of
        Some s \<Rightarrow> k0 = s
      | None \<Rightarrow> time_IsZero (om_CreationTimestamp k0) \<and> om_Labels k0 = None)"

definition same_service :: "KubeService \<Rightarrow> KubeService \<Rightarrow> bool" where
  "same_service k k1 \<longleftrightarrow> meta_key k = meta_key k1 \<and> om_Labels k = om_Labels k1 \<and> ks_Type k = ks_Type k1 \<and>
     ks_Selector k = ks_Selector k1 \<and> ks_Ports k = ks_Ports k1 \<and> ks_ExternalIPs k = ks_ExternalIPs k1"

definition create_or_patch ::
    "svc_world \<Rightarrow> nsname \<Rightarrow> (KubeService \<Rightarrow> go_error + KubeService) \<Rightarrow> (go_error + KubeService) \<times> svc_world \<Rightarrow> bool" where
  "create_or_patch w key f answer \<longleftrightarrow>
     (case answer of
        (Inl err, w') \<Rightarrow> sw_kube w' = sw_kube w \<and>
          (errors_Is err errNameConflict \<longrightarrow> (\<exists>k0. found w key k0 \<and> f k0 = Inl err))
      | (Inr k, w') \<Rightarrow> \<exists>k0 k1. found w key k0 \<and> f k0 = Inr k1 \<and> same_service k k1 \<and> sw_kube w' = (sw_kube w)(key \<mapsto> k))"

definition svc_api :: "svc_world svc_client \<Rightarrow> bool" where
  "svc_api cl \<longleftrightarrow>
     (\<forall>w k s. sc_GetService cl w k = Inr s \<longrightarrow> meta_key s = k \<and> om_Name s \<noteq> '''' \<and> om_Namespace s \<noteq> '''') \<and>
     (\<forall>w k s. sc_GetKube cl w k = Inr s \<longrightarrow> sw_kube w k = Some s \<and> meta_key s = k) \<and>
     (\<forall>w s. sw_kube (snd (sc_UpdateService cl w s)) = sw_kube w) \<and>
     (\<forall>w s s'. fst (sc_UpdateService cl w s) = Inr s' \<longrightarrow> meta_key s' = meta_key s \<and> sv_Spec s' = sv_Spec s) \<and>
     (\<forall>w s0 s. sw_kube (snd (sc_StatusPatch cl w s0 s)) = sw_kube w) \<and>
     (\<forall>w k uid. sw_kube (snd (sc_DeleteKube cl w k uid)) = sw_kube w \<or>
        (\<exists>s. sw_kube w (meta_key k) = Some s \<and> om_UID s = uid \<and>
             sw_kube (snd (sc_DeleteKube cl w k uid)) = (sw_kube w)(meta_key k := None))) \<and>
     (\<forall>w key f. create_or_patch w key f (sc_CreateOrPatchKube cl w key f))"

lemma svc_apiD:
  assumes "svc_api cl"
  shows "sc_GetService cl w k = Inr s \<Longrightarrow> meta_key s = k \<and> om_Name s \<noteq> '''' \<and> om_Namespace s \<noteq> ''''"
    and "sc_GetKube cl w k = Inr ks \<Longrightarrow> sw_kube w k = Some ks \<and> meta_key ks = k"
    and "sc_UpdateService cl w s = (r, w') \<Longrightarrow> sw_kube w' = sw_kube w"
    and "sc_UpdateService cl w s = (Inr s', w') \<Longrightarrow> meta_key s' = meta_key s \<and> sv_Spec s' = sv_Spec s"
    and "sc_StatusPatch cl w s0 s = (r1, w') \<Longrightarrow> sw_kube w' = sw_kube w"
    and "sc_DeleteKube cl w ks uid = (r2, w') \<Longrightarrow> sw_kube w' = sw_kube w \<or> sw_kube w' = (sw_kube w)(meta_key ks := None)"
    and "create_or_patch w key f (sc_CreateOrPatchKube cl w key f)"
  using assms unfolding svc_api_def by (metis fst_conv snd_conv)+

definition created :: "svc_world \<Rightarrow> bool" where
  "created w \<longleftrightarrow> (\<forall>key k. sw_kube w key = Some k \<longrightarrow> \<not> time_IsZero (om_CreationTimestamp k))"

lemma IsOwnedBy_iff: "IsOwnedBy labels s \<longleftrightarrow> OwnerKeyFromLabels labels = Some (meta_key s)"
  by (auto simp: IsOwnedBy_def meta_key_def split: option.splits)

lemma updateStatus_kube:
  assumes "svc_api cl" "updateStatus lib cl s ko ip st rs ms w = (r, w')"
  shows "sw_kube w' = sw_kube w"
  using assms(2) svc_apiD(5) [OF assms(1)]
  by (auto simp: updateStatus_def Let_def split: if_splits prod.splits sum.splits)

lemma mutate_kube_owner:
  assumes "mutate_kube s ip k0 = Inr k1" "om_Name s \<noteq> ''''" "om_Namespace s \<noteq> ''''"
  shows "OwnerKeyFromLabels (om_Labels k1) = Some (meta_key s) \<and> ks_ExternalIPs k1 = [addr_String ip] \<and>
    ks_Ports k1 = kubeServicePorts s \<and> ks_Selector k1 = None"
  using assms
  by (auto simp: mutate_kube_def OwnerKeyFromLabels_def OwnerLabels_def meta_key_def split: if_splits)

lemma ensureKubeService_cases:
  assumes "svc_api cl" "created w" "ensureKubeService cl s name ip w = (r, w')" "om_Name s \<noteq> ''''" "om_Namespace s \<noteq> ''''"
  shows "case r of
      Inl err \<Rightarrow> sw_kube w' = sw_kube w \<and> (errors_Is err errNameConflict \<longrightarrow>
        (\<exists>k. sw_kube w (ServiceTargetNamespace, name) = Some k \<and> OwnerKeyFromLabels (om_Labels k) \<noteq> Some (meta_key s)))
    | Inr k \<Rightarrow> sw_kube w' = (sw_kube w)((ServiceTargetNamespace, name) \<mapsto> k) \<and>
        OwnerKeyFromLabels (om_Labels k) = Some (meta_key s) \<and> ks_ExternalIPs k = [addr_String ip] \<and>
        ks_Ports k = kubeServicePorts s \<and> ks_Selector k = None \<and>
        (\<forall>k0. sw_kube w (ServiceTargetNamespace, name) = Some k0 \<longrightarrow> OwnerKeyFromLabels (om_Labels k0) = Some (meta_key s))"
proof -
  let ?key = "(ServiceTargetNamespace, name)"
  have cp: "create_or_patch w ?key (mutate_kube s ip) (r, w')"
    using svc_apiD(7) [OF assms(1), of w ?key "mutate_kube s ip"] assms(3) by (simp add: ensureKubeService_def)
  show ?thesis
  proof (cases r)
    case (Inl err)
    then have "sw_kube w' = sw_kube w" using cp by (simp add: create_or_patch_def)
    moreover have "\<exists>k. sw_kube w ?key = Some k \<and> OwnerKeyFromLabels (om_Labels k) \<noteq> Some (meta_key s)"
      if conflict: "errors_Is err errNameConflict"
    proof -
      obtain k0 where "found w ?key k0" "mutate_kube s ip k0 = Inl err"
        using cp conflict Inl by (auto simp: create_or_patch_def)
      then show ?thesis
        by (auto simp: found_def mutate_kube_def IsOwnedBy_iff split: option.splits if_splits)
    qed
    ultimately show ?thesis using Inl by simp
  next
    case (Inr k)
    then obtain k0 k1 where k: "found w ?key k0" "mutate_kube s ip k0 = Inr k1" "same_service k k1"
        "sw_kube w' = (sw_kube w)(?key \<mapsto> k)" using cp by (auto simp: create_or_patch_def)
    have "OwnerKeyFromLabels (om_Labels k0) = Some (meta_key s)" if "sw_kube w ?key = Some k0'" for k0'
      using k(1,2) that assms(2) by (auto simp: found_def created_def mutate_kube_def IsOwnedBy_iff split: if_splits)
    moreover have "k0' = k0" if "sw_kube w ?key = Some k0'" for k0' using k(1) that by (simp add: found_def)
    ultimately show ?thesis
      using Inr k(3,4) mutate_kube_owner [OF k(2) assms(4,5)] by (auto simp: same_service_def)
  qed
qed

text \<open>The Kubernetes services of other owners are left as they are.\<close>

definition keeps_others :: "nsname \<Rightarrow> svc_world \<Rightarrow> svc_world \<Rightarrow> bool" where
  "keeps_others o1 w w' \<longleftrightarrow>
     (\<forall>key k. sw_kube w key = Some k \<and> OwnerKeyFromLabels (om_Labels k) \<noteq> Some o1 \<longrightarrow> sw_kube w' key = Some k)"

lemma keeps_others_eq: "sw_kube w' = sw_kube w \<Longrightarrow> keeps_others o1 w w'"
  by (simp add: keeps_others_def)

lemma reconcile_result_eq:
  "reconcile_result r st = Some (res, st', w') \<longleftrightarrow>
     (case r of (None, w) \<Rightarrow> res = Inr Done \<and> st' = st \<and> w' = w
      | (Some err, w) \<Rightarrow> res = Inl err \<and> st' = st \<and> w' = w)"
  by (auto simp: reconcile_result_def split: prod.splits option.splits)

text \<open>What \<open>reconcile_live\<close> leaves: either an address and the service that carries it, or neither.\<close>

definition published :: "svc_state \<Rightarrow> svc_world \<Rightarrow> nsname \<Rightarrow> nsname \<Rightarrow> Service \<Rightarrow> bool" where
  "published st w req key s \<longleftrightarrow>
     (\<exists>a k. po_addrs (svs_ServiceIPs st) req = Some a \<and> sw_kube w key = Some k \<and>
        OwnerKeyFromLabels (om_Labels k) = Some req \<and> ks_ExternalIPs k = [addr_String a] \<and>
        ks_Ports k = kubeServicePorts s \<and> ks_Selector k = None)"

definition refused :: "svc_state \<Rightarrow> svc_world \<Rightarrow> nsname \<Rightarrow> nsname \<Rightarrow> bool" where
  "refused st w req key \<longleftrightarrow> po_addrs (svs_ServiceIPs st) req = None \<and>
     (\<exists>k. sw_kube w key = Some k \<and> OwnerKeyFromLabels (om_Labels k) \<noteq> Some req)"

lemma reconcile_live_allocated:
  assumes "svc_api cl" "created w" "meta_key s = req" "om_Name s \<noteq> ''''" "om_Namespace s \<noteq> ''''"
    and "validateService lib s = ('''', message)" "pool_Allocate (svs_ServiceIPs st) req = Some (Inr ip, p)"
    and "po_addrs p req = Some ip" "pool_inv p"
    and "reconcile_live lib cl req s name st w = Some (r, st', w')"
  shows "keeps_others req w w' \<and> (r = Inr Done \<longrightarrow>
      published st' w' req (ServiceTargetNamespace, name) s \<or> refused st' w' req (ServiceTargetNamespace, name))"
proof -
  let ?key = "(ServiceTargetNamespace, name)"
  obtain kr w1 where ek: "ensureKubeService cl s name ip w = (kr, w1)" by fastforce
  note cs = ensureKubeService_cases [OF assms(1,2) ek assms(4,5)]
  note live = assms(10) [unfolded reconcile_live_def assms(6,7)]
  show ?thesis
  proof (cases kr)
    case (Inl err)
    then have w': "sw_kube w' = sw_kube w"
      using live ek cs updateStatus_kube [OF assms(1)]
      by (cases "updateStatus lib cl s None NoAddr ConditionFalse ''ServiceError'' (sl_ErrorText lib err) w1")
         (auto simp: Let_def reconcile_result_eq split: if_splits prod.splits option.splits)
    moreover have "refused st' w' req ?key" if ok: "r = Inr Done"
    proof -
      have "errors_Is err errNameConflict" and "st' = release_ip req (st\<lparr>svs_ServiceIPs := p\<rparr>)"
        using live ek Inl ok by (auto simp: Let_def reconcile_result_eq split: if_splits prod.splits option.splits)
      then show ?thesis
        using cs Inl w' assms(3) pool.release_law [OF assms(9), of req] by (auto simp: refused_def release_ip_def)
    qed
    ultimately show ?thesis by (simp add: keeps_others_eq)
  next
    case (Inr k)
    then have w': "sw_kube w' = (sw_kube w)(?key \<mapsto> k)" and st': "st' = st\<lparr>svs_ServiceIPs := p\<rparr>"
      using live ek cs updateStatus_kube [OF assms(1)]
      by (auto simp: Let_def reconcile_result_eq split: prod.splits option.splits)
    then have "published st' w' req ?key s" using cs Inr assms(3,8) by (auto simp: published_def)
    moreover have "keeps_others req w w'" using cs Inr w' assms(3) by (auto simp: keeps_others_def)
    ultimately show ?thesis by simp
  qed
qed

lemma reconcile_live_outcome:
  assumes "svc_api cl" "created w" "pool_inv (svs_ServiceIPs st)" "meta_key s = req" "om_Name s \<noteq> ''''" "om_Namespace s \<noteq> ''''"
    and "reconcile_live lib cl req s name st w = Some (r, st', w')"
  shows "keeps_others req w w' \<and> (r = Inr Done \<longrightarrow> fst (validateService lib s) = '''' \<longrightarrow>
      published st' w' req (ServiceTargetNamespace, name) s \<or> refused st' w' req (ServiceTargetNamespace, name))"
proof -
  obtain reason message where v: "validateService lib s = (reason, message)" by fastforce
  obtain a p where al: "pool_Allocate (svs_ServiceIPs st) req = Some (a, p)"
      "moves_only req st (st\<lparr>svs_ServiceIPs := p\<rparr>)" "\<And>ip. a = Inr ip \<Longrightarrow> po_addrs p req = Some ip"
    using moves_only_Allocate [OF assms(3), of req] by metis
  consider "reason \<noteq> ''''" | e where "reason = ''''" "a = Inl e" | ip where "reason = ''''" "a = Inr ip" by (cases a) auto
  then show ?thesis
  proof cases
    case 1
    then have "sw_kube w' = sw_kube w"
      using assms(7) v updateStatus_kube [OF assms(1)]
      by (auto simp: reconcile_live_def reconcile_result_eq split: prod.splits option.splits)
    with 1 v show ?thesis by (simp add: keeps_others_eq)
  next
    case 2
    then have "sw_kube w' = sw_kube w \<and> r \<noteq> Inr Done"
      using assms(7) v al(1) updateStatus_kube [OF assms(1)]
      by (cases "updateStatus lib cl s None NoAddr ConditionFalse ''IPAllocationFailed''
            (sl_ErrorText lib (pool_error (svs_ServiceIPs st))) w")
         (auto simp: reconcile_live_def Let_def)
    then show ?thesis by (simp add: keeps_others_eq)
  next
    case 3
    then have "pool_inv p" using al(2) by (simp add: moves_only_def)
    with 3 v al show ?thesis
      using reconcile_live_allocated [OF assms(1,2,4-6) _ _ _ _ assms(7), of message ip p] by simp
  qed
qed

lemma deleteKubeService_keeps:
  assumes "svc_api cl" "deleteKubeService cl s name w = (r, w')"
  shows "keeps_others (meta_key s) w w'"
proof (cases "sc_GetKube cl w (ServiceTargetNamespace, name)")
  case (Inl err)
  with assms(2) show ?thesis by (simp add: deleteKubeService_def keeps_others_def)
next
  case (Inr k)
  then have k: "sw_kube w (ServiceTargetNamespace, name) = Some k" "meta_key k = (ServiceTargetNamespace, name)"
    using svc_apiD(2) [OF assms(1)] by blast+
  obtain dr w1 where d: "sc_DeleteKube cl w k (om_UID k) = (dr, w1)" by fastforce
  show ?thesis
    using assms(2) Inr k d svc_apiD(6) [OF assms(1) d]
    by (auto simp: deleteKubeService_def IsOwnedBy_iff keeps_others_def split: if_splits option.splits)
qed

lemma keeps_others_trans: "sw_kube w1 = sw_kube w \<Longrightarrow> keeps_others o1 w1 w' \<Longrightarrow> keeps_others o1 w w'"
  "keeps_others o1 w w1 \<Longrightarrow> sw_kube w' = sw_kube w1 \<Longrightarrow> keeps_others o1 w w'"
  by (simp_all add: keeps_others_def)

lemma validateService_cong: "sv_Spec s = sv_Spec s' \<Longrightarrow> validateService lib s = validateService lib s'"
  "sv_Spec s = sv_Spec s' \<Longrightarrow> kubeServicePorts s = kubeServicePorts s'"
  by (simp_all add: validateService_def kubeServicePorts_def)

lemma Reconcile_outcome:
  assumes "svc_api cl" "created w" "pool_inv (svs_ServiceIPs st)" "sc_GetService cl w req = Inr s"
    and "Reconcile lib cl req st w = Some (r, st', w')"
  shows "keeps_others req w w' \<and>
    (r = Inr Done \<longrightarrow> time_ptr_IsZero (om_DeletionTimestamp s) \<longrightarrow> fst (validateService lib s) = '''' \<longrightarrow>
      (let key = (ServiceTargetNamespace, KubeServiceName lib (om_Namespace s) (om_Name s))
       in published st' w' req key s \<or> refused st' w' req key))"
proof -
  have s: "meta_key s = req" "om_Name s \<noteq> ''''" "om_Namespace s \<noteq> ''''" using svc_apiD(1) [OF assms(1,4)] by auto
  obtain e st1 where sy: "ensurePoolSynced cl st w = (e, st1)" by fastforce
  have inv: "pool_inv (svs_ServiceIPs st1)" using ensurePoolSynced_keeps [OF assms(3) sy] by simp
  let ?name = "KubeServiceName lib (om_Namespace s) (om_Name s)"
  note rec = assms(5) [unfolded Reconcile_def assms(4) sy sum.case prod.case]
  show ?thesis
  proof (cases "e \<noteq> None \<or> \<not> time_ptr_IsZero (om_DeletionTimestamp s)")
    case True
    obtain dr w1 where d: "deleteKubeService cl s ?name w = (dr, w1)" by fastforce
    note del = deleteKubeService_keeps [OF assms(1) d, unfolded s(1)]
    show ?thesis
      using rec True d del keeps_others_eq [of w w] keeps_others_trans(2) [OF del] svc_apiD(3) [OF assms(1)]
      by (auto simp: Let_def split: option.splits if_splits prod.splits sum.splits)
  next
    case False
    show ?thesis
    proof (cases "ServiceFinalizer \<in> set (om_Finalizers s)")
      case True
      with False rec have "reconcile_live lib cl req s ?name st1 w = Some (r, st', w')" by (auto simp: Let_def)
      from reconcile_live_outcome [OF assms(1,2) inv s this] show ?thesis by simp
    next
      case nofin: False
      obtain ur w1 where u: "sc_UpdateService cl w (s\<lparr>om_Finalizers := om_Finalizers s @ [ServiceFinalizer]\<rparr>) = (ur, w1)"
        by fastforce
      have w1: "sw_kube w1 = sw_kube w" using svc_apiD(3) [OF assms(1) u] .
      show ?thesis
      proof (cases ur)
        case (Inl err)
        with rec False nofin u w1 show ?thesis by (auto simp: Let_def keeps_others_eq)
      next
        case (Inr s1)
        then have s1: "meta_key s1 = req" "sv_Spec s1 = sv_Spec s"
          using svc_apiD(4) [OF assms(1)] u s(1) by (auto simp: meta_key_def)
        then have "om_Name s1 \<noteq> ''''" "om_Namespace s1 \<noteq> ''''" using s by (auto simp: meta_key_def)
        moreover have "reconcile_live lib cl req s1 ?name st1 w1 = Some (r, st', w')"
          using rec False nofin u Inr by (auto simp: Let_def)
        moreover have "created w1" using assms(2) w1 by (simp add: created_def)
        ultimately show ?thesis
          using reconcile_live_outcome [OF assms(1) _ inv s1(1)] keeps_others_trans(1) [OF w1]
            validateService_cong(1) [OF s1(2), of lib] validateService_cong(2) [OF s1(2)]
          by (auto simp: published_def)
      qed
    qed
  qed
qed

section \<open>Examples\<close>

definition ex_svc_lib :: svc_lib where
  "ex_svc_lib = \<lparr>sl_DNS1035LabelMaxLength = 63, sl_SafeEncodeString = id,
     sl_SetStatusCondition = (\<lambda>cs c. filter (\<lambda>x. c_Type x \<noteq> c_Type c) cs @ [c]), sl_StatusEqual = (=),
     sl_ErrorText = (\<lambda>_. ''error''), sl_Quote = id\<rparr>"

definition ex_meta_service :: "string \<Rightarrow> Service" where
  "ex_meta_service name =
     \<lparr>om_Name = name, om_GenerateName = '''', om_Namespace = ''ns'', om_UID = name, om_Generation = 1,
      om_Labels = None, om_Annotations = None, om_Finalizers = [], om_OwnerReferences = [],
      om_CreationTimestamp = 1, om_DeletionTimestamp = None,
      sv_Spec = \<lparr>ss_Type = '''', ss_Selector = Some [(''app'', ''web'')],
        ss_Ports = [\<lparr>sp_Name = ''http'', sp_Protocol = '''', sp_Port = 80\<rparr>]\<rparr>,
      sv_Status = \<lparr>svt_ServiceName = '''', svt_Hostname = '''', svt_ClusterIPs = [], svt_ObservedGeneration = 0,
        svt_Conditions = []\<rparr>\<rparr>"

definition ex_blank_kube :: "nsname \<Rightarrow> KubeService" where
  "ex_blank_kube key =
     \<lparr>om_Name = snd key, om_GenerateName = '''', om_Namespace = fst key, om_UID = '''', om_Generation = 0,
      om_Labels = None, om_Annotations = None, om_Finalizers = [], om_OwnerReferences = [],
      om_CreationTimestamp = 0, om_DeletionTimestamp = None,
      ks_Type = '''', ks_IPFamilyPolicy = None, ks_Selector = None, ks_Ports = [], ks_ExternalIPs = [], ks_Rest = ''''\<rparr>"

definition ex_svc_client :: "Service list \<Rightarrow> KubeService list \<Rightarrow> svc_world svc_client" where
  "ex_svc_client ss ks =
     \<lparr>sc_GetService = (\<lambda>w k. case sw_services w k of
        Some s \<Rightarrow> if meta_key s = k \<and> om_Name s \<noteq> '''' \<and> om_Namespace s \<noteq> '''' then Inr s else Inl (ApiError NotFound)
      | None \<Rightarrow> Inl (ApiError NotFound)),
      sc_ListServices = (\<lambda>w. Inr ss),
      sc_UpdateService = (\<lambda>w s. (Inr s, w\<lparr>sw_services := (sw_services w)(meta_key s \<mapsto> s)\<rparr>)),
      sc_StatusPatch = (\<lambda>w _ s. (Inr s, w\<lparr>sw_services := (sw_services w)(meta_key s \<mapsto> s)\<rparr>)),
      sc_GetKube = (\<lambda>w k. case sw_kube w k of
        Some s \<Rightarrow> if meta_key s = k then Inr s else Inl (ApiError NotFound) | None \<Rightarrow> Inl (ApiError NotFound)),
      sc_ListKube = (\<lambda>w _ _. Inr ks),
      sc_DeleteKube = (\<lambda>w k uid. case sw_kube w (meta_key k) of
        Some s \<Rightarrow> if om_UID s = uid then (None, w\<lparr>sw_kube := (sw_kube w)(meta_key k := None)\<rparr>) else (Some (ApiError Conflict), w)
      | None \<Rightarrow> (Some (ApiError NotFound), w)),
      sc_CreateOrPatchKube = (\<lambda>w key f.
        let k0 = (case sw_kube w key of Some s \<Rightarrow> s | None \<Rightarrow> ex_blank_kube key)
        in if meta_key k0 \<noteq> key then (Inl (ApiError Conflict), w)
           else (case f k0 of
                   Inl err \<Rightarrow> (Inl err, w)
                 | Inr k \<Rightarrow> (Inr (k\<lparr>om_CreationTimestamp := 1\<rparr>), w\<lparr>sw_kube := (sw_kube w)(key \<mapsto> k\<lparr>om_CreationTimestamp := 1\<rparr>)\<rparr>)))\<rparr>"

lemma ex_svc_client_api: "svc_api (ex_svc_client ss ks)"
proof -
  have cp: "create_or_patch w key f (sc_CreateOrPatchKube (ex_svc_client ss ks) w key f)" for w key f
  proof -
    define k0 where "k0 = (case sw_kube w key of Some s \<Rightarrow> s | None \<Rightarrow> ex_blank_kube key)"
    have "meta_key k0 = key \<Longrightarrow> found w key k0"
      by (auto simp: k0_def found_def ex_blank_kube_def time_IsZero_def split: option.splits)
    moreover have "sc_CreateOrPatchKube (ex_svc_client ss ks) w key f =
        (if meta_key k0 \<noteq> key then (Inl (ApiError Conflict), w)
         else (case f k0 of Inl err \<Rightarrow> (Inl err, w)
           | Inr k \<Rightarrow> (Inr (k\<lparr>om_CreationTimestamp := 1\<rparr>), w\<lparr>sw_kube := (sw_kube w)(key \<mapsto> k\<lparr>om_CreationTimestamp := 1\<rparr>)\<rparr>)))"
      by (simp add: ex_svc_client_def k0_def)
    ultimately show ?thesis
      by (cases "f k0"; cases "meta_key k0 = key")
         (auto simp: create_or_patch_def same_service_def meta_key_def errNameConflict_def simp del: split_paired_Ex)
  qed
  show ?thesis
    unfolding svc_api_def
    by (intro conjI allI cp) (auto simp: ex_svc_client_def meta_key_def split: option.splits if_splits)
qed

definition ex_pool :: addr_pool where
  "ex_pool = \<lparr>po_base = \<lparr>pfx_ip = V4 0x0A000100, pfx_bits = 24\<rparr>, po_owners = Map.empty, po_addrs = Map.empty,
     po_last = V4 0x0A000100\<rparr>"

lemma ex_pool_new: "NewAddrPool \<lparr>pfx_ip = V4 0x0A000100, pfx_bits = 24\<rparr> = Inr ex_pool"
  by (simp add: NewAddrPool_def ex_pool_def net24_ok)

definition ex_svc_world :: svc_world where
  "ex_svc_world = \<lparr>sw_services = [(''ns'', ''web'') \<mapsto> ex_meta_service ''web''], sw_kube = Map.empty\<rparr>"

section \<open>Properties\<close>

text \<open>
  C17: whatever the API server answers, a reconcile of a service returns and keeps the pool
  consistent: no two services hold the same address and every held address belongs to the service
  network. Once the pool has been rebuilt, it changes nothing but the address of the service it is
  called for.
\<close>

theorem service_pool_consistent:
  assumes "pool_inv (svs_ServiceIPs st)"
  shows "\<exists>r st' w'. Reconcile lib cl req st w = Some (r, st', w') \<and> pool_inv (svs_ServiceIPs st') \<and>
    (\<forall>o1 o2 a. po_addrs (svs_ServiceIPs st') o1 = Some a \<and> po_addrs (svs_ServiceIPs st') o2 = Some a \<longrightarrow> o1 = o2) \<and>
    ran (po_addrs (svs_ServiceIPs st')) \<subseteq> pool_usable (svs_ServiceIPs st) \<and>
    (svs_poolSynced st \<longrightarrow> svs_poolSynced st' \<and>
       (\<forall>o1. o1 \<noteq> req \<longrightarrow> po_addrs (svs_ServiceIPs st') o1 = po_addrs (svs_ServiceIPs st) o1))"
proof -
  obtain e st1 where sy: "ensurePoolSynced cl st w = (e, st1)" by fastforce
  have st1: "pool_inv (svs_ServiceIPs st1)" "pool_usable (svs_ServiceIPs st1) = pool_usable (svs_ServiceIPs st)"
    using ensurePoolSynced_keeps [OF assms sy] by auto
  have "\<exists>r st' w'. Reconcile lib cl req st w = Some (r, st', w') \<and> (moves_only req st1 st' \<or> st' = st)"
  proof (cases "sc_GetService cl w req")
    case (Inl err)
    then show ?thesis by (auto simp: Reconcile_def)
  next
    case (Inr s)
    show ?thesis
    proof (cases e)
      case None
      then show ?thesis using after_sync_moves [OF assms Inr, of st1 lib] sy by auto
    next
      case (Some err)
      then show ?thesis using Inr sy moves_only_refl [OF st1(1)] by (auto simp: Reconcile_def)
    qed
  qed
  then obtain r st' w' where run: "Reconcile lib cl req st w = Some (r, st', w')" "moves_only req st1 st' \<or> st' = st" by blast
  then have inv: "pool_inv (svs_ServiceIPs st')" and us: "pool_usable (svs_ServiceIPs st') = pool_usable (svs_ServiceIPs st)"
    using assms st1 by (auto simp: moves_only_def)
  have "svs_poolSynced st \<longrightarrow> svs_poolSynced st' \<and>
       (\<forall>o1. o1 \<noteq> req \<longrightarrow> po_addrs (svs_ServiceIPs st') o1 = po_addrs (svs_ServiceIPs st) o1)"
    using run(2) sy ensurePoolSynced_synced [of st cl w] by (auto simp: moves_only_def)
  then show ?thesis
    using run(1) inv us pool.held_inj [OF inv] pool.held_usable [OF inv] by (intro exI [of _ r] exI [of _ st'] exI [of _ w']) auto
qed

theorem service_pool_consistent_witness:
  "\<exists>r st' w'. Reconcile ex_svc_lib (ex_svc_client [] []) (''ns'', ''web'')
       \<lparr>svs_ServiceIPs = ex_pool, svs_poolSynced = True\<rparr> ex_svc_world = Some (r, st', w') \<and> pool_inv (svs_ServiceIPs st')"
proof -
  have "pool_inv (svs_ServiceIPs \<lparr>svs_ServiceIPs = ex_pool, svs_poolSynced = True\<rparr>)"
    by (simp add: NewAddrPool_inv [OF ex_pool_new])
  from service_pool_consistent [OF this, of ex_svc_lib "ex_svc_client [] []" "(''ns'', ''web'')" ex_svc_world]
  show ?thesis by (elim exE conjE) (intro exI conjI; assumption)
qed

text \<open>
  C18: a reconcile never changes or deletes a Kubernetes service that belongs to another loom
  service. When it succeeds for a valid live service, either that service holds an address and its
  Kubernetes service exists under its name, labelled as its own, without selector, with exactly
  that address as external IP and with its ports; or the name belongs to somebody else and the
  service holds no address.
\<close>

theorem service_published_or_refused:
  assumes "svc_api cl" "created w" "pool_inv (svs_ServiceIPs st)" "sc_GetService cl w req = Inr s"
    and "Reconcile lib cl req st w = Some (r, st', w')"
  shows "keeps_others req w w' \<and>
    (r = Inr Done \<longrightarrow> time_ptr_IsZero (om_DeletionTimestamp s) \<longrightarrow> fst (validateService lib s) = '''' \<longrightarrow>
      (let key = (ServiceTargetNamespace, KubeServiceName lib (om_Namespace s) (om_Name s))
       in published st' w' req key s \<or> refused st' w' req key))"
  by (rule Reconcile_outcome [OF assms])

theorem service_published_or_refused_witness:
  "\<exists>r st' w'. Reconcile ex_svc_lib (ex_svc_client [] []) (''ns'', ''web'')
       \<lparr>svs_ServiceIPs = ex_pool, svs_poolSynced = True\<rparr> ex_svc_world = Some (r, st', w') \<and>
     keeps_others (''ns'', ''web'') ex_svc_world w'"
proof -
  let ?st = "\<lparr>svs_ServiceIPs = ex_pool, svs_poolSynced = True\<rparr>" and ?req = "(''ns'', ''web'')"
  have get: "sc_GetService (ex_svc_client [] []) ex_svc_world ?req = Inr (ex_meta_service ''web'')"
    by (simp add: ex_svc_client_def ex_svc_world_def ex_meta_service_def meta_key_def)
  have inv: "pool_inv (svs_ServiceIPs ?st)" using NewAddrPool_inv [OF ex_pool_new] by simp
  obtain r st' w' where run: "Reconcile ex_svc_lib (ex_svc_client [] []) ?req ?st ex_svc_world = Some (r, st', w')"
    using after_sync_moves [OF inv get, of ?st ex_svc_lib] ensurePoolSynced_synced [of ?st "ex_svc_client [] []" ex_svc_world]
    by auto
  have "created ex_svc_world" by (simp add: created_def ex_svc_world_def)
  from service_published_or_refused [OF ex_svc_client_api this inv get run] run show ?thesis by blast
qed

text \<open>
  C19: after a restart the pool is rebuilt from the cluster. If the recorded addresses are
  consistent (one external IP of the pool per owned Kubernetes service, different for different
  owners, and claimed by no other status), every service gets back exactly the address it was
  published under, and allocating for it again returns that address.
\<close>

theorem restart_recovers_addresses:
  assumes "NewAddrPool b = Inr p" "sc_ListServices cl w = Inr ss"
    and "sc_ListKube cl w ServiceTargetNamespace [ServiceNameLabel, ServiceNamespaceLabel] = Inr ks"
    and "records_ok p ss ks"
  shows "\<exists>st'. ensurePoolSynced cl \<lparr>svs_ServiceIPs = p, svs_poolSynced = False\<rparr> w = (None, st') \<and>
    svs_poolSynced st' \<and> pool_inv (svs_ServiceIPs st') \<and>
    (\<forall>a o1. recorded ks a o1 \<and> a \<in> pool_usable p \<longrightarrow>
       po_addrs (svs_ServiceIPs st') o1 = Some a \<and>
       pool_Allocate (svs_ServiceIPs st') o1 = Some (Inr a, svs_ServiceIPs st'))"
proof -
  have p: "pool_inv p" "po_addrs p = Map.empty"
    using NewAddrPool_inv [OF assms(1)] assms(1) by (auto simp: NewAddrPool_def split: if_splits)
  let ?q = "reserve_kube ks (reserve_statuses ss p)"
  have "ensurePoolSynced cl \<lparr>svs_ServiceIPs = p, svs_poolSynced = False\<rparr> w = (None, \<lparr>svs_ServiceIPs = ?q, svs_poolSynced = True\<rparr>)"
    using assms(2,3) by (simp add: ensurePoolSynced_def)
  moreover have "pool_inv ?q" using reserve_all_keeps(1) [OF p(1), of ss] reserve_all_keeps(2) by blast
  moreover have "po_addrs ?q o1 = Some a \<and> pool_Allocate ?q o1 = Some (Inr a, ?q)"
    if "recorded ks a o1" "a \<in> pool_usable p" for a o1
    using rebuild_recovers [OF p assms(4) that] by (simp add: pool_Allocate_def)
  ultimately show ?thesis by (intro exI [of _ "\<lparr>svs_ServiceIPs = ?q, svs_poolSynced = True\<rparr>"]) simp
qed

definition ex_kube_web :: KubeService where
  "ex_kube_web = (ex_blank_kube (ServiceTargetNamespace, ''web--ns''))\<lparr>om_CreationTimestamp := 1,
     om_Labels := Some [(ServiceNameLabel, ''web''), (ServiceNamespaceLabel, ''ns'')], ks_ExternalIPs := [''10.0.1.7'']\<rparr>"

lemma ex_recorded: "recorded [ex_kube_web] a o1 \<longleftrightarrow> o1 = (''ns'', ''web'') \<and> addr_String a = ''10.0.1.7''"
  by (auto simp: recorded_def ex_kube_web_def ex_blank_kube_def OwnerKeyFromLabels_def gomap_get_def)

lemma ex_address: "addr_String (V4 0x0A000107) = ''10.0.1.7''" "V4 0x0A000107 \<in> pool_usable ex_pool"
proof -
  show "addr_String (V4 0x0A000107) = ''10.0.1.7''" by code_simp
  have "pool_Contains ex_pool (V4 0x0A000107)" unfolding ex_pool_def by code_simp
  then show "V4 0x0A000107 \<in> pool_usable ex_pool" by (simp add: pool_usable_def)
qed

theorem restart_recovers_addresses_witness:
  "\<exists>st'. ensurePoolSynced (ex_svc_client [ex_meta_service ''web''] [ex_kube_web])
       \<lparr>svs_ServiceIPs = ex_pool, svs_poolSynced = False\<rparr> ex_svc_world = (None, st') \<and>
     po_addrs (svs_ServiceIPs st') (''ns'', ''web'') = Some (V4 0x0A000107)"
proof -
  let ?cl = "ex_svc_client [ex_meta_service ''web''] [ex_kube_web]"
  have "records_ok ex_pool [ex_meta_service ''web''] [ex_kube_web]"
    using ex_address by (auto simp: records_ok_def ex_recorded ex_meta_service_def avoids_def
        intro!: bexI [of _ "V4 0x0A000107"]) (simp add: ex_kube_web_def)
  then show ?thesis
    using restart_recovers_addresses [OF ex_pool_new, of ?cl ex_svc_world "[ex_meta_service ''web'']" "[ex_kube_web]"]
      ex_address ex_recorded [of "V4 0x0A000107" "(''ns'', ''web'')"]
    by (auto simp: ex_svc_client_def simp del: split_paired_All)
qed
end
