(* ===== verification/EndpointSlice.thy ===== *)
theory EndpointSlice
  imports LoomService
begin

text \<open>
  The endpoint slice controller (\<open>src/operator/internal/controller/core/endpointslice\<close>): it publishes
  the loom addresses of the pods a service selects as endpoint slices of the Kubernetes service
  that \<open>LoomService\<close> keeps, one slice per address family, and decides which pod events matter.
\<close>

section \<open>Resources and functions of other packages\<close>

record Pod = object_meta +
  pod_Phase :: string
  pod_Conditions :: "(string \<times> string) list"
  pod_NodeName :: string

record NetworkStatus =
  net_Name :: string
  net_IPs :: "string list"

record Endpoint =
  ep_Addresses :: "string list"
  ep_Ready :: "bool option"
  ep_Serving :: "bool option"
  ep_Terminating :: "bool option"
  ep_TargetRef :: "string \<times> string \<times> string \<times> string"
  ep_NodeName :: "string option"

record EndpointPort =
  epp_Name :: "string option"
  epp_Protocol :: "string option"
  epp_Port :: "int option"

record Slice = object_meta +
  es_AddressType :: string
  es_Endpoints :: "Endpoint list"
  es_Ports :: "EndpointPort list"

abbreviation PodSucceeded :: string where "PodSucceeded \<equiv> ''Succeeded''"
abbreviation PodFailed :: string where "PodFailed \<equiv> ''Failed''"
abbreviation PodReady :: string where "PodReady \<equiv> ''Ready''"
abbreviation AddressTypeIPv4 :: string where "AddressTypeIPv4 \<equiv> ''IPv4''"
abbreviation AddressTypeIPv6 :: string where "AddressTypeIPv6 \<equiv> ''IPv6''"
abbreviation NetworkStatusAnnot :: string where "NetworkStatusAnnot \<equiv> ''k8s.v1.cni.cncf.io/network-status''"
abbreviation LabelServiceName :: string where "LabelServiceName \<equiv> ''kubernetes.io/service-name''"
abbreviation LabelManagedBy :: string where "LabelManagedBy \<equiv> ''endpointslice.kubernetes.io/managed-by''"
abbreviation EndpointSliceManagedBy :: string where "EndpointSliceManagedBy \<equiv> ''endpointslice.loom.io''"

text \<open>
  The JSON decoding of a network status (a list or one object), the comparison of label sets and
  the owner reference are library functions. The client adds the requests about pods and slices;
  \<open>el_order\<close> is the order in which Go iterates over the map of desired slices.
\<close>

record es_lib = svc_lib +
  el_UnmarshalList :: "string \<Rightarrow> NetworkStatus list option"
  el_UnmarshalOne :: "string \<Rightarrow> NetworkStatus option"
  el_Matches :: "strmap \<Rightarrow> strmap \<Rightarrow> bool"
  el_LabelsEqual :: "strmap \<Rightarrow> strmap \<Rightarrow> bool"
  el_SetControllerReference :: "KubeService \<Rightarrow> Slice \<Rightarrow> go_error + Slice"
  el_order :: "(string \<times> Slice) list \<Rightarrow> (string \<times> Slice) list"

record 'w es_client = "'w svc_client" +
  ec_ListPods :: "'w \<Rightarrow> string \<Rightarrow> strmap \<Rightarrow> go_error + Pod list"
  ec_ListServicesIn :: "'w \<Rightarrow> string \<Rightarrow> go_error + Service list"
  ec_ListSlices :: "'w \<Rightarrow> string \<Rightarrow> (string \<times> string) list \<Rightarrow> go_error + Slice list"
  ec_DeleteSlice :: "'w \<Rightarrow> Slice \<Rightarrow> go_error option \<times> 'w"
  ec_CreateOrPatchSlice :: "'w \<Rightarrow> nsname \<Rightarrow> (Slice \<Rightarrow> go_error + Slice) \<Rightarrow> (go_error + Slice) \<times> 'w"

section \<open>The network status of a pod\<close>

definition LoomNetworkStatus :: "es_lib \<Rightarrow> Pod \<Rightarrow> NetworkStatus option" where
  "LoomNetworkStatus lib pod =
     (case gomap_get (om_Annotations pod) NetworkStatusAnnot of
        None \<Rightarrow> None
      | Some annotation \<Rightarrow>
          if annotation = '''' then None
          else (case (case el_UnmarshalList lib annotation of
                        Some statuses \<Rightarrow> Some statuses
                      | None \<Rightarrow> map_option (\<lambda>s. [s]) (el_UnmarshalOne lib annotation)) of
                  None \<Rightarrow> None
                | Some statuses \<Rightarrow> find (\<lambda>s. isLoomNetwork (net_Name s)) statuses))"

definition parseAddr :: "string \<Rightarrow> addr option" where
  "parseAddr ip =
     (case ParseAddr ip of
        Some a \<Rightarrow> Some (addr_Unmap a)
      | None \<Rightarrow> map_option (\<lambda>p. addr_Unmap (pfx_ip p)) (ParsePrefix ip))"

definition isPodReady :: "Pod \<Rightarrow> bool" where
  "isPodReady pod =
     (case find (\<lambda>c. fst c = PodReady) (pod_Conditions pod) of None \<Rightarrow> False | Some c \<Rightarrow> snd c = ConditionTrue)"

definition podEndpoint :: "Pod \<Rightarrow> addr \<Rightarrow> Endpoint" where
  "podEndpoint pod a =
     (let ready = isPodReady pod; terminating = om_DeletionTimestamp pod \<noteq> None
      in \<lparr>ep_Addresses = [addr_String a], ep_Ready = Some (ready \<and> \<not> terminating), ep_Serving = Some ready,
          ep_Terminating = Some terminating,
          ep_TargetRef = (''Pod'', om_Namespace pod, om_Name pod, om_UID pod),
          ep_NodeName = (if pod_NodeName pod \<noteq> '''' then Some (pod_NodeName pod) else None)\<rparr>)"

section \<open>Desired slices\<close>

definition endpointPorts :: "Service \<Rightarrow> EndpointPort list" where
  "endpointPorts service =
     map (\<lambda>port. \<lparr>epp_Name = Some (sp_Name port),
                  epp_Protocol = Some (if sp_Protocol port = '''' then ProtocolTCP else sp_Protocol port),
                  epp_Port = Some (sp_Port port)\<rparr>) (ss_Ports (sv_Spec service))"

definition managedSliceLabels :: "Service \<Rightarrow> KubeService \<Rightarrow> (string \<times> string) list" where
  "managedSliceLabels service kubeService =
     OwnerLabels service @ [(LabelServiceName, om_Name kubeService), (LabelManagedBy, EndpointSliceManagedBy)]"

definition sliceName :: "string \<Rightarrow> string \<Rightarrow> string" where
  "sliceName kubeServiceName addressType =
     (if addressType = AddressTypeIPv4 then kubeServiceName @ ''-ipv4'' else kubeServiceName @ ''-ipv6'')"

text \<open>The endpoints collected so far, per address type; a type without endpoints is not in the Go map.\<close>

definition add_ip :: "Pod \<Rightarrow> (string \<Rightarrow> Endpoint list) \<Rightarrow> string \<Rightarrow> string \<Rightarrow> Endpoint list" where
  "add_ip pod endpoints ip =
     (case parseAddr ip of
        None \<Rightarrow> endpoints
      | Some a \<Rightarrow>
          (let addressType = (if addr_Is4 a then AddressTypeIPv4 else AddressTypeIPv6)
           in endpoints(addressType := endpoints addressType @ [podEndpoint pod a])))"

definition add_pod :: "es_lib \<Rightarrow> (string \<Rightarrow> Endpoint list) \<Rightarrow> Pod \<Rightarrow> string \<Rightarrow> Endpoint list" where
  "add_pod lib endpoints pod =
     (if pod_Phase pod = PodSucceeded \<or> pod_Phase pod = PodFailed then endpoints
      else (case LoomNetworkStatus lib pod of
              None \<Rightarrow> endpoints
            | Some status \<Rightarrow> foldl (add_ip pod) endpoints (net_IPs status)))"

definition endpoint_less :: "Endpoint \<Rightarrow> Endpoint \<Rightarrow> bool" where
  "endpoint_less e1 e2 = str_less (ep_Addresses e1 ! 0) (ep_Addresses e2 ! 0)"

definition new_slice :: "Service \<Rightarrow> KubeService \<Rightarrow> string \<Rightarrow> Endpoint list \<Rightarrow> Slice" where
  "new_slice service kubeService addressType eps =
     \<lparr>om_Name = sliceName (om_Name kubeService) addressType, om_GenerateName = '''', om_Namespace = ServiceTargetNamespace,
      om_UID = '''', om_Generation = 0, om_Labels = Some (managedSliceLabels service kubeService),
      om_Annotations = None, om_Finalizers = [], om_OwnerReferences = [], om_CreationTimestamp = 0,
      om_DeletionTimestamp = None,
      es_AddressType = addressType, es_Endpoints = go_sort endpoint_less eps, es_Ports = endpointPorts service\<rparr>"

definition desiredEndpointSlices :: "es_lib \<Rightarrow> Service \<Rightarrow> KubeService \<Rightarrow> Pod list \<Rightarrow> (string \<times> Slice) list" where
  "desiredEndpointSlices lib service kubeService pods =
     (let endpoints = foldl (add_pod lib) (\<lambda>_. []) pods
      in map (\<lambda>t. (sliceName (om_Name kubeService) t, new_slice service kubeService t (endpoints t)))
           (filter (\<lambda>t. endpoints t \<noteq> []) [AddressTypeIPv4, AddressTypeIPv6]))"

section \<open>The reconcile\<close>

definition selectPods :: "'w es_client \<Rightarrow> Service \<Rightarrow> 'w \<Rightarrow> go_error + Pod list" where
  "selectPods cl service w =
     (if (case ss_Selector (sv_Spec service) of None \<Rightarrow> True | Some kvs \<Rightarrow> kvs = []) then Inr []
      else ec_ListPods cl w (om_Namespace service) (ss_Selector (sv_Spec service)))"

fun delete_stale :: "'w es_client \<Rightarrow> string list \<Rightarrow> Slice list \<Rightarrow> 'w \<Rightarrow> go_error option \<times> 'w" where
  "delete_stale cl desired [] w = (None, w)"
| "delete_stale cl desired (s # ss) w =
     (if om_Name s \<in> set desired then delete_stale cl desired ss w
      else (case ec_DeleteSlice cl w s of
              (None, w) \<Rightarrow> delete_stale cl desired ss w
            | (Some err, w) \<Rightarrow> if IsNotFound err then delete_stale cl desired ss w else (Some err, w)))"

definition mutate_slice :: "es_lib \<Rightarrow> KubeService \<Rightarrow> Slice \<Rightarrow> Slice \<Rightarrow> go_error + Slice" where
  "mutate_slice lib kubeService want s =
     el_SetControllerReference lib kubeService
       (s\<lparr>om_Labels := Some (foldl (\<lambda>l (key, v). kvs_put key v l) (case om_Labels s of None \<Rightarrow> [] | Some l \<Rightarrow> l)
                             (case om_Labels want of None \<Rightarrow> [] | Some l \<Rightarrow> l)),
          es_AddressType := es_AddressType want, es_Ports := es_Ports want, es_Endpoints := es_Endpoints want\<rparr>)"

fun ensure_slices :: "es_lib \<Rightarrow> 'w es_client \<Rightarrow> KubeService \<Rightarrow> (string \<times> Slice) list \<Rightarrow> 'w \<Rightarrow> go_error option \<times> 'w" where
  "ensure_slices lib cl kubeService [] w = (None, w)"
| "ensure_slices lib cl kubeService ((name, want) # rest) w =
     (case ec_CreateOrPatchSlice cl w (ServiceTargetNamespace, name) (mutate_slice lib kubeService want) of
        (Inl err, w) \<Rightarrow> (Some err, w)
      | (Inr _, w) \<Rightarrow> ensure_slices lib cl kubeService rest w)"

definition publish_slices ::
    "es_lib \<Rightarrow> 'w es_client \<Rightarrow> Service \<Rightarrow> KubeService \<Rightarrow> Pod list \<Rightarrow> 'w \<Rightarrow> (go_error + ctrl_result) \<times> 'w" where
  "publish_slices lib cl service kubeService pods w =
     (let desired = desiredEndpointSlices lib service kubeService pods
      in case ec_ListSlices cl w ServiceTargetNamespace (managedSliceLabels service kubeService) of
           Inl err \<Rightarrow> (Inl err, w)
         | Inr existing \<Rightarrow>
             (case delete_stale cl (map fst desired) existing w of
                (Some err, w) \<Rightarrow> (Inl err, w)
              | (None, w) \<Rightarrow>
                  (case ensure_slices lib cl kubeService (el_order lib desired) w of
                     (Some err, w) \<Rightarrow> (Inl err, w)
                   | (None, w) \<Rightarrow> (Inr Done, w))))"

definition Reconcile :: "es_lib \<Rightarrow> 'w es_client \<Rightarrow> nsname \<Rightarrow> 'w \<Rightarrow> (go_error + ctrl_result) \<times> 'w" where
  "Reconcile lib cl req w =
     (case sc_GetService cl w req of
        Inl err \<Rightarrow> (if IsNotFound err then Inr Done else Inl err, w)
      | Inr service \<Rightarrow>
          if \<not> time_ptr_IsZero (om_DeletionTimestamp service) then (Inr Done, w)
          else (case sc_GetKube cl w (ServiceTargetNamespace,
                       KubeServiceName (svc_lib.truncate lib) (om_Namespace service) (om_Name service)) of
                  Inl err \<Rightarrow> (if IsNotFound err then Inr Done else Inl err, w)
                | Inr kubeService \<Rightarrow>
                    if \<not> IsOwnedBy (om_Labels kubeService) service then (Inr Done, w)
                    else (case selectPods cl service w of
                            Inl err \<Rightarrow> (Inl err, w)
                          | Inr pods \<Rightarrow> publish_slices lib cl service kubeService pods w)))"

section \<open>Events\<close>

text \<open>The requests an event puts on the queue.\<close>

definition enqueueForPod :: "es_lib \<Rightarrow> 'w es_client \<Rightarrow> 'w \<Rightarrow> Pod \<Rightarrow> nsname list" where
  "enqueueForPod lib cl w pod =
     (case ec_ListServicesIn cl w (om_Namespace pod) of
        Inl _ \<Rightarrow> []
      | Inr services \<Rightarrow>
          map meta_key (filter (\<lambda>s. (case ss_Selector (sv_Spec s) of None \<Rightarrow> False | Some kvs \<Rightarrow> kvs \<noteq> []) \<and>
                                    el_Matches lib (ss_Selector (sv_Spec s)) (om_Labels pod)) services))"

datatype pod_event = CreateEvent Pod | UpdateEvent Pod Pod | DeleteEvent Pod | GenericEvent Pod

fun podHandler :: "es_lib \<Rightarrow> 'w es_client \<Rightarrow> 'w \<Rightarrow> pod_event \<Rightarrow> nsname list" where
  "podHandler lib cl w (CreateEvent pod) = enqueueForPod lib cl w pod"
| "podHandler lib cl w (UpdateEvent oldPod newPod) = enqueueForPod lib cl w oldPod @ enqueueForPod lib cl w newPod"
| "podHandler lib cl w (DeleteEvent pod) = enqueueForPod lib cl w pod"
| "podHandler lib cl w (GenericEvent pod) = enqueueForPod lib cl w pod"

definition hasNetworkStatus :: "Pod \<Rightarrow> bool" where
  "hasNetworkStatus pod \<longleftrightarrow> gomap_get (om_Annotations pod) NetworkStatusAnnot \<noteq> None"

fun podPredicate :: "es_lib \<Rightarrow> pod_event \<Rightarrow> bool" where
  "podPredicate lib (CreateEvent pod) = hasNetworkStatus pod"
| "podPredicate lib (DeleteEvent pod) = hasNetworkStatus pod"
| "podPredicate lib (GenericEvent pod) = hasNetworkStatus pod"
| "podPredicate lib (UpdateEvent oldPod newPod) =
     (if \<not> hasNetworkStatus oldPod \<and> \<not> hasNetworkStatus newPod then False
      else \<not> el_LabelsEqual lib (om_Labels oldPod) (om_Labels newPod) \<or>
           gomap_str (om_Annotations oldPod) NetworkStatusAnnot \<noteq> gomap_str (om_Annotations newPod) NetworkStatusAnnot \<or>
           isPodReady oldPod \<noteq> isPodReady newPod \<or>
           (om_DeletionTimestamp oldPod = None) \<noteq> (om_DeletionTimestamp newPod = None) \<or>
           pod_Phase oldPod \<noteq> pod_Phase newPod \<or> pod_NodeName oldPod \<noteq> pod_NodeName newPod)"

definition mapOwnedToRequests :: "'a object_meta_scheme \<Rightarrow> nsname list" where
  "mapOwnedToRequests obj = (case OwnerKeyFromLabels (om_Labels obj) of None \<Rightarrow> [] | Some key \<Rightarrow> [key])"


section \<open>What the pods contribute\<close>

definition ip_endpoints :: "Pod \<Rightarrow> string \<Rightarrow> string \<Rightarrow> Endpoint list" where
  "ip_endpoints pod t ip =
     (case parseAddr ip of
        None \<Rightarrow> []
      | Some a \<Rightarrow> if t = (if addr_Is4 a then AddressTypeIPv4 else AddressTypeIPv6) then [podEndpoint pod a] else [])"

definition pod_endpoints :: "es_lib \<Rightarrow> string \<Rightarrow> Pod \<Rightarrow> Endpoint list" where
  "pod_endpoints lib t pod =
     (if pod_Phase pod = PodSucceeded \<or> pod_Phase pod = PodFailed then []
      else (case LoomNetworkStatus lib pod of
              None \<Rightarrow> [] | Some status \<Rightarrow> concat (map (ip_endpoints pod t) (net_IPs status))))"

lemma foldl_add_ip: "foldl (add_ip pod) e ips t = e t @ concat (map (ip_endpoints pod t) ips)"
proof (induction ips arbitrary: e)
  case (Cons ip ips)
  have "add_ip pod e ip t = e t @ ip_endpoints pod t ip"
    by (auto simp: add_ip_def ip_endpoints_def Let_def split: option.splits)
  with Cons show ?case by simp
qed simp

lemma foldl_add_pod: "foldl (add_pod lib) e pods t = e t @ concat (map (pod_endpoints lib t) pods)"
proof (induction pods arbitrary: e)
  case (Cons pod pods)
  have "add_pod lib e pod t = e t @ pod_endpoints lib t pod"
    by (auto simp: add_pod_def pod_endpoints_def foldl_add_ip split: option.splits)
  with Cons show ?case by simp
qed simp

lemma desired_eq:
  "desiredEndpointSlices lib s k pods =
     map (\<lambda>t. (sliceName (om_Name k) t, new_slice s k t (concat (map (pod_endpoints lib t) pods))))
       (filter (\<lambda>t. concat (map (pod_endpoints lib t) pods) \<noteq> []) [AddressTypeIPv4, AddressTypeIPv6])"
  unfolding desiredEndpointSlices_def Let_def foldl_add_pod by simp

lemma sliceName_inj [simp]: "sliceName n AddressTypeIPv4 \<noteq> sliceName n AddressTypeIPv6"
  "sliceName n AddressTypeIPv6 \<noteq> sliceName n AddressTypeIPv4"
  by (simp_all add: sliceName_def)

lemma desired_distinct: "distinct (map fst (desiredEndpointSlices lib s k pods))"
  by (simp add: desired_eq)

interpretation endpoint_order: less_interface endpoint_less
proof (unfold_locales, goal_cases)
  case (1 x y)
  then show ?case unfolding endpoint_less_def using str_less_trans str_less_irrefl by blast
next
  case (2 x y z)
  then show ?case unfolding endpoint_less_def using str_less_trans str_less_total by metis
qed

section \<open>The slices in the store\<close>

text \<open>
  The API server as a store of slices: a list returns the stored slices with the given labels, a
  deletion that succeeds or finds nothing leaves none, \<open>CreateOrPatch\<close> stores the mutated object or
  nothing; \<open>SetControllerReference\<close> touches the owner references only.
\<close>

record es_world = svc_world +
  ew_slices :: "nsname \<rightharpoonup> Slice"

definition has_labels :: "Slice \<Rightarrow> (string \<times> string) list \<Rightarrow> bool" where
  "has_labels s ls \<longleftrightarrow> (\<forall>(key, v) \<in> set ls. gomap_get (om_Labels s) key = Some v)"

definition same_slice :: "Slice \<Rightarrow> Slice \<Rightarrow> bool" where
  "same_slice s s1 \<longleftrightarrow> meta_key s = meta_key s1 \<and> om_Labels s = om_Labels s1 \<and>
     es_AddressType s = es_AddressType s1 \<and> es_Ports s = es_Ports s1 \<and> es_Endpoints s = es_Endpoints s1"

definition slice_patched :: "es_world \<Rightarrow> nsname \<Rightarrow> (Slice \<Rightarrow> go_error + Slice) \<Rightarrow> (go_error + Slice) \<times> es_world \<Rightarrow> bool" where
  "slice_patched w key f answer \<longleftrightarrow>
     (case answer of
        (Inl _, w') \<Rightarrow> ew_slices w' = ew_slices w
      | (Inr s, w') \<Rightarrow> ew_slices w' = (ew_slices w)(key \<mapsto> s) \<and>
          (\<exists>s0 s1. meta_key s0 = key \<and> (ew_slices w key = None \<or> ew_slices w key = Some s0) \<and>
             f s0 = Inr s1 \<and> same_slice s s1))"

definition es_api :: "es_lib \<Rightarrow> es_world es_client \<Rightarrow> bool" where
  "es_api lib cl \<longleftrightarrow>
     (\<forall>w ns ls xs. ec_ListSlices cl w ns ls = Inr xs \<longrightarrow>
        (\<forall>s. s \<in> set xs \<longleftrightarrow> ew_slices w (meta_key s) = Some s \<and> om_Namespace s = ns \<and> has_labels s ls)) \<and>
     (\<forall>w s r w'. ec_DeleteSlice cl w s = (r, w') \<longrightarrow>
        ew_slices w' = (if \<forall>e. r = Some e \<longrightarrow> IsNotFound e then (ew_slices w)(meta_key s := None) else ew_slices w)) \<and>
     (\<forall>w key f. slice_patched w key f (ec_CreateOrPatchSlice cl w key f)) \<and>
     (\<forall>k s s'. el_SetControllerReference lib k s = Inr s' \<longrightarrow> (\<exists>refs. s' = s\<lparr>om_OwnerReferences := refs\<rparr>)) \<and>
     (\<forall>xs. mset (el_order lib xs) = mset xs)"

lemma es_apiD:
  assumes "es_api lib cl"
  shows "ec_ListSlices cl w ns ls = Inr xs \<Longrightarrow>
      s \<in> set xs \<longleftrightarrow> ew_slices w (meta_key s) = Some s \<and> om_Namespace s = ns \<and> has_labels s ls"
    and "ec_DeleteSlice cl w s = (r, w') \<Longrightarrow>
      ew_slices w' = (if \<forall>e. r = Some e \<longrightarrow> IsNotFound e then (ew_slices w)(meta_key s := None) else ew_slices w)"
    and "slice_patched w key f (ec_CreateOrPatchSlice cl w key f)"
    and "el_SetControllerReference lib k s = Inr s' \<Longrightarrow> \<exists>refs. s' = s\<lparr>om_OwnerReferences := refs\<rparr>"
    and "mset (el_order lib ds) = mset ds"
  using assms unfolding es_api_def by blast+

lemma delete_stale_result:
  assumes "es_api lib cl" "delete_stale cl desired ss w = (None, w')"
  shows "ew_slices w' key = (if \<exists>s \<in> set ss. om_Name s \<notin> set desired \<and> meta_key s = key then None else ew_slices w key)"
  using assms(2)
proof (induction ss arbitrary: w)
  case Nil
  then show ?case by simp
next
  case (Cons s ss)
  show ?case
  proof (cases "om_Name s \<in> set desired")
    case True
    with Cons show ?thesis by auto
  next
    case False
    obtain r w1 where d: "ec_DeleteSlice cl w s = (r, w1)" by fastforce
    have r: "\<forall>e. r = Some e \<longrightarrow> IsNotFound e" and rest: "delete_stale cl desired ss w1 = (None, w')"
      using Cons.prems False d by (auto split: option.splits if_splits)
    have "ew_slices w1 = (ew_slices w)(meta_key s := None)" using es_apiD(2) [OF assms(1) d] r by simp
    with Cons.IH [OF rest] False show ?thesis by auto
  qed
qed

definition carries :: "Slice \<Rightarrow> Slice \<Rightarrow> bool" where
  "carries s want \<longleftrightarrow> es_AddressType s = es_AddressType want \<and> es_Ports s = es_Ports want \<and>
     es_Endpoints s = es_Endpoints want \<and> (\<forall>l. om_Labels want = Some l \<and> distinct (map fst l) \<longrightarrow> has_labels s l)"

lemma foldl_kvs_put:
  "distinct (map fst l) \<Longrightarrow> map_of (foldl (\<lambda>l (key, v). kvs_put key v l) m l) key =
     (case map_of l key of None \<Rightarrow> map_of m key | Some v \<Rightarrow> Some v)"
proof (induction l arbitrary: m)
  case (Cons p l)
  then show ?case by (cases p) (auto split: option.splits simp: map_of_eq_None_iff [symmetric])
qed simp

lemma mutate_slice_carries:
  assumes "es_api lib cl" "mutate_slice lib k want s0 = Inr s1" "same_slice s s1"
  shows "carries s want"
proof -
  obtain refs where s1: "s1 = (s0\<lparr>om_Labels := Some (foldl (\<lambda>l (key, v). kvs_put key v l) (case om_Labels s0 of None \<Rightarrow> [] | Some l \<Rightarrow> l)
        (case om_Labels want of None \<Rightarrow> [] | Some l \<Rightarrow> l)),
      es_AddressType := es_AddressType want, es_Ports := es_Ports want, es_Endpoints := es_Endpoints want\<rparr>)\<lparr>om_OwnerReferences := refs\<rparr>"
    using es_apiD(4) [OF assms(1)] assms(2) unfolding mutate_slice_def by blast
  show ?thesis
    using assms(3) unfolding s1 same_slice_def carries_def has_labels_def
    by (auto simp: gomap_get_def foldl_kvs_put split: option.splits)
qed

lemma ensure_slices_result:
  assumes "es_api lib cl" "ensure_slices lib cl k ds w = (None, w')" "distinct (map fst ds)"
  shows "(\<forall>(name, want) \<in> set ds. \<exists>s. ew_slices w' (ServiceTargetNamespace, name) = Some s \<and> carries s want) \<and>
    (\<forall>key. key \<notin> (\<lambda>d. (ServiceTargetNamespace, fst d)) ` set ds \<longrightarrow> ew_slices w' key = ew_slices w key)"
  using assms(2,3)
proof (induction ds arbitrary: w)
  case Nil
  then show ?case by simp
next
  case (Cons d ds)
  obtain name want where d: "d = (name, want)" by fastforce
  let ?key = "(ServiceTargetNamespace, name)"
  obtain r w1 where cp: "ec_CreateOrPatchSlice cl w ?key (mutate_slice lib k want) = (r, w1)" by fastforce
  with Cons.prems d obtain s where r: "r = Inr s" and rest: "ensure_slices lib cl k ds w1 = (None, w')"
    by (auto split: sum.splits)
  have "slice_patched w ?key (mutate_slice lib k want) (r, w1)" using es_apiD(3) [OF assms(1)] cp by metis
  then obtain s0 s1 where s: "ew_slices w1 = (ew_slices w)(?key \<mapsto> s)" "mutate_slice lib k want s0 = Inr s1" "same_slice s s1"
    using r by (auto simp: slice_patched_def)
  have name: "name \<notin> fst ` set ds" using Cons.prems(2) d by simp
  then have key: "?key \<notin> (\<lambda>d. (ServiceTargetNamespace, fst d)) ` set ds" by auto
  have IH: "\<forall>(name, want) \<in> set ds. \<exists>s. ew_slices w' (ServiceTargetNamespace, name) = Some s \<and> carries s want"
    "\<And>key. key \<notin> (\<lambda>d. (ServiceTargetNamespace, fst d)) ` set ds \<Longrightarrow> ew_slices w' key = ew_slices w1 key"
    using Cons.IH [OF rest] Cons.prems(2) by (auto simp: d)
  have "ew_slices w' ?key = Some s" using IH(2) [OF key] s(1) by simp
  moreover have "carries s want" using mutate_slice_carries [OF assms(1) s(2,3)] .
  ultimately show ?case using IH s(1) by (auto simp: d)
qed

lemma desired_labels:
  "(name, want) \<in> set (desiredEndpointSlices lib s k pods) \<Longrightarrow>
   om_Labels want = Some (managedSliceLabels s k) \<and> distinct (map fst (managedSliceLabels s k))"
  by (auto simp: desired_eq new_slice_def managedSliceLabels_def OwnerLabels_def)

lemma publish_slices_result:
  assumes "es_api lib cl" "publish_slices lib cl s k pods w = (Inr Done, w')"
    and "\<forall>key x. ew_slices w key = Some x \<longrightarrow> meta_key x = key"
  defines "desired \<equiv> desiredEndpointSlices lib s k pods" and "labels \<equiv> managedSliceLabels s k"
  shows "(\<forall>(name, want) \<in> set desired. \<exists>x. ew_slices w' (ServiceTargetNamespace, name) = Some x \<and>
      carries x want \<and> has_labels x labels)"
    and "ew_slices w' (ServiceTargetNamespace, name) = Some x \<Longrightarrow> has_labels x labels \<Longrightarrow> name \<in> fst ` set desired"
    and "key \<notin> (\<lambda>d. (ServiceTargetNamespace, fst d)) ` set desired \<Longrightarrow>
      \<not> (\<exists>x. ew_slices w key = Some x \<and> fst key = ServiceTargetNamespace \<and> has_labels x labels) \<Longrightarrow>
      ew_slices w' key = ew_slices w key"
proof -
  obtain existing where ex: "ec_ListSlices cl w ServiceTargetNamespace labels = Inr existing"
    using assms(2) by (auto simp: publish_slices_def labels_def Let_def split: sum.splits)
  then obtain w1 where del: "delete_stale cl (map fst desired) existing w = (None, w1)"
      and ens: "ensure_slices lib cl k (el_order lib desired) w1 = (None, w')"
    using assms(2) by (auto simp: publish_slices_def labels_def desired_def Let_def split: prod.splits option.splits)
  have perm: "mset (el_order lib desired) = mset desired" using es_apiD(5) [OF assms(1)] .
  then have set: "set (el_order lib desired) = set desired" by (metis set_mset_mset)
  have "mset (map fst (el_order lib desired)) = mset (map fst desired)" using perm by simp
  then have "distinct (map fst (el_order lib desired))"
    using desired_distinct [of lib s k pods] mset_eq_imp_distinct_iff unfolding desired_def by blast
  note E = ensure_slices_result [OF assms(1) ens this, unfolded set] and D = delete_stale_result [OF assms(1) del]
  have lab: "om_Labels want = Some labels \<and> distinct (map fst labels)" if "(name, want) \<in> set desired" for name want
    using that desired_labels unfolding desired_def labels_def by blast
  show "\<forall>(name, want) \<in> set desired. \<exists>x. ew_slices w' (ServiceTargetNamespace, name) = Some x \<and>
      carries x want \<and> has_labels x labels"
    using E lab by (fastforce simp: carries_def)
  have listed: "x \<in> set existing \<longleftrightarrow> ew_slices w (meta_key x) = Some x \<and> om_Namespace x = ServiceTargetNamespace \<and> has_labels x labels" for x
    using es_apiD(1) [OF assms(1) ex] .
  show "name \<in> fst ` set desired"
    if st: "ew_slices w' (ServiceTargetNamespace, name) = Some x" "has_labels x labels"
  proof (rule ccontr)
    assume no: "name \<notin> fst ` set desired"
    then have "(ServiceTargetNamespace, name) \<notin> (\<lambda>d. (ServiceTargetNamespace, fst d)) ` set desired" by auto
    then have "ew_slices w1 (ServiceTargetNamespace, name) = Some x" using conjunct2 [OF E] st(1) by metis
    then have "ew_slices w (ServiceTargetNamespace, name) = Some x"
      and nd: "\<not> (\<exists>s \<in> set existing. om_Name s \<notin> fst ` set desired \<and> meta_key s = (ServiceTargetNamespace, name))"
      unfolding D by (auto split: if_splits)
    then have "x \<in> set existing" "meta_key x = (ServiceTargetNamespace, name)"
      using listed assms(3) st(2) by (auto simp: meta_key_def)
    with nd no show False by (auto simp: meta_key_def)
  qed
  show "ew_slices w' key = ew_slices w key"
    if "key \<notin> (\<lambda>d. (ServiceTargetNamespace, fst d)) ` set desired"
      "\<not> (\<exists>x. ew_slices w key = Some x \<and> fst key = ServiceTargetNamespace \<and> has_labels x labels)"
  proof -
    have "ew_slices w' key = ew_slices w1 key" using conjunct2 [OF E] that(1) by metis
    moreover have "\<not> (\<exists>x \<in> set existing. om_Name x \<notin> set (map fst desired) \<and> meta_key x = key)"
      using that(2) listed by (auto simp: meta_key_def)
    ultimately show ?thesis using D [of key] by (simp only: if_False)
  qed
qed

section \<open>Events that may be ignored\<close>

text \<open>
  Two versions of one pod, and what a service sees of a pod: whether its selector matches, and the
  endpoints the pod contributes.
\<close>

definition same_pod :: "Pod \<Rightarrow> Pod \<Rightarrow> bool" where
  "same_pod p q \<longleftrightarrow> meta_key p = meta_key q \<and> om_UID p = om_UID q"

lemma no_status_no_endpoints: "\<not> hasNetworkStatus pod \<Longrightarrow> pod_endpoints lib t pod = []"
  by (simp add: hasNetworkStatus_def pod_endpoints_def LoomNetworkStatus_def)

lemma LoomNetworkStatus_str:
  "gomap_str (om_Annotations p) NetworkStatusAnnot = gomap_str (om_Annotations q) NetworkStatusAnnot \<Longrightarrow>
   LoomNetworkStatus lib p = LoomNetworkStatus lib q"
  by (auto simp: gomap_str_def LoomNetworkStatus_def split: option.splits)

lemma ignored_update_same:
  assumes "same_pod p q" "\<not> podPredicate lib (UpdateEvent p q)"
  shows "pod_endpoints lib t p = pod_endpoints lib t q"
proof (cases "hasNetworkStatus p \<or> hasNetworkStatus q")
  case False
  then show ?thesis by (simp add: no_status_no_endpoints)
next
  case True
  then have ann: "gomap_str (om_Annotations p) NetworkStatusAnnot = gomap_str (om_Annotations q) NetworkStatusAnnot"
    and same: "isPodReady p = isPodReady q" "(om_DeletionTimestamp p = None) = (om_DeletionTimestamp q = None)"
      "pod_Phase p = pod_Phase q" "pod_NodeName p = pod_NodeName q"
    using assms(2) by (auto split: if_splits)
  have "podEndpoint p a = podEndpoint q a" for a
    using same assms(1) by (simp add: podEndpoint_def same_pod_def meta_key_def Let_def)
  then have "ip_endpoints p t = ip_endpoints q t" by (intro ext) (auto simp: ip_endpoints_def split: option.splits)
  with same LoomNetworkStatus_str [OF ann] show ?thesis by (auto simp: pod_endpoints_def split: option.splits)
qed

section \<open>Examples\<close>

definition ex_pod :: "string \<Rightarrow> string \<Rightarrow> Pod" where
  "ex_pod name net =
     \<lparr>om_Name = name, om_GenerateName = '''', om_Namespace = ''ns'', om_UID = name, om_Generation = 1,
      om_Labels = Some [(''app'', ''web'')], om_Annotations = Some [(NetworkStatusAnnot, net)], om_Finalizers = [],
      om_OwnerReferences = [], om_CreationTimestamp = 1, om_DeletionTimestamp = None,
      pod_Phase = ''Running'', pod_Conditions = [(PodReady, ConditionTrue)], pod_NodeName = ''node1''\<rparr>"

definition ex_labels_eq :: "strmap \<Rightarrow> strmap \<Rightarrow> bool" where
  "ex_labels_eq a b =
     (let keys = (\<lambda>m. case m of None \<Rightarrow> [] | Some l \<Rightarrow> map fst l)
      in list_all (\<lambda>key. gomap_get a key = gomap_get b key) (keys a @ keys b))"

lemma ex_labels_eq_iff: "ex_labels_eq a b \<longleftrightarrow> gomap_get a = gomap_get b"
proof -
  have none: "gomap_get m key = None" if "key \<notin> set (case m of None \<Rightarrow> [] | Some l \<Rightarrow> map fst l)" for m key
    using that by (auto simp: gomap_get_def map_of_eq_None_iff split: option.splits)
  show ?thesis unfolding ex_labels_eq_def Let_def list_all_iff fun_eq_iff using none by (metis Un_iff set_append)
qed

definition ex_es_lib :: es_lib where
  "ex_es_lib = svc_lib.extend ex_svc_lib
     \<lparr>el_UnmarshalList = (\<lambda>s. Some [\<lparr>net_Name = ''kube/loom-cni'', net_IPs = [s]\<rparr>]), el_UnmarshalOne = (\<lambda>_. None),
      el_Matches = (\<lambda>a b. True), el_LabelsEqual = ex_labels_eq,
      el_SetControllerReference = (\<lambda>k s. Inr s), el_order = id\<rparr>"

definition ex_blank_slice :: "nsname \<Rightarrow> Slice" where
  "ex_blank_slice key =
     \<lparr>om_Name = snd key, om_GenerateName = '''', om_Namespace = fst key, om_UID = '''', om_Generation = 0,
      om_Labels = None, om_Annotations = None, om_Finalizers = [], om_OwnerReferences = [],
      om_CreationTimestamp = 0, om_DeletionTimestamp = None,
      es_AddressType = '''', es_Endpoints = [], es_Ports = []\<rparr>"

definition ex_es_client :: "es_world es_client" where
  "ex_es_client = svc_client.extend
     \<lparr>sc_GetService = (\<lambda>w k. Inr (ex_meta_service ''web'')), sc_ListServices = (\<lambda>w. Inr []),
      sc_UpdateService = (\<lambda>w s. (Inr s, w)), sc_StatusPatch = (\<lambda>w _ s. (Inr s, w)),
      sc_GetKube = (\<lambda>w k. Inr ex_kube_web), sc_ListKube = (\<lambda>w _ _. Inr []),
      sc_DeleteKube = (\<lambda>w k uid. (None, w)), sc_CreateOrPatchKube = (\<lambda>w key f. (Inl (ApiError Conflict), w))\<rparr>
     \<lparr>ec_ListPods = (\<lambda>w ns sel. Inr [ex_pod ''p1'' ''10.0.1.9'', ex_pod ''p2'' ''10.0.1.3/24'']),
      ec_ListServicesIn = (\<lambda>w ns. Inr [ex_meta_service ''web'']),
      ec_ListSlices = (\<lambda>w ns ls. if ew_slices w = Map.empty then Inr [] else Inl (ApiError Conflict)),
      ec_DeleteSlice = (\<lambda>w s. (None, w\<lparr>ew_slices := (ew_slices w)(meta_key s := None)\<rparr>)),
      ec_CreateOrPatchSlice = (\<lambda>w key f.
        let s0 = (case ew_slices w key of Some s \<Rightarrow> s | None \<Rightarrow> ex_blank_slice key)
        in if meta_key s0 \<noteq> key then (Inl (ApiError Conflict), w)
           else (case f s0 of Inl err \<Rightarrow> (Inl err, w) | Inr s \<Rightarrow> (Inr s, w\<lparr>ew_slices := (ew_slices w)(key \<mapsto> s)\<rparr>)))\<rparr>"

lemma ex_es_api: "es_api ex_es_lib ex_es_client"
proof -
  have "slice_patched w key f (ec_CreateOrPatchSlice ex_es_client w key f)" for w key f
  proof -
    define s0 where "s0 = (case ew_slices w key of Some s \<Rightarrow> s | None \<Rightarrow> ex_blank_slice key)"
    have "ew_slices w key = None \<or> ew_slices w key = Some s0" by (auto simp: s0_def split: option.splits)
    moreover have "ec_CreateOrPatchSlice ex_es_client w key f =
        (if meta_key s0 \<noteq> key then (Inl (ApiError Conflict), w)
         else (case f s0 of Inl err \<Rightarrow> (Inl err, w) | Inr s \<Rightarrow> (Inr s, w\<lparr>ew_slices := (ew_slices w)(key \<mapsto> s)\<rparr>)))"
      by (simp add: ex_es_client_def svc_client.defs s0_def)
    ultimately show ?thesis
      by (cases "f s0") (auto simp: slice_patched_def same_slice_def simp del: split_paired_Ex)
  qed
  moreover have "\<exists>refs. s = s\<lparr>om_OwnerReferences := refs\<rparr>" for s :: Slice
    by (rule exI [of _ "om_OwnerReferences s"]) simp
  ultimately show ?thesis
    unfolding es_api_def by (intro conjI) (auto simp: ex_es_client_def ex_es_lib_def svc_client.defs svc_lib.defs)
qed

definition ex_es_world :: es_world where
  "ex_es_world = \<lparr>sw_services = Map.empty, sw_kube = Map.empty, ew_slices = Map.empty\<rparr>"

lemma ex_desired:
  "map (\<lambda>(n, s). (n, concat (map ep_Addresses (es_Endpoints s))))
     (desiredEndpointSlices ex_es_lib (ex_meta_service ''web'') ex_kube_web [ex_pod ''p1'' ''10.0.1.9'', ex_pod ''p2'' ''10.0.1.3/24'']) =
   [(''web--ns-ipv4'', [''10.0.1.3'', ''10.0.1.9''])]"
  by code_simp

section \<open>Properties\<close>

text \<open>
  C20: the desired slices of a service are exact. A family has a slice, under the name the
  Kubernetes service gives it, exactly when some selected pod that has not terminated publishes an
  address of that family in its loom network; its endpoints are those of all such pods, once per
  address, in the order of the addresses, with the ports of the service.
\<close>

theorem desired_slices_exact:
  assumes "t \<in> {AddressTypeIPv4, AddressTypeIPv6}"
  shows "case map_of (desiredEndpointSlices lib s k pods) (sliceName (om_Name k) t) of
      None \<Rightarrow> \<forall>pod \<in> set pods. pod_endpoints lib t pod = []
    | Some x \<Rightarrow> mset (es_Endpoints x) = (\<Sum>pod \<in># mset pods. mset (pod_endpoints lib t pod)) \<and> es_Endpoints x \<noteq> [] \<and>
        sorted_wrt (\<lambda>e1 e2. \<not> str_less (ep_Addresses e2 ! 0) (ep_Addresses e1 ! 0)) (es_Endpoints x) \<and>
        es_AddressType x = t \<and> es_Ports x = endpointPorts s \<and> om_Labels x = Some (managedSliceLabels s k)"
proof -
  let ?eps = "concat (map (pod_endpoints lib t) pods)"
  have lookup: "map_of (desiredEndpointSlices lib s k pods) (sliceName (om_Name k) t) =
      (if ?eps = [] then None else Some (new_slice s k t ?eps))"
    using assms by (auto simp: desired_eq simp del: concat_eq_Nil_conv)
  have "mset ?eps = (\<Sum>pod \<in># mset pods. mset (pod_endpoints lib t pod))" by (induction pods) auto
  moreover have "sorted_wrt (\<lambda>e1 e2. \<not> endpoint_less e2 e1) (go_sort endpoint_less ?eps)"
    by (rule endpoint_order.sorted_go_sort)
  moreover have "go_sort endpoint_less ?eps = [] \<longleftrightarrow> ?eps = []" by (metis length_0_conv length_go_sort)
  ultimately show ?thesis
    unfolding lookup by (auto simp: new_slice_def endpoint_less_def simp del: concat_eq_Nil_conv)
qed

theorem desired_slices_exact_witness:
  "case map_of (desiredEndpointSlices ex_es_lib (ex_meta_service ''web'') ex_kube_web [ex_pod ''p1'' ''10.0.1.9''])
       (sliceName (om_Name ex_kube_web) AddressTypeIPv4) of
     None \<Rightarrow> \<forall>pod \<in> set [ex_pod ''p1'' ''10.0.1.9'']. pod_endpoints ex_es_lib AddressTypeIPv4 pod = []
   | Some x \<Rightarrow> es_Endpoints x \<noteq> [] \<and> es_AddressType x = AddressTypeIPv4"
  using desired_slices_exact [where t = AddressTypeIPv4 and lib = ex_es_lib and s = "ex_meta_service ''web''"
      and k = ex_kube_web and pods = "[ex_pod ''p1'' ''10.0.1.9'']"]
  by (auto split: option.splits)

text \<open>
  C21: when a reconcile succeeds for a live service whose Kubernetes service exists and is its own,
  the store holds every desired slice with its endpoints, ports and labels; no other slice with the
  labels of the service is left; and every slice that is neither desired nor labelled so is
  untouched.
\<close>

theorem endpoint_slices_converge:
  assumes "es_api lib cl" "\<forall>key x. ew_slices w key = Some x \<longrightarrow> meta_key x = key"
    and "sc_GetService cl w req = Inr s" "time_ptr_IsZero (om_DeletionTimestamp s)"
    and "sc_GetKube cl w (ServiceTargetNamespace, KubeServiceName (svc_lib.truncate lib) (om_Namespace s) (om_Name s)) = Inr k"
    and "IsOwnedBy (om_Labels k) s" "selectPods cl s w = Inr pods"
    and "Reconcile lib cl req w = (Inr Done, w')"
  shows "let desired = desiredEndpointSlices lib s k pods; labels = managedSliceLabels s k in
    (\<forall>(name, want) \<in> set desired. \<exists>x. ew_slices w' (ServiceTargetNamespace, name) = Some x \<and> carries x want \<and> has_labels x labels) \<and>
    (\<forall>name x. ew_slices w' (ServiceTargetNamespace, name) = Some x \<and> has_labels x labels \<longrightarrow> name \<in> fst ` set desired) \<and>
    (\<forall>key. key \<notin> (\<lambda>d. (ServiceTargetNamespace, fst d)) ` set desired \<longrightarrow>
       \<not> (\<exists>x. ew_slices w key = Some x \<and> fst key = ServiceTargetNamespace \<and> has_labels x labels) \<longrightarrow>
       ew_slices w' key = ew_slices w key)"
proof -
  have "publish_slices lib cl s k pods w = (Inr Done, w')" using assms(3-8) by (simp add: Reconcile_def)
  note R = publish_slices_result [OF assms(1) this assms(2)]
  show ?thesis unfolding Let_def by (intro conjI allI impI; (elim conjE)?) (fact R(1), rule R(2), assumption+, rule R(3), assumption+)
qed

theorem endpoint_slices_converge_witness:
  "\<exists>w' x. Reconcile ex_es_lib ex_es_client (''ns'', ''web'') ex_es_world = (Inr Done, w') \<and>
     ew_slices w' (ServiceTargetNamespace, ''web--ns-ipv4'') = Some x \<and>
     concat (map ep_Addresses (es_Endpoints x)) = [''10.0.1.3'', ''10.0.1.9'']"
proof -
  let ?s = "ex_meta_service ''web''" and ?pods = "[ex_pod ''p1'' ''10.0.1.9'', ex_pod ''p2'' ''10.0.1.3/24'']"
  obtain want where want: "desiredEndpointSlices ex_es_lib ?s ex_kube_web ?pods = [(''web--ns-ipv4'', want)]"
      "concat (map ep_Addresses (es_Endpoints want)) = [''10.0.1.3'', ''10.0.1.9'']"
    using ex_desired by (auto simp: map_eq_Cons_conv)
  have h: "time_ptr_IsZero (om_DeletionTimestamp ?s)" "IsOwnedBy (om_Labels ex_kube_web) ?s"
      "sc_GetService ex_es_client ex_es_world req = Inr ?s" "sc_GetKube ex_es_client ex_es_world key = Inr ex_kube_web"
      "selectPods ex_es_client ?s ex_es_world = Inr ?pods"
      "\<forall>key x. ew_slices ex_es_world key = Some x \<longrightarrow> meta_key x = key" for req key
    by (simp_all add: ex_meta_service_def ex_kube_web_def ex_es_client_def svc_client.defs ex_es_world_def selectPods_def
        time_ptr_IsZero_def IsOwnedBy_def OwnerKeyFromLabels_def gomap_get_def)
  have "\<exists>w'. Reconcile ex_es_lib ex_es_client (''ns'', ''web'') ex_es_world = (Inr Done, w')"
    using want h
    by (simp add: Reconcile_def publish_slices_def)
       (simp add: ex_es_client_def ex_es_lib_def svc_client.defs svc_lib.defs ex_es_world_def mutate_slice_def
        ex_blank_slice_def meta_key_def)
  then obtain w' where run: "Reconcile ex_es_lib ex_es_client (''ns'', ''web'') ex_es_world = (Inr Done, w')" by blast
  note c = endpoint_slices_converge [OF ex_es_api h(6) h(3) h(1) h(4) h(2) h(5) run, unfolded Let_def want(1)]
  from conjunct1 [OF c] obtain x where "ew_slices w' (ServiceTargetNamespace, ''web--ns-ipv4'') = Some x" "carries x want"
    by auto
  with run want(2) show ?thesis by (intro exI [of _ w'] exI [of _ x]) (simp add: carries_def)
qed

text \<open>
  The event filter loses nothing. An update of a pod that it filters out leaves what the pod
  contributes to every family unchanged, and the labels too unless the pod contributes nothing
  before and after; a creation or deletion it filters out is of a pod that contributes nothing.
  So the desired slices of every service are what they were.
\<close>

theorem ignored_pod_events_are_irrelevant:
  assumes "\<forall>a b. el_LabelsEqual lib a b \<longleftrightarrow> gomap_get a = gomap_get b"
    and "\<not> podPredicate lib e"
  shows "case e of
      UpdateEvent p q \<Rightarrow> same_pod p q \<longrightarrow>
        (\<forall>t. pod_endpoints lib t p = pod_endpoints lib t q) \<and>
        (gomap_get (om_Labels p) = gomap_get (om_Labels q) \<or> (\<forall>t. pod_endpoints lib t p = [])) \<and>
        desiredEndpointSlices lib s k (pods1 @ p # pods2) = desiredEndpointSlices lib s k (pods1 @ q # pods2)
    | CreateEvent p \<Rightarrow> desiredEndpointSlices lib s k (pods1 @ p # pods2) = desiredEndpointSlices lib s k (pods1 @ pods2)
    | DeleteEvent p \<Rightarrow> desiredEndpointSlices lib s k (pods1 @ p # pods2) = desiredEndpointSlices lib s k (pods1 @ pods2)
    | GenericEvent p \<Rightarrow> desiredEndpointSlices lib s k (pods1 @ p # pods2) = desiredEndpointSlices lib s k (pods1 @ pods2)"
proof (cases e)
  case (UpdateEvent p q)
  have "gomap_get (om_Labels p) = gomap_get (om_Labels q) \<or> (\<forall>t. pod_endpoints lib t p = [])"
    using assms UpdateEvent no_status_no_endpoints by (auto split: if_splits)
  moreover have "pod_endpoints lib t p = pod_endpoints lib t q" if "same_pod p q" for t
    using ignored_update_same that assms(2) UpdateEvent by blast
  ultimately show ?thesis using UpdateEvent by (cases "same_pod p q") (simp_all add: desired_eq)
qed (use assms(2) in \<open>simp_all add: desired_eq no_status_no_endpoints\<close>)

theorem ignored_pod_events_are_irrelevant_witness:
  "desiredEndpointSlices ex_es_lib (ex_meta_service ''web'') ex_kube_web [ex_pod ''p1'' ''10.0.1.9''] =
   desiredEndpointSlices ex_es_lib (ex_meta_service ''web'') ex_kube_web [(ex_pod ''p1'' ''10.0.1.9'')\<lparr>om_Generation := 2\<rparr>]"
proof -
  let ?p = "ex_pod ''p1'' ''10.0.1.9''"
  have "\<forall>a b. el_LabelsEqual ex_es_lib a b \<longleftrightarrow> gomap_get a = gomap_get b" by (simp add: ex_es_lib_def svc_lib.defs ex_labels_eq_iff)
  moreover have "\<not> podPredicate ex_es_lib (UpdateEvent ?p (?p\<lparr>om_Generation := 2\<rparr>))"
    by (simp add: ex_es_lib_def svc_lib.defs ex_pod_def hasNetworkStatus_def isPodReady_def ex_labels_eq_iff)
  ultimately show ?thesis
    using ignored_pod_events_are_irrelevant [of ex_es_lib "UpdateEvent ?p (?p\<lparr>om_Generation := 2\<rparr>)"
        "ex_meta_service ''web''" ex_kube_web "[]" "[]"]
    by (simp add: same_pod_def meta_key_def ex_pod_def)
qed
end
