(* ===== verification/P4Tables.thy ===== *)
theory P4Tables
  imports Api Netip_Parse
begin

text \<open>
  The translation of a \<open>NetworkFunctionConfig\<close> into P4Runtime table entries: the resource types
  (\<open>src/api/core/v1alpha1/networkfunctionconfig_types.go\<close>), the metadata the driver extracts from a
  compiled program (\<open>src/targets/bmv2/api\<close>) and the encoders (\<open>src/targets/bmv2/pkg/p4rutils\<close>).
  The \<open>P4Info\<close> and \<open>TableEntry\<close> messages are protobuf data: records of the fields the code reads
  and writes. Bytes are \<open>8 word\<close>; \<open>net\<close>, \<open>encoding/hex\<close> and \<open>math/big\<close> are modelled as far as they are
  used. A slice-bounds panic is the error \<open>slice_panic\<close>, which is what the reconciler's recover makes of it.
\<close>

type_synonym bytes = "8 word list"

abbreviation slice_panic :: go_error where "slice_panic \<equiv> TypedError ''panic: slice bounds out of range''"

section \<open>The configuration resource\<close>

record ParametrizedValue =
  pv_RawHex :: "string option"
  pv_Int :: "string option"
  pv_IPv4Address :: "string option"
  pv_IPv6Address :: "string option"
  pv_MACAddress :: "string option"

record NamedParameter =
  np_Value :: ParametrizedValue
  np_Name :: string

record ActionConfig =
  ac_Name :: string
  ac_Parameters :: "NamedParameter list"

record TernaryValue =
  tv_Value :: ParametrizedValue
  tv_Mask :: string

record LPMValue =
  lv_Value :: ParametrizedValue
  lv_PrefixLen :: string

record RangeValue =
  rv_Low :: ParametrizedValue
  rv_High :: ParametrizedValue

record MatchField =
  mf_Name :: string
  mf_Type :: string
  mf_Exact :: "ParametrizedValue option"
  mf_Ternary :: "TernaryValue option"
  mf_LPM :: "LPMValue option"
  mf_Range :: "RangeValue option"
  mf_Optional :: "ParametrizedValue option"

record CfgTableEntry =
  ce_MatchFields :: "MatchField list"
  ce_Action :: ActionConfig

record TableConfig =
  tc_Entries :: "CfgTableEntry list"
  tc_DefaultAction :: "ActionConfig option"

text \<open>
  A Go map of tables is the list of its entries in the order in which one \<open>range\<close> loop visits them.
\<close>

record NetworkFunctionConfig = object_meta +
  nfc_ResourceVersion :: string
  nfc_Tables :: "(string \<times> TableConfig) list"

section \<open>Metadata of the loaded program\<close>

record MatchFieldMetadata =
  mm_FieldID :: int
  mm_FieldName :: string
  mm_MatchType :: string
  mm_Bitwidth :: int

record ActionParamMetadata =
  pm_ParamID :: int
  pm_Name :: string
  pm_Bitwidth :: int

record ActionMetadata =
  am_ActionID :: int
  am_ActionName :: string
  am_Params :: "ActionParamMetadata list"

record TableMetadata =
  tm_TableID :: int
  tm_TableName :: string
  tm_Size :: int
  tm_MatchFields :: "MatchFieldMetadata list"
  tm_Actions :: "ActionMetadata list"

record p4_preamble =
  pre_Id :: int
  pre_Name :: string

text \<open>\<open>None\<close> as the match type is a field whose \<open>match\<close> is not a standard type.\<close>

record p4_match_field =
  pmf_Id :: int
  pmf_Name :: string
  pmf_Bitwidth :: int
  pmf_MatchType :: "string option"

record p4_param =
  pp_Id :: int
  pp_Name :: string
  pp_Bitwidth :: int

record p4_action_info =
  pa_Preamble :: "p4_preamble option"
  pa_Params :: "p4_param list"

record p4_table_info =
  pt_Preamble :: "p4_preamble option"
  pt_MatchFields :: "p4_match_field list"
  pt_ActionRefs :: "int list"
  pt_Size :: int

record P4Info =
  pi_Tables :: "p4_table_info list"
  pi_Actions :: "p4_action_info list"

definition field_metadata :: "p4_match_field \<Rightarrow> MatchFieldMetadata" where
  "field_metadata mf =
     \<lparr>mm_FieldID = pmf_Id mf, mm_FieldName = pmf_Name mf,
      mm_MatchType = (case pmf_MatchType mf of None \<Rightarrow> '''' | Some t \<Rightarrow> t), mm_Bitwidth = pmf_Bitwidth mf\<rparr>"

text \<open>The lookup table of actions; of two actions with the same id the later one is kept.\<close>

definition actionByID :: "P4Info \<Rightarrow> int \<rightharpoonup> (p4_preamble \<times> p4_action_info)" where
  "actionByID info = map_of (rev (List.map_filter (\<lambda>a. case pa_Preamble a of None \<Rightarrow> None | Some pre \<Rightarrow> Some (pre_Id pre, pre, a))
     (pi_Actions info)))"

definition action_metadata :: "p4_preamble \<Rightarrow> p4_action_info \<Rightarrow> ActionMetadata" where
  "action_metadata pre a =
     \<lparr>am_ActionID = pre_Id pre, am_ActionName = pre_Name pre,
      am_Params = map (\<lambda>p. \<lparr>pm_ParamID = pp_Id p, pm_Name = pp_Name p, pm_Bitwidth = pp_Bitwidth p\<rparr>) (pa_Params a)\<rparr>"

definition table_metadata :: "P4Info \<Rightarrow> p4_table_info \<Rightarrow> TableMetadata option" where
  "table_metadata info t =
     (case pt_Preamble t of
        None \<Rightarrow> None
      | Some pre \<Rightarrow> Some
          \<lparr>tm_TableID = pre_Id pre, tm_TableName = pre_Name pre, tm_Size = pt_Size t mod 2 ^ 32,
           tm_MatchFields = map field_metadata (pt_MatchFields t),
           tm_Actions = List.map_filter (\<lambda>r. map_option (\<lambda>(pre, a). action_metadata pre a) (actionByID info r)) (pt_ActionRefs t)\<rparr>)"

text \<open>The argument is the \<open>P4Info\<close> of the program, \<open>None\<close> if the program or its info is nil.\<close>

definition GetTableMetadata :: "P4Info option \<Rightarrow> TableMetadata list" where
  "GetTableMetadata info = (case info of None \<Rightarrow> [] | Some i \<Rightarrow> List.map_filter (table_metadata i) (pi_Tables i))"

section \<open>Table entries\<close>

datatype field_match_type =
    FM_Exact bytes
  | FM_Ternary bytes bytes
  | FM_LPM bytes int
  | FM_Range bytes bytes
  | FM_Optional bytes

record field_match =
  fm_FieldId :: int
  fm_Type :: field_match_type

record p4_action =
  p4a_ActionId :: int
  p4a_Params :: "(int \<times> bytes) list"

record p4_entry =
  pe_TableId :: int
  pe_Match :: "field_match list"
  pe_Action :: p4_action
  pe_Priority :: int
  pe_IsDefaultAction :: bool

section \<open>Values\<close>

definition PadToWidth :: "bytes \<Rightarrow> int \<Rightarrow> go_error + bytes" where
  "PadToWidth b sz =
     (if int (length b) = sz then Inr b
      else if int (length b) > sz then (if sz < 0 then Inl slice_panic else Inr (drop (length b - nat sz) b))
      else Inr (replicate (nat sz - length b) 0 @ b))"

definition TrimPrefix :: "string \<Rightarrow> string \<Rightarrow> string" where
  "TrimPrefix s p = (if take (length p) s = p then drop (length p) s else s)"

text \<open>\<open>hex.DecodeString\<close>.\<close>

fun hex_DecodeString :: "string \<Rightarrow> bytes option" where
  "hex_DecodeString [] = Some []"
| "hex_DecodeString [_] = None"
| "hex_DecodeString (a # b # s) =
     (case (hex_val a, hex_val b, hex_DecodeString s) of
        (Some x, Some y, Some bs) \<Rightarrow> Some (of_nat (16 * x + y) # bs)
      | _ \<Rightarrow> None)"

definition EncodeHexString :: "string \<Rightarrow> int \<Rightarrow> go_error + bytes" where
  "EncodeHexString s0 byteLen =
     (let s1 = TrimPrefix s0 ''0x'';
          s2 = TrimPrefix s1 ''0X'';
          s3 = (if length s2 mod 2 \<noteq> 0 then ''0'' @ s2 else s2)
      in case hex_DecodeString s3 of
           None \<Rightarrow> Inl (Errorf ''invalid hex string'' None)
         | Some b \<Rightarrow> PadToWidth b byteLen)"

text \<open>\<open>big.Int.SetString(s, 10)\<close>, and \<open>Bytes\<close>: the absolute value, big-endian, without leading zeros.\<close>

definition big_SetString :: "string \<Rightarrow> int option" where
  "big_SetString s =
     (case s of
        [] \<Rightarrow> None
      | c # cs \<Rightarrow>
          if c = CHR ''-'' then map_option (\<lambda>n. - int n) (parse_digits cs)
          else if c = CHR ''+'' then map_option int (parse_digits cs)
          else map_option int (parse_digits s))"

fun nat_bytes :: "nat \<Rightarrow> bytes" where
  "nat_bytes n = (if n = 0 then [] else nat_bytes (n div 256) @ [of_nat (n mod 256)])"

declare nat_bytes.simps [simp del]

definition big_Bytes :: "int \<Rightarrow> bytes" where
  "big_Bytes n = nat_bytes (nat (abs n))"

text \<open>\<open>net.ParseIP\<close> gives the 16-byte form or nil, and \<open>To4\<close> the last four bytes of an IPv4 address in it.\<close>

definition net_ParseIP :: "string \<Rightarrow> bytes option" where
  "net_ParseIP s =
     (case ParseAddr s of
        None \<Rightarrow> None
      | Some a \<Rightarrow> if addr_hasZone a then None else Some (addr_As16 a))"

definition ip_To4 :: "bytes \<Rightarrow> bytes option" where
  "ip_To4 b = (if take 12 b = replicate 10 0 @ [0xFF, 0xFF] then Some (drop 12 b) else None)"

text \<open>\<open>net.ParseMAC\<close>: groups of two digits after colons or hyphens, or of four digits after dots.\<close>

definition xtoi2 :: "string \<Rightarrow> char option \<Rightarrow> 8 word option" where
  "xtoi2 s e =
     (if length s > 2 \<and> e \<noteq> Some (s ! 2) then None
      else if length s < 2 then None
      else (case (hex_val (s ! 0), hex_val (s ! 1)) of
              (Some x, Some y) \<Rightarrow> Some (of_nat (16 * x + y))
            | _ \<Rightarrow> None))"

fun opt_list :: "'a option list \<Rightarrow> 'a list option" where
  "opt_list [] = Some []"
| "opt_list (None # _) = None"
| "opt_list (Some x # xs) = map_option ((#) x) (opt_list xs)"

definition ParseMAC :: "string \<Rightarrow> bytes option" where
  "ParseMAC s =
     (if length s < 14 then None
      else if s ! 2 = CHR '':'' \<or> s ! 2 = CHR ''-''
      then (let n = (length s + 1) div 3
            in if (length s + 1) mod 3 \<noteq> 0 \<or> n \<notin> {6, 8, 20} then None
               else opt_list (map (\<lambda>i. xtoi2 (drop (3 * i) s) (Some (s ! 2))) [0..<n]))
      else if s ! 4 = CHR ''.''
      then (let n = 2 * (length s + 1) div 5
            in if (length s + 1) mod 5 \<noteq> 0 \<or> n \<notin> {6, 8, 20} then None
               else opt_list (concat (map (\<lambda>i. [xtoi2 (take 2 (drop (5 * i) s)) None, xtoi2 (drop (5 * i + 2) s) (Some (s ! 4))])
                      [0..<n div 2])))
      else None)"

text \<open>\<open>(bitwidth + 7) / 8\<close> in 32-bit arithmetic, with Go's division.\<close>

definition byte_len :: "int \<Rightarrow> int" where
  "byte_len bitwidth = (let x = i32 (bitwidth + 7) in sgn x * (abs x div 8))"

definition EncodeValue :: "ParametrizedValue \<Rightarrow> int \<Rightarrow> go_error + bytes" where
  "EncodeValue v bitwidth =
     (case pv_RawHex v of
        Some h \<Rightarrow> EncodeHexString h (byte_len bitwidth)
      | None \<Rightarrow>
     case pv_Int v of
        Some s \<Rightarrow> (case big_SetString s of
                    None \<Rightarrow> Inl (Errorf ''invalid integer'' None)
                  | Some n \<Rightarrow> PadToWidth (big_Bytes n) (byte_len bitwidth))
      | None \<Rightarrow>
     case pv_IPv4Address v of
        Some s \<Rightarrow> (case Option.bind (net_ParseIP s) ip_To4 of
                    None \<Rightarrow> Inl (Errorf ''invalid IPv4 address'' None)
                  | Some ip \<Rightarrow> Inr ip)
      | None \<Rightarrow>
     case pv_IPv6Address v of
        Some s \<Rightarrow> (case net_ParseIP s of
                    None \<Rightarrow> Inl (Errorf ''invalid IPv6 address'' None)
                  | Some ip \<Rightarrow> Inr ip)
      | None \<Rightarrow>
     case pv_MACAddress v of
        Some s \<Rightarrow> (case ParseMAC s of
                    None \<Rightarrow> Inl (Errorf ''invalid MAC address'' None)
                  | Some mac \<Rightarrow> Inr mac)
      | None \<Rightarrow> Inl (Errorf ''ParametrizedValue has no value set'' None))"

section \<open>Building entries\<close>

definition last_named :: "('a \<Rightarrow> string) \<Rightarrow> 'a list \<Rightarrow> string \<rightharpoonup> 'a" where
  "last_named nm xs = map_of (rev (map (\<lambda>x. (nm x, x)) xs))"

definition BuildAction :: "ActionConfig \<Rightarrow> ActionMetadata list \<Rightarrow> go_error + p4_action" where
  "BuildAction action actions =
     (case find (\<lambda>a. am_ActionName a = ac_Name action) actions of
        None \<Rightarrow> Inl (Errorf ''action not found in P4 program'' None)
      | Some actionMeta \<Rightarrow>
     case map_err (\<lambda>p. case last_named pm_Name (am_Params actionMeta) (np_Name p) of
              None \<Rightarrow> Inl (Errorf ''param not found in action'' None)
            | Some paramMeta \<Rightarrow>
                (case EncodeValue (np_Value p) (pm_Bitwidth paramMeta) of
                   Inl err \<Rightarrow> Inl (Wrapf ''param'' err)
                 | Inr val \<Rightarrow> Inr (pm_ParamID paramMeta, val))) (ac_Parameters action) of
        Inl err \<Rightarrow> Inl err
      | Inr params \<Rightarrow> Inr \<lparr>p4a_ActionId = am_ActionID actionMeta, p4a_Params = params\<rparr>)"

definition BuildFieldMatch :: "MatchField \<Rightarrow> MatchFieldMetadata \<Rightarrow> go_error + field_match" where
  "BuildFieldMatch mf meta =
     (let ok = (\<lambda>t. Inr \<lparr>fm_FieldId = mm_FieldID meta, fm_Type = t\<rparr>);
          bw = mm_Bitwidth meta;
          byteLen = byte_len bw
      in if mf_Type mf = ''Exact''
         then (case mf_Exact mf of
                 None \<Rightarrow> Inl (Errorf ''missing exact value'' None)
               | Some x \<Rightarrow> (case EncodeValue x bw of Inl err \<Rightarrow> Inl err | Inr val \<Rightarrow> ok (FM_Exact val)))
         else if mf_Type mf = ''Ternary''
         then (case mf_Ternary mf of
                 None \<Rightarrow> Inl (Errorf ''missing ternary value'' None)
               | Some t \<Rightarrow>
                   (case EncodeValue (tv_Value t) bw of Inl err \<Rightarrow> Inl (Wrapf ''value'' err) | Inr val \<Rightarrow>
                    case EncodeHexString (tv_Mask t) byteLen of Inl err \<Rightarrow> Inl (Wrapf ''mask'' err) | Inr msk \<Rightarrow>
                      ok (FM_Ternary val msk)))
         else if mf_Type mf = ''LPM''
         then (case mf_LPM mf of
                 None \<Rightarrow> Inl (Errorf ''missing LPM value'' None)
               | Some l \<Rightarrow>
                   (case EncodeValue (lv_Value l) bw of Inl err \<Rightarrow> Inl err | Inr val \<Rightarrow>
                    case ParseInt64 (lv_PrefixLen l) of
                      None \<Rightarrow> Inl (Errorf ''invalid prefix length'' None)
                    | Some n \<Rightarrow> if in_i32 n then ok (FM_LPM val n) else Inl (Errorf ''invalid prefix length'' None)))
         else if mf_Type mf = ''Range''
         then (case mf_Range mf of
                 None \<Rightarrow> Inl (Errorf ''missing range value'' None)
               | Some r \<Rightarrow>
                   (case EncodeValue (rv_Low r) bw of Inl err \<Rightarrow> Inl (Wrapf ''range low'' err) | Inr low \<Rightarrow>
                    case EncodeValue (rv_High r) bw of Inl err \<Rightarrow> Inl (Wrapf ''range high'' err) | Inr high \<Rightarrow>
                      ok (FM_Range low high)))
         else if mf_Type mf = ''Optional''
         then (case mf_Optional mf of
                 None \<Rightarrow> Inl (Errorf ''missing optional value'' None)
               | Some x \<Rightarrow> (case EncodeValue x bw of Inl err \<Rightarrow> Inl err | Inr val \<Rightarrow> ok (FM_Optional val)))
         else Inl (Errorf ''unsupported match type'' None))"

definition BuildDefaultActionEntry :: "TableMetadata \<Rightarrow> ActionConfig \<Rightarrow> go_error + p4_entry" where
  "BuildDefaultActionEntry meta action =
     (case BuildAction action (tm_Actions meta) of
        Inl err \<Rightarrow> Inl err
      | Inr a \<Rightarrow> Inr \<lparr>pe_TableId = tm_TableID meta, pe_Match = [], pe_Action = a, pe_Priority = 0, pe_IsDefaultAction = True\<rparr>)"

definition build_match :: "TableMetadata \<Rightarrow> MatchField \<Rightarrow> go_error + field_match" where
  "build_match meta mf =
     (case last_named mm_FieldName (tm_MatchFields meta) (mf_Name mf) of
        None \<Rightarrow> Inl (Errorf ''match field not found in table'' None)
      | Some fieldMeta \<Rightarrow>
          (case BuildFieldMatch mf fieldMeta of
             Inl err \<Rightarrow> Inl (Wrapf ''match field'' err)
           | Inr fm \<Rightarrow> Inr fm))"

definition BuildTableEntry :: "TableMetadata \<Rightarrow> CfgTableEntry \<Rightarrow> go_error + p4_entry" where
  "BuildTableEntry meta cfgEntry =
     (case map_err (build_match meta) (ce_MatchFields cfgEntry) of
        Inl err \<Rightarrow> Inl err
      | Inr matches \<Rightarrow>
     case BuildAction (ce_Action cfgEntry) (tm_Actions meta) of
        Inl err \<Rightarrow> Inl err
      | Inr a \<Rightarrow> Inr \<lparr>pe_TableId = tm_TableID meta, pe_Match = matches, pe_Action = a, pe_Priority = 0, pe_IsDefaultAction = False\<rparr>)"

text \<open>The entries of one table: its default action first, if it has one.\<close>

definition build_table :: "TableMetadata list \<Rightarrow> string \<times> TableConfig \<Rightarrow> go_error + p4_entry list" where
  "build_table metas nc =
     (case nc of (tableName, tableConfig) \<Rightarrow>
     case last_named tm_TableName metas tableName of
        None \<Rightarrow> Inl (Errorf ''table not found in loaded P4 program'' None)
      | Some meta \<Rightarrow>
     case (case tc_DefaultAction tableConfig of
             None \<Rightarrow> Inr []
           | Some action \<Rightarrow> (case BuildDefaultActionEntry meta action of
                               Inl err \<Rightarrow> Inl (Wrapf ''default action'' err)
                             | Inr entry \<Rightarrow> Inr [entry])) of
        Inl err \<Rightarrow> Inl err
      | Inr dflt \<Rightarrow>
     case map_err (\<lambda>e. case BuildTableEntry meta e of Inl err \<Rightarrow> Inl (Wrapf ''entry'' err) | Inr entry \<Rightarrow> Inr entry)
            (tc_Entries tableConfig) of
        Inl err \<Rightarrow> Inl err
      | Inr es \<Rightarrow> Inr (dflt @ es))"

definition BuildTableEntries :: "(string \<times> TableConfig) list \<Rightarrow> TableMetadata list \<Rightarrow> go_error + p4_entry list" where
  "BuildTableEntries tables tableMetas =
     (case map_err (build_table tableMetas) tables of Inl err \<Rightarrow> Inl err | Inr ess \<Rightarrow> Inr (concat ess))"

section \<open>Encoding of values\<close>

text \<open>The number a big-endian byte string stands for.\<close>

definition be_value :: "bytes \<Rightarrow> nat" where
  "be_value bs = foldl (\<lambda>n b. 256 * n + unat b) 0 bs"

lemma foldl_be: "foldl (\<lambda>n b. 256 * n + unat (b :: 8 word)) k bs = k * 256 ^ length bs + be_value bs"
proof (induction bs arbitrary: k)
  case (Cons b bs)
  show ?case using Cons [of "256 * k + unat b"] Cons [of "unat b"] by (simp add: be_value_def algebra_simps)
qed (simp add: be_value_def)

lemma be_value_append: "be_value (xs @ ys) = be_value xs * 256 ^ length ys + be_value ys"
  by (metis be_value_def foldl_append foldl_be)

lemma be_value_Nil [simp]: "be_value [] = 0"
  by (simp add: be_value_def)

lemma be_value_single [simp]: "be_value [b] = unat b"
  by (simp add: be_value_def)

lemma be_value_Cons: "be_value (b # bs) = unat b * 256 ^ length bs + be_value bs"
  using be_value_append [of "[b]" bs] by simp

lemma be_value_bound: "be_value bs < 256 ^ length bs"
proof (induction bs)
  case (Cons b bs)
  have "unat b < 256" using unsigned_less [where 'a = nat, of b] by simp
  then have "unat b \<le> 255" by simp
  then have "unat b * 256 ^ length bs \<le> 255 * 256 ^ length bs" by simp
  moreover have "(256 :: nat) ^ length (b # bs) = 255 * 256 ^ length bs + 256 ^ length bs" by simp
  ultimately show ?case using Cons unfolding be_value_Cons by linarith
qed simp

lemma be_value_zeros [simp]: "be_value (replicate n 0 @ bs) = be_value bs"
  by (induction n) (simp_all add: be_value_Cons)

lemma be_value_drop: "be_value (drop k bs) = be_value bs mod 256 ^ (length bs - k)"
proof -
  have "be_value bs = be_value (take k bs) * 256 ^ (length bs - k) + be_value (drop k bs)"
    using be_value_append [of "take k bs" "drop k bs"] by simp
  moreover have "be_value (drop k bs) < 256 ^ (length bs - k)" using be_value_bound [of "drop k bs"] by simp
  ultimately show ?thesis by simp
qed

lemma be_value_inject: "be_value xs = be_value ys \<Longrightarrow> length xs = length ys \<Longrightarrow> xs = ys"
proof (induction xs ys rule: list_induct2')
  case (4 x xs y ys)
  then have len: "length xs = length ys" by simp
  have eq: "unat x * 256 ^ length ys + be_value xs = unat y * 256 ^ length ys + be_value ys"
    using 4(2) len by (simp add: be_value_Cons)
  have b: "be_value xs < 256 ^ length ys" "be_value ys < 256 ^ length ys"
    using be_value_bound [of xs] be_value_bound [of ys] len by simp_all
  have "unat x = (unat x * 256 ^ length ys + be_value xs) div 256 ^ length ys" using b(1) by simp
  also have "\<dots> = unat y" unfolding eq using b(2) by simp
  finally have "unat x = unat y" .
  then show ?case using eq 4(1) len by (simp add: word_unat_eq_iff)
qed auto

lemma be_value_nat_bytes [simp]: "be_value (nat_bytes n) = n"
proof (induction n rule: nat_bytes.induct)
  case (1 n)
  show ?case
  proof (cases "n = 0")
    case False
    with 1 have "be_value (nat_bytes (n div 256)) = n div 256" by simp
    moreover have "unat (of_nat (n mod 256) :: 8 word) = n mod 256" by (simp add: unat_of_nat)
    ultimately show ?thesis using False by (subst nat_bytes.simps) (simp add: be_value_append)
  qed (simp add: nat_bytes.simps)
qed

lemma PadToWidth_spec:
  assumes "0 \<le> sz"
  shows "\<exists>bs. PadToWidth b sz = Inr bs \<and> length bs = nat sz \<and> be_value bs = be_value b mod 256 ^ nat sz"
proof (cases "int (length b) \<le> sz")
  case True
  then have "be_value b < 256 ^ nat sz"
    using be_value_bound [of b] power_increasing [of "length b" "nat sz" "256 :: nat"] by linarith
  with True show ?thesis by (auto simp: PadToWidth_def)
next
  case False
  with assms show ?thesis by (auto simp: PadToWidth_def be_value_drop)
qed

lemma PadToWidth_negative: "sz < 0 \<Longrightarrow> PadToWidth b sz = Inl slice_panic"
  by (simp add: PadToWidth_def)

lemma byte_len_spec: "0 \<le> bw \<Longrightarrow> bw + 7 < 2 ^ 31 \<Longrightarrow> byte_len bw = (bw + 7) div 8"
  by (auto simp: byte_len_def in_i32_def sgn_if Let_def)


text \<open>Every value of the two numeric forms, and the address texts, have one meaning as a number.\<close>

lemma EncodeValue_Int:
  assumes "pv_RawHex v = None" "pv_Int v = Some s" "big_SetString s = Some n" "0 \<le> bw" "bw + 7 < 2 ^ 31"
  shows "\<exists>bs. EncodeValue v bw = Inr bs \<and> length bs = nat ((bw + 7) div 8) \<and>
    be_value bs = nat (abs n) mod 256 ^ nat ((bw + 7) div 8)"
  using assms PadToWidth_spec [of "(bw + 7) div 8" "big_Bytes n"]
  by (simp add: EncodeValue_def byte_len_spec big_Bytes_def)

lemma big_SetString_format: "big_SetString (format_int n) = Some n"
proof (cases "n < 0")
  case True
  then show ?thesis by (simp add: big_SetString_def format_int_def)
next
  case False
  obtain d cs where d: "d < 10" "format_nat (nat n) = digit_char d # cs" using format_nat_hd by blast
  have "parse_digits (digit_char d # cs) = Some (nat n)" using parse_format_nat [of "nat n"] d by simp
  with False d digit_char_not_sign [OF d(1)] show ?thesis by (simp add: big_SetString_def format_int_def)
qed

text \<open>The value of a string of hex digits.\<close>

definition hex_number :: "string \<Rightarrow> nat option" where
  "hex_number s = foldl (\<lambda>acc c. case acc of None \<Rightarrow> None
     | Some n \<Rightarrow> (case hex_val c of None \<Rightarrow> None | Some d \<Rightarrow> Some (16 * n + d))) (Some 0) s"

lemma hex_val_bound: "hex_val c = Some d \<Longrightarrow> d < 16"
  by (auto simp: hex_val_def Let_def split: if_splits)

abbreviation hex_step :: "nat option \<Rightarrow> char \<Rightarrow> nat option" where
  "hex_step acc c \<equiv> (case acc of None \<Rightarrow> None | Some n \<Rightarrow> (case hex_val c of None \<Rightarrow> None | Some d \<Rightarrow> Some (16 * n + d)))"

lemma foldl_hex_None: "foldl hex_step None s = None"
  by (induction s) auto

lemma foldl_hex_bytes:
  "even (length s) \<Longrightarrow> foldl hex_step (Some k) s = map_option (\<lambda>bs. k * 256 ^ length bs + be_value bs) (hex_DecodeString s)"
proof (induction s arbitrary: k rule: hex_DecodeString.induct)
  case (3 a b s)
  show ?case
  proof (cases "hex_val a = None \<or> hex_val b = None")
    case True
    then show ?thesis by (auto simp: foldl_hex_None split: option.splits)
  next
    case False
    then obtain x y where xy: "hex_val a = Some x" "hex_val b = Some y" by auto
    then have "16 * x + y < 256" using hex_val_bound [of a x] hex_val_bound [of b y] by simp
    then have "unat (of_nat (16 * x + y) :: 8 word) = 16 * x + y" by (simp add: unat_of_nat del: of_nat_add of_nat_mult)
    then show ?thesis using xy 3(1) [of "16 * (16 * k + x) + y"] 3(2)
      by (cases "hex_DecodeString s") (auto simp: be_value_Cons algebra_simps)
  qed
qed auto

lemma EncodeHexString_spec:
  assumes "0 \<le> len" "s = TrimPrefix (TrimPrefix h ''0x'') ''0X''"
  shows "case hex_number s of None \<Rightarrow> EncodeHexString h len = Inl (Errorf ''invalid hex string'' None)
    | Some n \<Rightarrow> \<exists>bs. EncodeHexString h len = Inr bs \<and> length bs = nat len \<and> be_value bs = n mod 256 ^ nat len"
proof -
  define t where "t = (if length s mod 2 \<noteq> 0 then ''0'' @ s else s)"
  have enc: "EncodeHexString h len = (case hex_DecodeString t of None \<Rightarrow> Inl (Errorf ''invalid hex string'' None) | Some b \<Rightarrow> PadToWidth b len)"
    using assms(2) by (simp add: EncodeHexString_def t_def Let_def)
  have "hex_number t = hex_number s" by (simp add: t_def hex_number_def hex_val_def)
  moreover have "even (length t)" by (simp add: t_def even_iff_mod_2_eq_zero mod_Suc)
  ultimately have "hex_number s = map_option be_value (hex_DecodeString t)"
    using foldl_hex_bytes [of t 0] by (simp add: hex_number_def)
  then show ?thesis using enc PadToWidth_spec [OF assms(1)] by (cases "hex_DecodeString t") auto
qed

section \<open>Addresses\<close>

definition split_bytes :: "nat \<Rightarrow> 128 word \<Rightarrow> bytes" where
  "split_bytes n w = map (\<lambda>k. ucast (drop_bit (8 * (n - 1 - k)) w)) [0..<n]"

lemma split_bytes_Suc: "split_bytes (Suc n) w = split_bytes n (drop_bit 8 w) @ [ucast w]"
  by (auto simp: split_bytes_def drop_bit_drop_bit Suc_diff_Suc intro!: arg_cong [where f = ucast] arg_cong2 [where f = drop_bit])

lemma be_value_split_bytes: "be_value (split_bytes n w) = unat w mod 256 ^ n"
proof (induction n arbitrary: w)
  case 0
  then show ?case by (simp add: split_bytes_def)
next
  case (Suc n)
  have "unat (ucast w :: 8 word) = unat w mod 256" by (simp add: unsigned_ucast_eq take_bit_eq_mod)
  then show ?case
    using Suc [of "drop_bit 8 w"]
    by (simp add: split_bytes_Suc be_value_append unat_drop_bit_div mod_mult2_eq [of "unat w" 256 "256 ^ n"])
qed

lemma bytes_of_split: "bytes_of w = split_bytes 16 w"
  by (simp add: bytes_of_def split_bytes_def)

lemma be_value_bytes_of: "be_value (bytes_of w) = unat w"
  using unsigned_less [where 'a = nat, of w] by (simp add: bytes_of_split be_value_split_bytes)

lemma length_bytes_of_128 [simp]: "length (bytes_of w) = 16"
  by (simp add: bytes_of_def)

lemma push_disjoint: "push_bit 32 (c :: 128 word) AND ucast (a :: 32 word) = 0"
  by (rule bit_word_eqI) (auto simp: bit_simps dest: bit_imp_le_length)

lemma unat_mapped: "unat (push_bit 32 0xFFFF OR ucast (a :: 32 word) :: 128 word) = 0xFFFF * 2 ^ 32 + unat a"
proof -
  have "push_bit 32 0xFFFF OR ucast a = (push_bit 32 0xFFFF :: 128 word) + ucast a"
    by (simp only: disjunctive_add_eq_or [OF push_disjoint])
  moreover have "unat (push_bit 32 0xFFFF :: 128 word) = 0xFFFF * 2 ^ 32" by (simp add: push_bit_eq_mult)
  moreover have a: "unat a < 2 ^ 32" using unsigned_less [where 'a = nat, of a] by simp
  moreover have "unat (ucast a :: 128 word) = unat a" using a by (simp add: unsigned_ucast_eq take_bit_nat_eq_self_iff)
  ultimately show ?thesis by (simp add: unat_word_ariths)
qed

lemma ip_To4_mapped:
  fixes a :: "32 word"
  shows "\<exists>bs. ip_To4 (bytes_of (push_bit 32 0xFFFF OR ucast a)) = Some bs \<and> length bs = 4 \<and> be_value bs = unat a"
proof -
  let ?b = "bytes_of (push_bit 32 0xFFFF OR ucast a)"
  have v: "be_value ?b = 0xFFFF * 2 ^ 32 + unat a" by (simp only: be_value_bytes_of unat_mapped)
  have a: "unat a < 2 ^ 32" using unsigned_less [where 'a = nat, of a] by simp
  have split: "be_value ?b = be_value (take 12 ?b) * 256 ^ 4 + be_value (drop 12 ?b)"
    using be_value_append [of "take 12 ?b" "drop 12 ?b"] by simp
  have e: "(256 :: nat) ^ 4 = 2 ^ 32" by simp
  have low: "be_value (drop 12 ?b) = be_value ?b mod 256 ^ 4" by (simp add: be_value_drop)
  have d: "be_value (drop 12 ?b) = unat a" unfolding low v e using a by (simp only: mod_mult_self3 mod_less)
  then have "be_value (take 12 ?b) = 0xFFFF" using split v by simp
  then have "take 12 ?b = replicate 10 0 @ [0xFF, 0xFF]" by (intro be_value_inject) (simp_all add: be_value_Cons)
  then show ?thesis using d by (simp add: ip_To4_def)
qed

lemma EncodeValue_IPv4:
  assumes "pv_RawHex v = None" "pv_Int v = None" "pv_IPv4Address v = Some (addr_string4 a)"
  shows "\<exists>bs. EncodeValue v bw = Inr bs \<and> length bs = 4 \<and> be_value bs = unat a"
  using assms ip_To4_mapped [of a] by (auto simp: EncodeValue_def net_ParseIP_def ParseAddr_string4)

lemma EncodeValue_IPv6:
  assumes "pv_RawHex v = None" "pv_Int v = None" "pv_IPv4Address v = None" "pv_IPv6Address v = Some (addr_string6 a [])"
  shows "\<exists>bs. EncodeValue v bw = Inr bs \<and> length bs = 16 \<and> be_value bs = unat a"
  using assms by (auto simp: EncodeValue_def net_ParseIP_def ParseAddr_string6 be_value_bytes_of)

section \<open>Entries fit the loaded program\<close>

definition action_typed :: "ActionMetadata list \<Rightarrow> p4_action \<Rightarrow> bool" where
  "action_typed ams a \<longleftrightarrow> (\<exists>am \<in> set ams. p4a_ActionId a = am_ActionID am \<and>
     (\<forall>p \<in> set (p4a_Params a). \<exists>pm \<in> set (am_Params am). fst p = pm_ParamID pm))"

definition entry_typed :: "TableMetadata \<Rightarrow> p4_entry \<Rightarrow> bool" where
  "entry_typed meta e \<longleftrightarrow> pe_TableId e = tm_TableID meta \<and> action_typed (tm_Actions meta) (pe_Action e) \<and>
     (\<forall>fm \<in> set (pe_Match e). \<exists>mm \<in> set (tm_MatchFields meta). fm_FieldId fm = mm_FieldID mm) \<and>
     (pe_IsDefaultAction e \<longrightarrow> pe_Match e = [])"

lemma last_named_in: "last_named nm xs n = Some x \<Longrightarrow> x \<in> set xs \<and> nm x = n"
  by (auto simp: last_named_def dest!: map_of_SomeD)

lemma list_all2_in: "list_all2 P xs ys \<Longrightarrow> y \<in> set ys \<Longrightarrow> \<exists>x \<in> set xs. P x y"
  by (metis in_set_conv_nth list_all2_conv_all_nth)

lemma BuildAction_typed: "BuildAction action ams = Inr a \<Longrightarrow> action_typed ams a"
  by (fastforce simp: BuildAction_def action_typed_def map_err_Inr
      dest: find_Some_iff_in last_named_in list_all2_in split: option.splits sum.splits)

lemma BuildFieldMatch_id: "BuildFieldMatch mf meta = Inr fm \<Longrightarrow> fm_FieldId fm = mm_FieldID meta"
  by (auto simp: BuildFieldMatch_def Let_def split: if_splits option.splits sum.splits)

lemma build_match_typed: "build_match meta mf = Inr fm \<Longrightarrow> \<exists>mm \<in> set (tm_MatchFields meta). fm_FieldId fm = mm_FieldID mm"
  by (auto simp: build_match_def dest: last_named_in BuildFieldMatch_id split: option.splits sum.splits)

lemma BuildTableEntry_typed: "BuildTableEntry meta c = Inr e \<Longrightarrow> entry_typed meta e \<and> \<not> pe_IsDefaultAction e"
  by (auto simp: BuildTableEntry_def entry_typed_def map_err_Inr
      dest: BuildAction_typed list_all2_in build_match_typed split: sum.splits)

lemma BuildDefaultActionEntry_typed: "BuildDefaultActionEntry meta c = Inr e \<Longrightarrow> entry_typed meta e \<and> pe_IsDefaultAction e"
  by (auto simp: BuildDefaultActionEntry_def entry_typed_def dest: BuildAction_typed split: sum.splits)

lemma build_table_typed:
  assumes "build_table metas (n, c) = Inr es"
  obtains meta dflt es' where "last_named tm_TableName metas n = Some meta" "es = dflt @ es'"
    "length es' = length (tc_Entries c)" "\<forall>e \<in> set es'. entry_typed meta e \<and> \<not> pe_IsDefaultAction e"
    "tc_DefaultAction c = None \<and> dflt = [] \<or>
     (\<exists>d. tc_DefaultAction c \<noteq> None \<and> dflt = [d] \<and> entry_typed meta d \<and> pe_IsDefaultAction d)"
proof -
  obtain meta where m: "last_named tm_TableName metas n = Some meta"
    using assms by (auto simp: build_table_def split: option.splits)
  define mk where "mk = (\<lambda>e. case BuildTableEntry meta e of Inl err \<Rightarrow> Inl (Wrapf ''entry'' err) | Inr entry \<Rightarrow> Inr entry)"
  obtain dflt es' where d: "es = dflt @ es'" "map_err mk (tc_Entries c) = Inr es'"
      "(case tc_DefaultAction c of None \<Rightarrow> Inr []
        | Some action \<Rightarrow> (case BuildDefaultActionEntry meta action of
            Inl err \<Rightarrow> Inl (Wrapf ''default action'' err) | Inr entry \<Rightarrow> Inr [entry])) = Inr dflt"
    using assms m unfolding build_table_def mk_def by (auto split: sum.splits)
  have "entry_typed meta e \<and> \<not> pe_IsDefaultAction e" if e: "e \<in> set es'" for e
  proof -
    obtain x where "mk x = Inr e" using list_all2_in [OF d(2) [unfolded map_err_Inr] e] by auto
    then show ?thesis using BuildTableEntry_typed by (auto simp: mk_def split: sum.splits)
  qed
  moreover have "tc_DefaultAction c = None \<and> dflt = [] \<or>
      (\<exists>d. tc_DefaultAction c \<noteq> None \<and> dflt = [d] \<and> entry_typed meta d \<and> pe_IsDefaultAction d)"
  proof (cases "tc_DefaultAction c")
    case None
    then show ?thesis using d(3) by simp
  next
    case (Some a)
    then obtain x where "BuildDefaultActionEntry meta a = Inr x" "dflt = [x]" using d(3) by (auto split: sum.splits)
    then show ?thesis using BuildDefaultActionEntry_typed Some by blast
  qed
  ultimately show thesis using that m d(1) map_err_length [OF d(2)] by blast
qed

lemma filter_none: "\<forall>x \<in> set xs. \<not> P x \<Longrightarrow> filter P xs = []"
  by (simp add: filter_empty_conv)

lemma build_table_defaults:
  assumes "build_table metas (n, c) = Inr es"
  shows "set (map pe_TableId (filter pe_IsDefaultAction es)) \<subseteq> tm_TableID ` {m \<in> set metas. tm_TableName m = n}"
    and "distinct (map pe_TableId (filter pe_IsDefaultAction es))"
    and "length es = length (tc_Entries c) + (if tc_DefaultAction c = None then 0 else 1)"
    and "\<forall>e \<in> set es. \<exists>meta \<in> set metas. tm_TableName meta = n \<and> entry_typed meta e"
  by (rule build_table_typed [OF assms]; auto simp: entry_typed_def filter_none dest: last_named_in)+

definition config_size :: "(string \<times> TableConfig) list \<Rightarrow> nat" where
  "config_size tables = sum_list (map (\<lambda>(n, c). length (tc_Entries c) + (if tc_DefaultAction c = None then 0 else 1)) tables)"

lemma BuildTableEntries_parts:
  assumes "BuildTableEntries tables metas = Inr es"
  obtains ess where "es = concat ess" "list_all2 (\<lambda>t es. build_table metas t = Inr es) tables ess"
  using assms by (auto simp: BuildTableEntries_def map_err_Inr split: sum.splits)

lemma list_all2_sizes:
  assumes "list_all2 (\<lambda>t es. build_table metas t = Inr es) tables ess"
  shows "length (concat ess) = config_size tables"
  using assms
proof (induction rule: list_all2_induct)
  case (Cons t ts es ess)
  obtain n c where "t = (n, c)" by force
  with Cons build_table_defaults(3) show ?case by (simp add: config_size_def)
qed (simp add: config_size_def)

lemma disjoint_sub: "A \<subseteq> A' \<Longrightarrow> B \<subseteq> B' \<Longrightarrow> A' \<inter> B' = {} \<Longrightarrow> A \<inter> B = {}"
  by blast

lemma list_all2_defaults:
  assumes "list_all2 (\<lambda>t es. build_table metas t = Inr es) tables ess"
    and "distinct (map fst tables)" "inj_on tm_TableID (set metas)"
  shows "distinct (map pe_TableId (filter pe_IsDefaultAction (concat ess))) \<and>
    set (map pe_TableId (filter pe_IsDefaultAction (concat ess))) \<subseteq> tm_TableID ` {m \<in> set metas. tm_TableName m \<in> fst ` set tables}"
  using assms(1,2)
proof (induction rule: list_all2_induct)
  case (Cons t ts es ess)
  obtain n c where t: "t = (n, c)" by force
  have b: "build_table metas (n, c) = Inr es" using Cons(1) t by simp
  have n: "n \<notin> fst ` set ts" using Cons.prems t by simp
  let ?ids = "\<lambda>xs. set (map pe_TableId (filter pe_IsDefaultAction xs))"
  have sub: "?ids es \<subseteq> tm_TableID ` {m \<in> set metas. tm_TableName m = n}" using build_table_defaults(1) [OF b] .
  have ih: "distinct (map pe_TableId (filter pe_IsDefaultAction (concat ess)))"
      "?ids (concat ess) \<subseteq> tm_TableID ` {m \<in> set metas. tm_TableName m \<in> fst ` set ts}" using Cons by auto
  have "tm_TableID ` {m \<in> set metas. tm_TableName m = n} \<inter> tm_TableID ` {m \<in> set metas. tm_TableName m \<in> fst ` set ts} = {}"
    using n assms(3) by (auto simp: inj_on_def)
  then have disj: "?ids es \<inter> ?ids (concat ess) = {}" by (rule disjoint_sub [OF sub ih(2)])
  have un: "?ids (concat (es # ess)) = ?ids es \<union> ?ids (concat ess)" by auto
  have un': "tm_TableID ` {m \<in> set metas. tm_TableName m \<in> fst ` set (t # ts)} =
      tm_TableID ` {m \<in> set metas. tm_TableName m = n} \<union> tm_TableID ` {m \<in> set metas. tm_TableName m \<in> fst ` set ts}"
    using t by auto
  have "distinct (map pe_TableId (filter pe_IsDefaultAction (concat (es # ess))))"
    unfolding concat.simps filter_append map_append distinct_append
    using disj ih(1) build_table_defaults(2) [OF b] by (intro conjI)
  moreover have "?ids (concat (es # ess)) \<subseteq> tm_TableID ` {m \<in> set metas. tm_TableName m \<in> fst ` set (t # ts)}"
    unfolding un un' by (rule Un_mono [OF sub ih(2)])
  ultimately show ?case by blast
qed simp

section \<open>The order of a Go map\<close>

lemma list_all2_mset:
  "list_all2 (\<lambda>x y. f x = Inr y) xs ys \<Longrightarrow> mset xs' = mset xs \<Longrightarrow>
    \<exists>ys'. list_all2 (\<lambda>x y. f x = Inr y) xs' ys' \<and> mset ys' = mset ys"
proof -
  assume l: "list_all2 (\<lambda>x y. f x = Inr y) xs ys" and p: "mset xs' = mset xs"
  define g where "g = (\<lambda>x. projr (f x))"
  have ys: "ys = map g xs" using l by (auto simp: g_def list_all2_conv_all_nth intro!: nth_equalityI)
  have "f x = Inr (g x)" if "x \<in> set xs" for x
    using that l by (auto simp: g_def list_all2_conv_all_nth in_set_conv_nth)
  moreover have "set xs' = set xs" using p by (metis set_mset_mset)
  ultimately have "list_all2 (\<lambda>x y. f x = Inr y) xs' (map g xs')"
    unfolding list_all2_map2 list_all2_same by blast
  moreover have "mset (map g xs') = mset ys" using p ys by simp
  ultimately show ?thesis by blast
qed

lemma mset_concat_cong: "mset xss = mset yss \<Longrightarrow> mset (concat xss) = mset (concat yss)"
  by (metis mset_concat mset_map sum_mset_sum_list)

lemma BuildTableEntries_order:
  assumes "BuildTableEntries tables metas = Inr es" "mset tables' = mset tables"
  shows "\<exists>es'. BuildTableEntries tables' metas = Inr es' \<and> mset es' = mset es"
proof -
  obtain ess where e: "es = concat ess" "list_all2 (\<lambda>t es. build_table metas t = Inr es) tables ess"
    using BuildTableEntries_parts [OF assms(1)] .
  obtain ess' where e': "list_all2 (\<lambda>t es. build_table metas t = Inr es) tables' ess'" "mset ess' = mset ess"
    using list_all2_mset [OF e(2) assms(2)] by blast
  have "map_err (build_table metas) tables' = Inr ess'" using e'(1) by (simp add: map_err_Inr)
  then have "BuildTableEntries tables' metas = Inr (concat ess')" by (simp add: BuildTableEntries_def)
  then show ?thesis using mset_concat_cong [OF e'(2)] e(1) by auto
qed

section \<open>Properties\<close>

abbreviation no_value :: ParametrizedValue where
  "no_value \<equiv> \<lparr>pv_RawHex = None, pv_Int = None, pv_IPv4Address = None, pv_IPv6Address = None, pv_MACAddress = None\<rparr>"

text \<open>
  How values become bytes. An integer, written in decimal, becomes exactly as many bytes as the
  field has and reads back as its absolute value modulo the field's capacity, so a non-negative
  integer that fits is encoded exactly, while a larger one loses its high bytes and a negative one its
  sign without an error. A hex string is encoded the same way. An IPv4 or IPv6 address always becomes
  its four or sixteen bytes, whatever the width of the field.
\<close>

theorem encoded_values_read_back:
  assumes "0 \<le> bw" "bw + 7 < 2 ^ 31"
  shows "(\<exists>bs. EncodeValue (no_value\<lparr>pv_Int := Some (format_int n)\<rparr>) bw = Inr bs \<and>
        int (length bs) = (bw + 7) div 8 \<and> be_value bs = nat (abs n) mod 256 ^ length bs \<and>
        (0 \<le> n \<and> n < 256 ^ length bs \<longrightarrow> int (be_value bs) = n)) \<and>
     (hex_number h = Some k \<and> take 2 h \<noteq> ''0x'' \<and> take 2 h \<noteq> ''0X'' \<longrightarrow>
       (\<exists>bs. EncodeValue (no_value\<lparr>pv_RawHex := Some (''0x'' @ h)\<rparr>) bw = Inr bs \<and>
          int (length bs) = (bw + 7) div 8 \<and> be_value bs = k mod 256 ^ length bs)) \<and>
     (\<exists>bs. EncodeValue (no_value\<lparr>pv_IPv4Address := Some (addr_string4 a4)\<rparr>) bw = Inr bs \<and> length bs = 4 \<and> be_value bs = unat a4) \<and>
     (\<exists>bs. EncodeValue (no_value\<lparr>pv_IPv6Address := Some (addr_string6 a6 [])\<rparr>) bw = Inr bs \<and> length bs = 16 \<and> be_value bs = unat a6)"
proof (intro conjI impI)
  obtain bs where bs: "EncodeValue (no_value\<lparr>pv_Int := Some (format_int n)\<rparr>) bw = Inr bs"
      "length bs = nat ((bw + 7) div 8)" "be_value bs = nat (abs n) mod 256 ^ nat ((bw + 7) div 8)"
    using EncodeValue_Int [OF _ _ big_SetString_format assms, of "no_value\<lparr>pv_Int := Some (format_int n)\<rparr>" n] by auto
  moreover have "nat n < 256 ^ length bs" if "0 \<le> n" "n < 256 ^ length bs" using that by (simp add: nat_less_iff)
  ultimately show "\<exists>bs. EncodeValue (no_value\<lparr>pv_Int := Some (format_int n)\<rparr>) bw = Inr bs \<and>
        int (length bs) = (bw + 7) div 8 \<and> be_value bs = nat (abs n) mod 256 ^ length bs \<and>
        (0 \<le> n \<and> n < 256 ^ length bs \<longrightarrow> int (be_value bs) = n)"
    using assms(1) by (intro exI [of _ bs]) auto
next
  assume h: "hex_number h = Some k \<and> take 2 h \<noteq> ''0x'' \<and> take 2 h \<noteq> ''0X''"
  then have "TrimPrefix (TrimPrefix (''0x'' @ h) ''0x'') ''0X'' = h" by (simp add: TrimPrefix_def numeral_2_eq_2)
  then show "\<exists>bs. EncodeValue (no_value\<lparr>pv_RawHex := Some (''0x'' @ h)\<rparr>) bw = Inr bs \<and>
      int (length bs) = (bw + 7) div 8 \<and> be_value bs = k mod 256 ^ length bs"
    using EncodeHexString_spec [of "(bw + 7) div 8" h "''0x'' @ h"] h assms
    by (auto simp: EncodeValue_def byte_len_spec pos_imp_zdiv_nonneg_iff)
qed (use EncodeValue_IPv4 EncodeValue_IPv6 in simp_all)

theorem encoded_values_read_back_witness:
  "\<exists>bs. EncodeValue (no_value\<lparr>pv_Int := Some ''300''\<rparr>) 12 = Inr bs \<and> be_value bs = 300"
proof -
  have f: "format_int 300 = ''300''" by code_simp
  from encoded_values_read_back [of 12 300 "''0''" 0 0 0, unfolded f]
  obtain bs where "EncodeValue (no_value\<lparr>pv_Int := Some ''300''\<rparr>) 12 = Inr bs" "int (length bs) = (12 + 7) div 8"
      "(0 \<le> (300 :: int) \<and> (300 :: int) < 256 ^ length bs \<longrightarrow> int (be_value bs) = 300)" by auto
  moreover from this(2) have "length bs = 2" by simp
  ultimately show ?thesis by auto
qed

text \<open>
  C24: the entries built from a configuration fit the program the switch runs: every entry names a
  table of the program, an action of that table with parameters of that action, and match fields of
  that table; there is one entry for every configured entry and default action, at most one default
  action per table, and the order in which Go visits the map of tables changes neither whether the
  entries can be built nor which they are.
\<close>

theorem built_entries_are_typed:
  assumes "BuildTableEntries tables metas = Inr es" "distinct (map fst tables)" "inj_on tm_TableID (set metas)"
  shows "(\<forall>e \<in> set es. \<exists>meta \<in> set metas. tm_TableName meta \<in> fst ` set tables \<and> entry_typed meta e) \<and>
    length es = config_size tables \<and>
    distinct (map pe_TableId (filter pe_IsDefaultAction es)) \<and>
    (\<forall>tables'. mset tables' = mset tables \<longrightarrow>
       (\<exists>es'. BuildTableEntries tables' metas = Inr es' \<and> mset es' = mset es))"
proof -
  obtain ess where ess: "es = concat ess" "list_all2 (\<lambda>t es. build_table metas t = Inr es) tables ess"
    using BuildTableEntries_parts [OF assms(1)] .
  have "\<exists>meta \<in> set metas. tm_TableName meta \<in> fst ` set tables \<and> entry_typed meta e" if e: "e \<in> set es" for e
  proof -
    obtain es1 where es1: "es1 \<in> set ess" "e \<in> set es1" using e ess(1) by auto
    obtain n c where "(n, c) \<in> set tables" "build_table metas (n, c) = Inr es1"
      using list_all2_in [OF ess(2) es1(1)] by auto
    then show ?thesis using build_table_defaults(4) es1(2) by (metis fst_conv image_eqI)
  qed
  then show ?thesis
    using list_all2_sizes [OF ess(2)] list_all2_defaults [OF ess(2) assms(2,3)] BuildTableEntries_order [OF assms(1)] ess(1)
    by blast
qed

definition ex_meta :: TableMetadata where
  "ex_meta = \<lparr>tm_TableID = 7, tm_TableName = ''ipv4'', tm_Size = 64,
     tm_MatchFields = [\<lparr>mm_FieldID = 1, mm_FieldName = ''dst'', mm_MatchType = ''LPM'', mm_Bitwidth = 32\<rparr>],
     tm_Actions = [\<lparr>am_ActionID = 3, am_ActionName = ''fwd'', am_Params = [\<lparr>pm_ParamID = 1, pm_Name = ''port'', pm_Bitwidth = 9\<rparr>]\<rparr>]\<rparr>"

definition ex_table :: TableConfig where
  "ex_table = \<lparr>tc_Entries =
       [\<lparr>ce_MatchFields = [\<lparr>mf_Name = ''dst'', mf_Type = ''LPM'', mf_Exact = None, mf_Ternary = None,
            mf_LPM = Some \<lparr>lv_Value = no_value\<lparr>pv_RawHex := Some ''0x0a000000''\<rparr>, lv_PrefixLen = ''8''\<rparr>,
            mf_Range = None, mf_Optional = None\<rparr>],
         ce_Action = \<lparr>ac_Name = ''fwd'', ac_Parameters = [\<lparr>np_Value = no_value\<lparr>pv_Int := Some ''2''\<rparr>, np_Name = ''port''\<rparr>]\<rparr>\<rparr>],
     tc_DefaultAction = Some \<lparr>ac_Name = ''fwd'', ac_Parameters = [\<lparr>np_Value = no_value\<lparr>pv_Int := Some ''1''\<rparr>, np_Name = ''port''\<rparr>]\<rparr>\<rparr>"

definition ex_entries :: "p4_entry list" where
  "ex_entries =
     [\<lparr>pe_TableId = 7, pe_Match = [], pe_Action = \<lparr>p4a_ActionId = 3, p4a_Params = [(1, [0, 1])]\<rparr>, pe_Priority = 0, pe_IsDefaultAction = True\<rparr>,
      \<lparr>pe_TableId = 7, pe_Match = [\<lparr>fm_FieldId = 1, fm_Type = FM_LPM [10, 0, 0, 0] 8\<rparr>],
       pe_Action = \<lparr>p4a_ActionId = 3, p4a_Params = [(1, [0, 2])]\<rparr>, pe_Priority = 0, pe_IsDefaultAction = False\<rparr>]"

lemma ex_build: "BuildTableEntries [(''ipv4'', ex_table)] [ex_meta] = Inr ex_entries"
  by code_simp

theorem built_entries_are_typed_witness:
  "BuildTableEntries [(''ipv4'', ex_table)] [ex_meta] = Inr ex_entries \<and> length ex_entries = config_size [(''ipv4'', ex_table)] \<and>
    list_all (entry_typed ex_meta) ex_entries"
  using built_entries_are_typed [OF ex_build] ex_build by (simp add: list_all_iff)
end
