(* ===== verification/P4Switch.thy ===== *)
theory P4Switch
  imports P4Tables
begin

text \<open>
  The switch client of the BMv2 driver (\<open>src/targets/bmv2/pkg/p4switch/client.go\<close>), the manager of
  network function configurations (\<open>src/targets/bmv2/managers/nfcfg\<close>) and the P4Runtime proxy
  (\<open>src/targets/bmv2/grpcserver\<close>). The switch is a parameter: a record of the P4Runtime calls the code
  makes, over a state \<open>'w\<close>. What the P4Runtime specification says of a successful write and of a
  complete read is the hypothesis \<open>p4runtime\<close>. Time limits show up as errors of the calls.
\<close>

section \<open>P4Runtime messages\<close>

datatype update_type = UNSPECIFIED | INSERT | MODIFY | DELETE

datatype p4_entity = TableEntity p4_entry | OtherEntity string

record p4_update =
  up_Type :: update_type
  up_Entity :: p4_entity

text \<open>What a read asks for: the entries of a table (all tables for id 0), or something else.\<close>

datatype read_entity = ReadTable int | ReadOther string

record pipeline_config =
  pl_P4DeviceConfig :: bytes
  pl_P4Info :: "P4Info option"

datatype set_action = VERIFY | VERIFY_AND_COMMIT

text \<open>
  The error of a write: a gRPC status with its details, of which those of type \<open>p4.v1.Error\<close> carry a
  canonical code, or an error that is not a status.
\<close>

datatype rpc_detail = P4Error int | OtherDetail

datatype rpc_error = StatusError string "rpc_detail list" | PlainError go_error

record 'w p4_client =
  pc_SetPipeline :: "'w \<Rightarrow> int \<Rightarrow> int \<times> int \<Rightarrow> set_action \<Rightarrow> pipeline_config \<Rightarrow> (go_error + unit) \<times> 'w"
  pc_GetPipeline :: "'w \<Rightarrow> int \<Rightarrow> go_error + pipeline_config option"
  pc_Read :: "'w \<Rightarrow> int \<Rightarrow> read_entity list \<Rightarrow> go_error + (p4_entity list list \<times> go_error option)"
  pc_Write :: "'w \<Rightarrow> int \<Rightarrow> int \<times> int \<Rightarrow> p4_update list \<Rightarrow> (rpc_error + unit) \<times> 'w"

record P4Program =
  pg_P4DeviceConfig :: bytes
  pg_ProgramName :: string
  pg_P4Info :: "P4Info option"
  pg_IP :: prefix

section \<open>The switch client\<close>

record 'w SwitchClient =
  sc_P4Client :: "'w p4_client"
  sc_deviceID :: int
  sc_electionID :: "int \<times> int"

definition NewSwitchClient :: "'w p4_client \<Rightarrow> int \<Rightarrow> int \<Rightarrow> int \<Rightarrow> 'w SwitchClient" where
  "NewSwitchClient p4client deviceID electionIDHigh electionIDLow =
     \<lparr>sc_P4Client = p4client, sc_deviceID = deviceID, sc_electionID = (electionIDHigh, electionIDLow)\<rparr>"

definition set_pipeline :: "'w SwitchClient \<Rightarrow> set_action \<Rightarrow> pipeline_config \<Rightarrow> 'w \<Rightarrow> (go_error + unit) \<times> 'w" where
  "set_pipeline c act cfg w = pc_SetPipeline (sc_P4Client c) w (sc_deviceID c) (sc_electionID c) act cfg"

definition DeployPipeline :: "'w SwitchClient \<Rightarrow> P4Program \<Rightarrow> 'w \<Rightarrow> (go_error + unit) \<times> 'w" where
  "DeployPipeline c program w =
     set_pipeline c VERIFY_AND_COMMIT \<lparr>pl_P4DeviceConfig = pg_P4DeviceConfig program, pl_P4Info = pg_P4Info program\<rparr> w"

definition VerifyPipeline :: "'w SwitchClient \<Rightarrow> P4Program \<Rightarrow> 'w \<Rightarrow> (go_error + unit) \<times> 'w" where
  "VerifyPipeline c program w =
     set_pipeline c VERIFY \<lparr>pl_P4DeviceConfig = pg_P4DeviceConfig program, pl_P4Info = pg_P4Info program\<rparr> w"

definition ResetPipeline :: "'w SwitchClient \<Rightarrow> 'w \<Rightarrow> (go_error + unit) \<times> 'w" where
  "ResetPipeline c w = set_pipeline c VERIFY_AND_COMMIT \<lparr>pl_P4DeviceConfig = [], pl_P4Info = None\<rparr> w"

definition GetPipeline :: "'w SwitchClient \<Rightarrow> 'w \<Rightarrow> go_error + pipeline_config option" where
  "GetPipeline c w = pc_GetPipeline (sc_P4Client c) w (sc_deviceID c)"

fun entity_entry :: "p4_entity \<Rightarrow> p4_entry option" where
  "entity_entry (TableEntity e) = Some e"
| "entity_entry (OtherEntity _) = None"

definition GetTableEntries :: "'w SwitchClient \<Rightarrow> int \<Rightarrow> 'w \<Rightarrow> go_error + p4_entry list" where
  "GetTableEntries c tableId w =
     (case pc_Read (sc_P4Client c) w (sc_deviceID c) [ReadTable tableId] of
        Inl err \<Rightarrow> Inl (Wrapf ''failed to read table entries'' err)
      | Inr (resps, Some readErr) \<Rightarrow> Inl (Wrapf ''failed to read table entries'' readErr)
      | Inr (resps, None) \<Rightarrow> Inr (List.map_filter entity_entry (concat resps)))"

definition GetAllTableEntries :: "'w SwitchClient \<Rightarrow> 'w \<Rightarrow> go_error + p4_entry list" where
  "GetAllTableEntries c w = GetTableEntries c 0 w"

definition FilterTableEntries :: "p4_entry list \<Rightarrow> (p4_entry \<Rightarrow> bool) \<Rightarrow> p4_entry list" where
  "FilterTableEntries entries f = filter f entries"

fun rpc_go_error :: "rpc_error \<Rightarrow> go_error" where
  "rpc_go_error (StatusError m _) = Errorf m None"
| "rpc_go_error (PlainError e) = e"

definition writeUpdates :: "'w SwitchClient \<Rightarrow> p4_update list \<Rightarrow> 'w \<Rightarrow> (rpc_error + unit) \<times> 'w" where
  "writeUpdates c updates w = pc_Write (sc_P4Client c) w (sc_deviceID c) (sc_electionID c) updates"

definition EditTableEntries :: "'w SwitchClient \<Rightarrow> p4_entry list \<Rightarrow> update_type \<Rightarrow> 'w \<Rightarrow> (go_error + unit) \<times> 'w" where
  "EditTableEntries c entries updateType w =
     (case writeUpdates c (map (\<lambda>e. \<lparr>up_Type = updateType, up_Entity = TableEntity e\<rparr>) entries) w of
        (Inl err, w') \<Rightarrow> (Inl (rpc_go_error err), w')
      | (Inr _, w') \<Rightarrow> (Inr (), w'))"

definition clear_entries :: "'w SwitchClient \<Rightarrow> go_error + p4_entry list \<Rightarrow> 'w \<Rightarrow> (go_error + unit) \<times> 'w" where
  "clear_entries c listed w =
     (case listed of
        Inl err \<Rightarrow> (Inl (Wrapf ''failed to list table entries'' err), w)
      | Inr entries \<Rightarrow> EditTableEntries c (FilterTableEntries entries (\<lambda>e. \<not> pe_IsDefaultAction e)) DELETE w)"

definition ClearTableEntries :: "'w SwitchClient \<Rightarrow> int \<Rightarrow> 'w \<Rightarrow> (go_error + unit) \<times> 'w" where
  "ClearTableEntries c tableId w = clear_entries c (GetTableEntries c tableId w) w"

definition ClearAllTableEntries :: "'w SwitchClient \<Rightarrow> 'w \<Rightarrow> (go_error + unit) \<times> 'w" where
  "ClearAllTableEntries c w = clear_entries c (GetAllTableEntries c w) w"

definition SetAllTableEntries :: "'w SwitchClient \<Rightarrow> p4_entry list \<Rightarrow> 'w \<Rightarrow> (go_error + unit) \<times> 'w" where
  "SetAllTableEntries c entries w =
     (case ClearAllTableEntries c w of
        (Inl err, w1) \<Rightarrow> (Inl (Wrapf ''failed to clear existing table entries'' err), w1)
      | (Inr _, w1) \<Rightarrow>
          if entries = [] then (Inr (), w1)
          else (let defaultEntries = FilterTableEntries entries pe_IsDefaultAction;
                    nonDefaultEntries = FilterTableEntries entries (\<lambda>e. \<not> pe_IsDefaultAction e)
                in case (if defaultEntries \<noteq> [] then EditTableEntries c defaultEntries MODIFY w1 else (Inr (), w1)) of
                     (Inl err, w2) \<Rightarrow> (Inl (Wrapf ''failed to update default entries'' err), w2)
                   | (Inr _, w2) \<Rightarrow>
                       (case (if nonDefaultEntries \<noteq> [] then EditTableEntries c nonDefaultEntries INSERT w2 else (Inr (), w2)) of
                          (Inl err, w3) \<Rightarrow> (Inl (Wrapf ''failed to insert non-default entries'' err), w3)
                        | (Inr _, w3) \<Rightarrow> (Inr (), w3))))"

text \<open>
  The loop over the details of a failed write; codes are those of gRPC (0 is OK, 6 is AlreadyExists).
  \<open>None\<close> is the early return \<open>nil, false\<close>.
\<close>

fun retry_updates :: "(rpc_detail \<times> p4_update) list \<Rightarrow> p4_update list option" where
  "retry_updates [] = Some []"
| "retry_updates ((OtherDetail, _) # _) = None"
| "retry_updates ((P4Error code, u) # rest) =
     (if code = 0 then retry_updates rest
      else if code = 6
      then (if up_Type u \<noteq> INSERT then None
            else map_option ((#) \<lparr>up_Type = MODIFY, up_Entity = up_Entity u\<rparr>) (retry_updates rest))
      else None)"

definition modifyRetriesForExistingEntries :: "p4_update list \<Rightarrow> rpc_error \<Rightarrow> p4_update list option" where
  "modifyRetriesForExistingEntries updates writeError =
     (case writeError of
        PlainError _ \<Rightarrow> None
      | StatusError _ details \<Rightarrow>
          if length details \<noteq> length updates then None
          else (case retry_updates (zip details updates) of
                  None \<Rightarrow> None
                | Some us \<Rightarrow> if us = [] then None else Some us))"

definition ApplyUpdates :: "'w SwitchClient \<Rightarrow> p4_update list \<Rightarrow> 'w \<Rightarrow> (rpc_error + unit) \<times> 'w" where
  "ApplyUpdates c updates w =
     (case writeUpdates c updates w of
        (Inr r, w1) \<Rightarrow> (Inr r, w1)
      | (Inl err, w1) \<Rightarrow>
          (case modifyRetriesForExistingEntries updates err of
             None \<Rightarrow> (Inl err, w1)
           | Some retryUpdates \<Rightarrow> writeUpdates c retryUpdates w1))"

section \<open>The configuration manager\<close>

record appliedState =
  as_resourceVersion :: string
  as_entries :: "p4_entry list"

record CfgManager =
  cm_configToNFs :: "nsname \<rightharpoonup> nsname set"
  cm_nfApplied :: "nsname \<rightharpoonup> appliedState"

definition new_cfg_manager :: CfgManager where
  "new_cfg_manager = \<lparr>cm_configToNFs = Map.empty, cm_nfApplied = Map.empty\<rparr>"

text \<open>The request leaves the device id at its zero value.\<close>

definition fetchTableMetadata :: "'w SwitchClient \<Rightarrow> 'w \<Rightarrow> go_error + TableMetadata list option" where
  "fetchTableMetadata c w =
     (case pc_GetPipeline (sc_P4Client c) w 0 of
        Inl err \<Rightarrow> Inl err
      | Inr None \<Rightarrow> Inr None
      | Inr (Some cfg) \<Rightarrow>
          (case pl_P4Info cfg of
             None \<Rightarrow> Inr None
           | Some info \<Rightarrow> if pi_Tables info = [] then Inr None else Inr (Some (GetTableMetadata (Some info)))))"

definition record_applied :: "nsname \<Rightarrow> nsname \<Rightarrow> appliedState \<Rightarrow> CfgManager \<Rightarrow> CfgManager" where
  "record_applied configKey nfKey st m =
     m\<lparr>cm_nfApplied := (cm_nfApplied m)(nfKey \<mapsto> st),
       cm_configToNFs := (cm_configToNFs m)(configKey \<mapsto>
         insert nfKey (case cm_configToNFs m configKey of None \<Rightarrow> {} | Some nfs \<Rightarrow> nfs))\<rparr>"

text \<open>The part after the check for a recorded version.\<close>

definition apply_config ::
  "'w SwitchClient \<Rightarrow> NetworkFunctionConfig \<Rightarrow> nsname \<Rightarrow> CfgManager \<Rightarrow> 'w \<Rightarrow> (go_error + unit) \<times> CfgManager \<times> 'w" where
  "apply_config c cfg nfKey m w =
     (case fetchTableMetadata c w of
        Inl err \<Rightarrow> (Inl (Wrapf ''fetching P4Info'' err), m, w)
      | Inr None \<Rightarrow> (Inr (), m, w)
      | Inr (Some tables) \<Rightarrow>
          (case BuildTableEntries (nfc_Tables cfg) tables of
             Inl err \<Rightarrow> (Inl (Wrapf ''building table entries'' err), m, w)
           | Inr entries \<Rightarrow>
               (case SetAllTableEntries c entries w of
                  (Inl err, w1) \<Rightarrow> (Inl (Wrapf ''setting table entries'' err), m, w1)
                | (Inr _, w1) \<Rightarrow>
                    (Inr (), record_applied (meta_key cfg) nfKey
                       \<lparr>as_resourceVersion = nfc_ResourceVersion cfg, as_entries = entries\<rparr> m, w1))))"

definition EnsurePresentConfigForNF ::
  "'w SwitchClient \<Rightarrow> NetworkFunctionConfig option \<Rightarrow> NetworkFunction \<Rightarrow> CfgManager \<Rightarrow> 'w \<Rightarrow> (go_error + unit) \<times> CfgManager \<times> 'w" where
  "EnsurePresentConfigForNF c nfConfig nf m w =
     (let nfKey = meta_key nf in
      case nfConfig of
        None \<Rightarrow> (Inr (), m\<lparr>cm_nfApplied := (cm_nfApplied m)(nfKey := None)\<rparr>, w)
      | Some cfg \<Rightarrow>
          if (case cm_nfApplied m nfKey of None \<Rightarrow> False | Some existing \<Rightarrow> as_resourceVersion existing = nfc_ResourceVersion cfg)
          then (Inr (), m, w)
          else apply_config c cfg nfKey m w)"

definition removeTracking :: "nsname \<Rightarrow> NetworkFunctionConfig option \<Rightarrow> CfgManager \<Rightarrow> CfgManager" where
  "removeTracking nfKey nfConfig m =
     (let m1 = m\<lparr>cm_nfApplied := (cm_nfApplied m)(nfKey := None)\<rparr> in
      case nfConfig of
        None \<Rightarrow> m1
      | Some cfg \<Rightarrow>
          (case cm_configToNFs m1 (meta_key cfg) of
             None \<Rightarrow> m1
           | Some nfs \<Rightarrow>
               m1\<lparr>cm_configToNFs := (cm_configToNFs m1)(meta_key cfg := (if nfs - {nfKey} = {} then None else Some (nfs - {nfKey})))\<rparr>))"

definition EnsureAbsentConfig ::
  "'w SwitchClient \<Rightarrow> NetworkFunctionConfig option \<Rightarrow> NetworkFunction \<Rightarrow> CfgManager \<Rightarrow> 'w \<Rightarrow> (go_error + unit) \<times> CfgManager \<times> 'w" where
  "EnsureAbsentConfig c nfConfig nf m w =
     (let nfKey = meta_key nf in
      case cm_nfApplied m nfKey of
        None \<Rightarrow> (Inr (), m, w)
      | Some existing \<Rightarrow>
          if as_entries existing = [] then (Inr (), m, w)
          else (case fetchTableMetadata c w of
                  Inr (Some tables) \<Rightarrow>
                    (case EditTableEntries c (as_entries existing) DELETE w of
                       (Inl err, w1) \<Rightarrow> (Inl (Wrapf ''deleting table entries'' err), m, w1)
                     | (Inr _, w1) \<Rightarrow> (Inr (), removeTracking nfKey nfConfig m, w1))
                | _ \<Rightarrow> (Inr (), removeTracking nfKey nfConfig m, w)))"

definition GetAllNetworkFunctionsUsingConfig :: "CfgManager \<Rightarrow> nsname \<Rightarrow> nsname set" where
  "GetAllNetworkFunctionsUsingConfig m nfCfgID = (case cm_configToNFs m nfCfgID of None \<Rightarrow> {} | Some nfs \<Rightarrow> nfs)"

section \<open>What P4Runtime promises\<close>

text \<open>
  The state of the tables: the entries, by table, match and priority, and the default action of each
  table. A batch of updates is processed in order; code 0 reports an update that was applied, 6 an
  insert of an entry that exists, any other code an update that was refused.
\<close>

type_synonym entry_key = "int \<times> field_match set \<times> int"
type_synonym p4_state = "(entry_key \<rightharpoonup> p4_action) \<times> (int \<rightharpoonup> p4_action)"

definition entry_key :: "p4_entry \<Rightarrow> entry_key" where
  "entry_key e = (pe_TableId e, set (pe_Match e), pe_Priority e)"

definition put_entry :: "p4_state \<Rightarrow> p4_entry \<Rightarrow> p4_state" where
  "put_entry s e = (if pe_IsDefaultAction e then (fst s, (snd s)(pe_TableId e \<mapsto> pe_Action e))
                    else ((fst s)(entry_key e \<mapsto> pe_Action e), snd s))"

definition del_entry :: "p4_state \<Rightarrow> p4_entry \<Rightarrow> p4_state" where
  "del_entry s e = ((fst s)(entry_key e := None), snd s)"

fun apply_update :: "p4_state \<Rightarrow> update_type \<Rightarrow> p4_entity \<Rightarrow> p4_state" where
  "apply_update s INSERT (TableEntity e) = put_entry s e"
| "apply_update s MODIFY (TableEntity e) = put_entry s e"
| "apply_update s DELETE (TableEntity e) = del_entry s e"
| "apply_update s _ _ = s"

fun valid_update :: "p4_state \<Rightarrow> update_type \<Rightarrow> p4_entity \<Rightarrow> bool" where
  "valid_update s INSERT (TableEntity e) = (\<not> pe_IsDefaultAction e \<and> fst s (entry_key e) = None)"
| "valid_update s MODIFY (TableEntity e) = (pe_IsDefaultAction e \<or> fst s (entry_key e) \<noteq> None)"
| "valid_update s DELETE (TableEntity e) = (\<not> pe_IsDefaultAction e \<and> fst s (entry_key e) \<noteq> None)"
| "valid_update s _ _ = True"

fun exists_already :: "p4_state \<Rightarrow> p4_update \<Rightarrow> bool" where
  "exists_already s u =
     (up_Type u = INSERT \<and> (case up_Entity u of TableEntity e \<Rightarrow> fst s (entry_key e) \<noteq> None | OtherEntity _ \<Rightarrow> True))"

fun batch_result :: "p4_state \<Rightarrow> (int \<times> p4_update) list \<Rightarrow> p4_state option" where
  "batch_result s [] = Some s"
| "batch_result s ((code, u) # rest) =
     (if code = 0
      then (if valid_update s (up_Type u) (up_Entity u) then batch_result (apply_update s (up_Type u) (up_Entity u)) rest else None)
      else if code = 6 then (if exists_already s u then batch_result s rest else None)
      else batch_result s rest)"

definition p4runtime :: "'w p4_client \<Rightarrow> ('w \<Rightarrow> p4_state) \<Rightarrow> bool" where
  "p4runtime cl st \<longleftrightarrow>
     (\<forall>w dev el us w'. pc_Write cl w dev el us = (Inr (), w') \<longrightarrow>
        batch_result (st w) (map (Pair 0) us) = Some (st w')) \<and>
     (\<forall>w dev el us m codes w'. pc_Write cl w dev el us = (Inl (StatusError m (map P4Error codes)), w') \<and> length codes = length us \<longrightarrow>
        batch_result (st w) (zip codes us) = Some (st w')) \<and>
     (\<forall>w dev rs. pc_Read cl w dev [ReadTable 0] = Inr (rs, None) \<longrightarrow>
        (let es = filter (\<lambda>e. \<not> pe_IsDefaultAction e) (List.map_filter entity_entry (concat rs))
         in distinct (map entry_key es) \<and> fst (st w) = map_of (map (\<lambda>e. (entry_key e, pe_Action e)) es)))"

section \<open>Batches of one kind\<close>

abbreviation edits :: "update_type \<Rightarrow> p4_entry list \<Rightarrow> p4_update list" where
  "edits t es \<equiv> map (\<lambda>e. \<lparr>up_Type = t, up_Entity = TableEntity e\<rparr>) es"

definition entry_map :: "p4_entry list \<Rightarrow> entry_key \<rightharpoonup> p4_action" where
  "entry_map es = map_of (map (\<lambda>e. (entry_key e, pe_Action e)) es)"

definition default_map :: "p4_entry list \<Rightarrow> int \<rightharpoonup> p4_action" where
  "default_map es = map_of (rev (map (\<lambda>e. (pe_TableId e, pe_Action e)) es))"

lemma entry_map_simps [simp]:
  "entry_map [] = Map.empty"
  "entry_map (e # es) = (entry_map es)(entry_key e \<mapsto> pe_Action e)"
  by (simp_all add: entry_map_def)

lemma dom_entry_map: "dom (entry_map es) = entry_key ` set es"
  by (simp add: entry_map_def dom_map_of_conv_image_fst image_image)

lemma batch_deletes:
  "batch_result s (map (Pair 0) (edits DELETE es)) = Some s' \<Longrightarrow> s' = (fst s |` (- entry_key ` set es), snd s)"
proof (induction es arbitrary: s)
  case (Cons e es)
  then have "s' = (fst (del_entry s e) |` (- entry_key ` set es), snd (del_entry s e))"
    by (auto simp: o_def split: if_splits)
  then show ?case by (auto simp: del_entry_def restrict_map_def fun_eq_iff)
qed (simp add: restrict_map_def)

lemma batch_inserts:
  "batch_result s (map (Pair 0) (edits INSERT es)) = Some s' \<Longrightarrow>
    (\<forall>e \<in> set es. \<not> pe_IsDefaultAction e) \<and> distinct (map entry_key es) \<and>
    dom (fst s) \<inter> entry_key ` set es = {} \<and> s' = (fst s ++ entry_map es, snd s)"
proof (induction es arbitrary: s)
  case (Cons e es)
  let ?s1 = "put_entry s e"
  have v: "\<not> pe_IsDefaultAction e" "fst s (entry_key e) = None"
    and r: "batch_result ?s1 (map (Pair 0) (edits INSERT es)) = Some s'" using Cons.prems by (auto simp: o_def split: if_splits)
  have s1: "fst ?s1 = (fst s)(entry_key e \<mapsto> pe_Action e)" "snd ?s1 = snd s" using v by (simp_all add: put_entry_def)
  from Cons.IH [OF r] have ih: "\<forall>e \<in> set es. \<not> pe_IsDefaultAction e" "distinct (map entry_key es)"
      "dom (fst ?s1) \<inter> entry_key ` set es = {}" "s' = (fst ?s1 ++ entry_map es, snd ?s1)" by auto
  have k: "entry_key e \<notin> entry_key ` set es" using ih(3) s1 by auto
  then have "fst ?s1 ++ entry_map es = fst s ++ entry_map (e # es)"
    using dom_entry_map [of es] by (simp add: s1 map_add_upd_left)
  then have s': "s' = (fst s ++ entry_map (e # es), snd s)" using ih(4) s1(2) by simp
  moreover have "dom (fst s) \<inter> entry_key ` set (e # es) = {}" using ih(3) v(2) s1 by auto
  ultimately show ?case using ih(1,2) k v(1) by (simp del: entry_map_simps)
qed simp

lemma batch_modify_defaults:
  "\<forall>e \<in> set es. pe_IsDefaultAction e \<Longrightarrow> batch_result s (map (Pair 0) (edits MODIFY es)) = Some s' \<Longrightarrow>
    s' = (fst s, snd s ++ default_map es)"
proof (induction es arbitrary: s)
  case (Cons e es)
  then have "s' = (fst (put_entry s e), snd (put_entry s e) ++ default_map es)" by (auto simp: o_def)
  then show ?case using Cons.prems(1) by (simp add: put_entry_def default_map_def map_add_def fun_eq_iff split: option.splits)
qed (simp add: default_map_def)

section \<open>Replacing all entries\<close>

lemma p4runtime_ok:
  "p4runtime cl st \<Longrightarrow> pc_Write cl w dev el us = (Inr (), w') \<Longrightarrow> batch_result (st w) (map (Pair 0) us) = Some (st w')"
  unfolding p4runtime_def by blast

lemma p4runtime_partial:
  "p4runtime cl st \<Longrightarrow> pc_Write cl w dev el us = (Inl (StatusError m (map P4Error codes)), w') \<Longrightarrow> length codes = length us \<Longrightarrow>
    batch_result (st w) (zip codes us) = Some (st w')"
  unfolding p4runtime_def by blast

lemma p4runtime_write:
  assumes "p4runtime (sc_P4Client c) st" "EditTableEntries c es t w = (Inr r, w')"
  shows "batch_result (st w) (map (Pair 0) (edits t es)) = Some (st w')"
proof -
  have "pc_Write (sc_P4Client c) w (sc_deviceID c) (sc_electionID c) (edits t es) = (Inr (), w')"
    using assms(2) by (auto simp: EditTableEntries_def writeUpdates_def split: prod.splits sum.splits)
  from p4runtime_ok [OF assms(1) this] show ?thesis .
qed

lemma p4runtime_read:
  assumes "p4runtime (sc_P4Client c) st" "GetAllTableEntries c w = Inr es"
  shows "fst (st w) = entry_map (filter (\<lambda>e. \<not> pe_IsDefaultAction e) es)"
  using assms
  by (auto simp: GetAllTableEntries_def GetTableEntries_def p4runtime_def entry_map_def Let_def split: sum.splits prod.splits option.splits)

lemma ClearAll_empties:
  assumes "p4runtime (sc_P4Client c) st" "ClearAllTableEntries c w = (Inr r, w')"
  shows "st w' = (Map.empty, snd (st w))"
proof -
  obtain es where es: "GetAllTableEntries c w = Inr es"
      "EditTableEntries c (filter (\<lambda>e. \<not> pe_IsDefaultAction e) es) DELETE w = (Inr r, w')"
    using assms(2) by (auto simp: ClearAllTableEntries_def clear_entries_def FilterTableEntries_def split: sum.splits)
  let ?es = "filter (\<lambda>e. \<not> pe_IsDefaultAction e) es"
  have "st w' = (entry_map ?es |` (- entry_key ` set ?es), snd (st w))"
    using batch_deletes [OF p4runtime_write [OF assms(1) es(2)]] p4runtime_read [OF assms(1) es(1)] by simp
  moreover have "entry_map ?es |` (- entry_key ` set ?es) = Map.empty"
    using dom_entry_map [of ?es] by (auto simp: restrict_map_def fun_eq_iff domIff)
  ultimately show ?thesis by simp
qed

lemma SetAll_exact:
  assumes "p4runtime (sc_P4Client c) st" "SetAllTableEntries c es w = (Inr r, w')"
  shows "st w' = (entry_map (filter (\<lambda>e. \<not> pe_IsDefaultAction e) es), snd (st w) ++ default_map (filter pe_IsDefaultAction es))"
    and "distinct (map entry_key (filter (\<lambda>e. \<not> pe_IsDefaultAction e) es))"
proof -
  let ?d = "filter pe_IsDefaultAction es" and ?n = "filter (\<lambda>e. \<not> pe_IsDefaultAction e) es"
  obtain r1 w1 where w1: "ClearAllTableEntries c w = (Inr r1, w1)"
    using assms(2) by (auto simp: SetAllTableEntries_def split: prod.splits sum.splits)
  note s1 = ClearAll_empties [OF assms(1) w1]
  show g: "st w' = (entry_map ?n, snd (st w) ++ default_map ?d)" "distinct (map entry_key ?n)"
  proof -
    have "st w' = (entry_map ?n, snd (st w) ++ default_map ?d) \<and> distinct (map entry_key ?n)"
    proof (cases "es = []")
      case True
      then show ?thesis using assms(2) w1 s1 by (simp add: SetAllTableEntries_def default_map_def)
    next
      case False
      obtain r2 w2 r3 w3 where w2: "(if ?d \<noteq> [] then EditTableEntries c ?d MODIFY w1 else (Inr (), w1)) = (Inr r2, w2)"
          and w3: "(if ?n \<noteq> [] then EditTableEntries c ?n INSERT w2 else (Inr (), w2)) = (Inr r3, w')"
        using assms(2) w1 False
        by (auto simp: SetAllTableEntries_def FilterTableEntries_def Let_def split: prod.splits sum.splits if_splits)
      have s2: "st w2 = (Map.empty, snd (st w) ++ default_map ?d)"
      proof (cases "?d = []")
        case True
        then have "w2 = w1" using w2 by simp
        then show ?thesis using s1 True by (simp add: default_map_def)
      next
        case False
        then have "EditTableEntries c ?d MODIFY w1 = (Inr r2, w2)" using w2 by simp
        from batch_modify_defaults [OF _ p4runtime_write [OF assms(1) this]] show ?thesis using s1 by simp
      qed
      show ?thesis
      proof (cases "?n = []")
        case True
        then have "w' = w2" using w3 by simp
        then show ?thesis using s2 True by simp
      next
        case False
        then have "EditTableEntries c ?n INSERT w2 = (Inr r3, w')" using w3 by simp
        from batch_inserts [OF p4runtime_write [OF assms(1) this]] show ?thesis using s2 by simp
      qed
    qed
    then show "st w' = (entry_map ?n, snd (st w) ++ default_map ?d)" "distinct (map entry_key ?n)" by blast+
  qed
qed

section \<open>Retried inserts\<close>

lemma retry_codes:
  "length ds = length us \<Longrightarrow> retry_updates (zip ds us) = Some rs \<Longrightarrow> \<exists>codes. ds = map P4Error codes \<and> set codes \<subseteq> {0, 6}"
proof (induction ds us arbitrary: rs rule: list_induct2)
  case (Cons d ds u us)
  obtain code where d: "d = P4Error code" "code \<in> {0, 6}" using Cons.prems by (cases d) (auto split: if_splits)
  then obtain rs' where "retry_updates (zip ds us) = Some rs'" using Cons.prems by (auto split: if_splits)
  then obtain codes where "ds = map P4Error codes" "set codes \<subseteq> {0, 6}" using Cons.IH by blast
  then show ?case using d by (intro exI [of _ "code # codes"]) simp
qed simp

lemma batch_partial_inserts:
  assumes "set codes \<subseteq> {0, 6}" "length codes = length es" "distinct (map entry_key es)"
    and "batch_result s (zip codes (edits INSERT es)) = Some s'"
    and "retry_updates (zip (map P4Error codes) (edits INSERT es)) = Some rs"
  shows "\<exists>done again. rs = edits MODIFY again \<and> s' = (fst s ++ entry_map done, snd s) \<and>
    entry_map es = entry_map done ++ entry_map again \<and> set es = set done \<union> set again \<and>
    distinct (map entry_key again)"
  using assms
proof (induction codes arbitrary: es s rs)
  case Nil
  then show ?case by (intro exI [of _ "[]"]) simp
next
  case (Cons code codes)
  then obtain e es' where es: "es = e # es'" by (cases es) auto
  show ?case
  proof (cases "code = 0")
    case True
    then have v: "\<not> pe_IsDefaultAction e" "fst s (entry_key e) = None"
        and b: "batch_result (put_entry s e) (zip codes (edits INSERT es')) = Some s'"
        and r: "retry_updates (zip (map P4Error codes) (edits INSERT es')) = Some rs"
      using Cons.prems es by (auto split: if_splits)
    from Cons.IH [OF _ _ _ b r] obtain done1 again where ih: "rs = edits MODIFY again"
        "s' = (fst (put_entry s e) ++ entry_map done1, snd (put_entry s e))" "entry_map es' = entry_map done1 ++ entry_map again"
        "set es' = set done1 \<union> set again" "distinct (map entry_key again)" using Cons.prems es by auto
    have k: "entry_key e \<notin> dom (entry_map done1)" "entry_key e \<notin> dom (entry_map again)"
      using Cons.prems(3) es ih(4) by (auto simp: dom_entry_map)
    have "s' = (fst s ++ entry_map (e # done1), snd s)" using ih(2) v k by (simp add: put_entry_def map_add_upd_left)
    moreover have "entry_map es = entry_map (e # done1) ++ entry_map again" using es ih(3) k by (simp add: map_add_upd_left)
    ultimately show ?thesis using ih es v(1) by (intro exI [where x = "e # done1"] exI [where x = again]) (simp del: entry_map_simps)
  next
    case False
    then have c6: "code = 6" using Cons.prems(1) by simp
    then obtain rs' where b: "batch_result s (zip codes (edits INSERT es')) = Some s'"
        and r: "retry_updates (zip (map P4Error codes) (edits INSERT es')) = Some rs'"
        and rs: "rs = \<lparr>up_Type = MODIFY, up_Entity = TableEntity e\<rparr> # rs'"
      using Cons.prems es by (auto split: if_splits)
    from Cons.IH [OF _ _ _ b r] obtain done1 again where ih: "rs' = edits MODIFY again"
        "s' = (fst s ++ entry_map done1, snd s)" "entry_map es' = entry_map done1 ++ entry_map again"
        "set es' = set done1 \<union> set again" "distinct (map entry_key again)" using Cons.prems es by auto
    have "entry_map es = entry_map done1 ++ entry_map (e # again)" using es ih(3) by simp
    moreover have "entry_key e \<notin> entry_key ` set again" using Cons.prems(3) es ih(4) by auto
    ultimately show ?thesis using ih es rs
      by (intro exI [where x = done1] exI [where x = "e # again"]) (simp del: entry_map_simps)
  qed
qed

lemma batch_modifies:
  "\<forall>e \<in> set es. \<not> pe_IsDefaultAction e \<Longrightarrow> distinct (map entry_key es) \<Longrightarrow>
    batch_result s (map (Pair 0) (edits MODIFY es)) = Some s' \<Longrightarrow> s' = (fst s ++ entry_map es, snd s)"
proof (induction es arbitrary: s)
  case (Cons e es)
  then have "s' = (fst (put_entry s e) ++ entry_map es, snd (put_entry s e))" by (auto simp: o_def split: if_splits)
  moreover have "entry_key e \<notin> dom (entry_map es)" using Cons.prems(2) by (simp add: dom_entry_map)
  ultimately have "s' = (fst s ++ (entry_map es)(entry_key e \<mapsto> pe_Action e), snd s)"
    using Cons.prems(1) by (simp add: put_entry_def map_add_upd_left)
  then show ?case by (simp only: entry_map_simps)
qed simp

section \<open>A switch that follows P4Runtime\<close>

text \<open>
  The hypothesis \<open>p4runtime\<close> can hold: a switch that keeps its entries in a list, with the loaded program.
\<close>

record ex_world =
  ew_entries :: "p4_entry list"
  ew_defaults :: "(int \<times> p4_action) list"
  ew_pipeline :: "pipeline_config option"

definition ex_state :: "ex_world \<Rightarrow> p4_state" where
  "ex_state w = (entry_map (ew_entries w), map_of (ew_defaults w))"

fun ex_apply :: "ex_world \<Rightarrow> update_type \<Rightarrow> p4_entity \<Rightarrow> ex_world" where
  "ex_apply w t (OtherEntity _) = w"
| "ex_apply w UNSPECIFIED (TableEntity e) = w"
| "ex_apply w DELETE (TableEntity e) = w\<lparr>ew_entries := filter (\<lambda>x. entry_key x \<noteq> entry_key e) (ew_entries w)\<rparr>"
| "ex_apply w _ (TableEntity e) =
     (if pe_IsDefaultAction e then w\<lparr>ew_defaults := (pe_TableId e, pe_Action e) # ew_defaults w\<rparr>
      else w\<lparr>ew_entries := e # filter (\<lambda>x. entry_key x \<noteq> entry_key e) (ew_entries w)\<rparr>)"

lemma entry_map_filter: "entry_map (filter (\<lambda>x. entry_key x \<noteq> k) es) = (entry_map es)(k := None)"
  by (induction es) (auto simp: fun_eq_iff)

lemma ex_state_apply: "ex_state (ex_apply w t u) = apply_update (ex_state w) t u"
  by (cases "(w, t, u)" rule: ex_apply.cases)
    (auto simp: ex_state_def put_entry_def del_entry_def entry_map_filter)

fun ex_batch :: "ex_world \<Rightarrow> p4_update list \<Rightarrow> int list \<times> ex_world" where
  "ex_batch w [] = ([], w)"
| "ex_batch w (u # us) =
     (if valid_update (ex_state w) (up_Type u) (up_Entity u)
      then (let (cs, w') = ex_batch (ex_apply w (up_Type u) (up_Entity u)) us in (0 # cs, w'))
      else (let (cs, w') = ex_batch w us in ((if exists_already (ex_state w) u then 6 else 3) # cs, w')))"

lemma ex_batch_ok:
  "ex_batch w us = (cs, w') \<Longrightarrow> length cs = length us \<and> batch_result (ex_state w) (zip cs us) = Some (ex_state w')"
  by (induction w us arbitrary: cs w' rule: ex_batch.induct)
    (auto simp: ex_state_apply Let_def split: prod.splits if_splits)

definition ex_switch :: "ex_world p4_client" where
  "ex_switch =
     \<lparr>pc_SetPipeline = (\<lambda>w dev el act cfg. (Inr (), if act = VERIFY then w else w\<lparr>ew_pipeline := Some cfg\<rparr>)),
      pc_GetPipeline = (\<lambda>w dev. Inr (ew_pipeline w)),
      pc_Read = (\<lambda>w dev rs. if distinct (map entry_key (ew_entries w)) \<and> \<not> list_ex pe_IsDefaultAction (ew_entries w)
                  then Inr ([map TableEntity (ew_entries w)], None) else Inl (Errorf ''inconsistent'' None)),
      pc_Write = (\<lambda>w dev el us. case ex_batch w us of (cs, w') \<Rightarrow>
                   (if list_all (\<lambda>c. c = 0) cs then Inr () else Inl (StatusError ''write'' (map P4Error cs)), w'))\<rparr>"

lemma map_filter_TableEntity: "List.map_filter entity_entry (map TableEntity es) = es"
  by (induction es) (simp_all add: List.map_filter_simps)

lemma zip_zeros: "list_all (\<lambda>c. c = 0) cs \<Longrightarrow> length cs = length us \<Longrightarrow> zip cs us = map (Pair 0) us"
  by (induction cs us rule: list_induct2') auto

lemma ex_switch_p4runtime: "p4runtime ex_switch ex_state"
  unfolding p4runtime_def
proof (intro conjI allI impI)
  fix w dev el us w'
  assume "pc_Write ex_switch w dev el us = (Inr (), w')"
  then obtain cs where "ex_batch w us = (cs, w')" "list_all (\<lambda>c. c = 0) cs"
    by (auto simp: ex_switch_def split: prod.splits if_splits)
  then show "batch_result (ex_state w) (map (Pair 0) us) = Some (ex_state w')"
    using ex_batch_ok [of w us cs w'] zip_zeros [of cs us] by simp
next
  fix w dev el us m codes w'
  assume "pc_Write ex_switch w dev el us = (Inl (StatusError m (map P4Error codes)), w') \<and> length codes = length us"
  then have "ex_batch w us = (codes, w')"
    by (auto simp: ex_switch_def inj_map_eq_map inj_def split: prod.splits if_splits)
  then show "batch_result (ex_state w) (zip codes us) = Some (ex_state w')" using ex_batch_ok by blast
next
  fix w dev rs
  assume "pc_Read ex_switch w dev [ReadTable 0] = Inr (rs, None)"
  then have "distinct (map entry_key (ew_entries w))" "\<not> list_ex pe_IsDefaultAction (ew_entries w)" "rs = [map TableEntity (ew_entries w)]"
    by (auto simp: ex_switch_def split: if_splits)
  then show "let es = filter (\<lambda>e. \<not> pe_IsDefaultAction e) (List.map_filter entity_entry (concat rs))
      in distinct (map entry_key es) \<and> fst (ex_state w) = map_of (map (\<lambda>e. (entry_key e, pe_Action e)) es)"
    by (simp add: map_filter_TableEntity filter_id_conv list_ex_iff ex_state_def entry_map_def)
qed

definition ex_info :: P4Info where
  "ex_info = \<lparr>pi_Tables = [\<lparr>pt_Preamble = Some \<lparr>pre_Id = 7, pre_Name = ''ipv4''\<rparr>,
       pt_MatchFields = [\<lparr>pmf_Id = 1, pmf_Name = ''dst'', pmf_Bitwidth = 32, pmf_MatchType = Some ''LPM''\<rparr>],
       pt_ActionRefs = [3], pt_Size = 64\<rparr>],
     pi_Actions = [\<lparr>pa_Preamble = Some \<lparr>pre_Id = 3, pre_Name = ''fwd''\<rparr>,
       pa_Params = [\<lparr>pp_Id = 1, pp_Name = ''port'', pp_Bitwidth = 9\<rparr>]\<rparr>]\<rparr>"

definition ex_loaded :: ex_world where
  "ex_loaded = \<lparr>ew_entries = [], ew_defaults = [], ew_pipeline = Some \<lparr>pl_P4DeviceConfig = [1], pl_P4Info = Some ex_info\<rparr>\<rparr>"

definition ex_client :: "ex_world SwitchClient" where
  "ex_client = NewSwitchClient ex_switch 0 0 1"

lemma ex_fetch: "ew_pipeline w = ew_pipeline ex_loaded \<Longrightarrow> fetchTableMetadata ex_client w = Inr (Some [ex_meta])"
  by (simp add: fetchTableMetadata_def ex_client_def NewSwitchClient_def ex_switch_def ex_loaded_def ex_info_def
      GetTableMetadata_def table_metadata_def actionByID_def action_metadata_def field_metadata_def List.map_filter_simps ex_meta_def)

section \<open>Properties\<close>

text \<open>
  Replacing the entries of a switch. When \<open>SetAllTableEntries\<close> reports success, the switch holds
  exactly the given entries, whatever it held before; the default actions of the tables that were
  given one are replaced and the others are unchanged. Two given entries then never had the same
  key, since the second insert would have failed.
\<close>

theorem SetAllTableEntries_exact:
  assumes "p4runtime (sc_P4Client c) st" "SetAllTableEntries c es w = (Inr (), w')"
  shows "st w' = (entry_map (filter (\<lambda>e. \<not> pe_IsDefaultAction e) es), snd (st w) ++ default_map (filter pe_IsDefaultAction es)) \<and>
    distinct (map entry_key (filter (\<lambda>e. \<not> pe_IsDefaultAction e) es))"
  using SetAll_exact [OF assms] by blast

lemma ex_client_switch [simp]: "sc_P4Client ex_client = ex_switch"
  by (simp add: ex_client_def NewSwitchClient_def)

definition ex_stored :: ex_world where
  "ex_stored = ex_loaded\<lparr>ew_entries := [ex_entries ! 1], ew_defaults := [(7, pe_Action (ex_entries ! 0))]\<rparr>"

lemma ex_entries_nth: "ex_entries ! 0 = hd ex_entries" "ex_entries ! 1 = last ex_entries" "ex_entries = [hd ex_entries, last ex_entries]"
    "pe_IsDefaultAction (hd ex_entries)" "\<not> pe_IsDefaultAction (last ex_entries)" "pe_TableId (hd ex_entries) = 7"
  by (simp_all add: ex_entries_def)

lemma ex_SetAll: "SetAllTableEntries ex_client ex_entries ex_loaded = (Inr (), ex_stored)"
proof -
  obtain d n where es: "ex_entries = [d, n]" and dn: "pe_IsDefaultAction d" "\<not> pe_IsDefaultAction n" "pe_TableId d = 7"
    using ex_entries_nth by metis
  show ?thesis
    by (simp add: SetAllTableEntries_def ClearAllTableEntries_def clear_entries_def GetAllTableEntries_def GetTableEntries_def
        ex_switch_def ex_loaded_def ex_stored_def FilterTableEntries_def EditTableEntries_def writeUpdates_def
        map_filter_TableEntity ex_state_def es dn)
qed

theorem SetAllTableEntries_exact_witness:
  "SetAllTableEntries ex_client ex_entries ex_loaded = (Inr (), ex_stored) \<and>
    fst (ex_state ex_stored) = entry_map (filter (\<lambda>e. \<not> pe_IsDefaultAction e) ex_entries)"
  using SetAllTableEntries_exact [of ex_client ex_state] ex_switch_p4runtime ex_SetAll by simp

text \<open>
  The proxy turns inserts into upserts. If a batch of inserts of distinct entries goes through
  \<open>ApplyUpdates\<close> with success, directly or after the entries that existed already were modified in a
  second write, then the switch holds every entry of the batch with the action asked for, and all
  other entries and the default actions are unchanged.
\<close>

theorem proxy_inserts_are_upserts:
  assumes "p4runtime (sc_P4Client c) st" "\<forall>e \<in> set es. \<not> pe_IsDefaultAction e" "distinct (map entry_key es)"
    and "ApplyUpdates c (edits INSERT es) w = (Inr (), w')"
  shows "st w' = (fst (st w) ++ entry_map es, snd (st w))"
proof (cases "writeUpdates c (edits INSERT es) w")
  case (Pair r w1)
  show ?thesis
  proof (cases r)
    case (Inr u)
    then have "pc_Write (sc_P4Client c) w (sc_deviceID c) (sc_electionID c) (edits INSERT es) = (Inr (), w')"
      using Pair assms(4) by (simp add: ApplyUpdates_def writeUpdates_def)
    from batch_inserts [OF p4runtime_ok [OF assms(1) this]] show ?thesis by simp
  next
    case (Inl err)
    then obtain rs where rs: "modifyRetriesForExistingEntries (edits INSERT es) err = Some rs" "writeUpdates c rs w1 = (Inr (), w')"
      using Pair assms(4) by (auto simp: ApplyUpdates_def split: option.splits)
    then obtain m ds where err: "err = StatusError m ds" "length ds = length (edits INSERT es)"
        "retry_updates (zip ds (edits INSERT es)) = Some rs"
      by (auto simp: modifyRetriesForExistingEntries_def split: rpc_error.splits if_splits option.splits)
    obtain codes where codes: "ds = map P4Error codes" "set codes \<subseteq> {0, 6}" using retry_codes [OF err(2,3)] by blast
    have len: "length codes = length es" using err(2) codes(1) by simp
    have "pc_Write (sc_P4Client c) w (sc_deviceID c) (sc_electionID c) (edits INSERT es) = (Inl (StatusError m (map P4Error codes)), w1)"
      using Pair Inl err(1) codes(1) by (simp add: writeUpdates_def)
    from p4runtime_partial [OF assms(1) this] len
    have "batch_result (st w) (zip codes (edits INSERT es)) = Some (st w1)" by simp
    from batch_partial_inserts [OF codes(2) len assms(3) this] err(3) codes(1)
    obtain new again where parts: "rs = edits MODIFY again" "st w1 = (fst (st w) ++ entry_map new, snd (st w))"
        "entry_map es = entry_map new ++ entry_map again" "set es = set new \<union> set again" "distinct (map entry_key again)"
      by blast
    have "pc_Write (sc_P4Client c) w1 (sc_deviceID c) (sc_electionID c) (edits MODIFY again) = (Inr (), w')"
      using rs(2) parts(1) by (simp add: writeUpdates_def)
    from batch_modifies [OF _ parts(5) p4runtime_ok [OF assms(1) this]] show ?thesis using parts assms(2) by auto
  qed
qed

theorem proxy_inserts_are_upserts_witness:
  "let e = ex_entries ! 1; w' = snd (ApplyUpdates ex_client (edits INSERT [e]) ex_stored)
   in fst (ApplyUpdates ex_client (edits INSERT [e]) ex_stored) = Inr () \<and>
      ex_state w' = (fst (ex_state ex_stored) ++ entry_map [e], snd (ex_state ex_stored))"
proof -
  let ?e = "ex_entries ! 1"
  have e: "\<not> pe_IsDefaultAction ?e" using ex_entries_nth by metis
  have ok: "fst (ApplyUpdates ex_client (edits INSERT [?e]) ex_stored) = Inr ()"
    using e by (simp add: ApplyUpdates_def writeUpdates_def ex_switch_def ex_stored_def ex_state_def modifyRetriesForExistingEntries_def)
  then obtain w' where run: "ApplyUpdates ex_client (edits INSERT [?e]) ex_stored = (Inr (), w')" by (metis prod.collapse)
  have "p4runtime (sc_P4Client ex_client) ex_state" by (simp add: ex_switch_p4runtime)
  from proxy_inserts_are_upserts [OF this _ _ run] e show ?thesis unfolding Let_def run by simp
qed

text \<open>
  C25: applying a configuration. When the manager reports success for a function with a configuration,
  then either this version is already recorded or no program is loaded, and nothing changed, or the
  switch now holds exactly the entries built from the configuration, the version is recorded for the
  function and the function is found under the configuration. When it reports an error, nothing is
  recorded, so the next reconcile tries again.
\<close>

theorem config_applied_exactly:
  assumes "p4runtime (sc_P4Client c) st" "EnsurePresentConfigForNF c (Some cfg) nf m w = (r, m', w')"
  shows "case r of
      Inl err \<Rightarrow> m' = m
    | Inr _ \<Rightarrow>
        m' = m \<and> w' = w \<and>
          ((\<exists>a. cm_nfApplied m (meta_key nf) = Some a \<and> as_resourceVersion a = nfc_ResourceVersion cfg) \<or> fetchTableMetadata c w = Inr None) \<or>
        (\<exists>metas es. fetchTableMetadata c w = Inr (Some metas) \<and> BuildTableEntries (nfc_Tables cfg) metas = Inr es \<and>
           st w' = (entry_map (filter (\<lambda>e. \<not> pe_IsDefaultAction e) es), snd (st w) ++ default_map (filter pe_IsDefaultAction es)) \<and>
           cm_nfApplied m' (meta_key nf) = Some \<lparr>as_resourceVersion = nfc_ResourceVersion cfg, as_entries = es\<rparr> \<and>
           meta_key nf \<in> GetAllNetworkFunctionsUsingConfig m' (meta_key cfg))"
proof (cases "\<exists>a. cm_nfApplied m (meta_key nf) = Some a \<and> as_resourceVersion a = nfc_ResourceVersion cfg")
  case True
  then show ?thesis using assms(2) by (auto simp: EnsurePresentConfigForNF_def)
next
  case False
  then have run: "apply_config c cfg (meta_key nf) m w = (r, m', w')"
    using assms(2) by (cases "cm_nfApplied m (meta_key nf)") (auto simp: EnsurePresentConfigForNF_def)
  show ?thesis
  proof (cases "\<exists>metas es. fetchTableMetadata c w = Inr (Some metas) \<and> BuildTableEntries (nfc_Tables cfg) metas = Inr es")
    case True
    then obtain metas es where e: "fetchTableMetadata c w = Inr (Some metas)" "BuildTableEntries (nfc_Tables cfg) metas = Inr es" by blast
    obtain r1 w1 where s: "SetAllTableEntries c es w = (r1, w1)" by force
    show ?thesis
    proof (cases r1)
      case (Inr u)
      then have "m' = record_applied (meta_key cfg) (meta_key nf) \<lparr>as_resourceVersion = nfc_ResourceVersion cfg, as_entries = es\<rparr> m"
          "w' = w1" "r = Inr ()" using run e s by (simp_all add: apply_config_def)
      then show ?thesis using SetAll_exact(1) [OF assms(1) s [unfolded Inr]] e
        by (simp add: record_applied_def GetAllNetworkFunctionsUsingConfig_def)
    qed (use run e s in \<open>auto simp: apply_config_def\<close>)
  qed (use run in \<open>auto simp: apply_config_def split: sum.splits option.splits\<close>)
qed

definition ex_cfg :: NetworkFunctionConfig where
  "ex_cfg = \<lparr>om_Name = ''cfg'', om_GenerateName = '''', om_Namespace = ''default'', om_UID = ''u1'', om_Generation = 1,
     om_Labels = None, om_Annotations = None, om_Finalizers = [], om_OwnerReferences = [],
     om_CreationTimestamp = 1, om_DeletionTimestamp = None,
     nfc_ResourceVersion = ''17'', nfc_Tables = [(''ipv4'', ex_table)]\<rparr>"

lemma ex_EnsurePresent:
  "cm_nfApplied m (meta_key nf) = None \<Longrightarrow>
    EnsurePresentConfigForNF ex_client (Some ex_cfg) nf m ex_loaded =
      (Inr (), record_applied (meta_key ex_cfg) (meta_key nf) \<lparr>as_resourceVersion = ''17'', as_entries = ex_entries\<rparr> m, ex_stored)"
  by (simp add: EnsurePresentConfigForNF_def apply_config_def ex_fetch ex_build ex_SetAll ex_cfg_def)

definition ex_cfg_nf :: "string \<Rightarrow> NetworkFunction" where
  "ex_cfg_nf name = \<lparr>om_Name = name, om_GenerateName = '''', om_Namespace = ''default'', om_UID = name,
     om_Generation = 1, om_Labels = None, om_Annotations = None, om_Finalizers = [],
     om_OwnerReferences = [], om_CreationTimestamp = 5, om_DeletionTimestamp = None,
     nf_Spec = \<lparr>nfs_TargetName = ''sw1'', nfs_ControlPlane = None, nfs_TargetSelector = None,
       nfs_ConfigRef = Some ''cfg'', nfs_P4File = ''AQ==''\<rparr>,
     nf_Status = \<lparr>nft_AssignedIP = '''', nft_ObservedGeneration = 1, nft_Phase = '''', nft_Reason = '''', nft_Conditions = []\<rparr>\<rparr>"

theorem config_applied_exactly_witness:
  "fst (ex_state (snd (snd (EnsurePresentConfigForNF ex_client (Some ex_cfg) (ex_cfg_nf ''nf'') new_cfg_manager ex_loaded)))) =
    entry_map (filter (\<lambda>e. \<not> pe_IsDefaultAction e) ex_entries)"
proof -
  have p: "p4runtime (sc_P4Client ex_client) ex_state" by (simp add: ex_switch_p4runtime)
  have e: "nfc_Tables ex_cfg = [(''ipv4'', ex_table)]" by (simp add: ex_cfg_def)
  from config_applied_exactly [OF p ex_EnsurePresent [of new_cfg_manager "ex_cfg_nf ''nf''"]]
  show ?thesis
    by (simp add: new_cfg_manager_def ex_fetch ex_build e ex_EnsurePresent)
qed

text \<open>
  Configurations of two functions on one switch exclude each other. After the second
  function's configuration was written, the switch holds only its entries, while the first
  function's version is still recorded: ensuring the first configuration again reports success and
  writes nothing.
\<close>

theorem second_config_displaces_first:
  assumes "p4runtime (sc_P4Client c) st" "meta_key nf1 \<noteq> meta_key nf2"
    and "cm_nfApplied m (meta_key nf1) = Some a1" "as_resourceVersion a1 = nfc_ResourceVersion cfg1"
    and "EnsurePresentConfigForNF c (Some cfg2) nf2 m w = (Inr (), m', w')" "w' \<noteq> w"
  shows "(\<exists>metas es. fetchTableMetadata c w = Inr (Some metas) \<and> BuildTableEntries (nfc_Tables cfg2) metas = Inr es \<and>
        fst (st w') = entry_map (filter (\<lambda>e. \<not> pe_IsDefaultAction e) es)) \<and>
    EnsurePresentConfigForNF c (Some cfg1) nf1 m' w' = (Inr (), m', w')"
proof -
  from config_applied_exactly [OF assms(1,5)] assms(6)
  have "\<exists>metas es. fetchTableMetadata c w = Inr (Some metas) \<and> BuildTableEntries (nfc_Tables cfg2) metas = Inr es \<and>
      fst (st w') = entry_map (filter (\<lambda>e. \<not> pe_IsDefaultAction e) es)" by auto
  moreover have "cm_nfApplied m' (meta_key nf1) = cm_nfApplied m (meta_key nf1)"
    using assms(2,5)
    by (auto simp: EnsurePresentConfigForNF_def apply_config_def record_applied_def Let_def split: option.splits sum.splits prod.splits if_splits)
  ultimately show ?thesis using assms(3,4) by (simp add: EnsurePresentConfigForNF_def)
qed

theorem second_config_displaces_first_witness:
  "let m = record_applied (''default'', ''old'') (''default'', ''a'') \<lparr>as_resourceVersion = ''9'', as_entries = []\<rparr> new_cfg_manager;
       cfg1 = ex_cfg\<lparr>om_Name := ''old'', nfc_ResourceVersion := ''9''\<rparr>;
       (r, m', w') = EnsurePresentConfigForNF ex_client (Some ex_cfg) (ex_cfg_nf ''nf'') m ex_loaded
   in r = Inr () \<and> EnsurePresentConfigForNF ex_client (Some cfg1) (ex_cfg_nf ''a'') m' w' = (Inr (), m', w')"
proof -
  let ?m = "record_applied (''default'', ''old'') (''default'', ''a'') \<lparr>as_resourceVersion = ''9'', as_entries = []\<rparr> new_cfg_manager"
  have p: "p4runtime (sc_P4Client ex_client) ex_state" by (simp add: ex_switch_p4runtime)
  have run: "EnsurePresentConfigForNF ex_client (Some ex_cfg) (ex_cfg_nf ''nf'') ?m ex_loaded =
      (Inr (), record_applied (meta_key ex_cfg) (meta_key (ex_cfg_nf ''nf'')) \<lparr>as_resourceVersion = ''17'', as_entries = ex_entries\<rparr> ?m, ex_stored)"
    by (rule ex_EnsurePresent) (simp add: record_applied_def new_cfg_manager_def meta_key_def ex_cfg_nf_def)
  have "ex_stored \<noteq> ex_loaded" by (simp add: ex_stored_def ex_loaded_def)
  from second_config_displaces_first [OF p _ _ _ run this, of "ex_cfg_nf ''a''" "\<lparr>as_resourceVersion = ''9'', as_entries = []\<rparr>"
      "ex_cfg\<lparr>om_Name := ''old'', nfc_ResourceVersion := ''9''\<rparr>"]
  show ?thesis unfolding Let_def run by (simp add: record_applied_def meta_key_def ex_cfg_nf_def)
qed
end
