(* ===== verification/NfManager.thy ===== *)
theory NfManager
  imports P4Switch
begin

text \<open>
  The manager of network functions in the BMv2 driver (\<open>src/targets/bmv2/managers/nf\<close>): the handle that
  reports the progress of one operation, and the manager that deploys and deletes functions in
  goroutines. Handles are shared between the manager, its callers and the goroutines, so they live in
  an explicit store. The compiler, the kernel's interface configuration and the switch are parameters.
\<close>

section \<open>Handles\<close>

datatype Phase =
    PhaseCompiling | PhasePreCheck | PhaseDeploying | PhaseNetworkSetup | PhaseReady
  | PhaseDraining | PhaseDeleting | PhaseDeleted
  | PhasePending | PhaseFailed | PhaseCanceled

definition isTerminal :: "Phase \<Rightarrow> bool" where
  "isTerminal p \<longleftrightarrow> p = PhaseReady \<or> p = PhaseFailed \<or> p = PhaseCanceled \<or> p = PhaseDeleted"

record DeploymentStatus =
  ds_Phase :: Phase
  ds_Message :: string
  ds_Err :: "go_error option"

text \<open>
  A handle: its status, the unread events of its channel, whether the two channels are closed, and
  whether its context is cancelled.
\<close>

record deploymentHandle =
  dh_status :: DeploymentStatus
  dh_events :: "DeploymentStatus list"
  dh_closed :: bool
  dh_done :: bool
  dh_cancelled :: bool

definition newDeploymentHandle :: deploymentHandle where
  "newDeploymentHandle =
     \<lparr>dh_status = \<lparr>ds_Phase = PhasePending, ds_Message = '''', ds_Err = None\<rparr>,
      dh_events = [], dh_closed = False, dh_done = False, dh_cancelled = False\<rparr>"

text \<open>The part of \<open>transition\<close> under the lock; \<open>None\<close> is the early return.\<close>

definition set_status :: "deploymentHandle \<Rightarrow> DeploymentStatus \<Rightarrow> deploymentHandle option" where
  "set_status h st = (if isTerminal (ds_Phase (dh_status h)) then None else Some (h\<lparr>dh_status := st\<rparr>))"

text \<open>
  A send on the buffered channel that never blocks: a full buffer drops the event, and the panic of a
  send on a closed channel is recovered.
\<close>

definition emitEvent :: "deploymentHandle \<Rightarrow> DeploymentStatus \<Rightarrow> deploymentHandle" where
  "emitEvent h ev = (if dh_closed h \<or> length (dh_events h) \<ge> 10 then h else h\<lparr>dh_events := dh_events h @ [ev]\<rparr>)"

text \<open>\<open>once\<close> makes a second call a no-op, as it is here.\<close>

definition finish :: "deploymentHandle \<Rightarrow> deploymentHandle" where
  "finish h = h\<lparr>dh_done := True, dh_closed := True\<rparr>"

definition transition :: "deploymentHandle \<Rightarrow> Phase \<Rightarrow> string \<Rightarrow> go_error option \<Rightarrow> deploymentHandle" where
  "transition h phase msg err =
     (let st = \<lparr>ds_Phase = phase, ds_Message = msg, ds_Err = err\<rparr> in
      case set_status h st of
        None \<Rightarrow> h
      | Some h1 \<Rightarrow>
          (let h2 = emitEvent h1 st
           in if isTerminal phase then finish h2 else h2))"

definition Cancel :: "deploymentHandle \<Rightarrow> deploymentHandle" where
  "Cancel h = transition (h\<lparr>dh_cancelled := True\<rparr>) PhaseCanceled ''deployment canceled'' (Some (TypedError ''context canceled''))"

section \<open>Interleaved transitions of one handle\<close>

text \<open>
  Several goroutines may be inside \<open>transition\<close> at once, since only its first part holds the lock. The
  pending list holds, for each of them, the status it stored and whether it has sent its event.
\<close>

type_synonym handle_state = "deploymentHandle \<times> (DeploymentStatus \<times> bool) list"

inductive handle_step :: "handle_state \<Rightarrow> handle_state \<Rightarrow> bool" where
  hs_store: "set_status h st = Some h' \<Longrightarrow> handle_step (h, ps) (h', ps @ [(st, False)])"
| hs_refuse: "set_status h st = None \<Longrightarrow> handle_step (h, ps) (h, ps)"
| hs_emit: "handle_step (h, ps @ (st, False) # qs)
    (emitEvent h st, if isTerminal (ds_Phase st) then ps @ (st, True) # qs else ps @ qs)"
| hs_finish: "handle_step (h, ps @ (st, True) # qs) (finish h, ps @ qs)"
| hs_cancel: "handle_step (h, ps) (h\<lparr>dh_cancelled := True\<rparr>, ps)"
| hs_receive: "dh_events h = ev # evs \<Longrightarrow> handle_step (h, ps) (h\<lparr>dh_events := evs\<rparr>, ps)"

text \<open>
  The channels are closed, or exactly one goroutine is about to close them, if and only if the status
  is terminal.
\<close>

definition closers :: "(DeploymentStatus \<times> bool) list \<Rightarrow> nat" where
  "closers ps = length (filter (\<lambda>(st, _). isTerminal (ds_Phase st)) ps)"

definition handle_inv :: "handle_state \<Rightarrow> bool" where
  "handle_inv s \<longleftrightarrow> (case s of (h, ps) \<Rightarrow>
     dh_done h = dh_closed h \<and> length (dh_events h) \<le> 10 \<and>
     (\<forall>(st, sent) \<in> set ps. sent \<longrightarrow> isTerminal (ds_Phase st)) \<and>
     closers ps + (if dh_done h then 1 else 0) = (if isTerminal (ds_Phase (dh_status h)) then 1 else 0))"

lemma closers_simps [simp]:
  "closers [] = 0"
  "closers (ps @ qs) = closers ps + closers qs"
  "closers ((st, b) # ps) = (if isTerminal (ds_Phase st) then 1 else 0) + closers ps"
  by (simp_all add: closers_def)

lemma emitEvent_fields [simp]:
  "dh_status (emitEvent h ev) = dh_status h" "dh_done (emitEvent h ev) = dh_done h" "dh_closed (emitEvent h ev) = dh_closed h"
  by (simp_all add: emitEvent_def)

lemma emitEvent_length: "length (dh_events h) \<le> 10 \<Longrightarrow> length (dh_events (emitEvent h ev)) \<le> 10"
  by (simp add: emitEvent_def)

lemma handle_step_inv: "handle_step s s' \<Longrightarrow> handle_inv s \<Longrightarrow> handle_inv s'"
proof (induction rule: handle_step.induct)
  case (hs_store h st h' ps)
  then show ?case by (auto simp: handle_inv_def set_status_def split: if_splits)
next
  case (hs_emit h ps st qs)
  then show ?case using emitEvent_length [of h st] by (auto simp: handle_inv_def split: if_splits)
next
  case (hs_finish h ps st qs)
  then show ?case by (auto simp: handle_inv_def finish_def split: if_splits)
qed (auto simp: handle_inv_def split: if_splits)

lemma handle_steps_inv: "handle_step\<^sup>*\<^sup>* s s' \<Longrightarrow> handle_inv s \<Longrightarrow> handle_inv s'"
  by (induction rule: rtranclp_induct) (auto intro: handle_step_inv)

lemma handle_step_terminal:
  "handle_step s s' \<Longrightarrow> isTerminal (ds_Phase (dh_status (fst s))) \<Longrightarrow> dh_status (fst s') = dh_status (fst s)"
  by (induction rule: handle_step.induct) (auto simp: set_status_def finish_def split: if_splits)

lemma handle_steps_terminal:
  "handle_step\<^sup>*\<^sup>* s s' \<Longrightarrow> isTerminal (ds_Phase (dh_status (fst s))) \<Longrightarrow> dh_status (fst s') = dh_status (fst s)"
  by (induction rule: rtranclp_induct) (auto dest: handle_step_terminal)

section \<open>The outside world of the manager\<close>

text \<open>\<open>base64.StdEncoding.DecodeString\<close>: line breaks are skipped, the last group may be padded.\<close>

definition b64_val :: "char \<Rightarrow> nat option" where
  "b64_val c =
     (let n = of_char c :: nat
      in if 65 \<le> n \<and> n \<le> 90 then Some (n - 65)
         else if 97 \<le> n \<and> n \<le> 122 then Some (n - 71)
         else if 48 \<le> n \<and> n \<le> 57 then Some (n + 4)
         else if c = CHR ''+'' then Some 62
         else if c = CHR ''/'' then Some 63 else None)"

definition b64_bytes :: "nat \<Rightarrow> nat \<Rightarrow> nat \<Rightarrow> nat \<Rightarrow> bytes" where
  "b64_bytes a b c d = [of_nat (4 * a + b div 16), of_nat (16 * (b mod 16) + c div 4), of_nat (64 * (c mod 4) + d)]"

fun b64_groups :: "string \<Rightarrow> bytes option" where
  "b64_groups [] = Some []"
| "b64_groups (a # b # c # d # s) =
     (case (b64_val a, b64_val b) of
        (Some x, Some y) \<Rightarrow>
          if c = CHR ''='' then (if d = CHR ''='' \<and> s = [] then Some (take 1 (b64_bytes x y 0 0)) else None)
          else (case b64_val c of
                  None \<Rightarrow> None
                | Some z \<Rightarrow>
                    if d = CHR ''='' then (if s = [] then Some (take 2 (b64_bytes x y z 0)) else None)
                    else (case (b64_val d, b64_groups s) of
                            (Some u, Some bs) \<Rightarrow> Some (b64_bytes x y z u @ bs)
                          | _ \<Rightarrow> None))
      | _ \<Rightarrow> None)"
| "b64_groups _ = None"

definition base64_DecodeString :: "string \<Rightarrow> bytes option" where
  "base64_DecodeString s = b64_groups (filter (\<lambda>c. of_char c \<noteq> (10 :: nat) \<and> of_char c \<noteq> (13 :: nat)) s)"

definition LoadP4ProgramFromBase64 :: "string \<Rightarrow> string \<Rightarrow> go_error + P4Program" where
  "LoadP4ProgramFromBase64 encodedProgram programName =
     (case base64_DecodeString encodedProgram of
        None \<Rightarrow> Inl (Errorf ''failed to decode base64 program'' None)
      | Some b \<Rightarrow> Inr \<lparr>pg_P4DeviceConfig = b, pg_ProgramName = programName, pg_P4Info = None, pg_IP = zero_prefix\<rparr>)"

text \<open>\<open>net.CIDRMask\<close>; nil is the empty list, as for the bytes of an invalid address.\<close>

definition CIDRMask :: "int \<Rightarrow> int \<Rightarrow> bytes" where
  "CIDRMask ones bits =
     (if (bits \<noteq> 32 \<and> bits \<noteq> 128) \<or> ones < 0 \<or> ones > bits then []
      else map (\<lambda>i. let k = nat ones - 8 * i in if k \<ge> 8 then 255 else of_nat (255 - (2 ^ (8 - k) - 1))) [0..<nat (bits div 8)])"

fun addr_AsSlice :: "addr \<Rightarrow> bytes" where
  "addr_AsSlice NoAddr = []"
| "addr_AsSlice (V4 a) = map (\<lambda>k. ucast (drop_bit (8 * (3 - k)) a)) [0..<4]"
| "addr_AsSlice (V6 a _) = bytes_of a"

type_synonym ip_net = "bytes \<times> bytes"

text \<open>
  The calls to the kernel (\<open>vishvananda/netlink\<close>) and to the compiler, over the same state \<open>'w\<close> as the
  switch.
\<close>

record 'w driver_env =
  de_LinkByName :: "'w \<Rightarrow> string \<Rightarrow> go_error + int"
  de_AddrAdd :: "'w \<Rightarrow> int \<Rightarrow> ip_net \<Rightarrow> (go_error + unit) \<times> 'w"
  de_AddrDel :: "'w \<Rightarrow> int \<Rightarrow> ip_net \<Rightarrow> (go_error + unit) \<times> 'w"
  de_CompileFromURL :: "'w \<Rightarrow> string \<Rightarrow> go_error + (bytes \<times> P4Info)"
  de_Switch :: "'w SwitchClient"

section \<open>The manager\<close>

datatype operationType = opPresent | opAbsent

record trackedOp =
  to_handle :: nat
  to_opType :: operationType

record NfManager =
  nm_nfInterface :: string
  nm_maxNFSlots :: int
  nm_programs :: "nsname \<rightharpoonup> P4Program"
  nm_ops :: "nsname \<rightharpoonup> trackedOp"
  nm_handles :: "nat \<Rightarrow> deploymentHandle"
  nm_next :: nat

definition with_handle :: "nat \<Rightarrow> (deploymentHandle \<Rightarrow> deploymentHandle) \<Rightarrow> NfManager \<Rightarrow> NfManager" where
  "with_handle h f m = m\<lparr>nm_handles := (nm_handles m)(h := f (nm_handles m h))\<rparr>"

abbreviation move :: "nat \<Rightarrow> Phase \<Rightarrow> string \<Rightarrow> go_error option \<Rightarrow> NfManager \<Rightarrow> NfManager" where
  "move h p msg err m \<equiv> with_handle h (\<lambda>d. transition d p msg err) m"

text \<open>The goroutines the manager starts.\<close>

datatype job = JobDeploy nat NetworkFunction prefix | JobDelete nat nsname

definition track :: "nsname \<Rightarrow> operationType \<Rightarrow> NfManager \<Rightarrow> nat \<times> NfManager" where
  "track key t m =
     (nm_next m, m\<lparr>nm_handles := (nm_handles m)(nm_next m := newDeploymentHandle), nm_next := nm_next m + 1,
                   nm_ops := (nm_ops m)(key \<mapsto> \<lparr>to_handle = nm_next m, to_opType = t\<rparr>)\<rparr>)"

text \<open>
  The two operations return the handle and the goroutine they start, if any; an operation of the other
  kind that was tracked for the function is cancelled first.
\<close>

definition ensure_op :: "nsname \<Rightarrow> operationType \<Rightarrow> (nat \<Rightarrow> job) \<Rightarrow> NfManager \<Rightarrow> nat \<times> job option \<times> NfManager" where
  "ensure_op key t start m =
     (case nm_ops m key of
        Some existing \<Rightarrow>
          if to_opType existing = t then (to_handle existing, None, m)
          else (let (h, m1) = track key t (with_handle (to_handle existing) Cancel m) in (h, Some (start h), m1))
      | None \<Rightarrow> (let (h, m1) = track key t m in (h, Some (start h), m1)))"

definition EnsurePresent :: "NetworkFunction \<Rightarrow> prefix \<Rightarrow> NfManager \<Rightarrow> nat \<times> job option \<times> NfManager" where
  "EnsurePresent nf nfIP m = ensure_op (meta_key nf) opPresent (\<lambda>h. JobDeploy h nf nfIP) m"

definition EnsureAbsent :: "nsname \<Rightarrow> NfManager \<Rightarrow> nat \<times> job option \<times> NfManager" where
  "EnsureAbsent nfKey m = ensure_op nfKey opAbsent (\<lambda>h. JobDelete h nfKey) m"

definition handle_phase :: "NfManager \<Rightarrow> trackedOp \<Rightarrow> Phase" where
  "handle_phase m op = ds_Phase (dh_status (nm_handles m (to_handle op)))"

text \<open>The keys of the functions that count as deployed; the operations map is finite.\<close>

definition ready_keys :: "NfManager \<Rightarrow> nsname set" where
  "ready_keys m = {k. \<exists>op. nm_ops m k = Some op \<and> to_opType op = opPresent \<and> handle_phase m op = PhaseReady}"

definition GetDeployedNetworkFunctions :: "'w driver_env \<Rightarrow> NfManager \<Rightarrow> 'w \<Rightarrow> go_error + nsname set" where
  "GetDeployedNetworkFunctions env m w =
     (case GetPipeline (de_Switch env) w of
        Inl err \<Rightarrow> Inl (Wrapf ''querying switch pipeline'' err)
      | Inr None \<Rightarrow> Inr {}
      | Inr (Some cfg) \<Rightarrow> if pl_P4DeviceConfig cfg = [] then Inr {} else Inr (ready_keys m))"

definition has_prefix :: "string \<Rightarrow> string \<Rightarrow> bool" where
  "has_prefix s p \<longleftrightarrow> take (length p) s = p"

definition compile :: "'w driver_env \<Rightarrow> NetworkFunction \<Rightarrow> 'w \<Rightarrow> NfManager \<Rightarrow> (go_error + unit) \<times> NfManager" where
  "compile env nf w m =
     (let p4File = nfs_P4File (nf_Spec nf);
          program =
            (if has_prefix p4File ''http://'' \<or> has_prefix p4File ''https://'' \<or> has_prefix p4File ''s3://''
             then (case de_CompileFromURL env w p4File of
                     Inl err \<Rightarrow> Inl err
                   | Inr (cfg, info) \<Rightarrow>
                       Inr \<lparr>pg_P4DeviceConfig = cfg, pg_ProgramName = om_Name nf, pg_P4Info = Some info, pg_IP = zero_prefix\<rparr>)
             else LoadP4ProgramFromBase64 p4File (om_Name nf))
      in case program of
           Inl err \<Rightarrow> (Inl err, m)
         | Inr p \<Rightarrow> (Inr (), m\<lparr>nm_programs := (nm_programs m)(meta_key nf \<mapsto> p)\<rparr>))"

definition preCheck :: "NfManager \<Rightarrow> go_error + unit" where
  "preCheck m =
     (if nm_maxNFSlots m - int (card (ready_keys m)) \<le> 0 then Inl (Errorf ''no available NF slots on target'' None)
      else Inr ())"

definition deploy :: "'w driver_env \<Rightarrow> NetworkFunction \<Rightarrow> NfManager \<Rightarrow> 'w \<Rightarrow> (go_error + unit) \<times> 'w" where
  "deploy env nf m w =
     (case nm_programs m (meta_key nf) of
        None \<Rightarrow> (Inl (Errorf ''no compiled program'' None), w)
      | Some program \<Rightarrow>
          (case GetPipeline (de_Switch env) w of
             Inr (Some cfg) \<Rightarrow> if pl_P4DeviceConfig cfg = pg_P4DeviceConfig program then (Inr (), w)
                               else DeployPipeline (de_Switch env) program w
           | _ \<Rightarrow> DeployPipeline (de_Switch env) program w))"

definition nf_addr :: "prefix \<Rightarrow> ip_net" where
  "nf_addr nfIP = (addr_AsSlice (addr_Unmap (pfx_ip nfIP)), CIDRMask (pfx_bits nfIP) (addr_BitLen (pfx_ip nfIP)))"

definition configureTraffic :: "'w driver_env \<Rightarrow> prefix \<Rightarrow> string \<Rightarrow> 'w \<Rightarrow> (go_error + unit) \<times> 'w" where
  "configureTraffic env nfIP nfIfaceName w =
     (case de_LinkByName env w nfIfaceName of
        Inl err \<Rightarrow> (Inl (Wrapf ''failed to get NF interface'' err), w)
      | Inr nfInterface \<Rightarrow>
          (case de_AddrAdd env w nfInterface (nf_addr nfIP) of
             (Inl err, w1) \<Rightarrow> (Inl (Wrapf ''failed to add address for NF IP'' err), w1)
           | (Inr _, w1) \<Rightarrow> (Inr (), w1)))"

definition setupNetworkForwarding ::
  "'w driver_env \<Rightarrow> NetworkFunction \<Rightarrow> prefix \<Rightarrow> NfManager \<Rightarrow> 'w \<Rightarrow> (go_error + unit) \<times> NfManager \<times> 'w" where
  "setupNetworkForwarding env nf ip m w =
     (case nm_programs m (meta_key nf) of
        None \<Rightarrow> (Inl (Errorf ''invalid parameters for setting up network forwarding'' None), m, w)
      | Some program \<Rightarrow>
          if nm_nfInterface m = '''' \<or> \<not> prefix_IsValid ip
          then (Inl (Errorf ''invalid parameters for setting up network forwarding'' None), m, w)
          else (case configureTraffic env ip (nm_nfInterface m) w of
                  (Inl err, w1) \<Rightarrow> (Inl (Wrapf ''could not configure traffic forwarding for NF'' err), m, w1)
                | (Inr _, w1) \<Rightarrow>
                    (Inr (), m\<lparr>nm_programs := (nm_programs m)(meta_key nf \<mapsto> program\<lparr>pg_IP := ip\<rparr>)\<rparr>, w1)))"

definition teardownNetworkForwarding :: "'w driver_env \<Rightarrow> prefix \<Rightarrow> string \<Rightarrow> 'w \<Rightarrow> (go_error + unit) \<times> 'w" where
  "teardownNetworkForwarding env nfIP nfIfaceName w =
     (case de_LinkByName env w nfIfaceName of
        Inl err \<Rightarrow> (Inl (Wrapf ''failed to get NF interface'' err), w)
      | Inr nfInterface \<Rightarrow>
          (case de_AddrDel env w nfInterface (nf_addr nfIP) of
             (Inl err, w1) \<Rightarrow> (Inl (Wrapf ''failed to delete address for NF IP'' err), w1)
           | (Inr _, w1) \<Rightarrow> (Inr (), w1)))"

definition drain :: "nsname \<Rightarrow> go_error + unit" where
  "drain nfKey = Inr ()"

definition deleteResources :: "'w driver_env \<Rightarrow> nsname \<Rightarrow> NfManager \<Rightarrow> 'w \<Rightarrow> (go_error + unit) \<times> NfManager \<times> 'w" where
  "deleteResources env nfKey m w =
     (case nm_ops m nfKey of
        None \<Rightarrow> (Inr (), m, w)
      | Some nfOps \<Rightarrow>
     case nm_programs m nfKey of
        None \<Rightarrow> (Inr (), m\<lparr>nm_ops := (nm_ops m)(nfKey := None)\<rparr>, w)
      | Some program \<Rightarrow>
          if to_opType nfOps = opPresent \<and> handle_phase m nfOps \<noteq> PhaseReady
          then (Inr (), m\<lparr>nm_ops := (nm_ops m)(nfKey := None), nm_programs := (nm_programs m)(nfKey := None)\<rparr>, w)
          else (case teardownNetworkForwarding env (pg_IP program) (nm_nfInterface m) w of
                  (Inl err, w1) \<Rightarrow> (Inl (Wrapf ''tearing down network forwarding'' err), m, w1)
                | (Inr _, w1) \<Rightarrow>
                    (case ResetPipeline (de_Switch env) w1 of
                       (Inl err, w2) \<Rightarrow> (Inl (Wrapf ''resetting forwarding pipeline'' err), m, w2)
                     | (Inr _, w2) \<Rightarrow> (Inr (), m, w2))))"

section \<open>Goroutines\<close>

text \<open>
  A goroutine holds the lock of the manager from its first to its last phase. Between two phases, the
  unlocked \<open>EnsurePresent\<close> and \<open>EnsureAbsent\<close> may run and cancel its handle. One step is one phase:
  the transition that announces it, its work, and the transition to \<open>PhaseFailed\<close> if that failed.
\<close>

datatype stage = StCompile | StPreCheck | StDeploy | StNetwork | StReady | StDrain | StDelete | StDeleted

definition fail_or :: "nat \<Rightarrow> string \<Rightarrow> go_error + unit \<Rightarrow> stage \<Rightarrow> NfManager \<Rightarrow> stage option \<times> NfManager" where
  "fail_or h msg r nxt m = (case r of Inl err \<Rightarrow> (None, move h PhaseFailed msg (Some err) m) | Inr _ \<Rightarrow> (Some nxt, m))"

fun job_step :: "'w driver_env \<Rightarrow> job \<Rightarrow> stage \<Rightarrow> NfManager \<Rightarrow> 'w \<Rightarrow> stage option \<times> NfManager \<times> 'w" where
  "job_step env (JobDeploy h nf ip) StCompile m w =
     (let m1 = move h PhaseCompiling ''compiling network function'' None m;
          (r, m2) = compile env nf w m1; (s, m3) = fail_or h ''compilation failed'' r StPreCheck m2 in (s, m3, w))"
| "job_step env (JobDeploy h nf ip) StPreCheck m w =
     (let m1 = move h PhasePreCheck ''running pre-deployment checks'' None m;
          (s, m2) = fail_or h ''pre-check failed'' (preCheck m1) StDeploy m1 in (s, m2, w))"
| "job_step env (JobDeploy h nf ip) StDeploy m w =
     (let m1 = move h PhaseDeploying ''deploying network function'' None m;
          (r, w1) = deploy env nf m1 w; (s, m2) = fail_or h ''deployment failed'' r StNetwork m1 in (s, m2, w1))"
| "job_step env (JobDeploy h nf ip) StNetwork m w =
     (let m1 = move h PhaseNetworkSetup ''setting up network forwarding'' None m;
          (r, m2, w1) = setupNetworkForwarding env nf ip m1 w;
          (s, m3) = fail_or h ''network setup failed'' r StReady m2 in (s, m3, w1))"
| "job_step env (JobDeploy h nf ip) StReady m w = (None, move h PhaseReady ''network function ready'' None m, w)"
| "job_step env (JobDelete h key) StDrain m w =
     (let m1 = move h PhaseDraining ''draining traffic'' None m;
          (s, m2) = fail_or h ''drain failed'' (drain key) StDelete m1 in (s, m2, w))"
| "job_step env (JobDelete h key) StDelete m w =
     (let m1 = move h PhaseDeleting ''removing resources'' None m;
          (r, m2, w1) = deleteResources env key m1 w;
          (s, m3) = fail_or h ''deletion failed'' r StDeleted m2 in (s, m3, w1))"
| "job_step env (JobDelete h key) StDeleted m w = (None, move h PhaseDeleted ''successfully deleted'' None m, w)"
| "job_step env _ _ m w = (None, m, w)"

fun first_stage :: "job \<Rightarrow> stage" where
  "first_stage (JobDeploy _ _ _) = StCompile"
| "first_stage (JobDelete _ _) = StDrain"

text \<open>A goroutine that is not interrupted: its phases in order. No goroutine has more than five.\<close>

fun run_stages :: "nat \<Rightarrow> 'w driver_env \<Rightarrow> job \<Rightarrow> stage option \<Rightarrow> NfManager \<Rightarrow> 'w \<Rightarrow> stage option \<times> NfManager \<times> 'w" where
  "run_stages 0 env j s m w = (s, m, w)"
| "run_stages (Suc n) env j s m w =
     (case s of None \<Rightarrow> (None, m, w) | Some st \<Rightarrow> (let (s', m', w') = job_step env j st m w in run_stages n env j s' m' w'))"

definition run_job :: "'w driver_env \<Rightarrow> job \<Rightarrow> NfManager \<Rightarrow> 'w \<Rightarrow> NfManager \<times> 'w" where
  "run_job env j m w = snd (run_stages 5 env j (Some (first_stage j)) m w)"

section \<open>Interleaving\<close>

text \<open>
  A state of the driver: the manager, the goroutines that wait for its lock, the one that holds it
  with its next phase, and the world, which may also change by itself.
\<close>

type_synonym 'w nm_state = "NfManager \<times> job list \<times> (job \<times> stage) option \<times> 'w"

definition spawn :: "job option \<Rightarrow> job list \<Rightarrow> job list" where
  "spawn j js = (case j of None \<Rightarrow> js | Some x \<Rightarrow> js @ [x])"

inductive nm_step :: "'w driver_env \<Rightarrow> 'w nm_state \<Rightarrow> 'w nm_state \<Rightarrow> bool" for env :: "'w driver_env" where
  nm_present: "EnsurePresent nf ip m = (h, j, m') \<Longrightarrow> nm_step env (m, js, r, w) (m', spawn j js, r, w)"
| nm_absent: "EnsureAbsent k m = (h, j, m') \<Longrightarrow> nm_step env (m, js, r, w) (m', spawn j js, r, w)"
| nm_start: "nm_step env (m, js @ j # ks, None, w) (m, js @ ks, Some (j, first_stage j), w)"
| nm_phase: "job_step env j st m w = (s', m', w') \<Longrightarrow>
    nm_step env (m, js, Some (j, st), w) (m', js, map_option (Pair j) s', w')"
| nm_world: "nm_step env (m, js, r, w) (m, js, r, w')"

text \<open>
  The operations have pairwise different handles, of finitely many functions, and there are never
  more functions ready than the target has slots; while a deployment that passed its check is under
  way, one slot is still free.
\<close>

definition ops_ok :: "NfManager \<Rightarrow> bool" where
  "ops_ok m \<longleftrightarrow> finite (dom (nm_ops m)) \<and> (\<forall>k op. nm_ops m k = Some op \<longrightarrow> to_handle op < nm_next m) \<and>
     (\<forall>k k' op op'. nm_ops m k = Some op \<and> nm_ops m k' = Some op' \<and> to_handle op = to_handle op' \<longrightarrow> k = k')"

fun reserved :: "(job \<times> stage) option \<Rightarrow> bool" where
  "reserved (Some (JobDeploy _ _ _, st)) = (st \<in> {StDeploy, StNetwork, StReady})"
| "reserved _ = False"

definition slots_inv :: "int \<Rightarrow> 'w nm_state \<Rightarrow> bool" where
  "slots_inv slots s \<longleftrightarrow> (case s of (m, js, r, w) \<Rightarrow>
     ops_ok m \<and> nm_maxNFSlots m = slots \<and>
     int (card (ready_keys m)) + (if reserved r then 1 else 0) \<le> slots)"

lemma transition_phase:
  "ds_Phase (dh_status (transition h p msg err)) = (if isTerminal (ds_Phase (dh_status h)) then ds_Phase (dh_status h) else p)"
  by (simp add: transition_def set_status_def Let_def finish_def)

lemma transition_terminal: "isTerminal (ds_Phase (dh_status h)) \<Longrightarrow> transition h p msg err = h"
  by (simp add: transition_def set_status_def)

lemma isTerminal_simps [simp]:
  "isTerminal PhaseReady" "isTerminal PhaseFailed" "isTerminal PhaseCanceled" "isTerminal PhaseDeleted"
  "\<not> isTerminal PhaseCompiling" "\<not> isTerminal PhasePreCheck" "\<not> isTerminal PhaseDeploying" "\<not> isTerminal PhaseNetworkSetup"
  "\<not> isTerminal PhaseDraining" "\<not> isTerminal PhaseDeleting" "\<not> isTerminal PhasePending"
  by (simp_all add: isTerminal_def)

lemma Cancel_phase:
  "ds_Phase (dh_status (Cancel h)) = (if isTerminal (ds_Phase (dh_status h)) then ds_Phase (dh_status h) else PhaseCanceled)"
  by (simp add: Cancel_def transition_phase)

lemma with_handle_fields [simp]:
  "nm_ops (with_handle h f m) = nm_ops m" "nm_next (with_handle h f m) = nm_next m"
  "nm_maxNFSlots (with_handle h f m) = nm_maxNFSlots m" "nm_programs (with_handle h f m) = nm_programs m"
  "nm_nfInterface (with_handle h f m) = nm_nfInterface m"
  "nm_handles (with_handle h f m) h = f (nm_handles m h)"
  "h' \<noteq> h \<Longrightarrow> nm_handles (with_handle h f m) h' = nm_handles m h'"
  by (simp_all add: with_handle_def)

lemma ready_keys_finite: "ops_ok m \<Longrightarrow> finite (ready_keys m)"
  by (rule finite_subset [of _ "dom (nm_ops m)"]) (auto simp: ready_keys_def ops_ok_def)

lemma handle_phase_with:
  "handle_phase (with_handle h f m) op = (if to_handle op = h then ds_Phase (dh_status (f (nm_handles m h))) else handle_phase m op)"
  by (simp add: handle_phase_def)

text \<open>A transition to another phase than \<open>PhaseReady\<close> changes nobody's readiness; so does cancelling.\<close>

lemma ready_keys_with:
  assumes "ds_Phase (dh_status (f (nm_handles m h))) = PhaseReady \<longleftrightarrow> ds_Phase (dh_status (nm_handles m h)) = PhaseReady"
  shows "ready_keys (with_handle h f m) = ready_keys m"
proof -
  have "handle_phase (with_handle h f m) op = PhaseReady \<longleftrightarrow> handle_phase m op = PhaseReady" for op
    using assms by (cases "to_handle op = h") (simp_all add: handle_phase_def)
  then show ?thesis by (simp add: ready_keys_def)
qed

lemma ready_keys_move: "p \<noteq> PhaseReady \<Longrightarrow> ready_keys (move h p msg err m) = ready_keys m"
  by (rule ready_keys_with) (auto simp: transition_phase isTerminal_def)

lemma ready_keys_Cancel: "ready_keys (with_handle h Cancel m) = ready_keys m"
  by (rule ready_keys_with) (auto simp: Cancel_phase isTerminal_def)

lemma ready_keys_Ready:
  assumes "ops_ok m"
  shows "card (ready_keys (move h PhaseReady msg err m)) \<le> card (ready_keys m) + 1"
proof -
  have "\<exists>k. ready_keys (move h PhaseReady msg err m) \<subseteq> insert k (ready_keys m)"
  proof (cases "\<exists>k op. nm_ops m k = Some op \<and> to_handle op = h")
    case True
    then obtain k op where k: "nm_ops m k = Some op" "to_handle op = h" by blast
    then have "k' = k" if "nm_ops m k' = Some op'" "to_handle op' = h" for k' op'
      using that assms unfolding ops_ok_def by blast
    then have "ready_keys (move h PhaseReady msg err m) \<subseteq> insert k (ready_keys m)"
      by (auto simp: ready_keys_def handle_phase_with split: if_splits)
    then show ?thesis by blast
  next
    case False
    then have "ready_keys (move h PhaseReady msg err m) \<subseteq> ready_keys m"
      by (auto simp: ready_keys_def handle_phase_with split: if_splits)
    then show ?thesis by blast
  qed
  then obtain k where "ready_keys (move h PhaseReady msg err m) \<subseteq> insert k (ready_keys m)" by blast
  moreover have "finite (insert k (ready_keys m))" using ready_keys_finite [OF assms] by simp
  ultimately have "card (ready_keys (move h PhaseReady msg err m)) \<le> card (insert k (ready_keys m))" by (rule card_mono [rotated])
  also have "\<dots> \<le> card (ready_keys m) + 1" by (simp add: card_insert_le_m1 card_insert_if ready_keys_finite [OF assms])
  finally show ?thesis .
qed

lemma ops_ok_with [simp]: "ops_ok (with_handle h f m) = ops_ok m"
  by (simp add: ops_ok_def)

text \<open>A new operation for a function is never ready at once.\<close>

lemma track_ready:
  assumes "ops_ok m" "track k t m = (h, m')"
  shows "ops_ok m'" "ready_keys m' = ready_keys m - {k}" "nm_maxNFSlots m' = nm_maxNFSlots m"
proof -
  have m': "h = nm_next m" "m' = m\<lparr>nm_handles := (nm_handles m)(nm_next m := newDeploymentHandle), nm_next := nm_next m + 1,
      nm_ops := (nm_ops m)(k \<mapsto> \<lparr>to_handle = nm_next m, to_opType = t\<rparr>)\<rparr>" using assms(2) by (auto simp: track_def)
  have fresh: "to_handle op \<noteq> nm_next m" if "nm_ops m k' = Some op" for k' op
    using assms(1) that unfolding ops_ok_def by (metis less_irrefl)
  show "ops_ok m'" using assms(1) fresh unfolding ops_ok_def m' by (auto simp: less_Suc_eq split: if_splits; metis)
  show "nm_maxNFSlots m' = nm_maxNFSlots m" by (simp add: m')
  show "ready_keys m' = ready_keys m - {k}"
    using fresh by (auto simp: ready_keys_def handle_phase_def m' newDeploymentHandle_def split: if_splits)
qed

lemma ensure_op_ready:
  assumes "ops_ok m" "ensure_op k t start m = (h, j, m')"
  shows "ops_ok m' \<and> ready_keys m' \<subseteq> ready_keys m \<and> nm_maxNFSlots m' = nm_maxNFSlots m"
proof (cases "\<exists>op. nm_ops m k = Some op \<and> to_opType op = t")
  case True
  then show ?thesis using assms by (auto simp: ensure_op_def)
next
  case False
  then obtain m0 where t: "track k t m0 = (h, m')" and m0: "m0 = m \<or> (\<exists>e. m0 = with_handle e Cancel m)"
    using assms(2) by (auto simp: ensure_op_def split: option.splits prod.splits if_splits)
  then have "ops_ok m0" "ready_keys m0 = ready_keys m" "nm_maxNFSlots m0 = nm_maxNFSlots m"
    using assms(1) by (auto simp: ready_keys_Cancel)
  then show ?thesis using track_ready [OF _ t] by auto
qed

text \<open>What the phases leave alone: only deletions change the operations, and they only remove some.\<close>

definition same_ops :: "NfManager \<Rightarrow> NfManager \<Rightarrow> bool" where
  "same_ops m m' \<longleftrightarrow> nm_ops m' \<subseteq>\<^sub>m nm_ops m \<and> nm_handles m' = nm_handles m \<and> nm_next m' = nm_next m \<and>
     nm_maxNFSlots m' = nm_maxNFSlots m"

lemma same_ops_refl [simp]: "same_ops m m"
  by (simp add: same_ops_def)

lemma compile_same: "compile env nf w m = (r, m') \<Longrightarrow> same_ops m m'"
  by (auto simp: compile_def same_ops_def Let_def split: sum.splits if_splits)

lemma setup_same: "setupNetworkForwarding env nf ip m w = (r, m', w') \<Longrightarrow> same_ops m m'"
  by (auto simp: setupNetworkForwarding_def same_ops_def split: option.splits if_splits prod.splits sum.splits)

lemma delete_same: "deleteResources env k m w = (r, m', w') \<Longrightarrow> same_ops m m'"
  by (auto simp: deleteResources_def same_ops_def map_le_def split: option.splits if_splits prod.splits sum.splits)

lemma same_ops_ok:
  assumes "same_ops m m'" "ops_ok m"
  shows "ops_ok m'" "ready_keys m' \<subseteq> ready_keys m" "nm_maxNFSlots m' = nm_maxNFSlots m"
proof -
  have le: "nm_ops m' k = Some op \<Longrightarrow> nm_ops m k = Some op" for k op
    using assms(1) unfolding same_ops_def map_le_def by (metis domI)
  have "dom (nm_ops m') \<subseteq> dom (nm_ops m)" using le by (auto simp: dom_def)
  then have "finite (dom (nm_ops m'))" using assms(2) by (auto simp: ops_ok_def intro: finite_subset)
  then show "ops_ok m'" using assms le unfolding ops_ok_def same_ops_def by metis
  show "ready_keys m' \<subseteq> ready_keys m" using assms(1) le by (auto simp: ready_keys_def handle_phase_def same_ops_def)
  show "nm_maxNFSlots m' = nm_maxNFSlots m" using assms(1) by (simp add: same_ops_def)
qed

text \<open>The general shape of a phase: announce it, work, and fail or go on.\<close>

lemma phase_slots:
  assumes "ops_ok m" "p \<noteq> PhaseReady" "same_ops (move h p msg None m) m2" "fail_or h emsg r nxt m2 = (s', m')"
  shows "ops_ok m' \<and> ready_keys m' \<subseteq> ready_keys m \<and> nm_maxNFSlots m' = nm_maxNFSlots m \<and> (s' = None \<or> s' = Some nxt)"
proof -
  have "ops_ok m2" "ready_keys m2 \<subseteq> ready_keys m" "nm_maxNFSlots m2 = nm_maxNFSlots m"
    using same_ops_ok [OF assms(3)] assms(1) ready_keys_move [OF assms(2)] by simp_all
  then show ?thesis using assms(4) by (auto simp: fail_or_def ready_keys_move split: sum.splits)
qed

lemma card_ready_mono: "ops_ok m \<Longrightarrow> ready_keys m' \<subseteq> ready_keys m \<Longrightarrow> card (ready_keys m') \<le> card (ready_keys m)"
  using ready_keys_finite by (intro card_mono)

lemma job_step_slots:
  assumes "job_step env j st m w = (s', m', w')" "ops_ok m" "nm_maxNFSlots m = slots"
    and "int (card (ready_keys m)) + (if reserved (Some (j, st)) then 1 else 0) \<le> slots"
  shows "ops_ok m' \<and> nm_maxNFSlots m' = slots \<and>
    int (card (ready_keys m')) + (if reserved (map_option (Pair j) s') then 1 else 0) \<le> slots"
proof -
  have keep: ?thesis if "ops_ok m' \<and> ready_keys m' \<subseteq> ready_keys m \<and> nm_maxNFSlots m' = nm_maxNFSlots m \<and> (s' = None \<or> s' = Some nxt)"
      "reserved (Some (j, nxt)) \<Longrightarrow> reserved (Some (j, st))" for nxt
    using that card_ready_mono [OF assms(2), of m'] assms(3,4) by (auto split: if_splits)
  show ?thesis
  proof (cases j)
    case (JobDeploy h nf ip)
    show ?thesis
    proof (cases st)
      case StCompile
      obtain r m2 where c: "compile env nf w (move h PhaseCompiling ''compiling network function'' None m) = (r, m2)" by force
      then have "fail_or h ''compilation failed'' r StPreCheck m2 = (s', m')"
        using assms(1) JobDeploy StCompile by (auto simp: Let_def split: prod.splits)
      from phase_slots [OF assms(2) _ compile_same [OF c] this] show ?thesis by (intro keep [of StPreCheck]) (auto simp: JobDeploy)
    next
      case StPreCheck
      let ?m1 = "move h PhasePreCheck ''running pre-deployment checks'' None m"
      have "fail_or h ''pre-check failed'' (preCheck ?m1) StDeploy ?m1 = (s', m')"
        using assms(1) JobDeploy StPreCheck by (auto simp: Let_def split: prod.splits)
      then show ?thesis using assms(2-4) JobDeploy
        by (auto simp: fail_or_def preCheck_def ready_keys_move split: if_splits)
    next
      case StDeploy
      obtain r w1 where "deploy env nf (move h PhaseDeploying ''deploying network function'' None m) w = (r, w1)" by force
      then have "fail_or h ''deployment failed'' r StNetwork (move h PhaseDeploying ''deploying network function'' None m) = (s', m')"
        using assms(1) JobDeploy StDeploy by (auto simp: Let_def split: prod.splits)
      from phase_slots [OF assms(2) _ same_ops_refl this] show ?thesis by (intro keep [of StNetwork]) (auto simp: JobDeploy StDeploy)
    next
      case StNetwork
      obtain r m2 w1 where c: "setupNetworkForwarding env nf ip (move h PhaseNetworkSetup ''setting up network forwarding'' None m) w = (r, m2, w1)"
        by (metis prod_cases3)
      then have "fail_or h ''network setup failed'' r StReady m2 = (s', m')"
        using assms(1) JobDeploy StNetwork by (auto simp: Let_def split: prod.splits)
      from phase_slots [OF assms(2) _ setup_same [OF c] this] show ?thesis by (intro keep [of StReady]) (auto simp: JobDeploy StNetwork)
    next
      case StReady
      then show ?thesis using assms JobDeploy ready_keys_Ready [OF assms(2), of h "''network function ready''" None] by auto
    qed (use assms JobDeploy in auto)
  next
    case (JobDelete h key)
    show ?thesis
    proof (cases st)
      case StDrain
      have "fail_or h ''drain failed'' (drain key) StDelete (move h PhaseDraining ''draining traffic'' None m) = (s', m')"
        using assms(1) JobDelete StDrain by (auto simp: Let_def split: prod.splits)
      from phase_slots [OF assms(2) _ same_ops_refl this] show ?thesis by (intro keep [of StDelete]) (auto simp: JobDelete)
    next
      case StDelete
      obtain r m2 w1 where c: "deleteResources env key (move h PhaseDeleting ''removing resources'' None m) w = (r, m2, w1)"
        by (metis prod_cases3)
      then have "fail_or h ''deletion failed'' r StDeleted m2 = (s', m')"
        using assms(1) JobDelete StDelete by (auto simp: Let_def split: prod.splits)
      from phase_slots [OF assms(2) _ delete_same [OF c] this] show ?thesis by (intro keep [of StDeleted]) (auto simp: JobDelete)
    next
      case StDeleted
      then show ?thesis using assms JobDelete by (auto simp: ready_keys_move)
    qed (use assms JobDelete in auto)
  qed
qed

lemma nm_step_slots: "nm_step env s s' \<Longrightarrow> slots_inv slots s \<Longrightarrow> slots_inv slots s'"
proof (induction rule: nm_step.induct)
  case (nm_present nf ip m h j m' js r w)
  then have "ops_ok m' \<and> ready_keys m' \<subseteq> ready_keys m \<and> nm_maxNFSlots m' = nm_maxNFSlots m"
    using ensure_op_ready [of m "meta_key nf"] by (simp add: slots_inv_def EnsurePresent_def)
  then show ?case using nm_present(2) card_ready_mono [of m m'] by (auto simp: slots_inv_def split: if_splits)
next
  case (nm_absent k m h j m' js r w)
  then have "ops_ok m' \<and> ready_keys m' \<subseteq> ready_keys m \<and> nm_maxNFSlots m' = nm_maxNFSlots m"
    using ensure_op_ready [of m k] by (simp add: slots_inv_def EnsureAbsent_def)
  then show ?case using nm_absent(2) card_ready_mono [of m m'] by (auto simp: slots_inv_def split: if_splits)
next
  case (nm_start m js j ks w)
  then show ?case by (cases j) (auto simp: slots_inv_def)
next
  case (nm_phase j st m w s' m' w' js)
  then show ?case using job_step_slots [OF nm_phase(1)] by (auto simp: slots_inv_def)
qed (auto simp: slots_inv_def)

definition NewManager :: "string \<Rightarrow> int \<Rightarrow> NfManager" where
  "NewManager nfInterface maxNFSlots =
     \<lparr>nm_nfInterface = nfInterface, nm_maxNFSlots = maxNFSlots, nm_programs = Map.empty, nm_ops = Map.empty,
      nm_handles = (\<lambda>_. newDeploymentHandle), nm_next = 0\<rparr>"

section \<open>Uninterrupted goroutines\<close>

lemma transition_run: "handle_step\<^sup>*\<^sup>* (h, ps) (transition h p msg err, ps)"
proof (cases "set_status h \<lparr>ds_Phase = p, ds_Message = msg, ds_Err = err\<rparr>")
  case None
  then show ?thesis by (simp add: transition_def Let_def)
next
  case (Some h1)
  let ?st = "\<lparr>ds_Phase = p, ds_Message = msg, ds_Err = err\<rparr>"
  have 1: "handle_step (h, ps) (h1, ps @ [(?st, False)])" using Some by (rule hs_store)
  have 2: "handle_step (h1, ps @ [(?st, False)]) (emitEvent h1 ?st, if isTerminal p then ps @ [(?st, True)] else ps)"
    using hs_emit [of h1 ps ?st "[]"] by (cases "isTerminal p") simp_all
  have 3: "handle_step (emitEvent h1 ?st, ps @ [(?st, True)]) (finish (emitEvent h1 ?st), ps)"
    using hs_finish [of _ ps ?st "[]"] by simp
  have "transition h p msg err = (if isTerminal p then finish (emitEvent h1 ?st) else emitEvent h1 ?st)"
    using Some by (simp add: transition_def Let_def)
  then show ?thesis using 1 2 3 by (cases "isTerminal p") (auto intro: rtranclp.rtrancl_into_rtrancl)
qed

lemma transition_done: "\<not> isTerminal (ds_Phase (dh_status h)) \<Longrightarrow> isTerminal p \<Longrightarrow> dh_done (transition h p msg err)"
  by (simp add: transition_def set_status_def finish_def Let_def)

lemma transition_err:
  "ds_Err (dh_status (transition h p msg err)) = (if isTerminal (ds_Phase (dh_status h)) then ds_Err (dh_status h) else err)"
  by (simp add: transition_def set_status_def Let_def finish_def)

lemma compile_with:
  "compile env nf w (with_handle h f m) = (fst (compile env nf w m), with_handle h f (snd (compile env nf w m)))"
  by (simp add: compile_def with_handle_def Let_def split: sum.splits prod.splits)

lemma deploy_with: "deploy env nf (with_handle h f m) w = deploy env nf m w"
  by (simp add: deploy_def)

lemma setup_with:
  "setupNetworkForwarding env nf ip (with_handle h f m) w =
    (case setupNetworkForwarding env nf ip m w of (r, m', w') \<Rightarrow> (r, with_handle h f m', w'))"
  by (simp add: setupNetworkForwarding_def with_handle_def split: option.splits prod.splits sum.splits)

lemma preCheck_with:
  "ds_Phase (dh_status (f (nm_handles m h))) = PhaseReady \<longleftrightarrow> ds_Phase (dh_status (nm_handles m h)) = PhaseReady \<Longrightarrow>
    preCheck (with_handle h f m) = preCheck m"
  by (simp add: preCheck_def ready_keys_with)

lemma with_handle_with [simp]: "with_handle h g (with_handle h f m) = with_handle h (g \<circ> f) m"
  by (simp add: with_handle_def)

lemma same_ops_preCheck: "compile env nf w m = (r, m') \<Longrightarrow> preCheck m' = preCheck m"
  by (auto simp: compile_def preCheck_def ready_keys_def handle_phase_def Let_def split: sum.splits if_splits)

text \<open>What a deployment does, apart from its handle: the error of its first failing step, or none.\<close>

definition deploy_effect ::
  "'w driver_env \<Rightarrow> NetworkFunction \<Rightarrow> prefix \<Rightarrow> NfManager \<Rightarrow> 'w \<Rightarrow> (go_error + unit) \<times> NfManager \<times> 'w" where
  "deploy_effect env nf ip m w =
     (case compile env nf w m of
        (Inl err, m1) \<Rightarrow> (Inl err, m1, w)
      | (Inr _, m1) \<Rightarrow>
     case preCheck m of
        Inl err \<Rightarrow> (Inl err, m1, w)
      | Inr _ \<Rightarrow>
     case deploy env nf m1 w of
        (Inl err, w1) \<Rightarrow> (Inl err, m1, w1)
      | (Inr _, w1) \<Rightarrow> setupNetworkForwarding env nf ip m1 w1)"

lemma run_deploy:
  assumes "\<not> isTerminal (ds_Phase (dh_status (nm_handles m h)))" "deploy_effect env nf ip m w = (r, m1, w1)"
    and "run_job env (JobDeploy h nf ip) m w = (m', w')"
  shows "w' = w1 \<and> (\<exists>f. m' = with_handle h f m1) \<and> dh_done (nm_handles m' h) \<and>
    (case r of Inl err \<Rightarrow> ds_Phase (dh_status (nm_handles m' h)) = PhaseFailed \<and> ds_Err (dh_status (nm_handles m' h)) = Some err
     | Inr _ \<Rightarrow> ds_Phase (dh_status (nm_handles m' h)) = PhaseReady)"
proof -
  obtain rc mc where c: "compile env nf w m = (rc, mc)" by force
  have h: "nm_handles mc h = nm_handles m h" using compile_same [OF c] by (simp add: same_ops_def)
  obtain rd wd where d: "deploy env nf mc w = (rd, wd)" by force
  obtain rs ms ws where s: "setupNetworkForwarding env nf ip mc wd = (rs, ms, ws)" by (metis prod_cases3)
  have hs: "nm_handles ms h = nm_handles m h" using setup_same [OF s] h by (simp add: same_ops_def)
  have nr: "ds_Phase (dh_status (nm_handles m h)) \<noteq> PhaseReady" using assms(1) by auto
  obtain rp where pc: "preCheck m = rp" by simp
  note sim = c d s h hs nr compile_with deploy_with setup_with preCheck_with same_ops_preCheck [OF c] pc
  define C where "C = (\<lambda>d. transition d PhaseCompiling ''compiling network function'' None)"
  define P where "P = (\<lambda>d. transition d PhasePreCheck ''running pre-deployment checks'' None)"
  define D where "D = (\<lambda>d. transition d PhaseDeploying ''deploying network function'' None)"
  define N where "N = (\<lambda>d. transition d PhaseNetworkSetup ''setting up network forwarding'' None)"
  have run: "run_job env (JobDeploy h nf ip) m w =
     (case rc of Inl err \<Rightarrow> (with_handle h ((\<lambda>d. transition d PhaseFailed ''compilation failed'' (Some err)) \<circ> C) mc, w) | Inr _ \<Rightarrow>
      case rp of Inl err \<Rightarrow> (with_handle h ((\<lambda>d. transition d PhaseFailed ''pre-check failed'' (Some err)) \<circ> (P \<circ> C)) mc, w) | Inr _ \<Rightarrow>
      case rd of Inl err \<Rightarrow> (with_handle h ((\<lambda>d. transition d PhaseFailed ''deployment failed'' (Some err)) \<circ> (D \<circ> (P \<circ> C))) mc, wd) | Inr _ \<Rightarrow>
      case rs of Inl err \<Rightarrow> (with_handle h ((\<lambda>d. transition d PhaseFailed ''network setup failed'' (Some err)) \<circ> (N \<circ> (D \<circ> (P \<circ> C)))) ms, ws)
      | Inr _ \<Rightarrow> (with_handle h ((\<lambda>d. transition d PhaseReady ''network function ready'' None) \<circ> (N \<circ> (D \<circ> (P \<circ> C)))) ms, ws))"
    by (cases rc; cases rp; cases rd; cases rs)
      (simp_all add: run_job_def eval_nat_numeral Let_def fail_or_def sim transition_phase C_def P_def D_def N_def)
  have eff: "deploy_effect env nf ip m w =
     (case rc of Inl err \<Rightarrow> (Inl err, mc, w) | Inr _ \<Rightarrow> case rp of Inl err \<Rightarrow> (Inl err, mc, w) | Inr _ \<Rightarrow>
      case rd of Inl err \<Rightarrow> (Inl err, mc, wd) | Inr _ \<Rightarrow> (rs, ms, ws))"
    by (cases rc; cases rp; cases rd) (simp_all add: deploy_effect_def c d s pc)
  show ?thesis
    using assms h hs unfolding run eff
    by (cases rc; cases rp; cases rd; cases rs)
      (auto simp: transition_phase transition_err transition_done C_def P_def D_def N_def)
qed

section \<open>Properties\<close>

text \<open>
  A handle reports its end once. However the goroutines that share a handle interleave inside
  \<open>transition\<close>, the two channels are closed at most once and only after a terminal status was stored, no
  goroutine is left that would close them again, the event buffer stays within its ten places, and
  once no goroutine is under way, the channels are closed exactly if the status is terminal. A
  terminal status never changes afterwards.
\<close>

theorem handle_ends_once:
  assumes "handle_step\<^sup>*\<^sup>* (newDeploymentHandle, []) (h, ps)"
  shows "dh_done h = dh_closed h \<and> (dh_done h \<longrightarrow> isTerminal (ds_Phase (dh_status h)) \<and> closers ps = 0) \<and> closers ps \<le> 1 \<and>
    length (dh_events h) \<le> 10 \<and> (ps = [] \<longrightarrow> dh_done h = isTerminal (ds_Phase (dh_status h))) \<and>
    (\<forall>h' ps'. isTerminal (ds_Phase (dh_status h)) \<and> handle_step\<^sup>*\<^sup>* (h, ps) (h', ps') \<longrightarrow> dh_status h' = dh_status h)"
proof -
  have "handle_inv (newDeploymentHandle, [])" by (simp add: handle_inv_def newDeploymentHandle_def)
  from handle_steps_inv [OF assms this] have inv: "handle_inv (h, ps)" .
  moreover have "dh_status h' = dh_status h" if "isTerminal (ds_Phase (dh_status h))" "handle_step\<^sup>*\<^sup>* (h, ps) (h', ps')" for h' ps'
    using handle_steps_terminal [OF that(2)] that(1) by simp
  ultimately show ?thesis by (auto simp: handle_inv_def split: if_splits)
qed

theorem handle_ends_once_witness:
  "let h = transition (transition newDeploymentHandle PhaseCompiling '''' None) PhaseReady '''' None
   in dh_done h \<and> ds_Phase (dh_status (Cancel h)) = PhaseReady \<and> length (dh_events h) = 2 \<and>
      dh_done h = isTerminal (ds_Phase (dh_status h))"
proof -
  let ?h1 = "transition newDeploymentHandle PhaseCompiling '''' None"
  have "handle_step\<^sup>*\<^sup>* (newDeploymentHandle, []) (transition ?h1 PhaseReady '''' None, [])"
    using transition_run [of newDeploymentHandle "[]"] transition_run [of ?h1 "[]"] by (meson rtranclp_trans)
  from handle_ends_once [OF this]
  have e: "dh_done (transition ?h1 PhaseReady '''' None) = isTerminal (ds_Phase (dh_status (transition ?h1 PhaseReady '''' None)))" by blast
  have "ds_Phase (dh_status (Cancel (transition ?h1 PhaseReady '''' None))) = PhaseReady"
    by (simp add: Cancel_phase transition_phase newDeploymentHandle_def)
  moreover have "length (dh_events (transition ?h1 PhaseReady '''' None)) = 2"
    by (simp add: transition_def set_status_def emitEvent_def finish_def newDeploymentHandle_def Let_def)
  ultimately show ?thesis using e by (simp add: Let_def transition_phase newDeploymentHandle_def)
qed

text \<open>
  C26: in every run of the manager, however its operations, its goroutines and the outside world
  interleave, there are never more functions ready than the target has slots.
\<close>

theorem nf_slots_respected:
  assumes "0 \<le> slots" "(nm_step env)\<^sup>*\<^sup>* (NewManager iface slots, [], None, w0) (m, js, r, w)"
  shows "finite (ready_keys m) \<and> int (card (ready_keys m)) \<le> slots"
proof -
  have i0: "slots_inv slots (NewManager iface slots, [], None, w0)"
    using assms(1) by (simp add: slots_inv_def NewManager_def ops_ok_def ready_keys_def)
  have "slots_inv slots (m, js, r, w)"
    using assms(2)
  proof (induction rule: rtranclp_induct)
    case base
    show ?case by (rule i0)
  next
    case (step s s')
    then show ?case using nm_step_slots by blast
  qed
  then show ?thesis using ready_keys_finite by (auto simp: slots_inv_def split: if_splits)
qed

text \<open>
  C27: an uninterrupted deployment ends. Its handle is closed with a terminal status: ready exactly
  if the program compiles, a slot is free, the switch takes the program and the address can be
  configured, in this order; otherwise failed, with the error of the first step that failed. A
  handle that failed is not retried: asking for the function again returns the same handle and starts
  nothing.
\<close>

theorem deployment_ends:
  assumes "nm_ops m (meta_key nf) = Some \<lparr>to_handle = h, to_opType = opPresent\<rparr>"
    and "\<not> isTerminal (ds_Phase (dh_status (nm_handles m h)))"
    and "run_job env (JobDeploy h nf ip) m w = (m', w')"
  shows "dh_done (nm_handles m' h) \<and>
    (case deploy_effect env nf ip m w of
       (Inl err, m1, w1) \<Rightarrow> w' = w1 \<and> meta_key nf \<notin> ready_keys m' \<and> ds_Phase (dh_status (nm_handles m' h)) = PhaseFailed \<and>
          ds_Err (dh_status (nm_handles m' h)) = Some err
     | (Inr _, m1, w1) \<Rightarrow> w' = w1 \<and> meta_key nf \<in> ready_keys m') \<and>
    EnsurePresent nf ip' m' = (h, None, m')"
proof -
  obtain r m1 w1 where e: "deploy_effect env nf ip m w = (r, m1, w1)" by (metis prod_cases3)
  from run_deploy [OF assms(2) e assms(3)] obtain f where f: "w' = w1" "m' = with_handle h f m1" "dh_done (nm_handles m' h)"
      "case r of Inl err \<Rightarrow> ds_Phase (dh_status (nm_handles m' h)) = PhaseFailed \<and> ds_Err (dh_status (nm_handles m' h)) = Some err
       | Inr _ \<Rightarrow> ds_Phase (dh_status (nm_handles m' h)) = PhaseReady" by blast
  have "nm_ops m1 = nm_ops m"
    using e by (auto simp: deploy_effect_def compile_def setupNetworkForwarding_def Let_def
        split: sum.splits prod.splits option.splits if_splits)
  then have ops: "nm_ops m' (meta_key nf) = Some \<lparr>to_handle = h, to_opType = opPresent\<rparr>" using f(2) assms(1) by simp
  show ?thesis
    using f(1,3,4) ops e by (cases r) (auto simp: ready_keys_def handle_phase_def EnsurePresent_def ensure_op_def)
qed


section \<open>A concrete run\<close>

definition ex_env :: "ex_world driver_env" where
  "ex_env = \<lparr>de_LinkByName = (\<lambda>w n. Inr 1), de_AddrAdd = (\<lambda>w l a. (Inr (), w)), de_AddrDel = (\<lambda>w l a. (Inr (), w)),
     de_CompileFromURL = (\<lambda>w u. Inl (Errorf ''no compiler'' None)), de_Switch = ex_client\<rparr>"

definition ex_ip :: prefix where
  "ex_ip = \<lparr>pfx_ip = V4 0x0A000002, pfx_bits = 24\<rparr>"

definition ex_tracked :: NfManager where
  "ex_tracked = snd (snd (EnsurePresent (ex_cfg_nf ''nf'') ex_ip (NewManager ''nf0'' 1)))"

lemma ex_decode: "base64_DecodeString ''AQ=='' = Some [1]"
  by code_simp

lemma ex_no_url: "\<not> has_prefix ''AQ=='' ''http://''" "\<not> has_prefix ''AQ=='' ''https://''" "\<not> has_prefix ''AQ=='' ''s3://''"
  by (simp_all add: has_prefix_def)

lemma ex_tracked_fields:
  "nm_ops ex_tracked (meta_key (ex_cfg_nf ''nf'')) = Some \<lparr>to_handle = 0, to_opType = opPresent\<rparr>"
  "nm_handles ex_tracked 0 = newDeploymentHandle" "nm_maxNFSlots ex_tracked = 1" "nm_nfInterface ex_tracked = ''nf0''"
  "ready_keys ex_tracked = {}"
  by (auto simp: ex_tracked_def EnsurePresent_def ensure_op_def NewManager_def track_def ready_keys_def handle_phase_def newDeploymentHandle_def
      split: if_splits)

theorem nf_slots_respected_witness:
  "int (card (ready_keys ex_tracked)) \<le> 1 \<and> nm_maxNFSlots ex_tracked = 1"
proof -
  have "nm_step ex_env (NewManager ''nf0'' 1, [], None, ex_loaded)
      (ex_tracked, spawn (fst (snd (EnsurePresent (ex_cfg_nf ''nf'') ex_ip (NewManager ''nf0'' 1)))) [], None, ex_loaded)"
    by (rule nm_present [of "ex_cfg_nf ''nf''" ex_ip _ "fst (EnsurePresent (ex_cfg_nf ''nf'') ex_ip (NewManager ''nf0'' 1))"])
      (simp add: ex_tracked_def)
  then have "(nm_step ex_env)\<^sup>*\<^sup>* (NewManager ''nf0'' 1, [], None, ex_loaded)
      (ex_tracked, spawn (fst (snd (EnsurePresent (ex_cfg_nf ''nf'') ex_ip (NewManager ''nf0'' 1)))) [], None, ex_loaded)" by blast
  from nf_slots_respected [OF _ this] show ?thesis using ex_tracked_fields(3) by simp
qed

lemma ex_deploy_effect: "\<exists>m1 w1. deploy_effect ex_env (ex_cfg_nf ''nf'') ex_ip ex_tracked ex_loaded = (Inr (), m1, w1)"
proof -
  have v: "prefix_IsValid ex_ip" by (simp add: prefix_IsValid_def ex_ip_def)
  have pc: "preCheck ex_tracked = Inr ()" by (simp add: preCheck_def ex_tracked_fields)
  have p4: "nfs_P4File (nf_Spec (ex_cfg_nf ''nf'')) = ''AQ==''" by (simp add: ex_cfg_nf_def)
  show ?thesis
    by (simp add: deploy_effect_def compile_def p4 ex_no_url LoadP4ProgramFromBase64_def ex_decode pc deploy_def
        GetPipeline_def ex_env_def ex_switch_def ex_loaded_def setupNetworkForwarding_def ex_tracked_fields v configureTraffic_def)
qed

theorem deployment_ends_witness:
  "meta_key (ex_cfg_nf ''nf'') \<in> ready_keys (fst (run_job ex_env (JobDeploy 0 (ex_cfg_nf ''nf'') ex_ip) ex_tracked ex_loaded))"
proof -
  obtain m' w' where run: "run_job ex_env (JobDeploy 0 (ex_cfg_nf ''nf'') ex_ip) ex_tracked ex_loaded = (m', w')" by force
  have "\<not> isTerminal (ds_Phase (dh_status (nm_handles ex_tracked 0)))" by (simp add: ex_tracked_fields newDeploymentHandle_def)
  from deployment_ends [OF ex_tracked_fields(1) this run] ex_deploy_effect show ?thesis unfolding run by auto
qed

definition ex_redeployed :: NfManager where
  "ex_redeployed = \<lparr>nm_nfInterface = ''nf0'', nm_maxNFSlots = 1,
     nm_programs = [(''default'', ''nf'') \<mapsto> \<lparr>pg_P4DeviceConfig = [1], pg_ProgramName = ''nf'', pg_P4Info = None, pg_IP = ex_ip\<rparr>],
     nm_ops = [(''default'', ''nf'') \<mapsto> \<lparr>to_handle = 1, to_opType = opPresent\<rparr>],
     nm_handles = (\<lambda>h. transition newDeploymentHandle (if h = 1 then PhaseReady else PhaseCanceled) '''' None), nm_next = 2\<rparr>"

end
