(* ===== verification/P4TargetCtl.thy ===== *)
theory P4TargetCtl
  imports Api Ipam
begin

text \<open>
  The target controller (\<open>src/operator/internal/controller/core/p4target\<close>): it derives the readiness
  of a target from the lease its driver renews, mirrors it in a condition and in taints, and gives
  every target its own function network from a prefix allocator. The API client is a record of
  functions over a world \<open>'w\<close>; a write returns the error or the object the server answered with.
\<close>

section \<open>Conditions and taints (\<open>util/p4target_util.go\<close>)\<close>

definition NewCondition :: "time \<Rightarrow> string \<Rightarrow> string \<Rightarrow> string \<Rightarrow> string \<Rightarrow> P4TargetCondition" where
  "NewCondition now conditionType status reason message =
     \<lparr>c_Type = conditionType, c_Status = status, c_LastTransitionTime = now, c_Reason = reason,
      c_Message = message, c_LastHeartbeatTime = 0\<rparr>"

definition NewReadyCondition :: "time \<Rightarrow> string \<Rightarrow> string \<Rightarrow> string \<Rightarrow> P4TargetCondition" where
  "NewReadyCondition now status reason message = NewCondition now P4TargetConditionReady status reason message"

definition GetReadyCondition :: "P4Target \<Rightarrow> P4TargetCondition option" where
  "GetReadyCondition p4target =
     find (\<lambda>c. c_Type c = P4TargetConditionReady) (ptt_Conditions (pt_Status p4target))"

definition ConditionsAreEqual :: "'a condition_scheme \<Rightarrow> 'a condition_scheme \<Rightarrow> bool" where
  "ConditionsAreEqual cond1 cond2 \<longleftrightarrow> c_Type cond1 = c_Type cond2 \<and> c_Status cond1 = c_Status cond2 \<and>
     c_Reason cond1 = c_Reason cond2 \<and> c_Message cond1 = c_Message cond2"

definition TaintsAreEqual :: "Taint \<Rightarrow> Taint \<Rightarrow> bool" where
  "TaintsAreEqual taint1 taint2 \<longleftrightarrow> tt_Key taint1 = tt_Key taint2 \<and> tt_Value taint1 = tt_Value taint2 \<and>
     tt_Effect taint1 = tt_Effect taint2"

definition GetTaint :: "Taint list \<Rightarrow> string \<Rightarrow> Taint option" where
  "GetTaint taints taintKey = find (\<lambda>t. tt_Key t = taintKey) taints"

text \<open>
  One round of the loop of \<open>AddTaints\<close>. A taint that does not exist, or exists and is equal, is
  appended to \<open>existingTaints\<close>, which the function does not return.
\<close>

fun add_taint :: "Taint list \<times> bool \<Rightarrow> Taint \<Rightarrow> Taint list \<times> bool" where
  "add_taint (updatedTaints, updated) n =
     (case GetTaint updatedTaints (tt_Key n) of
        None \<Rightarrow> (updatedTaints, True)
      | Some existingTaint \<Rightarrow>
          if \<not> TaintsAreEqual existingTaint n
          then (update_first (\<lambda>t. tt_Key t = tt_Key n)
                  (\<lambda>t. t\<lparr>tt_Value := tt_Value n, tt_Effect := tt_Effect n, tt_TimeAdded := tt_TimeAdded n\<rparr>)
                  updatedTaints, True)
          else (updatedTaints, True))"

definition AddTaints :: "Taint list \<Rightarrow> Taint list \<Rightarrow> Taint list \<times> bool" where
  "AddTaints existingTaints newTaints =
     (if existingTaints = [] then (newTaints, length newTaints > 0)
      else foldl add_taint (existingTaints, False) newTaints)"

definition RemoveTaints :: "Taint list \<Rightarrow> string list \<Rightarrow> Taint list \<times> bool" where
  "RemoveTaints taints taintKeys =
     (if taints = [] then ([], False)
      else (filter (\<lambda>t. tt_Key t \<notin> set taintKeys) taints, list_ex (\<lambda>t. tt_Key t \<in> set taintKeys) taints))"

definition HasTaintWithEffects :: "P4Target \<Rightarrow> string list \<Rightarrow> bool" where
  "HasTaintWithEffects p4target effects =
     list_ex (\<lambda>t. list_ex (\<lambda>e. tt_Effect t = e) effects) (pts_Taints (pt_Spec p4target))"

definition HasTaintWithEffect :: "P4Target \<Rightarrow> string \<Rightarrow> bool" where
  "HasTaintWithEffect p4target effect = HasTaintWithEffects p4target [effect]"

definition GetCondition :: "P4TargetCondition list \<Rightarrow> string \<Rightarrow> P4TargetCondition option" where
  "GetCondition conditions conditionType = find (\<lambda>c. c_Type c = conditionType) conditions"

fun add_condition :: "P4TargetCondition list \<times> bool \<Rightarrow> P4TargetCondition \<Rightarrow> P4TargetCondition list \<times> bool" where
  "add_condition (updatedConditions, updated) n =
     (case GetCondition updatedConditions (c_Type n) of
        None \<Rightarrow> (updatedConditions @ [n], True)
      | Some previousCondition \<Rightarrow>
          if \<not> ConditionsAreEqual previousCondition n
          then (update_first (\<lambda>c. c_Type c = c_Type n)
                  (\<lambda>c. c\<lparr>c_Status := c_Status n, c_Reason := c_Reason n, c_Message := c_Message n,
                         c_LastTransitionTime := c_LastTransitionTime n\<rparr>) updatedConditions, True)
          else (updatedConditions, updated))"

definition AddConditions ::
    "P4TargetCondition list \<Rightarrow> P4TargetCondition list \<Rightarrow> P4TargetCondition list \<times> bool" where
  "AddConditions conditions newConditions =
     (if conditions = [] then (newConditions, length newConditions > 0)
      else foldl add_condition (conditions, False) newConditions)"

text \<open>The flag is set when a condition is kept.\<close>

definition RemoveConditions :: "P4TargetCondition list \<Rightarrow> string list \<Rightarrow> P4TargetCondition list \<times> bool" where
  "RemoveConditions conditions conditionTypes =
     (if conditions = [] then ([], False)
      else (let kept = filter (\<lambda>c. c_Type c \<notin> set conditionTypes) conditions in (kept, kept \<noteq> [])))"

section \<open>The controller (\<open>p4target_controller.go\<close>)\<close>

text \<open>
  Leases are objects of the Kubernetes \<open>coordination\<close> API, of which two pointer fields are read.
  \<open>P4TargetLeaseNamespace\<close> is a constant of the API package.
\<close>

record Lease =
  le_RenewTime :: "time option"
  le_LeaseDurationSeconds :: "int option"

definition P4TargetLeaseNamespace :: string where
  "P4TargetLeaseNamespace = ''loom-system''"

record 'w pt_client =
  pc_GetTarget :: "'w \<Rightarrow> nsname \<Rightarrow> go_error + P4Target"
  pc_GetLease :: "'w \<Rightarrow> nsname \<Rightarrow> go_error + Lease"
  pc_StatusPatch :: "'w \<Rightarrow> P4Target \<Rightarrow> P4Target \<Rightarrow> (go_error + P4Target) \<times> 'w"
  pc_Update :: "'w \<Rightarrow> P4Target \<Rightarrow> (go_error + P4Target) \<times> 'w"
  pc_Patch :: "'w \<Rightarrow> P4Target \<Rightarrow> P4Target \<Rightarrow> (go_error + P4Target) \<times> 'w"

text \<open>The readings of the clock during one reconcile.\<close>

record pt_clock =
  ck_expiry :: time
  ck_condition :: time
  ck_taint :: time

text \<open>The lease is allocated before the read, so it is non-nil (and empty) when the read fails.\<close>

definition obtainLease :: "'w pt_client \<Rightarrow> P4Target \<Rightarrow> 'w \<Rightarrow> Lease option \<times> go_error option" where
  "obtainLease cl p4target w =
     (case pc_GetLease cl w (P4TargetLeaseNamespace, om_Name p4target) of
        Inl err \<Rightarrow> (Some \<lparr>le_RenewTime = None, le_LeaseDurationSeconds = None\<rparr>, Some err)
      | Inr lease \<Rightarrow> (Some lease, None))"

definition calculateReadinessCondition :: "pt_clock \<Rightarrow> P4Target \<Rightarrow> Lease option \<Rightarrow> go_error + P4TargetCondition" where
  "calculateReadinessCondition ck target lease_ptr =
     (let unknown = \<lambda>reason message. Inr (NewReadyCondition (ck_condition ck) ConditionUnknown reason message) in
      case lease_ptr of
        None \<Rightarrow> unknown ''NoLease'' ''No lease found for P4Target''
      | Some lease \<Rightarrow>
          (case le_RenewTime lease of
             None \<Rightarrow> unknown ''MissingLeaseRenewTime'' ''Lease RenewTime is nil''
           | Some renew \<Rightarrow>
               (case le_LeaseDurationSeconds lease of
                  None \<Rightarrow> unknown ''MissingLeaseRenewTime'' ''LeaseDurationSeconds is nil''
                | Some seconds \<Rightarrow>
                    if ck_expiry ck > renew + seconds * Second
                    then unknown ''LeaseExpired'' ''Lease has expired for P4Target''
                    else (case GetCondition (ptt_Conditions (pt_Status target)) P4TargetConditionReady of
                            None \<Rightarrow> unknown ''NoReadinessCondition'' ''No readiness condition found for P4Target''
                          | Some readinessCondition \<Rightarrow> Inr readinessCondition))))"

definition readiness_taint :: "time \<Rightarrow> string \<Rightarrow> Taint" where
  "readiness_taint now key =
     \<lparr>tt_Key = key, tt_Value = '''', tt_Effect = TaintEffectNoSchedule, tt_TimeAdded = now\<rparr>"

definition ensureReadinessTaints :: "time \<Rightarrow> P4Target \<Rightarrow> P4TargetCondition \<Rightarrow> Taint list \<times> bool" where
  "ensureReadinessTaints now p4target readinessCondition =
     (let taints = pts_Taints (pt_Spec p4target) in
      if c_Status readinessCondition = ConditionTrue
      then RemoveTaints taints [TaintP4TargetUnreachable, TaintP4TargetNotReady]
      else if c_Status readinessCondition = ConditionFalse
      then (let (updatedTaints, removed) = RemoveTaints taints [TaintP4TargetUnreachable];
                (updatedTaints, added) = AddTaints updatedTaints [readiness_taint now TaintP4TargetNotReady]
            in (updatedTaints, removed \<or> added))
      else (let (updatedTaints, removed) = RemoveTaints taints [TaintP4TargetNotReady];
                (updatedTaints, added) = AddTaints updatedTaints [readiness_taint now TaintP4TargetUnreachable]
            in (updatedTaints, removed \<or> added)))"

text \<open>
  \<open>ensureReadinessState\<close> works on the target in memory, which a successful write replaces by the
  server's answer. The result is the error or the target as the caller then sees it.
\<close>

definition ensureReadinessState ::
    "'w pt_client \<Rightarrow> pt_clock \<Rightarrow> P4Target \<Rightarrow> P4TargetCondition \<Rightarrow> 'w \<Rightarrow> (go_error + P4Target) \<times> 'w" where
  "ensureReadinessState cl ck p4target readyCondition w =
     (let (newConditions, updatedConditions) = AddConditions (ptt_Conditions (pt_Status p4target)) [readyCondition];
          (r, w) = (if updatedConditions
                    then pc_StatusPatch cl w p4target
                           (p4target\<lparr>pt_Status := (pt_Status p4target)\<lparr>ptt_Conditions := newConditions\<rparr>\<rparr>)
                    else (Inr p4target, w))
      in case r of
           Inl err \<Rightarrow> (Inl err, w)
         | Inr p4target \<Rightarrow>
             (let (newTaints, updatedTaints) = ensureReadinessTaints (ck_taint ck) p4target readyCondition
              in if updatedTaints
                 then pc_Update cl w (p4target\<lparr>pt_Spec := (pt_Spec p4target)\<lparr>pts_Taints := newTaints\<rparr>\<rparr>)
                 else (Inr p4target, w)))"

text \<open>
  \<open>ensureReadinessConditions\<close> (not called in the package) copies into a slice of length 0, so the
  existing conditions are not carried over.
\<close>

definition ensureReadinessConditions ::
    "P4TargetCondition list \<Rightarrow> P4TargetCondition \<Rightarrow> P4TargetCondition list \<times> bool" where
  "ensureReadinessConditions preExistingConditions newCond =
     (if preExistingConditions = [] then ([newCond], True)
      else (let newConditions = [] in
            case GetCondition newConditions P4TargetConditionReady of
              None \<Rightarrow> (newConditions @ [newCond], True)
            | Some existing \<Rightarrow>
                if ConditionsAreEqual existing newCond then (newConditions, False)
                else (update_first (\<lambda>c. c_Type c = P4TargetConditionReady)
                        (\<lambda>c. c\<lparr>c_Status := c_Status newCond, c_Reason := c_Reason newCond,
                               c_Message := c_Message newCond,
                               c_LastTransitionTime := c_LastTransitionTime newCond\<rparr>) newConditions, True)))"

text \<open>
  The reconcile. Its state is the allocator of function networks and the world.
  \<open>reconcile_readiness\<close> is the part after the lease has been read. The last write carries a requeue
  result together with its error, and the runtime then uses the error.
\<close>

definition reconcile_readiness ::
    "'w pt_client \<Rightarrow> pt_clock \<Rightarrow> P4Target \<Rightarrow> Lease option \<Rightarrow> prefix_allocator \<Rightarrow> 'w \<Rightarrow>
     (go_error + ctrl_result) \<times> prefix_allocator \<times> 'w" where
  "reconcile_readiness cl ck p4target lease al w =
     (case calculateReadinessCondition ck p4target lease of
        Inl err \<Rightarrow>
          (Inl err, al,
           snd (ensureReadinessState cl ck p4target
                  (NewReadyCondition (ck_condition ck) ConditionUnknown ''ReadinessCalculationError''
                     ''Failed to calculate readiness for P4Target'') w))
      | Inr readyCondition \<Rightarrow>
          (case ensureReadinessState cl ck p4target readyCondition w of
             (Inl err, w) \<Rightarrow> (Inl err, al, w)
           | (Inr p4target, w) \<Rightarrow>
               if pts_NfCIDR (pt_Spec p4target) = ''''
               then (case PrefixAllocator_Next al of
                       Inl e \<Rightarrow> (Inl (Errorf ''unable to allocate CIDR for P4Target'' None), al, w)
                     | Inr (nfCIDR, al) \<Rightarrow>
                         (case pc_Patch cl w p4target
                                 (p4target\<lparr>pt_Spec := (pt_Spec p4target)\<lparr>pts_NfCIDR := prefix_String nfCIDR\<rparr>\<rparr>) of
                            (Inl err, w) \<Rightarrow> (Inl err, al, w)
                          | (Inr _, w) \<Rightarrow> (Inr (RequeueAfter (2 * Second)), al, w)))
               else (Inr Done, al, w)))"

definition Reconcile ::
    "'w pt_client \<Rightarrow> pt_clock \<Rightarrow> nsname \<Rightarrow> prefix_allocator \<Rightarrow> 'w \<Rightarrow>
     (go_error + ctrl_result) \<times> prefix_allocator \<times> 'w" where
  "Reconcile cl ck req al w =
     (case pc_GetTarget cl w req of
        Inl err \<Rightarrow> (if IsNotFound err then Inr Done else Inl err, al, w)
      | Inr p4target \<Rightarrow>
          (case obtainLease cl p4target w of (lease, lerr) \<Rightarrow>
           case lerr of
             Some err \<Rightarrow>
               if \<not> IsNotFound err
               then (Inl err, al,
                     snd (ensureReadinessState cl ck p4target
                            (NewReadyCondition (ck_condition ck) ConditionUnknown ''LeaseError''
                               ''Failed to obtain lease for P4Target'') w))
               else reconcile_readiness cl ck p4target lease al w
           | None \<Rightarrow> reconcile_readiness cl ck p4target lease al w))"

section \<open>Conditions\<close>

abbreviation put_condition :: "P4TargetCondition list \<Rightarrow> P4TargetCondition \<Rightarrow> P4TargetCondition list" where
  "put_condition cs c \<equiv> fst (add_condition (cs, False) c)"

lemma add_condition_fst: "fst (add_condition (cs, b) c) = put_condition cs c"
  by (simp split: option.splits)

lemma ConditionsAreEqual_refl [simp]: "ConditionsAreEqual c c"
  by (simp add: ConditionsAreEqual_def)

interpretation target_conditions: condition_store put_condition c_Type ConditionsAreEqual
proof (unfold_locales, goal_cases)
  case (1 c cs)
  show ?case
    by (auto simp: GetCondition_def find_append find_update_first_same ConditionsAreEqual_def
        dest: find_Some_iff_in split: option.splits)
next
  case (2 t c cs)
  then show ?case
    by (auto simp: GetCondition_def find_append find_update_first_other split: option.splits)
next
  case (3 cs c)
  then show ?case
    by (auto simp: GetCondition_def map_update_first find_None_iff split: option.splits)
qed

lemma foldl_add_condition:
  "fst (foldl add_condition (cs, b) news) = foldl put_condition cs news"
  by (induction news arbitrary: cs b) (auto simp: add_condition_fst split: option.splits if_splits)

lemma foldl_put_fresh:
  "distinct (map c_Type (cs @ news)) \<Longrightarrow> foldl put_condition cs news = cs @ news"
proof (induction news arbitrary: cs)
  case Nil
  then show ?case by simp
next
  case (Cons n news)
  then have "c_Type n \<notin> c_Type ` set cs" by simp
  then have "GetCondition cs (c_Type n) = None"
    unfolding GetCondition_def find_None_iff by (metis image_eqI)
  then have "put_condition cs n = cs @ [n]" by simp
  with Cons show ?case by simp
qed

lemma AddConditions_foldl:
  "distinct (map c_Type news) \<Longrightarrow> fst (AddConditions cs news) = foldl put_condition cs news"
  using foldl_put_fresh [of "[]" news] by (auto simp: AddConditions_def foldl_add_condition)

text \<open>The flag of \<open>AddConditions\<close>: it stays false exactly while nothing is written.\<close>

lemma add_condition_flag_mono: "snd (foldl add_condition (cs, True) news)"
  by (induction news arbitrary: cs) (auto split: option.splits)

lemma foldl_add_condition_flag:
  "\<not> snd (foldl add_condition (cs, False) news) \<longleftrightarrow>
     (\<forall>n \<in> set news. \<exists>c. GetCondition cs (c_Type n) = Some c \<and> ConditionsAreEqual c n)"
  by (induction news) (auto simp: add_condition_flag_mono split: option.splits if_splits)

lemma foldl_add_condition_unchanged:
  "\<not> snd (foldl add_condition (cs, False) news) \<Longrightarrow> fst (foldl add_condition (cs, False) news) = cs"
  by (induction news) (auto simp: add_condition_flag_mono split: option.splits if_splits)

lemma AddConditions_flag:
  "\<not> snd (AddConditions cs news) \<longleftrightarrow>
     (\<forall>n \<in> set news. \<exists>c. GetCondition cs (c_Type n) = Some c \<and> ConditionsAreEqual c n)"
proof (cases "cs = []")
  case True
  then show ?thesis by (cases news) (auto simp: AddConditions_def GetCondition_def)
qed (simp add: AddConditions_def foldl_add_condition_flag)

lemma AddConditions_unchanged: "\<not> snd (AddConditions cs news) \<Longrightarrow> fst (AddConditions cs news) = cs"
  by (auto simp: AddConditions_def foldl_add_condition_unchanged split: if_splits)

text \<open>
  Adding conditions of distinct types to a target: each of them then reads back with its status,
  reason and message, every other type is unchanged, no type is duplicated, and a second call with
  the same conditions changes nothing and reports so.
\<close>

theorem AddConditions_contract:
  assumes "distinct (map c_Type news)" and "AddConditions cs news = (cs', updated)"
  shows "(\<forall>n \<in> set news. \<exists>c. GetCondition cs' (c_Type n) = Some c \<and> ConditionsAreEqual c n) \<and>
    (\<forall>t. t \<notin> c_Type ` set news \<longrightarrow> GetCondition cs' t = GetCondition cs t) \<and>
    (distinct (map c_Type cs) \<longrightarrow> distinct (map c_Type cs')) \<and>
    (\<not> updated \<longrightarrow> cs' = cs) \<and> AddConditions cs' news = (cs', False)"
proof -
  have cs': "cs' = foldl put_condition cs news" using AddConditions_foldl [OF assms(1), of cs] assms(2) by simp
  have read: "\<forall>n \<in> set news. \<exists>c. GetCondition cs' (c_Type n) = Some c \<and> ConditionsAreEqual c n"
    unfolding cs' GetCondition_def using target_conditions.foldl_lookup [OF assms(1)] by blast
  then have "\<not> snd (AddConditions cs' news)" by (simp add: AddConditions_flag)
  with AddConditions_unchanged have again: "AddConditions cs' news = (cs', False)" by (simp add: prod_eq_iff)
  have "\<not> updated \<longrightarrow> cs' = cs" using AddConditions_unchanged [of cs news] assms(2) by simp
  moreover have "distinct (map c_Type cs) \<longrightarrow> distinct (map c_Type cs')"
    unfolding cs' using target_conditions.foldl_distinct by blast
  moreover have "t \<notin> c_Type ` set news \<longrightarrow> GetCondition cs' t = GetCondition cs t" for t
    unfolding cs' GetCondition_def using target_conditions.foldl_others by blast
  ultimately show ?thesis using read again by blast
qed

theorem AddConditions_contract_witness:
  "fst (AddConditions [NewCondition 1 ''Ready'' ''True'' ''a'' ''b'', NewCondition 1 ''Other'' ''True'' ''a'' ''b'']
     [NewReadyCondition 2 ''Unknown'' ''LeaseExpired'' ''x'']) =
   [NewReadyCondition 2 ''Unknown'' ''LeaseExpired'' ''x'', NewCondition 1 ''Other'' ''True'' ''a'' ''b''] \<and>
   AddConditions
     [NewReadyCondition 2 ''Unknown'' ''LeaseExpired'' ''x'', NewCondition 1 ''Other'' ''True'' ''a'' ''b'']
     [NewReadyCondition 2 ''Unknown'' ''LeaseExpired'' ''x''] =
   ([NewReadyCondition 2 ''Unknown'' ''LeaseExpired'' ''x'', NewCondition 1 ''Other'' ''True'' ''a'' ''b''], False)"
  using AddConditions_contract [of "[NewReadyCondition 2 ''Unknown'' ''LeaseExpired'' ''x'']"
      "[NewCondition 1 ''Ready'' ''True'' ''a'' ''b'', NewCondition 1 ''Other'' ''True'' ''a'' ''b'']"]
  by (simp add: AddConditions_def NewReadyCondition_def NewCondition_def GetCondition_def ConditionsAreEqual_def)

section \<open>Readiness\<close>

definition lease_live :: "time \<Rightarrow> Lease \<Rightarrow> bool" where
  "lease_live now lease \<longleftrightarrow>
     (case (le_RenewTime lease, le_LeaseDurationSeconds lease) of
        (Some renew, Some seconds) \<Rightarrow> now \<le> renew + seconds * Second | _ \<Rightarrow> False)"

text \<open>
  C11: the controller trusts what the driver reported exactly while the lease is live. The calculated
  condition is the target's own Ready condition then, and of status Unknown otherwise: with a lease
  that is missing, incomplete or expired, and for a target that never reported. No error arises.
\<close>

theorem readiness_needs_live_lease:
  "\<exists>c. calculateReadinessCondition ck t lease = Inr c \<and> c_Type c = P4TargetConditionReady \<and>
     (case (lease, GetReadyCondition t) of
        (Some l, Some reported) \<Rightarrow>
          if lease_live (ck_expiry ck) l then c = reported else c_Status c = ConditionUnknown
      | _ \<Rightarrow> c_Status c = ConditionUnknown)"
  by (auto simp: calculateReadinessCondition_def lease_live_def GetReadyCondition_def GetCondition_def
      NewReadyCondition_def NewCondition_def Let_def not_less dest: find_Some_iff_in split: option.splits)

lemma AddTaints_same_key:
  assumes "\<forall>t \<in> set ts. tt_Key t = tt_Key n"
  shows "\<exists>t ts'. fst (AddTaints ts [n]) = t # ts' \<and> TaintsAreEqual t n \<and> (\<forall>t \<in> set ts'. tt_Key t = tt_Key n)"
proof (cases ts)
  case Nil
  then show ?thesis by (simp add: AddTaints_def TaintsAreEqual_def)
next
  case (Cons t ts')
  with assms show ?thesis by (simp add: AddTaints_def GetTaint_def TaintsAreEqual_def)
qed

lemma AddTaints_absent:
  assumes "ts \<noteq> []" "tt_Key n \<notin> tt_Key ` set ts"
  shows "AddTaints ts [n] = (ts, True)"
proof -
  have "GetTaint ts (tt_Key n) = None" unfolding GetTaint_def find_None_iff using assms(2) by (metis image_eqI)
  with assms(1) show ?thesis by (simp add: AddTaints_def)
qed

definition readiness_keys :: "string set" where
  "readiness_keys = {TaintP4TargetUnreachable, TaintP4TargetNotReady}"

definition wanted_key :: "P4TargetCondition \<Rightarrow> string" where
  "wanted_key c = (if c_Status c = ConditionFalse then TaintP4TargetNotReady else TaintP4TargetUnreachable)"

lemma fst_RemoveTaints [simp]: "fst (RemoveTaints ts ks) = filter (\<lambda>t. tt_Key t \<notin> set ks) ts"
  by (simp add: RemoveTaints_def)

lemma snd_RemoveTaints [simp]: "snd (RemoveTaints ts ks) \<longleftrightarrow> (\<exists>t \<in> set ts. tt_Key t \<in> set ks)"
  by (auto simp: RemoveTaints_def list_ex_iff)

lemma ensureReadinessTaints_ready:
  "c_Status c = ConditionTrue \<Longrightarrow>
   ensureReadinessTaints now t c =
     (filter (\<lambda>x. tt_Key x \<notin> readiness_keys) (pts_Taints (pt_Spec t)),
      \<exists>x \<in> set (pts_Taints (pt_Spec t)). tt_Key x \<in> readiness_keys)"
  by (rule prod_eqI) (simp_all add: ensureReadinessTaints_def readiness_keys_def)

definition other_key :: "P4TargetCondition \<Rightarrow> string" where
  "other_key c = (if c_Status c = ConditionFalse then TaintP4TargetUnreachable else TaintP4TargetNotReady)"

lemma AddTaints_single_flag: "snd (AddTaints ts [n])"
  by (simp add: AddTaints_def split: option.splits)

lemma ensureReadinessTaints_not_ready:
  assumes "c_Status c \<noteq> ConditionTrue"
  shows "ensureReadinessTaints now t c =
    (fst (AddTaints (filter (\<lambda>x. tt_Key x \<noteq> other_key c) (pts_Taints (pt_Spec t)))
       [readiness_taint now (wanted_key c)]), True)"
proof (rule prod_eqI)
  show "fst (ensureReadinessTaints now t c) = fst (fst (AddTaints (filter (\<lambda>x. tt_Key x \<noteq> other_key c)
      (pts_Taints (pt_Spec t))) [readiness_taint now (wanted_key c)]), True)"
    using assms by (simp add: ensureReadinessTaints_def wanted_key_def other_key_def case_prod_beta Let_def)
  show "snd (ensureReadinessTaints now t c) = snd (fst (AddTaints (filter (\<lambda>x. tt_Key x \<noteq> other_key c)
      (pts_Taints (pt_Spec t))) [readiness_taint now (wanted_key c)]), True)"
    using assms by (simp add: ensureReadinessTaints_def case_prod_beta Let_def AddTaints_single_flag)
qed

lemma readiness_taint_fields [simp]:
  "tt_Key (readiness_taint now k) = k" "tt_Effect (readiness_taint now k) = TaintEffectNoSchedule"
  by (simp_all add: readiness_taint_def)

lemma ensureReadinessTaints_mirror:
  assumes "tt_Key ` set (pts_Taints (pt_Spec t)) \<subseteq> readiness_keys"
    and "ensureReadinessTaints now t c = (ts, upd)"
  shows "tt_Key ` set ts = (if c_Status c = ConditionTrue then {} else {wanted_key c}) \<and>
    ((\<exists>x \<in> set ts. tt_Effect x = TaintEffectNoSchedule) \<longleftrightarrow> c_Status c \<noteq> ConditionTrue) \<and>
    (\<not> upd \<longrightarrow> ts = pts_Taints (pt_Spec t))"
proof (cases "c_Status c = ConditionTrue")
  case True
  have "filter (\<lambda>x. tt_Key x \<notin> readiness_keys) (pts_Taints (pt_Spec t)) = []"
    using assms(1) by (auto simp: filter_empty_conv)
  then show ?thesis using True assms by (auto simp: ensureReadinessTaints_ready)
next
  case False
  let ?n = "readiness_taint now (wanted_key c)"
  let ?rest = "filter (\<lambda>x. tt_Key x \<noteq> other_key c) (pts_Taints (pt_Spec t))"
  have "\<forall>x \<in> set ?rest. tt_Key x = tt_Key ?n"
    using assms(1) by (auto simp: readiness_keys_def other_key_def wanted_key_def split: if_splits)
  then obtain x ts' where x: "fst (AddTaints ?rest [?n]) = x # ts'" "TaintsAreEqual x ?n"
      "\<forall>y \<in> set ts'. tt_Key y = tt_Key ?n"
    using AddTaints_same_key by blast
  have "ts = x # ts'" "upd"
    using assms(2) ensureReadinessTaints_not_ready [OF False, of now t] x(1) by simp_all
  then show ?thesis using False x(2,3) by (auto simp: TaintsAreEqual_def image_iff)
qed

text \<open>
  What the readiness state does to the taints of any target. When ready, exactly the two readiness
  taints go. Otherwise, on a target without other taints, the taints become the one that says
  not-ready or unreachable, which forbids scheduling. On a target that has some other taint and not
  yet the wanted one, that taint is never added, although an update is reported every time.
\<close>

theorem readiness_taints_spec:
  assumes "ensureReadinessTaints now t c = (ts, upd)" "old = pts_Taints (pt_Spec t)"
  shows "(c_Status c = ConditionTrue \<longrightarrow>
      ts = filter (\<lambda>x. tt_Key x \<notin> readiness_keys) old \<and> (upd \<longleftrightarrow> (\<exists>x \<in> set old. tt_Key x \<in> readiness_keys))) \<and>
    (c_Status c \<noteq> ConditionTrue \<longrightarrow> upd) \<and>
    (c_Status c \<noteq> ConditionTrue \<and> tt_Key ` set old \<subseteq> readiness_keys \<longrightarrow>
      tt_Key ` set ts = {wanted_key c} \<and> (\<exists>x \<in> set ts. tt_Effect x = TaintEffectNoSchedule)) \<and>
    (c_Status c \<noteq> ConditionTrue \<and> wanted_key c \<notin> tt_Key ` set old \<and> (\<exists>x \<in> set old. tt_Key x \<noteq> other_key c) \<longrightarrow>
      ts = filter (\<lambda>x. tt_Key x \<noteq> other_key c) old \<and> wanted_key c \<notin> tt_Key ` set ts)"
proof (cases "c_Status c = ConditionTrue")
  case True
  with assms show ?thesis by (simp add: ensureReadinessTaints_ready)
next
  case False
  have ts: "ts = fst (AddTaints (filter (\<lambda>x. tt_Key x \<noteq> other_key c) old) [readiness_taint now (wanted_key c)])" and upd
    using assms ensureReadinessTaints_not_ready [OF False, of now t] by simp_all
  moreover have "ts = filter (\<lambda>x. tt_Key x \<noteq> other_key c) old"
    if "wanted_key c \<notin> tt_Key ` set old" "\<exists>x \<in> set old. tt_Key x \<noteq> other_key c"
    using that unfolding ts by (subst AddTaints_absent) (auto simp: filter_empty_conv)
  ultimately show ?thesis using False ensureReadinessTaints_mirror [of t now c ts upd] assms by auto
qed

section \<open>Reconciling against a store\<close>

text \<open>
  What the API server does with the requests of the controller, as laws of the client over the
  stored targets. A read returns the stored object. A refused write changes nothing. An accepted
  status patch keeps the stored specification, an update stores the specification sent, and the
  patch of the network sets that field; each answers with the object it stored.
\<close>

type_synonym targets = "nsname \<rightharpoonup> P4Target"

definition stored_as :: "targets \<Rightarrow> P4Target \<Rightarrow> (go_error + P4Target) \<times> targets \<Rightarrow> (P4Target \<Rightarrow> P4Target \<Rightarrow> bool) \<Rightarrow> bool" where
  "stored_as w t answer ok \<longleftrightarrow>
     (case answer of
        (Inl _, w') \<Rightarrow> w' = w
      | (Inr t', w') \<Rightarrow> \<exists>s. w (meta_key t) = Some s \<and> meta_key t' = meta_key t \<and> w' = w(meta_key t \<mapsto> t') \<and> ok s t')"

definition target_api :: "targets pt_client \<Rightarrow> bool" where
  "target_api cl \<longleftrightarrow>
     (\<forall>w k t. pc_GetTarget cl w k = Inr t \<longrightarrow> w k = Some t \<and> meta_key t = k) \<and>
     (\<forall>w t0 t. stored_as w t (pc_StatusPatch cl w t0 t) (\<lambda>s t'. pt_Spec t' = pt_Spec s)) \<and>
     (\<forall>w t. stored_as w t (pc_Update cl w t) (\<lambda>s t'. pt_Spec t' = pt_Spec t)) \<and>
     (\<forall>w t0 t. stored_as w t (pc_Patch cl w t0 t)
        (\<lambda>s t'. pts_NfCIDR (pt_Spec t') = pts_NfCIDR (pt_Spec t)))"

lemma target_apiD:
  assumes "target_api cl"
  shows "pc_GetTarget cl w k = Inr t \<Longrightarrow> w k = Some t \<and> meta_key t = k"
    and "stored_as w t (pc_StatusPatch cl w t0 t) (\<lambda>s t'. pt_Spec t' = pt_Spec s)"
    and "stored_as w t (pc_Update cl w t) (\<lambda>s t'. pt_Spec t' = pt_Spec t)"
    and "stored_as w t (pc_Patch cl w t0 t) (\<lambda>s t'. pts_NfCIDR (pt_Spec t') = pts_NfCIDR (pt_Spec t))"
  using assms unfolding target_api_def by blast+

definition network_of :: "targets \<Rightarrow> nsname \<Rightarrow> string option" where
  "network_of w k = map_option (\<lambda>t. pts_NfCIDR (pt_Spec t)) (w k)"

lemma meta_key_updates [simp]:
  "meta_key (t\<lparr>pt_Spec := s\<rparr>) = meta_key t" "meta_key (t\<lparr>pt_Status := st\<rparr>) = meta_key t" for t :: P4Target
  by (simp_all add: meta_key_def)

lemma network_of_upd: "network_of (w(k \<mapsto> t)) = (network_of w)(k \<mapsto> pts_NfCIDR (pt_Spec t))"
  by (auto simp: network_of_def)

lemma stored_answer:
  "stored_as w t (r, w') ok \<Longrightarrow> r = Inr t' \<Longrightarrow> meta_key t' = meta_key t \<and> w' (meta_key t) = Some t'"
  by (auto simp: stored_as_def)

lemma stored_networks:
  assumes "stored_as w t (r, w') ok"
    and "\<And>s t'. ok s t' \<Longrightarrow> w (meta_key t) = Some s \<Longrightarrow> pts_NfCIDR (pt_Spec t') = n"
  shows "network_of w' = network_of w \<or> network_of w' = (network_of w)(meta_key t \<mapsto> n)"
  using assms by (cases r) (auto simp: stored_as_def network_of_upd)

lemma stored_keeps_networks:
  assumes "stored_as w t (r, w') ok"
    and "\<And>s t'. ok s t' \<Longrightarrow> w (meta_key t) = Some s \<Longrightarrow> pts_NfCIDR (pt_Spec t') = pts_NfCIDR (pt_Spec s)"
  shows "network_of w' = network_of w"
proof (cases r)
  case (Inr t')
  then obtain s where "w (meta_key t) = Some s" "w' = w(meta_key t \<mapsto> t')" "ok s t'"
    using assms(1) by (auto simp: stored_as_def)
  with assms(2) show ?thesis by (auto simp: network_of_def)
qed (use assms(1) in \<open>simp add: stored_as_def\<close>)

lemma ensureReadinessState_keeps_networks:
  assumes api: "target_api cl" and "w (meta_key t) = Some t"
    and "ensureReadinessState cl ck t c w = (r, w')"
  shows "network_of w' = network_of w \<and>
    (\<forall>t'. r = Inr t' \<longrightarrow> meta_key t' = meta_key t \<and> w' (meta_key t) = Some t')"
proof -
  let ?t1 = "t\<lparr>pt_Status := (pt_Status t)\<lparr>ptt_Conditions := fst (AddConditions (ptt_Conditions (pt_Status t)) [c])\<rparr>\<rparr>"
  define p where "p = (if snd (AddConditions (ptt_Conditions (pt_Status t)) [c]) then pc_StatusPatch cl w t ?t1 else (Inr t, w))"
  have p: "network_of (snd p) = network_of w \<and>
      (\<forall>t'. fst p = Inr t' \<longrightarrow> meta_key t' = meta_key t \<and> snd p (meta_key t) = Some t')"
  proof (cases "snd (AddConditions (ptt_Conditions (pt_Status t)) [c])")
    case True
    then have "stored_as w ?t1 p (\<lambda>s t'. pt_Spec t' = pt_Spec s)"
      using target_apiD(2) [OF api] by (simp add: p_def)
    then have st: "stored_as w ?t1 (fst p, snd p) (\<lambda>s t'. pt_Spec t' = pt_Spec s)" by simp
    show ?thesis using stored_keeps_networks [OF st] stored_answer [OF st] by simp
  next
    case False
    with assms(2) show ?thesis by (simp add: p_def)
  qed
  have eq: "ensureReadinessState cl ck t c w = (case p of (Inl err, w) \<Rightarrow> (Inl err, w)
     | (Inr u, w) \<Rightarrow> if snd (ensureReadinessTaints (ck_taint ck) u c)
         then pc_Update cl w (u\<lparr>pt_Spec := (pt_Spec u)\<lparr>pts_Taints := fst (ensureReadinessTaints (ck_taint ck) u c)\<rparr>\<rparr>)
         else (Inr u, w))"
    by (simp add: ensureReadinessState_def p_def case_prod_beta Let_def split: sum.splits)
  show ?thesis
  proof (cases "fst p")
    case (Inl e)
    with p eq assms(3) show ?thesis by (cases p) auto
  next
    case (Inr u)
    let ?u = "u\<lparr>pt_Spec := (pt_Spec u)\<lparr>pts_Taints := fst (ensureReadinessTaints (ck_taint ck) u c)\<rparr>\<rparr>"
    show ?thesis
    proof (cases "snd (ensureReadinessTaints (ck_taint ck) u c)")
      case True
      have up: "pc_Update cl (snd p) ?u = (r, w')" using eq assms(3) Inr True by (cases p) auto
      have st: "stored_as (snd p) ?u (r, w') (\<lambda>s t'. pt_Spec t' = pt_Spec ?u)"
        unfolding up [symmetric] by (rule target_apiD(3) [OF api])
      show ?thesis using stored_keeps_networks [OF st] stored_answer [OF st] p Inr by auto
    next
      case False
      with p eq assms(3) Inr show ?thesis by (cases p) auto
    qed
  qed
qed

lemma calculateReadinessCondition_Inr: "\<exists>c. calculateReadinessCondition ck t lease = Inr c"
  by (simp add: calculateReadinessCondition_def Let_def split: option.splits)

lemma reconcile_readiness_networks:
  assumes api: "target_api cl" and w: "w (meta_key t) = Some t"
    and run: "reconcile_readiness cl ck t lease al w = (r, al', w')"
  shows "al' = al \<and> network_of w' = network_of w \<or>
    (\<exists>p. PrefixAllocator_Next al = Inr (p, al') \<and> network_of w (meta_key t) = Some '''' \<and>
       (network_of w' = network_of w \<or> network_of w' = (network_of w)(meta_key t \<mapsto> prefix_String p)))"
proof -
  obtain c where c: "calculateReadinessCondition ck t lease = Inr c"
    using calculateReadinessCondition_Inr by blast
  obtain r1 w1 where st: "ensureReadinessState cl ck t c w = (r1, w1)" by (cases "ensureReadinessState cl ck t c w")
  note keep = ensureReadinessState_keeps_networks [OF api w st]
  show ?thesis
  proof (cases r1)
    case (Inl e)
    then show ?thesis using run c st keep by (auto simp: reconcile_readiness_def)
  next
    case (Inr u)
    with keep have u: "meta_key u = meta_key t" "w1 (meta_key t) = Some u" by auto
    then have empty: "network_of w (meta_key t) = Some (pts_NfCIDR (pt_Spec u))"
      using keep by (metis network_of_def option.simps(9))
    show ?thesis
    proof (cases "pts_NfCIDR (pt_Spec u) = '''' \<and> (\<exists>p al1. PrefixAllocator_Next al = Inr (p, al1))")
      case True
      then obtain p al1 where nxt: "PrefixAllocator_Next al = Inr (p, al1)" by blast
      let ?u = "u\<lparr>pt_Spec := (pt_Spec u)\<lparr>pts_NfCIDR := prefix_String p\<rparr>\<rparr>"
      have "stored_as w1 ?u (pc_Patch cl w1 u ?u) (\<lambda>s t'. pts_NfCIDR (pt_Spec t') = pts_NfCIDR (pt_Spec ?u))"
        by (rule target_apiD(4) [OF api])
      moreover obtain r2 w2 where pa: "pc_Patch cl w1 u ?u = (r2, w2)" by (cases "pc_Patch cl w1 u ?u")
      ultimately have "stored_as w1 ?u (r2, w2) (\<lambda>s t'. pts_NfCIDR (pt_Spec t') = pts_NfCIDR (pt_Spec ?u))" by simp
      from stored_networks [OF this]
      have "network_of w2 = network_of w \<or> network_of w2 = (network_of w)(meta_key t \<mapsto> prefix_String p)"
        using keep u by simp
      moreover have "al' = al1" "w' = w2"
        using run c st Inr nxt pa True by (auto simp: reconcile_readiness_def split: sum.splits)
      ultimately show ?thesis using nxt empty True by auto
    next
      case False
      then show ?thesis using run c st Inr keep
        by (auto simp: reconcile_readiness_def split: sum.splits if_splits prod.splits)
    qed
  qed
qed

lemma Reconcile_networks:
  assumes api: "target_api cl" and "Reconcile cl ck req al w = (r, al', w')"
  shows "al' = al \<and> network_of w' = network_of w \<or>
    (\<exists>p. PrefixAllocator_Next al = Inr (p, al') \<and> network_of w req = Some '''' \<and>
       (network_of w' = network_of w \<or> network_of w' = (network_of w)(req \<mapsto> prefix_String p)))"
proof (cases "pc_GetTarget cl w req")
  case (Inl e)
  with assms(2) show ?thesis by (simp add: Reconcile_def)
next
  case (Inr t)
  then have t: "w (meta_key t) = Some t" "meta_key t = req" using target_apiD(1) [OF api] by auto
  show ?thesis
  proof (cases "\<exists>e. snd (obtainLease cl t w) = Some e \<and> \<not> IsNotFound e")
    case True
    then obtain c where "w' = snd (ensureReadinessState cl ck t c w)" "al' = al"
      using assms(2) Inr by (auto simp: Reconcile_def split: prod.splits option.splits if_splits)
    moreover have "network_of (snd (ensureReadinessState cl ck t c w)) = network_of w"
      using ensureReadinessState_keeps_networks [of cl w t, OF api t(1)] by (metis surjective_pairing)
    ultimately show ?thesis by simp
  next
    case False
    then obtain lease where "reconcile_readiness cl ck t lease al w = (r, al', w')"
      using assms(2) Inr by (auto simp: Reconcile_def split: prod.splits option.splits if_splits)
    then show ?thesis using reconcile_readiness_networks [of cl w t, OF api t(1)] t(2) by metis
  qed
qed

text \<open>A store that accepts every write: the API server without failures or other writers.\<close>

definition working_api :: "targets pt_client \<Rightarrow> bool" where
  "working_api cl \<longleftrightarrow>
     (\<forall>w t. w (meta_key t) = Some t \<longrightarrow> pc_GetTarget cl w (meta_key t) = Inr t) \<and>
     (\<forall>w t0 t s. w (meta_key t) = Some s \<and> pt_Spec t = pt_Spec s \<longrightarrow>
        pc_StatusPatch cl w t0 t = (Inr t, w(meta_key t \<mapsto> t))) \<and>
     (\<forall>w t s. w (meta_key t) = Some s \<longrightarrow> pc_Update cl w t = (Inr t, w(meta_key t \<mapsto> t))) \<and>
     (\<forall>w t0 t s. w (meta_key t) = Some s \<longrightarrow> pc_Patch cl w t0 t = (Inr t, w(meta_key t \<mapsto> t)))"

lemma working_apiD:
  assumes "working_api cl"
  shows "w (meta_key t) = Some t \<Longrightarrow> pc_GetTarget cl w (meta_key t) = Inr t"
    and "w (meta_key t) = Some s \<Longrightarrow> pt_Spec t = pt_Spec s \<Longrightarrow> pc_StatusPatch cl w t0 t = (Inr t, w(meta_key t \<mapsto> t))"
    and "w (meta_key t) = Some s \<Longrightarrow> pc_Update cl w t = (Inr t, w(meta_key t \<mapsto> t))"
    and "w (meta_key t) = Some s \<Longrightarrow> pc_Patch cl w t0 t = (Inr t, w(meta_key t \<mapsto> t))"
  using assms unfolding working_api_def by blast+

text \<open>Concrete objects for the examples.\<close>

definition ex_target :: "string \<Rightarrow> Taint list \<Rightarrow> P4TargetCondition list \<Rightarrow> P4Target" where
  "ex_target name taints conds =
     \<lparr>om_Name = name, om_GenerateName = '''', om_Namespace = '''', om_UID = name, om_Generation = 1,
      om_Labels = None, om_Annotations = None, om_Finalizers = [], om_OwnerReferences = [],
      om_CreationTimestamp = 1, om_DeletionTimestamp = None,
      pt_Spec = \<lparr>pts_Taints = taints, pts_Unschedulable = False, pts_NfCIDR = '''', pts_AttachmentType = ''''\<rparr>,
      pt_Status = \<lparr>ptt_NodeName = '''', ptt_TargetIPs = [], ptt_DriverIPs = [], ptt_Capacity = [],
        ptt_Allocatable = [], ptt_HostVRF = None, ptt_Conditions = conds\<rparr>\<rparr>"

definition ex_put :: "(P4Target \<Rightarrow> P4Target) \<Rightarrow> P4Target \<Rightarrow> targets \<Rightarrow> (go_error + P4Target) \<times> targets" where
  "ex_put f t w = (case w (meta_key t) of None \<Rightarrow> (Inl (ApiError NotFound), w)
     | Some s \<Rightarrow> (Inr (f s), w(meta_key t \<mapsto> f s)))"

definition ex_targets_client :: "Lease \<Rightarrow> targets pt_client" where
  "ex_targets_client lease =
     \<lparr>pc_GetTarget = (\<lambda>w k. case w k of None \<Rightarrow> Inl (ApiError NotFound)
        | Some t \<Rightarrow> if meta_key t = k then Inr t else Inl (ApiError NotFound)),
      pc_GetLease = (\<lambda>w k. Inr lease),
      pc_StatusPatch = (\<lambda>w t0 t. ex_put (\<lambda>s. t\<lparr>pt_Spec := pt_Spec s\<rparr>) t w),
      pc_Update = (\<lambda>w t. ex_put (\<lambda>_. t) t w),
      pc_Patch = (\<lambda>w t0 t. ex_put (\<lambda>_. t) t w)\<rparr>"

lemma ex_client_apis: "target_api (ex_targets_client lease)" "working_api (ex_targets_client lease)"
proof -
  show "target_api (ex_targets_client lease)"
    by (auto simp: target_api_def stored_as_def ex_targets_client_def ex_put_def split: option.splits if_splits)
  show "working_api (ex_targets_client lease)"
    by (auto simp: working_api_def ex_targets_client_def ex_put_def)
qed

definition ex_alloc :: prefix_allocator where
  "ex_alloc = \<lparr>pa_BaseNetwork = \<lparr>pfx_ip = V4 0x0A000100, pfx_bits = 24\<rparr>, pa_LastAssigned = zero_prefix,
     pa_PrefixLen = 25\<rparr>"

definition ex_lease :: Lease where
  "ex_lease = \<lparr>le_RenewTime = Some (5 * Second), le_LeaseDurationSeconds = Some 40\<rparr>"

definition ex_clk :: "int \<Rightarrow> pt_clock" where
  "ex_clk s = \<lparr>ck_expiry = s * Second, ck_condition = s * Second, ck_taint = s * Second\<rparr>"

definition ex_ready :: P4TargetCondition where
  "ex_ready = NewCondition 1 ''Ready'' ''True'' ''DriverUp'' ''ok''"

definition ex_taint :: Taint where
  "ex_taint = \<lparr>tt_Key = ''maintenance'', tt_Value = ''soon'', tt_Effect = ''PreferNoSchedule'', tt_TimeAdded = 1\<rparr>"

text \<open>
  The history of a cluster: targets are created without a network, changed by others without
  touching the network, deleted, and reconciled with whatever outcome.
\<close>

inductive target_step :: "targets pt_client \<Rightarrow> prefix_allocator \<times> targets \<Rightarrow> prefix_allocator \<times> targets \<Rightarrow> bool"
  for cl :: "targets pt_client" where
  reconciled: "Reconcile cl ck req al w = (r, al', w') \<Longrightarrow> target_step cl (al, w) (al', w')"
| created: "w k = None \<Longrightarrow> pts_NfCIDR (pt_Spec t) = '''' \<Longrightarrow> target_step cl (al, w) (al, w(k \<mapsto> t))"
| changed: "w k = Some t \<Longrightarrow> pts_NfCIDR (pt_Spec t') = pts_NfCIDR (pt_Spec t) \<Longrightarrow>
    target_step cl (al, w) (al, w(k \<mapsto> t'))"
| deleted: "target_step cl (al, w) (al, w(k := None))"

inductive_cases target_stepE: "target_step cl (al, w) s'"

definition assigned :: "targets \<Rightarrow> nsname set" where
  "assigned w = {k. \<exists>n. network_of w k = Some n \<and> n \<noteq> ''''}"

text \<open>The invariant: the assigned networks are different subnets the allocator has already passed.\<close>

definition networks_ok :: "prefix \<Rightarrow> int \<Rightarrow> prefix_allocator \<times> targets \<Rightarrow> (nsname \<Rightarrow> nat) \<Rightarrow> bool" where
  "networks_ok b len s f \<longleftrightarrow>
     pa_inv (fst s) \<and> pa_BaseNetwork (fst s) = b \<and> pa_PrefixLen (fst s) = len \<and>
     inj_on f (assigned (snd s)) \<and>
     (\<forall>k \<in> assigned (snd s). f k < pa_given (fst s) \<and> f k < subnet_count b len \<and>
        network_of (snd s) k = Some (prefix_String (subnet b len (f k))))"

lemma networks_ok_mono:
  assumes "networks_ok b len (al, w) f" "assigned w' \<subseteq> assigned w"
    and "\<And>k. k \<in> assigned w' \<Longrightarrow> network_of w' k = network_of w k"
  shows "networks_ok b len (al, w') f"
  using assms by (auto simp: networks_ok_def intro: inj_on_subset)

lemma networks_ok_Next:
  assumes "networks_ok b len (al, w) f" "PrefixAllocator_Next al = Inr (p, al')"
  shows "networks_ok b len (al', w) f \<and> p = subnet b len (pa_given al) \<and>
    pa_given al < subnet_count b len \<and> pa_given al' = Suc (pa_given al)"
proof -
  have al: "pa_inv al" "pa_BaseNetwork al = b" "pa_PrefixLen al = len" using assms(1) by (simp_all add: networks_ok_def)
  have lt: "pa_given al < subnet_count b len"
    using prefix_seq.next_fail [OF al(1)] assms(2) al(2,3) by (metis Inl_Inr_False not_le)
  obtain al1 where "PrefixAllocator_Next al = Inr (subnet b len (pa_given al), al1)" "pa_inv al1"
      "pa_given al1 = Suc (pa_given al)"
    using prefix_seq.next_ok [OF al(1)] lt al(2,3) by auto
  moreover have "pa_BaseNetwork al' = b \<and> pa_PrefixLen al' = len"
    using assms(2) al(2,3) by (auto simp: PrefixAllocator_Next_def Let_def split: if_splits sum.splits)
  ultimately show ?thesis using assms lt by (auto simp: networks_ok_def intro: less_SucI)
qed

lemma networks_ok_assign:
  assumes ok: "networks_ok b len (al, w) f" and nxt: "PrefixAllocator_Next al = Inr (p, al')"
    and free: "network_of w k = Some ''''"
    and w': "network_of w' = (network_of w)(k \<mapsto> prefix_String p)"
  shows "networks_ok b len (al', w') (f(k := pa_given al))"
proof -
  note step = networks_ok_Next [OF ok nxt]
  have k: "k \<notin> assigned w" using free by (simp add: assigned_def)
  have sub: "assigned w' \<subseteq> insert k (assigned w)" by (auto simp: assigned_def w' split: if_splits)
  have old: "f j < pa_given al" if "j \<in> assigned w" for j using ok that by (simp add: networks_ok_def)
  have "inj_on (f(k := pa_given al)) (insert k (assigned w))"
    using ok k by (auto simp: networks_ok_def inj_on_def dest!: old)
  then have "inj_on (f(k := pa_given al)) (assigned w')" using sub by (rule inj_on_subset)
  moreover have "(f(k := pa_given al)) j < pa_given al' \<and> (f(k := pa_given al)) j < subnet_count b len \<and>
      network_of w' j = Some (prefix_String (subnet b len ((f(k := pa_given al)) j)))" if "j \<in> assigned w'" for j
    using that sub step ok old k by (auto simp: networks_ok_def w' intro: less_SucI)
  ultimately show ?thesis using step by (simp add: networks_ok_def)
qed

lemma target_step_ok:
  assumes api: "target_api cl" and "target_step cl s s'" "networks_ok b len s f"
  shows "\<exists>f'. networks_ok b len s' f'"
  using assms(2,3)
proof (cases rule: target_step.cases)
  case (reconciled ck req al w r al' w')
  have same: "networks_ok b len (al, w') f" if "network_of w' = network_of w" "networks_ok b len (al, w) f" for al
    using that by (auto simp: networks_ok_def assigned_def)
  from Reconcile_networks [OF api reconciled(3)] show ?thesis
  proof (elim disjE exE conjE)
    fix p
    assume "PrefixAllocator_Next al = Inr (p, al')" "network_of w' = network_of w"
    then show ?thesis using networks_ok_Next same assms(3) reconciled by blast
  qed (use same assms(3) reconciled networks_ok_assign in \<open>blast+\<close>)
next
  case (created w k t al)
  have "assigned (w(k \<mapsto> t)) \<subseteq> assigned w" using created(4) by (auto simp: assigned_def network_of_upd split: if_splits)
  moreover have "network_of (w(k \<mapsto> t)) j = network_of w j" if "j \<in> assigned (w(k \<mapsto> t))" for j
    using that created(4) by (auto simp: assigned_def network_of_upd split: if_splits)
  ultimately show ?thesis using networks_ok_mono assms(3) created(1,2) by blast
next
  case (changed w k t t' al)
  then have "network_of (w(k \<mapsto> t')) = network_of w" by (auto simp: network_of_def)
  then have "assigned (w(k \<mapsto> t')) \<subseteq> assigned w" "\<And>j. network_of (w(k \<mapsto> t')) j = network_of w j"
    by (simp_all add: assigned_def)
  then show ?thesis using networks_ok_mono assms(3) changed(1,2) by blast
next
  case (deleted al w k)
  have "assigned (w(k := None)) \<subseteq> assigned w" by (auto simp: assigned_def network_of_def)
  moreover have "network_of (w(k := None)) j = network_of w j" if "j \<in> assigned (w(k := None))" for j
    using that by (auto simp: assigned_def network_of_def split: if_splits)
  ultimately show ?thesis using networks_ok_mono assms(3) deleted(1,2) by blast
qed

text \<open>
  No two targets ever share a function network. In every history of a cluster that starts empty
  with a fresh prefix allocator, with any failures of API calls, the networks of the targets are the
  texts of pairwise disjoint subnets of the allocator's base.
\<close>

theorem target_networks_disjoint:
  assumes "target_api cl" "NewPrefixAllocator b len = Inr al0" "no_mapped b"
    and "(target_step cl)\<^sup>*\<^sup>* (al0, \<lambda>_. None) (al, w)"
  shows "\<exists>f. (\<forall>k t. w k = Some t \<and> pts_NfCIDR (pt_Spec t) \<noteq> '''' \<longrightarrow>
      f k < subnet_count b len \<and> pts_NfCIDR (pt_Spec t) = prefix_String (subnet b len (f k)) \<and>
      (\<forall>k' t'. w k' = Some t' \<and> pts_NfCIDR (pt_Spec t') \<noteq> '''' \<and> k' \<noteq> k \<longrightarrow>
         (\<forall>x. \<not> (prefix_Contains (subnet b len (f k)) x \<and> prefix_Contains (subnet b len (f k')) x))))"
proof -
  have al0: "pa_inv al0" "pa_BaseNetwork al0 = b" "pa_PrefixLen al0 = len"
    using NewPrefixAllocator_inv [OF assms(2,3)] by auto
  have "\<exists>f. networks_ok b len (al, w) f"
    using assms(4)
  proof (induction rule: rtranclp_induct)
    case base
    then show ?case using al0 by (auto simp: networks_ok_def assigned_def network_of_def)
  next
    case (step s s')
    then show ?case using target_step_ok [OF assms(1)] by blast
  qed
  then obtain f where f: "networks_ok b len (al, w) f" by blast
  then have al: "pa_inv al" "pa_BaseNetwork al = b" "pa_PrefixLen al = len" by (simp_all add: networks_ok_def)
  have inj: "inj_on f (assigned w)" using f by (simp add: networks_ok_def)
  have dom: "k \<in> assigned w" if "w k = Some t" "pts_NfCIDR (pt_Spec t) \<noteq> ''''" for k t
    using that by (simp add: assigned_def network_of_def)
  have net: "f k < subnet_count b len \<and> network_of w k = Some (prefix_String (subnet b len (f k)))"
    if "k \<in> assigned w" for k using f that by (auto simp: networks_ok_def)
  show ?thesis
  proof (intro exI [of _ f] allI impI, elim conjE, intro conjI allI impI, goal_cases)
    case (1 k t)
    then show ?case using net dom by blast
  next
    case (2 k t)
    then show ?case using net [OF dom] by (simp add: network_of_def)
  next
    case (3 k t k' t' x)
    then have "f k \<noteq> f k'" "f k < subnet_count b len" "f k' < subnet_count b len"
      using net dom inj_onD [OF inj, of k k'] by blast+
    then show ?case using prefix_seq.items_apart [OF al(1), of "f k" "f k'"] al(2,3) by simp
  qed
qed

theorem target_networks_disjoint_witness:
  "\<exists>f. f ([], ''a'') < subnet_count \<lparr>pfx_ip = V4 0x0A000100, pfx_bits = 24\<rparr> 25 \<and>
     ''10.0.1.0/25'' = prefix_String (subnet \<lparr>pfx_ip = V4 0x0A000100, pfx_bits = 24\<rparr> 25 (f ([], ''a'')))"
proof -
  let ?b = "\<lparr>pfx_ip = V4 0x0A000100, pfx_bits = 24\<rparr>"
  let ?cl = "ex_targets_client ex_lease"
  let ?w0 = "(\<lambda>_. None)(([], ''a'') \<mapsto> ex_target ''a'' [] [ex_ready])"
  let ?run = "Reconcile ?cl (ex_clk 6) ([], ''a'') ex_alloc ?w0"
  note api = ex_client_apis(1) [of ex_lease]
  have new: "NewPrefixAllocator ?b 25 = Inr ex_alloc" by code_simp
  have nm: "no_mapped ?b" by (simp add: no_mapped_def pfx_nth_def)
  have "target_step ?cl (ex_alloc, \<lambda>_. None) (ex_alloc, ?w0)"
    by (rule target_step.created) (simp_all add: ex_target_def)
  moreover have "target_step ?cl (ex_alloc, ?w0) (fst (snd ?run), snd (snd ?run))"
    by (rule target_step.reconciled [of _ "ex_clk 6" "([], ''a'')" _ _ "fst ?run"]) simp
  ultimately have "(target_step ?cl)\<^sup>*\<^sup>* (ex_alloc, \<lambda>_. None) (fst (snd ?run), snd (snd ?run))" by auto
  from target_networks_disjoint [OF api new nm this] obtain f where
    f: "\<And>k t. snd (snd ?run) k = Some t \<Longrightarrow> pts_NfCIDR (pt_Spec t) \<noteq> [] \<Longrightarrow>
       f k < subnet_count ?b 25 \<and> pts_NfCIDR (pt_Spec t) = prefix_String (subnet ?b 25 (f k))" by blast
  have "map_option (\<lambda>t. pts_NfCIDR (pt_Spec t)) (snd (snd ?run) ([], ''a'')) = Some ''10.0.1.0/25''" by code_simp
  then obtain t where "snd (snd ?run) ([], ''a'') = Some t" "pts_NfCIDR (pt_Spec t) = ''10.0.1.0/25''" by auto
  then show ?thesis using f by (metis list.distinct(1))
qed

lemma HasTaintWithEffects_iff:
  "HasTaintWithEffects t effects \<longleftrightarrow> (\<exists>x \<in> set (pts_Taints (pt_Spec t)). tt_Effect x \<in> set effects)"
  by (auto simp: HasTaintWithEffects_def list_ex_iff)

lemma calculateReadinessCondition_ready:
  assumes "calculateReadinessCondition ck t (Some lease) = Inr c"
  shows "c_Type c = P4TargetConditionReady \<and>
    (c_Status c = ConditionTrue \<longleftrightarrow> lease_live (ck_expiry ck) lease \<and>
       (\<exists>reported. GetReadyCondition t = Some reported \<and> c_Status reported = ConditionTrue))"
  using assms
  by (auto simp: calculateReadinessCondition_def lease_live_def GetReadyCondition_def GetCondition_def
      NewReadyCondition_def NewCondition_def Let_def not_less dest: find_Some_iff_in split: option.splits if_splits)

lemma ensureReadinessState_working:
  assumes "working_api cl" "w (meta_key t) = Some t" "c_Type c = P4TargetConditionReady"
    and "tt_Key ` set (pts_Taints (pt_Spec t)) \<subseteq> readiness_keys"
  shows "\<exists>t' c'. ensureReadinessState cl ck t c w = (Inr t', w(meta_key t \<mapsto> t')) \<and> meta_key t' = meta_key t \<and>
    GetReadyCondition t' = Some c' \<and> c_Status c' = c_Status c \<and>
    (HasTaintWithEffects t' [TaintEffectNoSchedule, TaintEffectNoExecute] \<longleftrightarrow> c_Status c \<noteq> ConditionTrue)"
proof -
  let ?add = "AddConditions (ptt_Conditions (pt_Status t)) [c]"
  let ?t1 = "if snd ?add then t\<lparr>pt_Status := (pt_Status t)\<lparr>ptt_Conditions := fst ?add\<rparr>\<rparr> else t"
  let ?w1 = "w(meta_key t \<mapsto> ?t1)"
  obtain ts upd where ts: "ensureReadinessTaints (ck_taint ck) ?t1 c = (ts, upd)" by (cases "ensureReadinessTaints (ck_taint ck) ?t1 c")
  have spec: "pt_Spec ?t1 = pt_Spec t" by simp
  have mirror: "tt_Key ` set ts = (if c_Status c = ConditionTrue then {} else {wanted_key c}) \<and>
    ((\<exists>x \<in> set ts. tt_Effect x = TaintEffectNoSchedule) \<longleftrightarrow> c_Status c \<noteq> ConditionTrue) \<and>
    (\<not> upd \<longrightarrow> ts = pts_Taints (pt_Spec ?t1))"
    by (rule ensureReadinessTaints_mirror [OF _ ts]) (use assms(4) spec in simp)
  define t' where "t' = (if upd then ?t1\<lparr>pt_Spec := (pt_Spec ?t1)\<lparr>pts_Taints := ts\<rparr>\<rparr> else ?t1)"
  have run: "ensureReadinessState cl ck t c w = (Inr t', w(meta_key t \<mapsto> t'))"
  proof -
    have "(if snd ?add then pc_StatusPatch cl w t (t\<lparr>pt_Status := (pt_Status t)\<lparr>ptt_Conditions := fst ?add\<rparr>\<rparr>) else (Inr t, w)) =
        (Inr ?t1, ?w1)"
      using assms(2) working_apiD(2) [OF assms(1), of w "t\<lparr>pt_Status := (pt_Status t)\<lparr>ptt_Conditions := fst ?add\<rparr>\<rparr>" t]
      by auto
    moreover have "pc_Update cl ?w1 (?t1\<lparr>pt_Spec := u\<rparr>) = (Inr (?t1\<lparr>pt_Spec := u\<rparr>), w(meta_key t \<mapsto> ?t1\<lparr>pt_Spec := u\<rparr>))" for u
      using working_apiD(3) [OF assms(1), of ?w1 "?t1\<lparr>pt_Spec := u\<rparr>" ?t1] by simp
    ultimately show ?thesis using ts by (auto simp: ensureReadinessState_def case_prod_beta Let_def t'_def)
  qed
  have "\<not> snd ?add \<longrightarrow> fst ?add = ptt_Conditions (pt_Status t)" using AddConditions_unchanged by blast
  then have conds: "ptt_Conditions (pt_Status t') = fst ?add" by (simp add: t'_def)
  obtain c' where c': "find (\<lambda>x. c_Type x = P4TargetConditionReady) (fst ?add) = Some c'" "ConditionsAreEqual c' c"
    using target_conditions.foldl_lookup [of "[c]" c "ptt_Conditions (pt_Status t)"] assms(3)
    by (auto simp: AddConditions_foldl)
  have "GetReadyCondition t' = Some c'" unfolding GetReadyCondition_def conds by (rule c'(1))
  moreover have tx: "pts_Taints (pt_Spec t') = ts" using mirror by (simp add: t'_def)
  have "HasTaintWithEffects t' [TaintEffectNoSchedule, TaintEffectNoExecute] \<longleftrightarrow> c_Status c \<noteq> ConditionTrue"
  proof (cases "c_Status c = ConditionTrue")
    case True
    with mirror have "ts = []" by simp
    with True tx show ?thesis by (simp add: HasTaintWithEffects_iff)
  next
    case False
    with mirror tx show ?thesis unfolding HasTaintWithEffects_iff by auto
  qed
  moreover have "meta_key t' = meta_key t" by (simp add: t'_def)
  moreover have "c_Status c' = c_Status c" using c'(2) by (simp add: ConditionsAreEqual_def)
  ultimately show ?thesis using run by blast
qed

text \<open>
  One reconcile makes the stored target tell the truth. With a working API server, for a target
  with no taints but the readiness ones, the stored Ready condition is afterwards true exactly when the
  lease is live and the driver reported true, and the target carries a taint that keeps functions away
  exactly when it is not.
\<close>

theorem reconcile_mirrors_readiness:
  assumes api: "working_api cl" and t: "w req = Some t" "meta_key t = req"
    and taints: "tt_Key ` set (pts_Taints (pt_Spec t)) \<subseteq> readiness_keys"
    and lease: "obtainLease cl t w = (Some lease, err)" "err = None \<or> err = Some (ApiError NotFound)"
    and run: "Reconcile cl ck req al w = (r, al', w')"
  shows "\<exists>t' c. w' req = Some t' \<and> GetReadyCondition t' = Some c \<and>
    (c_Status c = ConditionTrue \<longleftrightarrow> lease_live (ck_expiry ck) lease \<and>
       (\<exists>reported. GetReadyCondition t = Some reported \<and> c_Status reported = ConditionTrue)) \<and>
    (HasTaintWithEffects t' [TaintEffectNoSchedule, TaintEffectNoExecute] \<longleftrightarrow> c_Status c \<noteq> ConditionTrue)"
proof -
  obtain c where c: "calculateReadinessCondition ck t (Some lease) = Inr c"
    using calculateReadinessCondition_Inr by blast
  note ready = calculateReadinessCondition_ready [OF c]
  have get: "pc_GetTarget cl w req = Inr t" using working_apiD(1) [OF api, of w t] t by simp
  obtain t1 c1 where t1: "ensureReadinessState cl ck t c w = (Inr t1, w(req \<mapsto> t1))" "meta_key t1 = req"
      "GetReadyCondition t1 = Some c1" "c_Status c1 = c_Status c"
      "HasTaintWithEffects t1 [TaintEffectNoSchedule, TaintEffectNoExecute] \<longleftrightarrow> c_Status c \<noteq> ConditionTrue"
    using ensureReadinessState_working [OF api _ _ taints, of w c ck] t ready by auto
  have run': "reconcile_readiness cl ck t (Some lease) al w = (r, al', w')"
    using run get lease by (auto simp: Reconcile_def)
  have patch: "pc_Patch cl (w(req \<mapsto> t1)) t1 (t1\<lparr>pt_Spec := u\<rparr>) =
      (Inr (t1\<lparr>pt_Spec := u\<rparr>), w(req \<mapsto> t1\<lparr>pt_Spec := u\<rparr>))" for u
    using working_apiD(4) [OF api, of "w(req \<mapsto> t1)" "t1\<lparr>pt_Spec := u\<rparr>"] t1(2) by simp
  have "w' req = Some t1 \<or> (\<exists>n. w' req = Some (t1\<lparr>pt_Spec := (pt_Spec t1)\<lparr>pts_NfCIDR := n\<rparr>\<rparr>))"
    using run' c t1(1,2) by (auto simp: reconcile_readiness_def patch split: if_splits sum.splits)
  then obtain t' where "w' req = Some t'" "pt_Status t' = pt_Status t1"
      "pts_Taints (pt_Spec t') = pts_Taints (pt_Spec t1)" by fastforce
  then have "w' req = Some t' \<and> GetReadyCondition t' = Some c1 \<and>
      (HasTaintWithEffects t' [TaintEffectNoSchedule, TaintEffectNoExecute] \<longleftrightarrow> c_Status c \<noteq> ConditionTrue)"
    using t1 by (simp add: GetReadyCondition_def HasTaintWithEffects_def)
  then show ?thesis using ready t1(4) by auto
qed

theorem reconcile_mirrors_readiness_witness:
  "\<exists>t' c. snd (snd (Reconcile (ex_targets_client ex_lease) (ex_clk 50) ([], ''a'') ex_alloc
       ((\<lambda>_. None)(([], ''a'') \<mapsto> ex_target ''a'' [] [ex_ready])))) ([], ''a'') = Some t' \<and>
     GetReadyCondition t' = Some c \<and> c_Status c \<noteq> ConditionTrue \<and>
     HasTaintWithEffects t' [TaintEffectNoSchedule, TaintEffectNoExecute]"
proof -
  let ?t = "ex_target ''a'' [] [ex_ready]"
  let ?w = "(\<lambda>_. None)(([], ''a'') \<mapsto> ?t)"
  let ?cl = "ex_targets_client ex_lease"
  note api = ex_client_apis(2) [of ex_lease]
  have t: "?w ([], ''a'') = Some ?t" "meta_key ?t = ([], ''a'')" by (simp_all add: ex_target_def meta_key_def)
  have taints: "tt_Key ` set (pts_Taints (pt_Spec ?t)) \<subseteq> readiness_keys" by (simp add: ex_target_def)
  have lease: "obtainLease ?cl ?t ?w = (Some ex_lease, None)" by (simp add: obtainLease_def ex_targets_client_def)
  have dead: "\<not> lease_live (ck_expiry (ex_clk 50)) ex_lease" by code_simp
  obtain r al' w' where run: "Reconcile ?cl (ex_clk 50) ([], ''a'') ex_alloc ?w = (r, al', w')"
    by (cases "Reconcile ?cl (ex_clk 50) ([], ''a'') ex_alloc ?w")
  show ?thesis using reconcile_mirrors_readiness [OF api t taints lease _ run] dead unfolding run by auto
qed

theorem readiness_taints_spec_witness:
  "ensureReadinessTaints 7 (ex_target ''a'' [ex_taint] []) (NewReadyCondition 7 ConditionUnknown ''LeaseExpired'' [])
     = ([ex_taint], True)"
proof -
  let ?t = "ex_target ''a'' [ex_taint] []"
  let ?c = "NewReadyCondition 7 ConditionUnknown ''LeaseExpired'' []"
  have old: "pts_Taints (pt_Spec ?t) = [ex_taint]" by (simp add: ex_target_def)
  have c: "c_Status ?c \<noteq> ConditionTrue" "wanted_key ?c = TaintP4TargetUnreachable"
      "tt_Key ex_taint \<noteq> other_key ?c" "tt_Key ex_taint \<noteq> TaintP4TargetUnreachable"
    by (simp_all add: NewReadyCondition_def NewCondition_def wanted_key_def other_key_def ex_taint_def)
  obtain ts upd where run: "ensureReadinessTaints 7 ?t ?c = (ts, upd)" by (cases "ensureReadinessTaints 7 ?t ?c")
  show ?thesis using readiness_taints_spec [OF run old [symmetric]] c unfolding run by simp
qed

end
