(* ===== verification/DriverTarget.thy ===== *)
theory DriverTarget
  imports NfManager P4TargetCtl
begin

text \<open>
  The driver's view of its target: the target manager (\<open>src/targets/bmv2/managers/p4target\<close>) with its
  function addresses, the status updater (\<open>src/targets/bmv2/controllers/p4target\<close>) and the lease renewer
  (\<open>src/targets/bmv2/controllers/lease\<close>) with their retry loops. The driver carries its own copy of the
  address allocators (\<open>src/targets/bmv2/pkg/ipam\<close>). Netlink and the P4Runtime client are parameters.
\<close>

section \<open>The allocators of the driver\<close>

text \<open>The copies differ from the operator's package only in returning structs instead of interfaces.\<close>

definition bmv2_NewAddrAllocator :: "prefix \<Rightarrow> ipam_error + addr_allocator" where
  "bmv2_NewAddrAllocator base = NewAddrAllocator base"

definition bmv2_AddrAllocator_Next :: "addr_allocator \<Rightarrow> ipam_error + (addr \<times> addr_allocator)" where
  "bmv2_AddrAllocator_Next a = AddrAllocator_Next a"

section \<open>IP addresses as byte slices\<close>

definition net_To4 :: "bytes \<Rightarrow> bytes option" where
  "net_To4 b = (if length b = 4 then Some b else if length b = 16 then ip_To4 b else None)"

definition net_IsLoopback :: "bytes \<Rightarrow> bool" where
  "net_IsLoopback b = (case net_To4 b of Some b4 \<Rightarrow> b4 ! 0 = 127 | None \<Rightarrow> b = replicate 15 0 @ [1])"

definition net_IsLinkLocalUnicast :: "bytes \<Rightarrow> bool" where
  "net_IsLinkLocalUnicast b =
     (case net_To4 b of
        Some b4 \<Rightarrow> b4 ! 0 = 169 \<and> b4 ! 1 = 254
      | None \<Rightarrow> length b = 16 \<and> b ! 0 = 0xFE \<and> b ! 1 AND 0xC0 = 0x80)"

definition net_IsLinkLocalMulticast :: "bytes \<Rightarrow> bool" where
  "net_IsLinkLocalMulticast b =
     (case net_To4 b of
        Some b4 \<Rightarrow> b4 ! 0 = 224 \<and> b4 ! 1 = 0 \<and> b4 ! 2 = 0
      | None \<Rightarrow> length b = 16 \<and> b ! 0 = 0xFF \<and> b ! 1 AND 0x0F = 0x02)"

text \<open>\<open>netip.AddrFromSlice\<close>, the predicates of \<open>netip.Addr\<close> the filter uses, and \<open>net.IP.String\<close>.\<close>

definition AddrFromSlice :: "bytes \<Rightarrow> addr option" where
  "AddrFromSlice b =
     (if length b = 4 then Some (V4 (of_nat (be_value b)))
      else if length b = 16 then Some (V6 (of_nat (be_value b)) []) else None)"

fun addr_top :: "nat \<Rightarrow> addr \<Rightarrow> nat" where
  "addr_top n NoAddr = 0"
| "addr_top n (V4 a) = unat (drop_bit (32 - n) a)"
| "addr_top n (V6 a _) = unat (drop_bit (128 - n) a)"

definition addr_IsUnspecified :: "addr \<Rightarrow> bool" where
  "addr_IsUnspecified a \<longleftrightarrow> a = V4 0 \<or> a = V6 0 []"

definition addr_IsLoopback :: "addr \<Rightarrow> bool" where
  "addr_IsLoopback a0 = (let a = addr_Unmap a0 in if addr_Is4 a then addr_top 8 a = 127 else (case a of V6 x _ \<Rightarrow> x = 1 | _ \<Rightarrow> False))"

definition addr_IsLinkLocalUnicast :: "addr \<Rightarrow> bool" where
  "addr_IsLinkLocalUnicast a0 = (let a = addr_Unmap a0 in if addr_Is4 a then addr_top 16 a = 0xA9FE else addr_top 10 a = 0x3FA)"

definition addr_IsMulticast :: "addr \<Rightarrow> bool" where
  "addr_IsMulticast a0 = (let a = addr_Unmap a0 in if addr_Is4 a then addr_top 4 a = 0xE else addr_top 8 a = 0xFF)"

definition addr_IsLinkLocalMulticast :: "addr \<Rightarrow> bool" where
  "addr_IsLinkLocalMulticast a0 =
     (let a = addr_Unmap a0 in if addr_Is4 a then addr_top 24 a = 0xE00000 else addr_top 8 a = 0xFF \<and> addr_top 16 a mod 16 = 2)"

definition addr_IsInterfaceLocalMulticast :: "addr \<Rightarrow> bool" where
  "addr_IsInterfaceLocalMulticast a \<longleftrightarrow> \<not> addr_Is4 a \<and> \<not> addr_Is4In6 a \<and> addr_top 8 a = 0xFF \<and> addr_top 16 a mod 16 = 1"

definition net_IP_String :: "bytes \<Rightarrow> string" where
  "net_IP_String b =
     (case net_To4 b of
        Some b4 \<Rightarrow> addr_String (V4 (of_nat (be_value b4)))
      | None \<Rightarrow> addr_String (V6 (of_nat (be_value b)) []))"

definition unusable_ip :: "addr \<Rightarrow> bool" where
  "unusable_ip a \<longleftrightarrow> addr_IsInterfaceLocalMulticast a \<or> addr_IsLinkLocalUnicast a \<or> addr_IsLinkLocalMulticast a \<or>
     addr_IsLoopback a \<or> addr_IsMulticast a \<or> addr_IsUnspecified a"

definition FilterIPs :: "bytes list \<Rightarrow> string list" where
  "FilterIPs ips =
     map net_IP_String (filter (\<lambda>ip. case AddrFromSlice ip of None \<Rightarrow> False | Some a \<Rightarrow> \<not> unusable_ip a) ips)"

section \<open>The target manager\<close>

record 'w target_env = "'w driver_env" +
  te_AddrList :: "'w \<Rightarrow> int \<Rightarrow> go_error + ip_net list"
  te_Capabilities :: "'w \<Rightarrow> go_error option"

record TargetManager =
  tg_name :: string
  tg_targetIPs :: "bytes list"
  tg_driverIPs :: "bytes list"
  tg_maxNFSlots :: int
  tg_BridgeName :: string
  tg_cidr :: prefix
  tg_ipAllocator :: "addr_allocator option"
  tg_allocatedIPs :: "addr set"

definition target_NewManager :: "string \<Rightarrow> bytes list \<Rightarrow> bytes list \<Rightarrow> int \<Rightarrow> string \<Rightarrow> go_error + TargetManager" where
  "target_NewManager name targetIPs driverIPs maxNFSlots bridgeName =
     (if name = '''' then Inl (Errorf ''manager name is required'' None)
      else if maxNFSlots \<le> 0 then Inl (Errorf ''max NF slots must be > 0'' None)
      else Inr \<lparr>tg_name = name, tg_targetIPs = targetIPs, tg_driverIPs = driverIPs, tg_maxNFSlots = maxNFSlots,
                tg_BridgeName = bridgeName, tg_cidr = zero_prefix, tg_ipAllocator = None, tg_allocatedIPs = {}\<rparr>)"

fun del_addrs :: "'w target_env \<Rightarrow> int \<Rightarrow> ip_net list \<Rightarrow> 'w \<Rightarrow> (go_error + unit) \<times> 'w" where
  "del_addrs env link [] w = (Inr (), w)"
| "del_addrs env link (a # as) w =
     (if net_IsLinkLocalUnicast (fst a) \<or> net_IsLoopback (fst a) \<or> net_IsLinkLocalMulticast (fst a) then del_addrs env link as w
      else (case de_AddrDel env w link a of
              (Inl err, w1) \<Rightarrow> (Inl (Wrapf ''failed to remove old address from bridge'' err), w1)
            | (Inr _, w1) \<Rightarrow> del_addrs env link as w1))"

definition configureNFBridge :: "'w target_env \<Rightarrow> string \<Rightarrow> addr \<Rightarrow> prefix \<Rightarrow> 'w \<Rightarrow> (go_error + unit) \<times> 'w" where
  "configureNFBridge env bridgeName bridgeIP nfCIDR w =
     (case de_LinkByName env w bridgeName of
        Inl err \<Rightarrow> (Inl err, w)
      | Inr nfBridge \<Rightarrow>
     case te_AddrList env w nfBridge of
        Inl err \<Rightarrow> (Inl (Wrapf ''failed to list existing addresses on bridge'' err), w)
      | Inr previousAddresses \<Rightarrow>
     case del_addrs env nfBridge previousAddresses w of
        (Inl err, w1) \<Rightarrow> (Inl err, w1)
      | (Inr _, w1) \<Rightarrow>
          (case de_AddrAdd env w1 nfBridge (addr_AsSlice (addr_Unmap bridgeIP), CIDRMask (pfx_bits nfCIDR) (addr_BitLen bridgeIP)) of
             (Inl err, w2) \<Rightarrow> (Inl (Wrapf ''failed to add new address to bridge'' err), w2)
           | (Inr _, w2) \<Rightarrow> (Inr (), w2)))"

abbreviation ipam_go_error :: "ipam_error \<Rightarrow> go_error" where
  "ipam_go_error e \<equiv> Errorf ''ipam'' None"

definition EnsureNetworkConfiguration :: "'w target_env \<Rightarrow> string \<Rightarrow> TargetManager \<Rightarrow> 'w \<Rightarrow> (go_error + unit) \<times> TargetManager \<times> 'w" where
  "EnsureNetworkConfiguration env targetCIDR r w =
     (case ParsePrefix targetCIDR of
        None \<Rightarrow> (Inl (Errorf ''invalid CIDR'' None), r, w)
      | Some p \<Rightarrow>
          (let cidr = prefix_Masked p in
           if tg_cidr r = cidr then (Inr (), r, w)
           else (case bmv2_NewAddrAllocator cidr of
                   Inl err \<Rightarrow> (Inl (Wrapf ''failed to create IP allocator'' (ipam_go_error err)), r, w)
                 | Inr alloc \<Rightarrow>
                     (let r1 = r\<lparr>tg_cidr := cidr, tg_ipAllocator := Some alloc, tg_allocatedIPs := {}\<rparr> in
                      if tg_BridgeName r = '''' then (Inr (), r1, w)
                      else (case bmv2_AddrAllocator_Next alloc of
                              Inl err \<Rightarrow> (Inl (Wrapf ''failed to allocate bridge IP'' (ipam_go_error err)), r1, w)
                            | Inr (bridgeIP, alloc1) \<Rightarrow>
                                (case configureNFBridge env (tg_BridgeName r) bridgeIP cidr w of
                                   (Inl err, w1) \<Rightarrow>
                                     (Inl (Wrapf ''failed to configure NF bridge'' err), r1\<lparr>tg_ipAllocator := Some alloc1\<rparr>, w1)
                                 | (Inr _, w1) \<Rightarrow> (Inr (), r1\<lparr>tg_ipAllocator := Some alloc1\<rparr>, w1)))))))"

definition AllocateNetworkFunctionIP :: "TargetManager \<Rightarrow> (go_error + addr) \<times> TargetManager" where
  "AllocateNetworkFunctionIP r =
     (case tg_ipAllocator r of
        None \<Rightarrow> (Inl (Errorf ''network not configured: call EnsureNetworkConfiguration first'' None), r)
      | Some alloc \<Rightarrow>
          (case bmv2_AddrAllocator_Next alloc of
             Inl err \<Rightarrow> (Inl (ipam_go_error err), r)
           | Inr (addr, alloc1) \<Rightarrow>
               (Inr addr, r\<lparr>tg_ipAllocator := Some alloc1, tg_allocatedIPs := insert addr (tg_allocatedIPs r)\<rparr>)))"

text \<open>Both queries leave the device id at zero; the sums are 64-bit.\<close>

definition queryTableCapacity :: "'w target_env \<Rightarrow> 'w \<Rightarrow> int" where
  "queryTableCapacity env w =
     (case pc_GetPipeline (sc_P4Client (de_Switch env)) w 0 of
        Inr (Some cfg) \<Rightarrow>
          (case pl_P4Info cfg of
             None \<Rightarrow> 0
           | Some info \<Rightarrow> foldl (\<lambda>total t. i64 (total + pt_Size t)) 0 (pi_Tables info))
      | _ \<Rightarrow> 0)"

definition queryTableUsed :: "'w target_env \<Rightarrow> 'w \<Rightarrow> int" where
  "queryTableUsed env w =
     (case pc_Read (sc_P4Client (de_Switch env)) w 0 [ReadTable 0] of
        Inl err \<Rightarrow> 0
      | Inr (resps, _) \<Rightarrow> foldl (\<lambda>cnt es. i64 (cnt + int (length es))) 0 resps)"

abbreviation ResourceNFSlots :: string where "ResourceNFSlots \<equiv> ''loom.io/nf-slots''"
abbreviation ResourceTableEntries :: string where "ResourceTableEntries \<equiv> ''loom.io/table-entries''"

definition GetCapacity :: "'w target_env \<Rightarrow> TargetManager \<Rightarrow> 'w \<Rightarrow> (string \<times> int) list" where
  "GetCapacity env r w =
     (ResourceNFSlots, tg_maxNFSlots r) #
     (let tableCapacity = queryTableCapacity env w in if tableCapacity > 0 then [(ResourceTableEntries, tableCapacity)] else [])"

definition GetAllocatable :: "'w target_env \<Rightarrow> TargetManager \<Rightarrow> 'w \<Rightarrow> (string \<times> int) list" where
  "GetAllocatable env r w =
     (ResourceNFSlots, max (tg_maxNFSlots r - int (card (tg_allocatedIPs r))) 0) #
     (let tableCapacity = queryTableCapacity env w
      in if tableCapacity > 0 then [(ResourceTableEntries, max (i64 (tableCapacity - queryTableUsed env w)) 0)] else [])"

definition mk_condition :: "time \<Rightarrow> string \<Rightarrow> string \<Rightarrow> string \<Rightarrow> string \<Rightarrow> P4TargetCondition" where
  "mk_condition now ty status reason msg =
     \<lparr>c_Type = ty, c_Status = status, c_LastTransitionTime = 0, c_Reason = reason, c_Message = msg, c_LastHeartbeatTime = now\<rparr>"

abbreviation ConditionHealthy :: string where "ConditionHealthy \<equiv> ''Healthy''"
abbreviation ConditionNetworkConfigured :: string where "ConditionNetworkConfigured \<equiv> ''NetworkConfigured''"
abbreviation ConditionOccupied :: string where "ConditionOccupied \<equiv> ''Occupied''"

text \<open>\<open>err_text\<close> is the text of the error of an unreachable switch.\<close>

definition GetHealthyCondition :: "'w target_env \<Rightarrow> (go_error \<Rightarrow> string) \<Rightarrow> time \<Rightarrow> 'w \<Rightarrow> P4TargetCondition" where
  "GetHealthyCondition env err_text now w =
     (case te_Capabilities env w of
        Some err \<Rightarrow> mk_condition now ConditionHealthy ConditionFalse ''SwitchUnreachable'' (err_text err)
      | None \<Rightarrow> mk_condition now ConditionHealthy ConditionTrue ''SwitchReachable'' ''The BMv2 switch is reachable'')"

definition drv_GetReadyCondition :: "time \<Rightarrow> P4TargetCondition \<Rightarrow> P4TargetCondition \<Rightarrow> P4TargetCondition" where
  "drv_GetReadyCondition now healthyCond netconfCond =
     (if c_Status healthyCond = ConditionTrue \<and> c_Status netconfCond = ConditionTrue
      then mk_condition now P4TargetConditionReady ConditionTrue ''TargetReady'' ''The target is ready.''
      else mk_condition now P4TargetConditionReady ConditionFalse ''TargetNotReady'' ''The target is not ready.'')"

definition GetNetworkConfiguredCondition :: "TargetManager \<Rightarrow> time \<Rightarrow> P4TargetCondition" where
  "GetNetworkConfiguredCondition r now =
     (if \<not> prefix_IsValid (tg_cidr r)
      then mk_condition now ConditionNetworkConfigured ConditionFalse ''NoCIDR'' ''No CIDR was assigned to the P4Target yet.''
      else mk_condition now ConditionNetworkConfigured ConditionTrue ''CIDRConfigured'' (prefix_String (tg_cidr r)))"

definition GetOccupiedCondition :: "TargetManager \<Rightarrow> time \<Rightarrow> P4TargetCondition" where
  "GetOccupiedCondition r now =
     (let used = int (card (tg_allocatedIPs r));
          msg = format_int used @ ''/'' @ format_int (tg_maxNFSlots r) @ '' slots used''
      in if used \<ge> tg_maxNFSlots r
         then mk_condition now ConditionOccupied ConditionTrue ''NoSlotsAvailable'' msg
         else mk_condition now ConditionOccupied ConditionFalse ''SlotsAvailable'' msg)"

section \<open>The status updater\<close>

definition ResourceListsChanged :: "(string \<times> int) list \<Rightarrow> (string \<times> int) list \<Rightarrow> bool" where
  "ResourceListsChanged a b =
     (length a \<noteq> length b \<or> (\<exists>(key, valA) \<in> set a. case map_of b key of None \<Rightarrow> True | Some valB \<Rightarrow> valA \<noteq> valB))"

definition ConditionChanged :: "P4TargetCondition \<Rightarrow> P4TargetCondition \<Rightarrow> bool" where
  "ConditionChanged original target \<longleftrightarrow>
     c_Status original \<noteq> c_Status target \<or> c_Reason original \<noteq> c_Reason target \<or> c_Message original \<noteq> c_Message target"

text \<open>A later condition of the same type overwrites an earlier one in the map the code builds.\<close>

definition ConditionsChanged :: "P4TargetCondition list \<Rightarrow> P4TargetCondition list \<Rightarrow> bool" where
  "ConditionsChanged a b \<longleftrightarrow>
     length a \<noteq> length b \<or>
     (let mapA = map_of (rev (map (\<lambda>c. (c_Type c, c)) a))
      in \<exists>cb \<in> set b. case mapA (c_Type cb) of None \<Rightarrow> True | Some ca \<Rightarrow> ConditionChanged ca cb)"

definition StatusChanged :: "P4TargetStatus \<Rightarrow> P4TargetStatus \<Rightarrow> bool" where
  "StatusChanged original target =
     (if ResourceListsChanged (ptt_Capacity original) (ptt_Capacity target) then True
      else if ResourceListsChanged (ptt_Allocatable original) (ptt_Allocatable target) then True
      else if ptt_TargetIPs original \<noteq> ptt_TargetIPs target then True
      else if ptt_DriverIPs original \<noteq> ptt_DriverIPs target then True
      else ConditionsChanged (ptt_Conditions original) (ptt_Conditions target))"

text \<open>
  The client of the updater; a pod is read for its node name only. \<open>StatusPatch\<close> takes the modified and
  the original object.
\<close>

record 'w drv_client =
  dc_GetTarget :: "'w \<Rightarrow> nsname \<Rightarrow> go_error + P4Target"
  dc_CreateTarget :: "'w \<Rightarrow> P4Target \<Rightarrow> (go_error + unit) \<times> 'w"
  dc_GetPodNode :: "'w \<Rightarrow> nsname \<Rightarrow> go_error + string"
  dc_StatusPatch :: "'w \<Rightarrow> P4Target \<Rightarrow> P4Target \<Rightarrow> (go_error + unit) \<times> 'w"

definition createP4Target :: "'w drv_client \<Rightarrow> TargetManager \<Rightarrow> 'w \<Rightarrow> (go_error + unit) \<times> 'w" where
  "createP4Target cl r w =
     dc_CreateTarget cl w
       \<lparr>om_Name = tg_name r, om_GenerateName = '''', om_Namespace = '''', om_UID = '''', om_Generation = 0,
        om_Labels = Some [(''p4target.loom.io/arch'', ''v1model'')], om_Annotations = None, om_Finalizers = [],
        om_OwnerReferences = [], om_CreationTimestamp = 0, om_DeletionTimestamp = None,
        pt_Spec = \<lparr>pts_Taints = [], pts_Unschedulable = False, pts_NfCIDR = '''', pts_AttachmentType = ''''\<rparr>,
        pt_Status = \<lparr>ptt_NodeName = '''', ptt_TargetIPs = [], ptt_DriverIPs = [], ptt_Capacity = [],
                     ptt_Allocatable = [], ptt_HostVRF = None, ptt_Conditions = []\<rparr>\<rparr>"

definition calculateP4TargetStatus ::
    "'w target_env \<Rightarrow> (go_error \<Rightarrow> string) \<Rightarrow> time \<Rightarrow> TargetManager \<Rightarrow> string \<Rightarrow> 'w \<Rightarrow> P4TargetStatus" where
  "calculateP4TargetStatus env err_text now r podNode w =
     (let healthyCondition = GetHealthyCondition env err_text now w;
          netconfCondition = GetNetworkConfiguredCondition r now
      in \<lparr>ptt_NodeName = podNode,
          ptt_TargetIPs = FilterIPs (tg_targetIPs r), ptt_DriverIPs = FilterIPs (tg_driverIPs r),
          ptt_Capacity = GetCapacity env r w, ptt_Allocatable = GetAllocatable env r w, ptt_HostVRF = None,
          ptt_Conditions = [drv_GetReadyCondition now healthyCondition netconfCondition, healthyCondition,
                            netconfCondition, GetOccupiedCondition r now]\<rparr>)"

definition updateP4TargetStatus ::
    "'w drv_client \<Rightarrow> 'w target_env \<Rightarrow> (go_error \<Rightarrow> string) \<Rightarrow> time \<Rightarrow> TargetManager \<Rightarrow> P4Target \<Rightarrow> string \<Rightarrow> 'w \<Rightarrow>
     (go_error + unit) \<times> 'w" where
  "updateP4TargetStatus cl env err_text now r target podNode w =
     (let target' = target\<lparr>pt_Status := calculateP4TargetStatus env err_text now r podNode w\<rparr>
      in if StatusChanged (pt_Status target) (pt_Status target') then dc_StatusPatch cl w target' target else (Inr (), w))"

text \<open>\<open>None\<close> is the panic of a driver whose pod name or namespace is not in its environment.\<close>

definition status_Reconcile ::
    "'w drv_client \<Rightarrow> 'w target_env \<Rightarrow> (go_error \<Rightarrow> string) \<Rightarrow> string \<Rightarrow> string \<Rightarrow> time \<Rightarrow> TargetManager \<Rightarrow> 'w \<Rightarrow>
     ((go_error + ctrl_result) \<times> TargetManager \<times> 'w) option" where
  "status_Reconcile cl env err_text podName podNamespace now r w =
     (case dc_GetTarget cl w ('''', tg_name r) of
        Inl err \<Rightarrow>
          Some (if IsNotFound err
                then (case createP4Target cl r w of
                        (Inl err, w1) \<Rightarrow> (Inl err, r, w1)
                      | (Inr _, w1) \<Rightarrow> (Inr (RequeueAfter (10 * Second)), r, w1))
                else (Inl err, r, w))
      | Inr target \<Rightarrow>
          if podName = '''' \<or> podNamespace = '''' then None
          else Some
           (case dc_GetPodNode cl w (podNamespace, podName) of
              Inl err \<Rightarrow> if IsNotFound err then (Inr (RequeueAfter (10 * Second)), r, w) else (Inl err, r, w)
            | Inr podNode \<Rightarrow>
                if length (pts_NfCIDR (pt_Spec target)) = 0 then (Inr (RequeueAfter (10 * Second)), r, w)
                else (case EnsureNetworkConfiguration env (pts_NfCIDR (pt_Spec target)) r w of
                        (Inl err, r1, w1) \<Rightarrow> (Inl err, r1, w1)
                      | (Inr _, r1, w1) \<Rightarrow>
                          (case updateP4TargetStatus cl env err_text now r1 target podNode w1 of
                             (Inl err, w2) \<Rightarrow> (Inl err, r1, w2)
                           | (Inr _, w2) \<Rightarrow> (Inr Done, r1, w2)))))"

section \<open>The lease renewer\<close>

abbreviation InitialBackoff :: duration where "InitialBackoff \<equiv> 1 * Second"
abbreviation MaxBackoff :: duration where "MaxBackoff \<equiv> 16 * Second"

record DrvLease = Lease +
  dl_Name :: string
  dl_Namespace :: string
  dl_HolderIdentity :: "string option"
  dl_AcquireTime :: "time option"

record 'w lease_client =
  lc_Get :: "'w \<Rightarrow> nsname \<Rightarrow> go_error + DrvLease"
  lc_Create :: "'w \<Rightarrow> DrvLease \<Rightarrow> (go_error + unit) \<times> 'w"
  lc_Patch :: "'w \<Rightarrow> DrvLease \<Rightarrow> DrvLease \<Rightarrow> (go_error + unit) \<times> 'w"

record Renewer =
  rw_Name :: string
  rw_RenewInterval :: duration
  rw_LeaseDuration :: duration

definition lease_seconds :: "Renewer \<Rightarrow> int" where
  "lease_seconds r = i32 (rw_LeaseDuration r div Second)"

definition createLease :: "'w lease_client \<Rightarrow> Renewer \<Rightarrow> time \<Rightarrow> 'w \<Rightarrow> (go_error + unit) \<times> 'w" where
  "createLease cl r now w =
     (case lc_Create cl w \<lparr>le_RenewTime = Some now, le_LeaseDurationSeconds = Some (lease_seconds r),
                          dl_Name = rw_Name r, dl_Namespace = P4TargetLeaseNamespace,
                          dl_HolderIdentity = Some (rw_Name r), dl_AcquireTime = Some now\<rparr> of
        (Inl err, w1) \<Rightarrow> (if IsAlreadyExists err then Inr () else Inl err, w1)
      | (Inr _, w1) \<Rightarrow> (Inr (), w1))"

definition updateLease :: "'w lease_client \<Rightarrow> Renewer \<Rightarrow> DrvLease \<Rightarrow> time \<Rightarrow> 'w \<Rightarrow> (go_error + unit) \<times> 'w" where
  "updateLease cl r lease now w =
     lc_Patch cl w (lease\<lparr>dl_HolderIdentity := Some (rw_Name r), le_LeaseDurationSeconds := Some (lease_seconds r),
                          le_RenewTime := Some now, dl_AcquireTime := Some now\<rparr>) lease"

text \<open>The result is the delay \<open>RecheckAfter\<close>.\<close>

definition lease_Reconcile :: "'w lease_client \<Rightarrow> Renewer \<Rightarrow> time \<Rightarrow> 'w \<Rightarrow> (go_error + duration) \<times> 'w" where
  "lease_Reconcile cl r now w =
     (case lc_Get cl w (P4TargetLeaseNamespace, rw_Name r) of
        Inl err \<Rightarrow>
          if IsNotFound err
          then (case createLease cl r now w of
                  (Inl err, w1) \<Rightarrow> (Inl err, w1)
                | (Inr _, w1) \<Rightarrow> (Inr (2 * Second), w1))
          else (Inl err, w)
      | Inr lease \<Rightarrow>
          (case updateLease cl r lease now w of
             (Inl err, w1) \<Rightarrow> (Inl err, w1)
           | (Inr _, w1) \<Rightarrow> (Inr 0, w1)))"

text \<open>
  What the two \<open>Start\<close> loops do with the outcome of one pass: the delay of the timer and the next
  backoff. \<open>renew_tick\<close> is one turn of the renewer's loop: the timer fires at \<open>t\<close>, and the pass takes
  \<open>lat\<close>.
\<close>

definition next_schedule :: "duration \<Rightarrow> duration \<Rightarrow> go_error + duration \<Rightarrow> duration \<times> duration" where
  "next_schedule interval backoff res =
     (case res of
        Inl err \<Rightarrow> (backoff, let b = backoff * 2 in if b > MaxBackoff then MaxBackoff else b)
      | Inr recheck \<Rightarrow> (if recheck \<noteq> 0 then recheck else interval, InitialBackoff))"

definition renew_tick ::
    "'w lease_client \<Rightarrow> Renewer \<Rightarrow> duration \<Rightarrow> duration \<times> time \<times> 'w \<Rightarrow> (go_error + duration) \<times> duration \<times> time \<times> 'w" where
  "renew_tick cl r lat = (\<lambda>(backoff, t, w).
     case lease_Reconcile cl r t w of (res, w1) \<Rightarrow>
     case next_schedule (rw_RenewInterval r) backoff res of (delay, backoff1) \<Rightarrow>
       (res, backoff1, t + lat + delay, w1))"

fun renew_run ::
    "'w lease_client \<Rightarrow> Renewer \<Rightarrow> duration list \<Rightarrow> duration \<times> time \<times> 'w \<Rightarrow>
     ((go_error + duration) \<times> duration \<times> time \<times> 'w) list" where
  "renew_run cl r [] s = []"
| "renew_run cl r (lat # lats) s = (case renew_tick cl r lat s of (res, s1) \<Rightarrow> (res, s1) # renew_run cl r lats s1)"

text \<open>The delay the status updater asks for, as its loop reads it.\<close>

definition result_delay :: "ctrl_result \<Rightarrow> duration" where
  "result_delay res = (case res of RequeueAfter d \<Rightarrow> d | _ \<Rightarrow> 0)"

definition status_tick ::
    "'w drv_client \<Rightarrow> 'w target_env \<Rightarrow> (go_error \<Rightarrow> string) \<Rightarrow> string \<Rightarrow> string \<Rightarrow> duration \<Rightarrow> duration \<Rightarrow>
     TargetManager \<times> duration \<times> time \<times> 'w \<Rightarrow> (TargetManager \<times> duration \<times> time \<times> 'w) option" where
  "status_tick cl env err_text podName podNamespace interval lat = (\<lambda>(r, backoff, t, w).
     case status_Reconcile cl env err_text podName podNamespace t r w of
       None \<Rightarrow> None
     | Some (res, r1, w1) \<Rightarrow>
         (case next_schedule interval backoff (map_sum id result_delay res) of (delay, backoff1) \<Rightarrow>
            Some (r1, backoff1, t + lat + delay, w1)))"

section \<open>Function addresses\<close>

text \<open>A history of the manager: the updater configures the network, the function controller allocates.\<close>

inductive tg_step :: "'w target_env \<Rightarrow> TargetManager \<times> 'w \<Rightarrow> TargetManager \<times> 'w \<Rightarrow> bool" for env :: "'w target_env" where
  ensure: "EnsureNetworkConfiguration env cidr r w = (res, r', w') \<Longrightarrow> tg_step env (r, w) (r', w')"
| alloc: "AllocateNetworkFunctionIP r = (res, r') \<Longrightarrow> tg_step env (r, w) (r', w)"
| world: "tg_step env (r, w) (r, w')"

text \<open>The bridge takes the first address when there is one, the functions those after it, in order.\<close>

definition first_nf :: "TargetManager \<Rightarrow> nat" where
  "first_nf r = (if tg_BridgeName r = '''' then 1 else 2)"

definition tg_inv :: "TargetManager \<Rightarrow> bool" where
  "tg_inv r \<longleftrightarrow>
     (case tg_ipAllocator r of
        None \<Rightarrow> tg_cidr r = zero_prefix \<and> tg_allocatedIPs r = {}
      | Some a \<Rightarrow> aa_inv a \<and> aa_BaseNetwork a = tg_cidr r \<and>
                  (first_nf r \<le> Suc (aa_index a) \<or> pfx_size (tg_cidr r) \<le> 2) \<and>
                  tg_allocatedIPs r = pfx_nth (tg_cidr r) ` {first_nf r..aa_index a})"

lemma NewAddrAllocator_fresh:
  assumes "NewAddrAllocator b = Inr al"
  shows "aa_inv al" "aa_BaseNetwork al = b" "aa_index al = 0"
proof -
  have b: "base_ok b" "aa_BaseNetwork al = b" "aa_LastAssignedIP al = pfx_nth b 0"
    using assms by (auto simp: NewAddrAllocator_def base_ok_def split: if_splits)
  show "aa_inv al" using b Contains_nth [of b 0] by (simp add: aa_inv_def)
  show "aa_index al = 0" using b by (intro aa_index_eqI) auto
  show "aa_BaseNetwork al = b" by (fact b(2))
qed

lemma AddrAllocator_Next_ok:
  assumes "aa_inv al" "AddrAllocator_Next al = Inr (x, al')"
  shows "x = pfx_nth (aa_BaseNetwork al) (Suc (aa_index al))" "aa_inv al'" "aa_BaseNetwork al' = aa_BaseNetwork al"
    "aa_index al' = Suc (aa_index al)" "Suc (aa_index al) < pfx_size (aa_BaseNetwork al)" "base_ok (aa_BaseNetwork al)"
proof -
  let ?b = "aa_BaseNetwork al"
  have lt: "Suc (Suc (aa_index al)) < pfx_size ?b" and x: "x = pfx_nth ?b (Suc (aa_index al))"
    and al': "al' = al\<lparr>aa_LastAssignedIP := x\<rparr>"
    using assms AddrAllocator_Next_index [OF assms(1) refl] by (auto split: if_splits)
  show ok: "base_ok ?b" using assms(1) by (simp add: aa_inv_def)
  show "x = pfx_nth ?b (Suc (aa_index al))" by (fact x)
  show "aa_inv al'" using ok lt by (simp add: al' x aa_inv_def)
  show "aa_BaseNetwork al' = ?b" by (simp add: al')
  show "Suc (aa_index al) < pfx_size ?b" using lt by simp
  then show "aa_index al' = Suc (aa_index al)" using ok by (intro aa_index_eqI) (auto simp: al' x)
qed

lemma Ensure_cases:
  assumes "EnsureNetworkConfiguration env cidr r w = (res, r', w')"
  obtains (same) "r' = r"
  | (fresh) al c where "NewAddrAllocator c = Inr al" "c \<noteq> tg_cidr r" "tg_BridgeName r = ''''"
      "r' = r\<lparr>tg_cidr := c, tg_ipAllocator := Some al, tg_allocatedIPs := {}\<rparr>"
  | (full) al c e where "NewAddrAllocator c = Inr al" "c \<noteq> tg_cidr r" "tg_BridgeName r \<noteq> ''''"
      "AddrAllocator_Next al = Inl e"
      "r' = r\<lparr>tg_cidr := c, tg_ipAllocator := Some al, tg_allocatedIPs := {}\<rparr>"
  | (bridge) al c x al' where "NewAddrAllocator c = Inr al" "c \<noteq> tg_cidr r" "tg_BridgeName r \<noteq> ''''"
      "AddrAllocator_Next al = Inr (x, al')"
      "r' = r\<lparr>tg_cidr := c, tg_ipAllocator := Some al', tg_allocatedIPs := {}\<rparr>"
proof (cases "ParsePrefix cidr")
  case None
  with assms that(1) show ?thesis by (simp add: EnsureNetworkConfiguration_def)
next
  case (Some p)
  show ?thesis
  proof (cases "tg_cidr r = prefix_Masked p")
    case True
    with assms Some that(1) show ?thesis by (simp add: EnsureNetworkConfiguration_def)
  next
    case new: False
    show ?thesis
    proof (cases "NewAddrAllocator (prefix_Masked p)")
      case (Inl e)
      with assms Some new that(1) show ?thesis by (simp add: EnsureNetworkConfiguration_def bmv2_NewAddrAllocator_def)
    next
      case (Inr al)
      show ?thesis
        using assms Some new Inr that(2) [OF Inr] that(3) [OF Inr] that(4) [OF Inr]
        by (auto simp: EnsureNetworkConfiguration_def bmv2_NewAddrAllocator_def bmv2_AddrAllocator_Next_def Let_def
              split: if_splits sum.splits prod.splits)
    qed
  qed
qed

lemma Allocate_cases:
  assumes "AllocateNetworkFunctionIP r = (res, r')"
  obtains (err) e where "res = Inl e" "r' = r"
  | (ok) al x al' where "tg_ipAllocator r = Some al" "AddrAllocator_Next al = Inr (x, al')" "res = Inr x"
      "r' = r\<lparr>tg_ipAllocator := Some al', tg_allocatedIPs := insert x (tg_allocatedIPs r)\<rparr>"
  using assms by (auto simp: AllocateNetworkFunctionIP_def bmv2_AddrAllocator_Next_def split: option.splits sum.splits)

lemma tg_inv_ensure:
  assumes "tg_inv r" "EnsureNetworkConfiguration env cidr r w = (res, r', w')"
  shows "tg_inv r'"
  using assms(2)
proof (cases rule: Ensure_cases)
  case same
  with assms(1) show ?thesis by simp
next
  case (fresh al c)
  with NewAddrAllocator_fresh [OF fresh(1)] show ?thesis by (simp add: tg_inv_def first_nf_def)
next
  case (full al c e)
  then have "pfx_size c \<le> 2"
    using NewAddrAllocator_fresh [OF full(1)] AddrAllocator_Next_index [of al c] by (auto split: if_splits)
  with full NewAddrAllocator_fresh [OF full(1)] show ?thesis by (simp add: tg_inv_def first_nf_def)
next
  case (bridge al c x al')
  with NewAddrAllocator_fresh [OF bridge(1)] AddrAllocator_Next_ok [OF _ bridge(4)]
  show ?thesis by (simp add: tg_inv_def first_nf_def)
qed

lemma Allocate_fresh:
  assumes inv: "tg_inv r" and run: "AllocateNetworkFunctionIP r = (Inr x, r')"
  obtains k where "x = pfx_nth (tg_cidr r) k" "first_nf r \<le> k" "k < pfx_size (tg_cidr r)" "base_ok (tg_cidr r)"
    "tg_allocatedIPs r = pfx_nth (tg_cidr r) ` {first_nf r..<k}"
    "tg_allocatedIPs r' = pfx_nth (tg_cidr r) ` {first_nf r..<Suc k}" "tg_inv r'"
    "tg_cidr r' = tg_cidr r" "first_nf r' = first_nf r" "tg_maxNFSlots r' = tg_maxNFSlots r"
  using run
proof (cases rule: Allocate_cases)
  case (ok al y al')
  let ?k = "Suc (aa_index al)"
  have al: "aa_inv al" "aa_BaseNetwork al = tg_cidr r" "first_nf r \<le> ?k \<or> pfx_size (tg_cidr r) \<le> 2"
    "tg_allocatedIPs r = pfx_nth (tg_cidr r) ` {first_nf r..<?k}"
    using inv ok(1) by (simp_all add: tg_inv_def atLeastLessThanSuc_atLeastAtMost)
  note nx = AddrAllocator_Next_ok [OF al(1) ok(2), unfolded al(2)]
  have lt: "Suc ?k < pfx_size (tg_cidr r)"
    using ok(2) AddrAllocator_Next_index [OF al(1) refl] by (auto simp: al(2) split: if_splits)
  then have first: "first_nf r \<le> ?k" using al(3) by auto
  then have grown: "insert (pfx_nth (tg_cidr r) ?k) (tg_allocatedIPs r) = pfx_nth (tg_cidr r) ` {first_nf r..<Suc ?k}"
    unfolding al(4) by (simp add: atLeastLessThanSuc)
  have x: "x = pfx_nth (tg_cidr r) ?k" using ok(3) nx(1) by simp
  have "tg_inv r'"
    using ok(4) nx(1-4) grown first by (simp add: tg_inv_def first_nf_def atLeastLessThanSuc_atLeastAtMost)
  then show ?thesis
    using that [OF x first nx(5,6) al(4)] ok(4) nx(1) grown by (simp add: first_nf_def)
qed simp

lemma nth_image_card:
  assumes "base_ok b" "n \<le> pfx_size b"
  shows "card (pfx_nth b ` {m..<n}) = n - m"
proof -
  have "inj_on (pfx_nth b) {m..<n}"
    by (intro inj_onI) (use assms nth_inj less_le_trans in \<open>metis atLeastLessThan_iff\<close>)
  then show ?thesis by (simp add: card_image)
qed

lemma nth_not_before:
  assumes "base_ok b" "k < pfx_size b"
  shows "pfx_nth b k \<notin> pfx_nth b ` {m..<k}"
proof
  assume "pfx_nth b k \<in> pfx_nth b ` {m..<k}"
  then obtain j where "j < k" "pfx_nth b k = pfx_nth b j" by auto
  with assms nth_inj [of b k j] show False by simp
qed

lemma tg_inv_new: "target_NewManager name tips dips slots bridge = Inr r \<Longrightarrow> tg_inv r"
  by (auto simp: target_NewManager_def tg_inv_def split: if_splits)

lemma tg_inv_step: "tg_step env s s' \<Longrightarrow> tg_inv (fst s) \<Longrightarrow> tg_inv (fst s')"
proof (induction rule: tg_step.induct)
  case (ensure cidr r w res r' w')
  then show ?case using tg_inv_ensure by (metis fst_conv)
next
  case (alloc r res r' w)
  show ?case
  proof (cases res)
    case (Inl e)
    with alloc show ?thesis by (auto elim: Allocate_cases)
  next
    case (Inr x)
    with alloc show ?thesis by (metis Allocate_fresh fst_conv)
  qed
qed simp

lemma tg_inv_reach: "(tg_step env)\<^sup>*\<^sup>* s s' \<Longrightarrow> tg_inv (fst s) \<Longrightarrow> tg_inv (fst s')"
  by (induction rule: rtranclp_induct) (auto dest: tg_inv_step)

text \<open>
  The addresses the driver gives to functions. Through any history of network configurations and
  allocations, with any failures of the bridge set-up, a new address lies in the target's network, was
  not given out since that network was configured, is not the address of the bridge (the first of the
  network), and uses up exactly one slot.
\<close>

theorem function_addresses_fresh:
  assumes "target_NewManager name tips dips slots bridge = Inr r0" "(tg_step env)\<^sup>*\<^sup>* (r0, w0) (r, w)"
    and "AllocateNetworkFunctionIP r = (Inr x, r')"
  shows "prefix_Contains (tg_cidr r) x \<and> x \<notin> tg_allocatedIPs r \<and> x \<in> tg_allocatedIPs r' \<and>
    (tg_BridgeName r \<noteq> '''' \<longrightarrow> x \<noteq> pfx_nth (tg_cidr r) 1 \<and> x \<noteq> pfx_nth (tg_cidr r) 0) \<and>
    card (tg_allocatedIPs r') = Suc (card (tg_allocatedIPs r))"
proof -
  have "tg_inv r" using tg_inv_reach [OF assms(2)] tg_inv_new [OF assms(1)] by simp
  then obtain k where k: "x = pfx_nth (tg_cidr r) k" "first_nf r \<le> k" "k < pfx_size (tg_cidr r)" "base_ok (tg_cidr r)"
    "tg_allocatedIPs r = pfx_nth (tg_cidr r) ` {first_nf r..<k}"
    "tg_allocatedIPs r' = pfx_nth (tg_cidr r) ` {first_nf r..<Suc k}"
    using Allocate_fresh [OF _ assms(3)] by metis
  have other: "pfx_nth (tg_cidr r) k \<noteq> pfx_nth (tg_cidr r) j" if "j < k" for j
    using k(3,4) nth_inj [of "tg_cidr r" k j] that by auto
  have "x \<notin> tg_allocatedIPs r" unfolding k(1,5) using k(3,4) by (intro nth_not_before)
  moreover have "card (tg_allocatedIPs r') = Suc (card (tg_allocatedIPs r))"
    unfolding k(5,6) using k(2,3,4) by (simp add: nth_image_card Suc_diff_le)
  moreover have "x \<noteq> pfx_nth (tg_cidr r) 1 \<and> x \<noteq> pfx_nth (tg_cidr r) 0" if "tg_BridgeName r \<noteq> ''''"
    using k(2) other [of 1] other [of 0] that by (auto simp: k(1) first_nf_def)
  ultimately show ?thesis using k(1-4,6) Contains_nth by auto
qed

text \<open>
  Slots are never given back. As long as the target keeps its network, nothing the driver does
  shrinks the set of allocated addresses, so a target that reported itself occupied stays occupied,
  whatever functions are deleted: the manager has no operation that releases an address.
\<close>

theorem slots_never_released:
  assumes "tg_step env (r, w) (r', w')" "tg_cidr r' = tg_cidr r" "finite (tg_allocatedIPs r')"
  shows "tg_allocatedIPs r \<subseteq> tg_allocatedIPs r' \<and>
    (c_Status (GetOccupiedCondition r now) = ConditionTrue \<longrightarrow>
     c_Status (GetOccupiedCondition r' now') = ConditionTrue \<and>
     map_of (GetAllocatable env r' w') ResourceNFSlots = Some 0)"
proof -
  have sub: "tg_allocatedIPs r \<subseteq> tg_allocatedIPs r' \<and> tg_maxNFSlots r' = tg_maxNFSlots r"
    using assms(1)
  proof (cases rule: tg_step.cases)
    case (ensure cidr res)
    from this(1) assms(2) show ?thesis by (cases rule: Ensure_cases) auto
  next
    case (alloc res)
    from alloc(2) show ?thesis by (cases rule: Allocate_cases) auto
  qed simp
  then have "card (tg_allocatedIPs r) \<le> card (tg_allocatedIPs r')" using assms(3) by (auto intro: card_mono)
  with sub show ?thesis
    by (auto simp: GetOccupiedCondition_def GetAllocatable_def mk_condition_def Let_def split: if_splits)
qed

text \<open>
  A bridge set-up that fails is not retried. The manager stores the network before it configures
  the bridge, so after the failure the same call succeeds without touching the bridge, and the target
  reports its network as configured.
\<close>

theorem failed_bridge_reported_configured:
  assumes "EnsureNetworkConfiguration env cidr r w = (Inl (Wrapf ''failed to configure NF bridge'' e), r1, w1)"
  shows "EnsureNetworkConfiguration env cidr r1 w2 = (Inr (), r1, w2) \<and>
    c_Status (GetNetworkConfiguredCondition r1 now) = ConditionTrue"
proof (cases "ParsePrefix cidr")
  case None
  with assms show ?thesis by (simp add: EnsureNetworkConfiguration_def)
next
  case (Some p)
  show ?thesis
  proof (cases "bmv2_NewAddrAllocator (prefix_Masked p)")
    case (Inl e)
    with assms Some show ?thesis by (auto simp: EnsureNetworkConfiguration_def Let_def split: if_splits)
  next
    case (Inr al)
    then have "prefix_IsValid (prefix_Masked p)"
      by (auto simp: bmv2_NewAddrAllocator_def NewAddrAllocator_def split: if_splits)
    moreover have "tg_cidr r1 = prefix_Masked p"
      using assms Some Inr
      by (auto simp: EnsureNetworkConfiguration_def Let_def split: if_splits sum.splits prod.splits)
    ultimately show ?thesis
      using Some by (simp add: EnsureNetworkConfiguration_def GetNetworkConfiguredCondition_def mk_condition_def)
  qed
qed

section \<open>The lease outlives failures of the API\<close>

text \<open>
  What the renewer relies on: a read shows the stored lease (or fails), and a write that fails has
  either stored the object or left it alone.
\<close>

definition lease_api :: "'w lease_client \<Rightarrow> ('w \<Rightarrow> nsname \<Rightarrow> DrvLease option) \<Rightarrow> bool" where
  "lease_api cl stored \<longleftrightarrow>
     (\<forall>w k l. lc_Get cl w k = Inr l \<longrightarrow> stored w k = Some l \<and> k = (dl_Namespace l, dl_Name l)) \<and>
     (\<forall>w l res w'. lc_Create cl w l = (res, w') \<longrightarrow>
        stored w' = stored w \<or>
        stored w (dl_Namespace l, dl_Name l) = None \<and> stored w' = (stored w)((dl_Namespace l, dl_Name l) \<mapsto> l)) \<and>
     (\<forall>w l l0 res w'. lc_Patch cl w l l0 = (res, w') \<longrightarrow>
        (isl res \<and> stored w' = stored w) \<or> stored w' = (stored w)((dl_Namespace l, dl_Name l) \<mapsto> l))"

lemma lease_apiD:
  assumes "lease_api cl stored"
  shows "lc_Get cl w k = Inr l \<Longrightarrow> stored w k = Some l \<and> k = (dl_Namespace l, dl_Name l)"
    and "lc_Create cl w l = (res, w') \<Longrightarrow> stored w' = stored w \<or> stored w (dl_Namespace l, dl_Name l) = None"
    and "lc_Patch cl w l l0 = (pres, w') \<Longrightarrow>
      (isl pres \<and> stored w' = stored w) \<or> stored w' = (stored w)((dl_Namespace l, dl_Name l) \<mapsto> l)"
  using assms unfolding lease_api_def by metis+

lemma live_lease_trusted:
  assumes "lease_live (ck_expiry ck) lease" "GetReadyCondition t = Some c"
  shows "calculateReadinessCondition ck t (Some lease) = Inr c"
  using assms
  by (auto simp: calculateReadinessCondition_def lease_live_def GetReadyCondition_def GetCondition_def Let_def not_less split: option.splits)

definition renewed_since :: "('w \<Rightarrow> nsname \<Rightarrow> DrvLease option) \<Rightarrow> Renewer \<Rightarrow> time \<Rightarrow> 'w \<Rightarrow> bool" where
  "renewed_since stored r t w \<longleftrightarrow>
     (\<exists>l t'. stored w (P4TargetLeaseNamespace, rw_Name r) = Some l \<and> le_RenewTime l = Some t' \<and> t \<le> t' \<and>
             le_LeaseDurationSeconds l = Some (lease_seconds r))"

lemma lease_Reconcile_renews:
  assumes api: "lease_api cl stored" and run: "lease_Reconcile cl r now w = (res, w')" and t: "t0 \<le> now"
  shows "renewed_since stored r t0 w \<or> res = Inr 0 \<Longrightarrow> renewed_since stored r t0 w'"
proof (cases "lc_Get cl w (P4TargetLeaseNamespace, rw_Name r)")
  case (Inr l)
  let ?l = "l\<lparr>dl_HolderIdentity := Some (rw_Name r), le_LeaseDurationSeconds := Some (lease_seconds r),
                          le_RenewTime := Some now, dl_AcquireTime := Some now\<rparr>"
  assume pre: "renewed_since stored r t0 w \<or> res = Inr 0"
  obtain pres where p: "lc_Patch cl w ?l l = (pres, w')" "res = (case pres of Inl e \<Rightarrow> Inl e | Inr _ \<Rightarrow> Inr 0)"
    using run Inr by (auto simp: lease_Reconcile_def updateLease_def split: prod.splits sum.splits)
  have key: "(dl_Namespace ?l, dl_Name ?l) = (P4TargetLeaseNamespace, rw_Name r)"
    using lease_apiD(1) [OF api Inr] by simp
  have "(isl pres \<and> stored w' = stored w) \<or> stored w' = (stored w)((dl_Namespace ?l, dl_Name ?l) \<mapsto> ?l)"
    by (rule lease_apiD(3) [OF api p(1)])
  then show ?thesis
  proof
    assume "isl pres \<and> stored w' = stored w"
    moreover from this have "res \<noteq> Inr 0" using p(2) by (cases pres) auto
    ultimately show ?thesis using pre by (simp add: renewed_since_def)
  next
    assume "stored w' = (stored w)((dl_Namespace ?l, dl_Name ?l) \<mapsto> ?l)"
    with key t show ?thesis by (simp add: renewed_since_def)
  qed
next
  case (Inl e)
  assume pre: "renewed_since stored r t0 w \<or> res = Inr 0"
  then have old: "renewed_since stored r t0 w"
    using Inl run by (auto simp: lease_Reconcile_def createLease_def Second_def split: if_splits prod.splits sum.splits)
  have "w' = w \<or> (\<exists>l res. lc_Create cl w l = (res, w') \<and> (dl_Namespace l, dl_Name l) = (P4TargetLeaseNamespace, rw_Name r))"
    using Inl run by (auto simp: lease_Reconcile_def createLease_def split: if_splits prod.splits sum.splits)
  then show ?thesis
  proof
    assume "\<exists>l res. lc_Create cl w l = (res, w') \<and> (dl_Namespace l, dl_Name l) = (P4TargetLeaseNamespace, rw_Name r)"
    then obtain l cres where c: "lc_Create cl w l = (cres, w')" "(dl_Namespace l, dl_Name l) = (P4TargetLeaseNamespace, rw_Name r)"
      by blast
    have "stored w' = stored w \<or> stored w (dl_Namespace l, dl_Name l) = None"
      by (rule lease_apiD(2) [OF api c(1)])
    with old c(2) show ?thesis by (auto simp: renewed_since_def)
  qed (use old in simp)
qed

text \<open>Backoffs after consecutive failures: 1, 2, 4, 8, 16 seconds, then 16 each time.\<close>

lemma renew_run_failures:
  assumes api: "lease_api cl stored"
  shows "renewed_since stored r t0 w \<Longrightarrow> t0 \<le> t \<Longrightarrow> list_all (\<lambda>d. 0 \<le> d) lats \<Longrightarrow> 0 < m \<Longrightarrow> m * 2 ^ length lats \<le> 32 \<Longrightarrow>
    list_all (\<lambda>(res, _). isl res) (renew_run cl r lats (m * Second, t, w)) \<Longrightarrow>
    list_all (\<lambda>(_, _, t', w'). renewed_since stored r t0 w' \<and> t0 \<le> t' \<and> t' \<le> t + sum_list lats + (2 ^ length lats - 1) * m * Second)
      (renew_run cl r lats (m * Second, t, w))"
proof (induction lats arbitrary: m t w)
  case (Cons lat lats)
  obtain res w1 where run: "lease_Reconcile cl r t w = (res, w1)" by fastforce
  with Cons.prems(6) obtain e where e: "res = Inl e"
    by (cases res) (auto simp: renew_tick_def split: prod.splits)
  let ?n = "length lats" and ?t1 = "t + lat + m * Second"
  let ?s1 = "(min (2 * m) 16 * Second, ?t1, w1)"
  let ?P = "\<lambda>(_, _, t', w'). renewed_since stored r t0 w' \<and> t0 \<le> t' \<and>
    t' \<le> t + (lat + sum_list lats) + (2 ^ Suc ?n - 1) * m * Second"
  have "m * 1 \<le> m * 2 ^ ?n" using Cons.prems(4) by (intro mult_left_mono) auto
  then have m16: "m \<le> 16" using Cons.prems(5) by (simp del: mult_le_cancel_left1)
  have tick: "renew_tick cl r lat (m * Second, t, w) = (Inl e, ?s1)"
    using run e m16 by (auto simp: renew_tick_def next_schedule_def Let_def Second_def)
  have w1: "renewed_since stored r t0 w1" using lease_Reconcile_renews [OF api run Cons.prems(2)] Cons.prems(1) by blast
  have t1: "t0 \<le> ?t1" using Cons.prems(2,3,4) by (simp add: Second_def)
  have pos: "0 \<le> sum_list lats" using Cons.prems(3) by (simp add: sum_list_nonneg list_all_iff)
  have "(1::int) \<le> 2 ^ ?n" by simp
  then have "(1::int) \<le> 2 ^ Suc ?n - 1" unfolding power_Suc by linarith
  then have "1 * (m * Second) \<le> (2 ^ Suc ?n - 1) * (m * Second)"
    by (rule mult_right_mono) (use Cons.prems(4) in \<open>simp add: Second_def\<close>)
  then have head: "?P (Inl e, ?s1)" using w1 t1 pos by (simp add: mult.assoc)
  have rest: "list_all ?P (renew_run cl r lats ?s1)"
  proof (cases "lats = []")
    case False
    then have "(2::int) \<le> 2 ^ ?n" using power_increasing [of 1 ?n "2::int"] by (cases lats) auto
    then have "m * 2 * 2 \<le> m * 2 * 2 ^ ?n" using Cons.prems(4) by (intro mult_left_mono) auto
    then have m: "2 * m * 2 ^ ?n \<le> 32" "min (2 * m) 16 = 2 * m" using Cons.prems(5) by (auto simp: mult.assoc)
    have bound: "?t1 + sum_list lats + (2 ^ ?n - 1) * (2 * m) * Second = t + (lat + sum_list lats) + (2 ^ Suc ?n - 1) * m * Second"
      by (simp add: algebra_simps)
    have "list_all (\<lambda>(res, _). isl res) (renew_run cl r lats ?s1)" using Cons.prems(6) tick by simp
    then show ?thesis
      using Cons.IH [OF w1 t1, of "2 * m", unfolded bound] Cons.prems(3,4) m by simp
  qed simp
  show ?case using head rest tick by simp
qed simp

text \<open>
  C29: a driver keeps its target alive through failures of the API server. After a renewal at \<open>t0\<close>
  with the default settings (renewed every 5 s, valid for 40 s) let up to five attempts in a row fail,
  with less than 4 s spent in the calls themselves. At every moment up to the next attempt the stored
  lease is live, so the operator keeps trusting what the driver reported.
\<close>

theorem lease_outlives_five_failures:
  assumes api: "lease_api cl stored"
    and r: "rw_RenewInterval r = 5 * Second" "rw_LeaseDuration r = 40 * Second"
    and renewed: "renew_tick cl r lat (b0, t0, w0) = (Inr 0, s1)"
    and lats: "length lats \<le> 5" "list_all (\<lambda>d. 0 \<le> d) (lat # lats)" "sum_list (lat # lats) \<le> 4 * Second"
    and failures: "list_all (\<lambda>(res, _). isl res) (renew_run cl r lats s1)"
    and some_pass: "(b, t, w) \<in> set (s1 # map snd (renew_run cl r lats s1))"
    and now: "t0 \<le> ck_expiry ck" "ck_expiry ck \<le> t" and reported: "GetReadyCondition target = Some c"
  shows "\<exists>l. stored w (P4TargetLeaseNamespace, rw_Name r) = Some l \<and>
    calculateReadinessCondition ck target (Some (Lease.truncate l)) = Inr c"
proof -
  obtain w1 where run: "lease_Reconcile cl r t0 w0 = (Inr 0, w1)" and s1: "s1 = (1 * Second, t0 + lat + 5 * Second, w1)"
    using renewed r(1) by (auto simp: renew_tick_def next_schedule_def split: prod.splits)
  have w1: "renewed_since stored r t0 w1" using lease_Reconcile_renews [OF api run, of t0] by simp
  have pos: "0 \<le> lat" "list_all (\<lambda>d. 0 \<le> d) lats" "0 \<le> sum_list lats"
    using lats(2) by (simp_all add: sum_list_nonneg list_all_iff)
  have n: "(2::int) ^ length lats \<le> 32" using power_increasing [OF lats(1), of "2::int"] by simp
  have all: "list_all (\<lambda>(_, _, t', w'). renewed_since stored r t0 w' \<and> t0 \<le> t' \<and>
      t' \<le> t0 + lat + 5 * Second + sum_list lats + (2 ^ length lats - 1) * 1 * Second) (renew_run cl r lats s1)"
    using renew_run_failures [OF api w1, of "t0 + lat + 5 * Second" lats 1] pos n failures by (simp add: s1 Second_def)
  have "renewed_since stored r t0 w \<and> t \<le> t0 + 40 * Second"
    using some_pass all w1 lats(3) n pos
    by (auto simp: s1 list_all_iff Second_def)
  then obtain l t' where l: "stored w (P4TargetLeaseNamespace, rw_Name r) = Some l" "le_RenewTime l = Some t'" "t0 \<le> t'"
    "le_LeaseDurationSeconds l = Some 40" and t: "t \<le> t0 + 40 * Second"
    using r(2) by (auto simp: renewed_since_def lease_seconds_def Second_def in_i32_def)
  have "lease_live (ck_expiry ck) (Lease.truncate l)"
    using l t now by (simp add: lease_live_def Lease.truncate_def)
  then show ?thesis using l(1) live_lease_trusted [OF _ reported] by blast
qed

section \<open>A driver in the small\<close>

definition ex_tenv :: "bool \<Rightarrow> ex_world target_env" where
  "ex_tenv bridge_ok =
     \<lparr>de_LinkByName = (\<lambda>w n. Inr 1), de_AddrAdd = (\<lambda>w l a. (if bridge_ok then Inr () else Inl (Errorf ''netlink'' None), w)),
      de_AddrDel = (\<lambda>w l a. (Inr (), w)), de_CompileFromURL = (\<lambda>w u. Inl (Errorf ''no compiler'' None)),
      de_Switch = ex_client, te_AddrList = (\<lambda>w l. Inr []), te_Capabilities = (\<lambda>w. None)\<rparr>"

definition ex_tnet :: prefix where
  "ex_tnet = \<lparr>pfx_ip = V4 0x0A090000, pfx_bits = 24\<rparr>"

definition ex_tg :: TargetManager where
  "ex_tg = \<lparr>tg_name = ''t'', tg_targetIPs = [], tg_driverIPs = [], tg_maxNFSlots = 1, tg_BridgeName = ''br0'',
     tg_cidr = zero_prefix, tg_ipAllocator = None, tg_allocatedIPs = {}\<rparr>"

definition ex_tg_at :: "32 word \<Rightarrow> addr set \<Rightarrow> TargetManager" where
  "ex_tg_at a ips = ex_tg\<lparr>tg_cidr := ex_tnet,
     tg_ipAllocator := Some \<lparr>aa_BaseNetwork = ex_tnet, aa_LastAssignedIP = V4 a\<rparr>, tg_allocatedIPs := ips\<rparr>"

lemma ex_tg_new: "target_NewManager ''t'' [] [] 1 ''br0'' = Inr ex_tg"
  by (simp add: target_NewManager_def ex_tg_def)

lemma ex_tnet_facts:
  "ParsePrefix ''10.9.0.0/24'' = Some ex_tnet" "prefix_Masked ex_tnet = ex_tnet" "ex_tnet \<noteq> zero_prefix"
  "NewAddrAllocator ex_tnet = Inr \<lparr>aa_BaseNetwork = ex_tnet, aa_LastAssignedIP = V4 0x0A090000\<rparr>"
  "AddrAllocator_Next \<lparr>aa_BaseNetwork = ex_tnet, aa_LastAssignedIP = V4 0x0A090000\<rparr> =
     Inr (V4 0x0A090001, \<lparr>aa_BaseNetwork = ex_tnet, aa_LastAssignedIP = V4 0x0A090001\<rparr>)"
  "AddrAllocator_Next \<lparr>aa_BaseNetwork = ex_tnet, aa_LastAssignedIP = V4 0x0A090001\<rparr> =
     Inr (V4 0x0A090002, \<lparr>aa_BaseNetwork = ex_tnet, aa_LastAssignedIP = V4 0x0A090002\<rparr>)"
  by code_simp+

lemma ex_ensure:
  "EnsureNetworkConfiguration (ex_tenv ok) ''10.9.0.0/24'' ex_tg w =
     (if ok then Inr () else Inl (Wrapf ''failed to configure NF bridge''
        (Wrapf ''failed to add new address to bridge'' (Errorf ''netlink'' None))), ex_tg_at 0x0A090001 {}, w)"
  by (simp add: EnsureNetworkConfiguration_def ex_tnet_facts ex_tnet_facts(3) [symmetric] ex_tg_def ex_tg_at_def bmv2_NewAddrAllocator_def
      bmv2_AddrAllocator_Next_def configureNFBridge_def ex_tenv_def)

lemma ex_allocate:
  "AllocateNetworkFunctionIP (ex_tg_at 0x0A090001 {}) = (Inr (V4 0x0A090002), ex_tg_at 0x0A090002 {V4 0x0A090002})"
  by (simp add: AllocateNetworkFunctionIP_def ex_tg_at_def ex_tnet_facts bmv2_AddrAllocator_Next_def ex_tg_def)

theorem function_addresses_fresh_witness:
  "prefix_Contains ex_tnet (V4 0x0A090002) \<and> V4 0x0A090002 \<noteq> pfx_nth ex_tnet 1 \<and>
   card (tg_allocatedIPs (ex_tg_at 0x0A090002 {V4 0x0A090002})) = 1"
proof -
  have "(tg_step (ex_tenv True))\<^sup>*\<^sup>* (ex_tg, ex_loaded) (ex_tg_at 0x0A090001 {}, ex_loaded)"
    using tg_step.ensure [OF ex_ensure [of True "ex_loaded"]] by blast
  from function_addresses_fresh [OF ex_tg_new this ex_allocate] show ?thesis
    by (simp add: ex_tg_at_def ex_tg_def)
qed

theorem slots_never_released_witness:
  "tg_allocatedIPs (ex_tg_at 0x0A090001 {}) \<subseteq> tg_allocatedIPs (ex_tg_at 0x0A090002 {V4 0x0A090002}) \<and>
   map_of (GetAllocatable (ex_tenv True) (ex_tg_at 0x0A090002 {V4 0x0A090002}) ex_loaded) ResourceNFSlots = Some 0"
proof -
  have occ: "c_Status (GetOccupiedCondition (ex_tg_at 0x0A090002 {V4 0x0A090002}) 0) = ConditionTrue"
    by (simp add: GetOccupiedCondition_def ex_tg_at_def ex_tg_def mk_condition_def)
  have fin: "finite (tg_allocatedIPs (ex_tg_at 0x0A090002 {V4 0x0A090002}))" by (simp add: ex_tg_at_def)
  have "tg_step (ex_tenv True) (ex_tg_at 0x0A090001 {}, ex_loaded) (ex_tg_at 0x0A090002 {V4 0x0A090002}, ex_loaded)"
    by (rule tg_step.alloc [OF ex_allocate])
  from slots_never_released [OF this _ fin] slots_never_released [OF tg_step.world [of _ _ "ex_loaded" "ex_loaded"] refl fin] occ
  show ?thesis by (simp add: ex_tg_at_def)
qed

theorem failed_bridge_reported_configured_witness:
  "EnsureNetworkConfiguration (ex_tenv False) ''10.9.0.0/24'' (ex_tg_at 0x0A090001 {}) ex_loaded =
     (Inr (), ex_tg_at 0x0A090001 {}, ex_loaded) \<and>
   c_Status (GetNetworkConfiguredCondition (ex_tg_at 0x0A090001 {}) 7) = ConditionTrue"
  using failed_bridge_reported_configured [OF ex_ensure [of False, simplified], of ex_loaded 7] by blast

text \<open>An API server that serves \<open>up\<close> patches and then fails: the world counts them beside the leases.\<close>

definition ex_lease_client :: "nat \<Rightarrow> (nat \<times> (nsname \<rightharpoonup> DrvLease)) lease_client" where
  "ex_lease_client up =
     \<lparr>lc_Get = (\<lambda>w k. case snd w k of
                      Some l \<Rightarrow> if k = (dl_Namespace l, dl_Name l) then Inr l else Inl (Errorf ''corrupt'' None)
                    | None \<Rightarrow> Inl (ApiError NotFound)),
      lc_Create = (\<lambda>w l. (Inl (ApiError Conflict), w)),
      lc_Patch = (\<lambda>w l l0. if fst w < up then (Inr (), (Suc (fst w), (snd w)((dl_Namespace l, dl_Name l) \<mapsto> l)))
                          else (Inl (ApiError Conflict), w))\<rparr>"

lemma ex_lease_api: "lease_api (ex_lease_client up) snd"
  unfolding lease_api_def
  by (intro conjI allI impI) (auto simp: ex_lease_client_def split: option.splits if_splits)

definition ex_renewer :: Renewer where
  "ex_renewer = \<lparr>rw_Name = ''t'', rw_RenewInterval = 5 * Second, rw_LeaseDuration = 40 * Second\<rparr>"

definition ex_drv_lease :: "time \<Rightarrow> DrvLease" where
  "ex_drv_lease now = \<lparr>le_RenewTime = Some now, le_LeaseDurationSeconds = Some 40, dl_Name = ''t'',
     dl_Namespace = P4TargetLeaseNamespace, dl_HolderIdentity = Some ''t'', dl_AcquireTime = Some now\<rparr>"

definition ex_leases :: "time \<Rightarrow> nsname \<rightharpoonup> DrvLease" where
  "ex_leases now = (\<lambda>k. if k = (P4TargetLeaseNamespace, ''t'') then Some (ex_drv_lease now) else None)"

lemma ex_leases_upd: "(ex_leases t)((P4TargetLeaseNamespace, ''t'') \<mapsto> ex_drv_lease t') = ex_leases t'"
  by (auto simp: ex_leases_def fun_eq_iff)

lemma ex_lease_pass:
  "lease_Reconcile (ex_lease_client up) ex_renewer t (n, ex_leases t0) =
     (if n < up then (Inr 0, (Suc n, ex_leases t)) else (Inl (ApiError Conflict), (n, ex_leases t0)))"
proof -
  have "lease_seconds ex_renewer = 40" by (simp add: lease_seconds_def ex_renewer_def Second_def in_i32_def)
  then have "(ex_drv_lease t0)\<lparr>dl_HolderIdentity := Some (rw_Name ex_renewer),
      le_LeaseDurationSeconds := Some (lease_seconds ex_renewer), le_RenewTime := Some t, dl_AcquireTime := Some t\<rparr> = ex_drv_lease t"
    by (simp add: ex_drv_lease_def ex_renewer_def)
  moreover have "ex_leases t0 (P4TargetLeaseNamespace, rw_Name ex_renewer) = Some (ex_drv_lease t0)"
    "dl_Namespace (ex_drv_lease t') = P4TargetLeaseNamespace" "dl_Name (ex_drv_lease t') = ''t''" "rw_Name ex_renewer = ''t''" for t'
    by (simp_all add: ex_leases_def ex_renewer_def ex_drv_lease_def)
  ultimately show ?thesis
    by (simp add: lease_Reconcile_def updateLease_def ex_lease_client_def ex_leases_upd)
qed

lemma ex_renew_tick:
  "renew_tick (ex_lease_client up) ex_renewer lat (b, t, n, ex_leases t0) =
     (if n < up then (Inr 0, 1 * Second, t + lat + 5 * Second, Suc n, ex_leases t)
      else (Inl (ApiError Conflict), (if b * 2 > 16 * Second then 16 * Second else b * 2), t + lat + b, n, ex_leases t0))"
proof -
  have "rw_RenewInterval ex_renewer = 5 * Second" by (simp add: ex_renewer_def)
  then show ?thesis by (simp add: renew_tick_def ex_lease_pass next_schedule_def Let_def)
qed

theorem lease_outlives_five_failures_witness:
  "\<exists>l. ex_leases 0 (P4TargetLeaseNamespace, ''t'') = Some l \<and>
    calculateReadinessCondition (ex_clk 36) (ex_target ''t'' [] [NewReadyCondition 1 ''True'' ''r'' ''m'']) (Some (Lease.truncate l)) = Inr (NewReadyCondition 1 ''True'' ''r'' ''m'')"
proof -
  let ?cl = "ex_lease_client 1"
  let ?s1 = "(1 * Second, 5 * Second, 1::nat, ex_leases 0)"
  have tick: "renew_tick ?cl ex_renewer 0 (1 * Second, 0, 0, ex_leases 0) = (Inr 0, ?s1)" by (simp add: ex_renew_tick)
  have run: "renew_run ?cl ex_renewer [0, 0, 0, 0, 0] ?s1 =
    map (\<lambda>(b, t). (Inl (ApiError Conflict), b * Second, t * Second, 1, ex_leases 0)) [(2, 6), (4, 8), (8, 12), (16, 20), (16, 36)]"
    by (simp add: ex_renew_tick Second_def)
  have r: "rw_RenewInterval ex_renewer = 5 * Second" "rw_LeaseDuration ex_renewer = 40 * Second" by (simp_all add: ex_renewer_def)
  have failures: "list_all (\<lambda>(res, _). isl res) (renew_run ?cl ex_renewer [0, 0, 0, 0, 0] ?s1)" unfolding run by simp
  have mem: "(16 * Second, 36 * Second, 1::nat, ex_leases 0) \<in> set (?s1 # map snd (renew_run ?cl ex_renewer [0, 0, 0, 0, 0] ?s1))"
    unfolding run by simp
  have clk: "0 \<le> ck_expiry (ex_clk 36)" "ck_expiry (ex_clk 36) \<le> 36 * Second" by (simp_all add: ex_clk_def Second_def)
  have rep: "GetReadyCondition (ex_target ''t'' [] [NewReadyCondition 1 ''True'' ''r'' ''m'']) = Some (NewReadyCondition 1 ''True'' ''r'' ''m'')"
    by (simp add: GetReadyCondition_def GetCondition_def ex_target_def NewReadyCondition_def NewCondition_def)
  have "rw_Name ex_renewer = ''t''" by (simp add: ex_renewer_def)
  with lease_outlives_five_failures [OF ex_lease_api r tick _ _ _ failures mem clk rep] show ?thesis
    by (simp add: Second_def)
qed

end
