(* ===== verification/NFScheduler.thy ===== *)
theory NFScheduler
  imports P4TargetCtl
begin

text \<open>
  The network function controller (\<open>src/operator/internal/controller/core/networkfunction\<close>): it binds
  a function to a target with a free slot, keeps a control-plane deployment for it, and reports its
  status. The client record separates cached reads from the live reads of \<open>APIReader\<close>, which the
  scheduler relies on.
\<close>

section \<open>Conditions (\<open>util/nf_util.go\<close>)\<close>

definition GetNFCondition :: "string \<Rightarrow> NetworkFunctionStatus \<Rightarrow> NetworkFunctionCondition option" where
  "GetNFCondition conditionType nfStatus = find (\<lambda>cond. c_Type cond = conditionType) (nft_Conditions nfStatus)"

definition NewNFCondition :: "time \<Rightarrow> string \<Rightarrow> string \<Rightarrow> string \<Rightarrow> string \<Rightarrow> NetworkFunctionCondition" where
  "NewNFCondition now conditionType status reason message =
     \<lparr>c_Type = conditionType, c_Status = status, c_LastTransitionTime = now, c_Reason = reason,
      c_Message = message, c_LastProbeTime = 0\<rparr>"

definition RemoveNFCondition :: "NetworkFunctionStatus \<Rightarrow> string \<Rightarrow> NetworkFunctionCondition list" where
  "RemoveNFCondition nfStatus conditionType = filter (\<lambda>cond. c_Type cond \<noteq> conditionType) (nft_Conditions nfStatus)"

definition CopyConditions :: "NetworkFunctionStatus \<Rightarrow> NetworkFunctionCondition list" where
  "CopyConditions nfStatus = nft_Conditions nfStatus"

definition NewScheduledCondition :: "time \<Rightarrow> string \<Rightarrow> string \<Rightarrow> string \<Rightarrow> NetworkFunctionCondition" where
  "NewScheduledCondition now status reason message = NewNFCondition now NFScheduled status reason message"

definition ConditionsAreEqual :: "NetworkFunctionCondition \<Rightarrow> NetworkFunctionCondition \<Rightarrow> bool" where
  "ConditionsAreEqual cond1 cond2 \<longleftrightarrow> c_Type cond1 = c_Type cond2 \<and> c_Status cond1 = c_Status cond2 \<and>
     c_Reason cond1 = c_Reason cond2 \<and> c_Message cond1 = c_Message cond2"

definition UpdateNFCondition ::
    "NetworkFunctionStatus \<Rightarrow> NetworkFunctionCondition \<Rightarrow> NetworkFunctionCondition list" where
  "UpdateNFCondition nfStatus newCondition =
     (case GetNFCondition (c_Type newCondition) nfStatus of
        Some existingCondition \<Rightarrow>
          if ConditionsAreEqual existingCondition newCondition then CopyConditions nfStatus
          else RemoveNFCondition nfStatus (c_Type newCondition) @ [newCondition]
      | None \<Rightarrow> RemoveNFCondition nfStatus (c_Type newCondition) @ [newCondition])"

definition GetScheduledCondition :: "NetworkFunctionStatus \<Rightarrow> NetworkFunctionCondition option" where
  "GetScheduledCondition nfStatus = GetNFCondition NFScheduled nfStatus"

text \<open>The inner loop does not stop at a match, so the last condition of the type counts.\<close>

definition ConditionsSlicesAreEqual ::
    "NetworkFunctionCondition list \<Rightarrow> NetworkFunctionCondition list \<Rightarrow> bool" where
  "ConditionsSlicesAreEqual conds1 conds2 =
     (if length conds1 \<noteq> length conds2 then False
      else list_all (\<lambda>cond1. case find (\<lambda>cond2. c_Type cond1 = c_Type cond2) (rev conds2) of
                               None \<Rightarrow> False
                             | Some foundCond \<Rightarrow> ConditionsAreEqual cond1 foundCond) conds1)"

definition StatusesAreEqual :: "NetworkFunctionStatus option \<Rightarrow> NetworkFunctionStatus option \<Rightarrow> bool" where
  "StatusesAreEqual oldStatus newStatus =
     (case (oldStatus, newStatus) of
        (Some old, Some new) \<Rightarrow>
          nft_ObservedGeneration old = nft_ObservedGeneration new \<and> nft_AssignedIP old = nft_AssignedIP new \<and>
          nft_Phase old = nft_Phase new \<and> nft_Reason old = nft_Reason new \<and>
          ConditionsSlicesAreEqual (nft_Conditions old) (nft_Conditions new)
      | _ \<Rightarrow> oldStatus = None \<and> newStatus = None)"

section \<open>Functions of other packages\<close>

text \<open>
  The part of \<open>appsv1.Deployment\<close> the control-plane rendering writes; \<open>ct_Rest\<close> stands for the other
  fields of a container. \<open>nl_ResourceName\<close> is \<open>ResourceList.Name\<close>, with the value of the quantity, and
  \<open>CreateOrPatch\<close> of the controller runtime takes the mutation as an argument.
\<close>

record Container =
  ct_Name :: string
  ct_Image :: string
  ct_ImagePullPolicy :: string
  ct_Resources :: opaque
  ct_Args :: "string list"
  ct_Env :: "(string \<times> string) list"
  ct_Rest :: opaque

record Deployment = object_meta +
  dp_Replicas :: "int option"
  dp_Selector :: "label_selector option"
  dp_TemplateLabels :: strmap
  dp_NodeSelector :: strmap
  dp_Tolerations :: opaque
  dp_Affinity :: "opaque option"
  dp_Containers :: "Container list"

datatype OperationResult = OperationResultNone | OperationResultCreated | OperationResultUpdated

record 'sel nf_lib =
  nl_ValidatedSelectorFromSet :: "strmap \<Rightarrow> go_error + 'sel"
  nl_ResourceName :: "(string \<times> int) list \<Rightarrow> string \<Rightarrow> int option"
  nl_SetControllerReference :: "nf \<Rightarrow> Deployment \<Rightarrow> go_error + Deployment"

record ('w, 'sel) nf_client =
  nc_Get :: "'w \<Rightarrow> nsname \<Rightarrow> go_error + nf"
  nc_ListTargets :: "'w \<Rightarrow> 'sel \<Rightarrow> go_error + P4Target list"
  nc_LiveGet :: "'w \<Rightarrow> nsname \<Rightarrow> go_error + nf"
  nc_LiveListNFs :: "'w \<Rightarrow> go_error + nf list"
  nc_PatchLocked :: "'w \<Rightarrow> nf \<Rightarrow> nf \<Rightarrow> (go_error + nf) \<times> 'w"
  nc_StatusPatch :: "'w \<Rightarrow> nf \<Rightarrow> nf \<Rightarrow> (go_error + nf) \<times> 'w"
  nc_CreateOrPatch :: "'w \<Rightarrow> nsname \<Rightarrow> (Deployment \<Rightarrow> go_error + Deployment) \<Rightarrow> (go_error + OperationResult) \<times> 'w"

section \<open>Scheduling\<close>

definition NoMatchingTargetsError :: go_error where
  "NoMatchingTargetsError = TypedError ''NoMatchingTargetsError''"

definition listTargets :: "'sel nf_lib \<Rightarrow> ('w, 'sel) nf_client \<Rightarrow> nf \<Rightarrow> 'w \<Rightarrow> go_error + P4Target list" where
  "listTargets lib cl nf w =
     (case nl_ValidatedSelectorFromSet lib (nfs_TargetSelector (nf_Spec nf)) of
        Inl err \<Rightarrow> Inl (Wrapf ''failed to create label selector'' err)
      | Inr sel \<Rightarrow>
          (case nc_ListTargets cl w sel of
             Inl err \<Rightarrow> Inl (Wrapf ''failed to list targets'' err)
           | Inr items \<Rightarrow> Inr items))"

definition count_slot :: "(string \<Rightarrow> int) \<Rightarrow> nf \<Rightarrow> string \<Rightarrow> int" where
  "count_slot used nf =
     (let target = nfs_TargetName (nf_Spec nf)
      in if target \<noteq> '''' then used(target := i64 (used target + 1)) else used)"

definition countUsedSlots :: "('w, 'sel) nf_client \<Rightarrow> 'w \<Rightarrow> go_error + (string \<Rightarrow> int)" where
  "countUsedSlots cl w =
     (case nc_LiveListNFs cl w of
        Inl err \<Rightarrow> Inl (Wrapf ''failed to list NetworkFunctions'' err)
      | Inr items \<Rightarrow> Inr (foldl count_slot (\<lambda>_. 0) items))"

definition filterFeasible :: "'sel nf_lib \<Rightarrow> P4Target list \<Rightarrow> (string \<Rightarrow> int) \<Rightarrow> P4Target list" where
  "filterFeasible lib allTargets usedSlots =
     filter (\<lambda>t. if HasTaintWithEffects t [TaintEffectNoSchedule, TaintEffectNoExecute] then False
                 else (case nl_ResourceName lib (ptt_Capacity (pt_Status t)) ''loom.io/nf-slots'' of
                         None \<Rightarrow> False
                       | Some totalSlots \<Rightarrow>
                           if totalSlots \<le> 0 then False else i64 (totalSlots - usedSlots (om_Name t)) > 0)) allTargets"

text \<open>Called with a nonempty list only.\<close>

definition pickNode :: "P4Target list \<Rightarrow> P4Target" where
  "pickNode feasible = hd feasible"

definition updateNFWithChosenTarget ::
    "('w, 'sel) nf_client \<Rightarrow> nf \<Rightarrow> P4Target \<Rightarrow> 'w \<Rightarrow> (go_error + nf) \<times> 'w" where
  "updateNFWithChosenTarget cl nf chosen w =
     nc_PatchLocked cl w nf (nf\<lparr>nf_Spec := (nf_Spec nf)\<lparr>nfs_TargetName := om_Name chosen\<rparr>\<rparr>)"

definition scheduleNetworkFunction ::
    "'sel nf_lib \<Rightarrow> ('w, 'sel) nf_client \<Rightarrow> nf \<Rightarrow> 'w \<Rightarrow> (go_error + nf) \<times> 'w" where
  "scheduleNetworkFunction lib cl nf w =
     (case nc_LiveGet cl w (meta_key nf) of
        Inl err \<Rightarrow> (Inl (Wrapf ''failed to get live NetworkFunction'' err), w)
      | Inr live \<Rightarrow>
          if nfs_TargetName (nf_Spec live) \<noteq> '''' then (Inr live, w)
          else (case listTargets lib cl nf w of
                  Inl err \<Rightarrow> (Inl err, w)
                | Inr allTargets \<Rightarrow>
                    (case countUsedSlots cl w of
                       Inl err \<Rightarrow> (Inl err, w)
                     | Inr usedSlots \<Rightarrow>
                         (let feasible = filterFeasible lib allTargets usedSlots in
                          if length feasible = 0 then (Inl NoMatchingTargetsError, w)
                          else updateNFWithChosenTarget cl nf (pickNode feasible) w))))"

section \<open>Status\<close>

definition calculateStatus :: "time \<Rightarrow> nf \<Rightarrow> NetworkFunctionStatus" where
  "calculateStatus now nf =
     (let status = nf_Status nf;
          status = (if nft_Phase status = '''' then status\<lparr>nft_Phase := NetworkFunctionPending\<rparr> else status)
      in if nfs_TargetName (nf_Spec nf) \<noteq> ''''
         then (let newCondition = NewScheduledCondition now ConditionTrue ''Scheduled''
                     (''The NetworkFunction is scheduled to target '' @ nfs_TargetName (nf_Spec nf) @ ''.'');
                   status = status\<lparr>nft_Conditions := UpdateNFCondition status newCondition\<rparr>
               in status\<lparr>nft_Conditions := UpdateNFCondition status newCondition\<rparr>)
         else (let newCondition = NewScheduledCondition now ConditionFalse ''SchedulingPending''
                     ''The NetworkFunction has not been scheduled to a target yet.''
               in status\<lparr>nft_Conditions := UpdateNFCondition status newCondition\<rparr>))"

definition updateStatus :: "('w, 'sel) nf_client \<Rightarrow> time \<Rightarrow> nf \<Rightarrow> 'w \<Rightarrow> go_error option \<times> 'w" where
  "updateStatus cl now nf w =
     (let newStatus = calculateStatus now nf in
      if StatusesAreEqual (Some (nf_Status nf)) (Some newStatus) then (None, w)
      else (case nc_StatusPatch cl w nf (nf\<lparr>nf_Status := newStatus\<rparr>) of
              (Inl err, w) \<Rightarrow> (Some err, w)
            | (Inr _, w) \<Rightarrow> (None, w)))"

section \<open>The control-plane deployment\<close>

abbreviation CONTROL_PLANE_POD_LABEL :: string where
  "CONTROL_PLANE_POD_LABEL \<equiv> ''scheduling.loom.io/controlPlane''"
abbreviation NF_NAME_ENV_VAR_KEY :: string where "NF_NAME_ENV_VAR_KEY \<equiv> ''NF_NAME''"
abbreviation NF_NAMESPACE_ENV_VAR_KEY :: string where "NF_NAMESPACE_ENV_VAR_KEY \<equiv> ''NF_NAMESPACE''"

definition empty_container :: Container where
  "empty_container = \<lparr>ct_Name = '''', ct_Image = '''', ct_ImagePullPolicy = '''', ct_Resources = '''',
     ct_Args = [], ct_Env = [], ct_Rest = ''''\<rparr>"

text \<open>The environment loop: a reserved name is reported in the log and still appended.\<close>

fun valid_envs :: "(string \<times> string) list \<Rightarrow> go_error + (string \<times> string) list" where
  "valid_envs [] = Inr []"
| "valid_envs (env # rest) =
     (if fst env = '''' then Inl (Errorf ''invalid environment variable with empty name in ControlPlaneSpec.ExtraEnv'' None)
      else (case valid_envs rest of Inl err \<Rightarrow> Inl err | Inr envs \<Rightarrow> Inr (env # envs)))"

definition mutate_deployment :: "'sel nf_lib \<Rightarrow> nf \<Rightarrow> ControlPlaneSpec \<Rightarrow> Deployment \<Rightarrow> go_error + Deployment" where
  "mutate_deployment lib nf cp dep =
     (let dep = dep\<lparr>dp_Replicas := Some 1,
            dp_Selector := Some \<lparr>ls_MatchLabels = Some [(CONTROL_PLANE_POD_LABEL, om_Name nf)], ls_MatchExpressions = []\<rparr>,
            dp_TemplateLabels := Some [(CONTROL_PLANE_POD_LABEL, om_Name nf)],
            dp_NodeSelector := cp_NodeSelector cp, dp_Tolerations := cp_Tolerations cp,
            dp_Affinity := cp_Affinity cp,
            dp_Containers := (if length (dp_Containers dep) \<noteq> 1 then [empty_container] else dp_Containers dep)\<rparr>;
          c = (hd (dp_Containers dep))\<lparr>ct_Image := cp_Image cp, ct_ImagePullPolicy := cp_ImagePullPolicy cp,
            ct_Resources := cp_Resources cp, ct_Args := cp_Args cp\<rparr>
      in case valid_envs (cp_ExtraEnv cp) of
           Inl err \<Rightarrow> Inl err
         | Inr validEnvs \<Rightarrow>
             nl_SetControllerReference lib nf
               (dep\<lparr>dp_Containers := [c\<lparr>ct_Env := validEnvs @ [(NF_NAME_ENV_VAR_KEY, om_Name nf),
                                          (NF_NAMESPACE_ENV_VAR_KEY, om_Namespace nf)]\<rparr>]\<rparr>))"

definition ensureControlPlaneDeployment ::
    "'sel nf_lib \<Rightarrow> ('w, 'sel) nf_client \<Rightarrow> nf \<Rightarrow> ControlPlaneSpec \<Rightarrow> 'w \<Rightarrow> (go_error + OperationResult) \<times> 'w" where
  "ensureControlPlaneDeployment lib cl nf cp w =
     nc_CreateOrPatch cl w (om_Namespace nf, om_Name nf @ ''-ctrl'') (mutate_deployment lib nf cp)"

section \<open>The reconcile\<close>

text \<open>
  On \<open>NoMatchingTargetsError\<close> the condition built for it is passed to \<open>UpdateNFCondition\<close>, whose result
  is dropped. Errors of the best-effort status updates are dropped too.
\<close>

definition Reconcile ::
    "'sel nf_lib \<Rightarrow> ('w, 'sel) nf_client \<Rightarrow> time \<Rightarrow> nsname \<Rightarrow> 'w \<Rightarrow> (go_error + ctrl_result) \<times> 'w" where
  "Reconcile lib cl now req w =
     (case nc_Get cl w req of
        Inl err \<Rightarrow> (if IsNotFound err then Inr Done else Inl err, w)
      | Inr nf \<Rightarrow>
          if nfs_TargetName (nf_Spec nf) = ''''
          then (case scheduleNetworkFunction lib cl nf w of
                  (Inl err, w) \<Rightarrow>
                    if err = NoMatchingTargetsError
                    then (Inr (RequeueAfter (10 * Second)), snd (updateStatus cl now nf w))
                    else if IsConflict err then (Inr Requeue, w)
                    else (Inl err, w)
                | (Inr _, w) \<Rightarrow> (Inr Done, w))
          else (case nfs_ControlPlane (nf_Spec nf) of
                  None \<Rightarrow>
                    (case updateStatus cl now nf w of
                       (Some err, w) \<Rightarrow> (Inl err, w) | (None, w) \<Rightarrow> (Inr Done, w))
                | Some cp \<Rightarrow>
                    (case ensureControlPlaneDeployment lib cl nf cp w of
                       (Inl err, w) \<Rightarrow> (Inl err, snd (updateStatus cl now nf w))
                     | (Inr operation, w) \<Rightarrow>
                         if operation \<noteq> OperationResultNone
                         then (Inr (RequeueAfter (5 * Second)), snd (updateStatus cl now nf w))
                         else (case updateStatus cl now nf w of
                                 (Some err, w) \<Rightarrow> (Inl err, w) | (None, w) \<Rightarrow> (Inr Done, w)))))"

section \<open>Counting slots\<close>

lemma foldl_count_slot:
  "t \<noteq> '''' \<Longrightarrow> i64 (foldl count_slot used items t) =
     i64 (used t + int (length (filter (\<lambda>n. nfs_TargetName (nf_Spec n) = t) items)))"
proof (induction items arbitrary: used)
  case Nil
  then show ?case by simp
next
  case (Cons n items)
  have "i64 (count_slot used n t + int m) =
      i64 (used t + int (length (filter (\<lambda>n. nfs_TargetName (nf_Spec n) = t) [n])) + int m)" for m
    using Cons.prems i64_add_absorb [of "used t + 1" "int m"] by (auto simp: count_slot_def Let_def add.assoc)
  with Cons show ?case by (auto simp: add.assoc)
qed

lemma count_slot_in_range: "(\<And>t. in_i64 (used t)) \<Longrightarrow> in_i64 (foldl count_slot used items t)"
proof (induction items arbitrary: used)
  case (Cons n items)
  have "in_i64 (count_slot used n t)" for t using Cons.prems by (simp add: count_slot_def Let_def)
  then show ?case using Cons.IH by simp
qed simp

lemma used_slots_exact:
  assumes "t \<noteq> ''''" "int (length (filter (\<lambda>n. nfs_TargetName (nf_Spec n) = t) items)) < 2 ^ 63"
  shows "foldl count_slot (\<lambda>_. 0) items t = int (length (filter (\<lambda>n. nfs_TargetName (nf_Spec n) = t) items))"
proof -
  have "foldl count_slot (\<lambda>_. 0) items t = i64 (foldl count_slot (\<lambda>_. 0) items t)"
    using count_slot_in_range [of "\<lambda>_. 0" items t] by simp
  also have "\<dots> = int (length (filter (\<lambda>n. nfs_TargetName (nf_Spec n) = t) items))"
    unfolding foldl_count_slot [OF assms(1)] using assms(2) by (simp add: in_i64_def)
  finally show ?thesis .
qed

section \<open>Scheduling against a store\<close>

text \<open>
  Laws of the client over the stored functions, as the API server documents them: live reads return
  the stored objects, refused writes change nothing, the binding patch sets the target name, a status
  patch keeps the specification, and deployments are other objects. Cached reads may be stale: of them
  only the key is known. \<open>stable_capacity\<close>: the slot count of a target does not change.
\<close>

type_synonym nf_store = "nsname \<rightharpoonup> nf"

definition binding :: "nf_store \<Rightarrow> nsname \<Rightarrow> string option" where
  "binding w k = map_option (\<lambda>n. nfs_TargetName (nf_Spec n)) (w k)"

definition bound_to :: "nf_store \<Rightarrow> string \<Rightarrow> nsname set" where
  "bound_to w t = {k. binding w k = Some t}"

definition nf_written :: "nf_store \<Rightarrow> nsname \<Rightarrow> (nf \<Rightarrow> string) \<Rightarrow> (go_error + nf) \<times> nf_store \<Rightarrow> bool" where
  "nf_written w k target answer \<longleftrightarrow>
     (case answer of
        (Inl _, w') \<Rightarrow> w' = w
      | (Inr n, w') \<Rightarrow> \<exists>s. w k = Some s \<and> w' = w(k \<mapsto> n) \<and> nfs_TargetName (nf_Spec n) = target s)"

definition nf_api :: "(nf_store, 'sel) nf_client \<Rightarrow> bool" where
  "nf_api cl \<longleftrightarrow>
     (\<forall>w k n. nc_Get cl w k = Inr n \<longrightarrow> meta_key n = k) \<and>
     (\<forall>w k n. nc_LiveGet cl w k = Inr n \<longrightarrow> w k = Some n) \<and>
     (\<forall>w ns. nc_LiveListNFs cl w = Inr ns \<longrightarrow>
        distinct (map meta_key ns) \<and> (\<forall>k n. w k = Some n \<longleftrightarrow> n \<in> set ns \<and> meta_key n = k)) \<and>
     (\<forall>w n0 n. nf_written w (meta_key n) (\<lambda>_. nfs_TargetName (nf_Spec n)) (nc_PatchLocked cl w n0 n)) \<and>
     (\<forall>w n0 n. nf_written w (meta_key n) (\<lambda>s. nfs_TargetName (nf_Spec s)) (nc_StatusPatch cl w n0 n)) \<and>
     (\<forall>w k f. snd (nc_CreateOrPatch cl w k f) = w)"

definition stable_capacity :: "'sel nf_lib \<Rightarrow> ('w, 'sel) nf_client \<Rightarrow> (string \<Rightarrow> int) \<Rightarrow> bool" where
  "stable_capacity lib cl cap \<longleftrightarrow>
     (\<forall>t. cap t < 2 ^ 63) \<and>
     (\<forall>w sel ts t. nc_ListTargets cl w sel = Inr ts \<and> t \<in> set ts \<longrightarrow>
        nl_ResourceName lib (ptt_Capacity (pt_Status t)) ''loom.io/nf-slots'' = Some (cap (om_Name t)))"

lemma nf_apiD:
  assumes "nf_api cl"
  shows "nc_Get cl w k = Inr n \<Longrightarrow> meta_key n = k"
    and "nc_LiveGet cl w k = Inr n \<Longrightarrow> w k = Some n"
    and "nc_LiveListNFs cl w = Inr ns \<Longrightarrow> distinct (map meta_key ns)"
    and "nc_LiveListNFs cl w = Inr ns \<Longrightarrow> w k = Some n \<longleftrightarrow> n \<in> set ns \<and> meta_key n = k"
    and "nf_written w (meta_key n) (\<lambda>_. nfs_TargetName (nf_Spec n)) (nc_PatchLocked cl w n0 n)"
    and "nf_written w (meta_key n) (\<lambda>s. nfs_TargetName (nf_Spec s)) (nc_StatusPatch cl w n0 n)"
    and "snd (nc_CreateOrPatch cl w k f) = w"
  using assms by (simp_all add: nf_api_def del: split_paired_All)

lemma binding_upd: "binding (w(k \<mapsto> n)) = (binding w)(k \<mapsto> nfs_TargetName (nf_Spec n))"
  by (auto simp: binding_def)

lemma updateStatus_binding:
  assumes "nf_api cl"
  shows "binding (snd (updateStatus cl now nf w)) = binding w"
proof -
  let ?n = "nf\<lparr>nf_Status := calculateStatus now nf\<rparr>"
  obtain r w' where p: "nc_StatusPatch cl w nf ?n = (r, w')" by (cases "nc_StatusPatch cl w nf ?n")
  have "nf_written w (meta_key ?n) (\<lambda>s. nfs_TargetName (nf_Spec s)) (r, w')"
    unfolding p [symmetric] by (rule nf_apiD(6) [OF assms])
  then have "binding w' = binding w" by (cases r) (auto simp: nf_written_def binding_def)
  then show ?thesis using p by (auto simp: updateStatus_def Let_def split: sum.splits)
qed

lemma live_count:
  assumes "nf_api cl" "nc_LiveListNFs cl w = Inr ns"
  shows "finite (bound_to w t) \<and> card (bound_to w t) = length (filter (\<lambda>n. nfs_TargetName (nf_Spec n) = t) ns)"
proof -
  let ?f = "filter (\<lambda>n. nfs_TargetName (nf_Spec n) = t) ns"
  have "k \<in> bound_to w t \<longleftrightarrow> k \<in> meta_key ` set ?f" for k
    using nf_apiD(4) [OF assms, of k] by (auto simp: bound_to_def binding_def)
  then have "bound_to w t = set (map meta_key ?f)" by auto
  moreover have "distinct (map meta_key ?f)" using nf_apiD(3) [OF assms] by (simp add: distinct_map_filter)
  ultimately show ?thesis using distinct_card by (metis List.finite_set length_map)
qed

text \<open>A target the scheduler may choose for a function in a store.\<close>

definition free_target :: "(string \<Rightarrow> int) \<Rightarrow> nf_store \<Rightarrow> P4Target \<Rightarrow> bool" where
  "free_target cap w t \<longleftrightarrow>
     (\<forall>x \<in> set (pts_Taints (pt_Spec t)). tt_Effect x \<noteq> TaintEffectNoSchedule \<and> tt_Effect x \<noteq> TaintEffectNoExecute) \<and>
     0 < cap (om_Name t) \<and> (om_Name t \<noteq> '''' \<longrightarrow> int (card (bound_to w (om_Name t))) < cap (om_Name t))"

lemma feasible_is_free:
  assumes api: "nf_api cl" and caps: "stable_capacity lib cl cap"
    and inv: "int (card (bound_to w (om_Name t))) < 2 ^ 63"
    and "listTargets lib cl nf w = Inr ts" "countUsedSlots cl w = Inr used" "t \<in> set (filterFeasible lib ts used)"
  shows "free_target cap w t"
proof -
  obtain sel where list: "nc_ListTargets cl w sel = Inr ts"
    using assms(4) by (auto simp: listTargets_def split: sum.splits)
  have t: "t \<in> set ts" "\<not> HasTaintWithEffects t [TaintEffectNoSchedule, TaintEffectNoExecute]"
    using assms(6) by (auto simp: filterFeasible_def split: if_splits)
  have slots: "nl_ResourceName lib (ptt_Capacity (pt_Status t)) ''loom.io/nf-slots'' = Some (cap (om_Name t))"
    and lt: "cap (om_Name t) < 2 ^ 63"
    using caps list t(1) unfolding stable_capacity_def by blast+
  have free: "0 < cap (om_Name t)" "0 < i64 (cap (om_Name t) - used (om_Name t))"
    using assms(6) slots by (auto simp: filterFeasible_def split: if_splits)
  obtain ns where ns: "nc_LiveListNFs cl w = Inr ns" "used = foldl count_slot (\<lambda>_. 0) ns"
    using assms(5) by (auto simp: countUsedSlots_def split: sum.splits)
  have "int (card (bound_to w (om_Name t))) < cap (om_Name t)" if "om_Name t \<noteq> ''''"
  proof -
    have "used (om_Name t) = int (card (bound_to w (om_Name t)))"
      using used_slots_exact [OF that, of ns] inv live_count [OF api ns(1), of "om_Name t"] ns(2) by simp
    moreover have "in_i64 (cap (om_Name t) - int (card (bound_to w (om_Name t))))"
      using lt free(1) inv by (simp add: in_i64_def)
    ultimately show ?thesis using free(2) by simp
  qed
  then show ?thesis using t(2) free(1) by (auto simp: free_target_def HasTaintWithEffects_iff)
qed

lemma schedule_binding:
  assumes api: "nf_api cl" and run: "scheduleNetworkFunction lib cl nf w = (r, w')"
  shows "binding w' = binding w \<or>
    (\<exists>t ts used. binding w (meta_key nf) = Some '''' \<and> binding w' = (binding w)(meta_key nf \<mapsto> om_Name t) \<and>
       listTargets lib cl nf w = Inr ts \<and> countUsedSlots cl w = Inr used \<and> t \<in> set (filterFeasible lib ts used))"
proof -
  consider "w' = w" | live ts used where "nc_LiveGet cl w (meta_key nf) = Inr live" "nfs_TargetName (nf_Spec live) = ''''"
    "listTargets lib cl nf w = Inr ts" "countUsedSlots cl w = Inr used" "filterFeasible lib ts used \<noteq> []"
    "updateNFWithChosenTarget cl nf (pickNode (filterFeasible lib ts used)) w = (r, w')"
    using run by (auto simp: scheduleNetworkFunction_def Let_def split: sum.splits if_splits)
  then show ?thesis
  proof cases
    case 1
    then show ?thesis by simp
  next
    case (2 live ts used)
    let ?t = "pickNode (filterFeasible lib ts used)"
    let ?n = "nf\<lparr>nf_Spec := (nf_Spec nf)\<lparr>nfs_TargetName := om_Name ?t\<rparr>\<rparr>"
    have key: "meta_key ?n = meta_key nf" by (simp add: meta_key_def)
    have "nf_written w (meta_key ?n) (\<lambda>_. nfs_TargetName (nf_Spec ?n)) (r, w')"
      using nf_apiD(5) [OF api, of w ?n nf] 2(6) by (simp add: updateNFWithChosenTarget_def)
    then have "binding w' = binding w \<or> binding w' = (binding w)(meta_key nf \<mapsto> om_Name ?t)"
      unfolding key by (cases r) (auto simp: nf_written_def binding_upd)
    moreover have "?t \<in> set (filterFeasible lib ts used)" using 2(5) by (simp add: pickNode_def)
    moreover have "binding w (meta_key nf) = Some ''''" using nf_apiD(2) [OF api 2(1)] 2(2) by (simp add: binding_def)
    ultimately show ?thesis using 2(3,4) by blast
  qed
qed

lemma Reconcile_binding:
  assumes api: "nf_api cl" and run: "Reconcile lib cl now req w = (r, w')"
  shows "binding w' = binding w \<or>
    (\<exists>nf t ts used. binding w req = Some '''' \<and> binding w' = (binding w)(req \<mapsto> om_Name t) \<and>
       listTargets lib cl nf w = Inr ts \<and> countUsedSlots cl w = Inr used \<and> t \<in> set (filterFeasible lib ts used))"
proof (cases "nc_Get cl w req")
  case (Inl e)
  then show ?thesis using run by (simp add: Reconcile_def)
next
  case (Inr nf)
  then have key: "meta_key nf = req" by (rule nf_apiD(1) [OF api])
  note st = updateStatus_binding [OF api]
  show ?thesis
  proof (cases "nfs_TargetName (nf_Spec nf) = ''''")
    case True
    obtain q w1 where s: "scheduleNetworkFunction lib cl nf w = (q, w1)" by (cases "scheduleNetworkFunction lib cl nf w")
    have "binding w' = binding w1"
      using run Inr True s st by (auto simp: Reconcile_def split: sum.splits if_splits)
    then show ?thesis using schedule_binding [OF api s] key by metis
  next
    case False
    have upd: "binding w2 = binding w1" if "updateStatus cl now nf w1 = (e, w2)" for e w1 w2
      using st [of now nf w1] that by simp
    have "snd (ensureControlPlaneDeployment lib cl nf cp w) = w" for cp
      by (simp add: ensureControlPlaneDeployment_def nf_apiD(7) [OF api])
    then have dep: "w1 = w" if "ensureControlPlaneDeployment lib cl nf cp w = (q, w1)" for cp q w1
      using that by (metis snd_conv)
    have "binding w' = binding w"
      using run Inr False st by (auto simp: Reconcile_def dest!: dep dest: upd split: sum.splits if_splits option.splits prod.splits)
    then show ?thesis by blast
  qed
qed

text \<open>The history of the functions: unbound creation, changes that keep the target, deletion, reconciles.\<close>

inductive nf_step :: "'sel nf_lib \<Rightarrow> (nf_store, 'sel) nf_client \<Rightarrow> nf_store \<Rightarrow> nf_store \<Rightarrow> bool"
  for lib :: "'sel nf_lib" and cl :: "(nf_store, 'sel) nf_client" where
  reconciled: "Reconcile lib cl now req w = (r, w') \<Longrightarrow> nf_step lib cl w w'"
| created: "w k = None \<Longrightarrow> nfs_TargetName (nf_Spec n) = '''' \<Longrightarrow> nf_step lib cl w (w(k \<mapsto> n))"
| changed: "w k = Some n \<Longrightarrow> nfs_TargetName (nf_Spec n') = nfs_TargetName (nf_Spec n) \<Longrightarrow>
    nf_step lib cl w (w(k \<mapsto> n'))"
| deleted: "nf_step lib cl w (w(k := None))"

definition slots_ok :: "(string \<Rightarrow> int) \<Rightarrow> nf_store \<Rightarrow> bool" where
  "slots_ok cap w \<longleftrightarrow> (\<forall>t. t \<noteq> '''' \<longrightarrow> finite (bound_to w t) \<and> int (card (bound_to w t)) \<le> max 0 (cap t))"

lemma slots_ok_mono:
  assumes "slots_ok cap w" "\<And>t. t \<noteq> '''' \<Longrightarrow> bound_to w' t \<subseteq> bound_to w t"
  shows "slots_ok cap w'"
  unfolding slots_ok_def
proof (intro allI impI)
  fix t :: string
  assume "t \<noteq> ''''"
  with assms have "finite (bound_to w t)" "int (card (bound_to w t)) \<le> max 0 (cap t)" "bound_to w' t \<subseteq> bound_to w t"
    by (auto simp: slots_ok_def)
  then show "finite (bound_to w' t) \<and> int (card (bound_to w' t)) \<le> max 0 (cap t)"
    by (meson card_mono finite_subset of_nat_mono order_trans)
qed

lemma slots_ok_bind:
  assumes ok: "slots_ok cap w" and free: "free_target cap w t"
    and w': "binding w' = (binding w)(k \<mapsto> om_Name t)"
  shows "slots_ok cap w'"
  unfolding slots_ok_def
proof (intro allI impI)
  fix u :: string
  assume u: "u \<noteq> ''''"
  have sub: "bound_to w' u \<subseteq> (if u = om_Name t then insert k (bound_to w u) else bound_to w u)"
    using w' by (auto simp: bound_to_def split: if_splits)
  have fin: "finite (bound_to w u)" "int (card (bound_to w u)) \<le> max 0 (cap u)" using ok u by (auto simp: slots_ok_def)
  have "card (bound_to w' u) \<le> (if u = om_Name t then Suc (card (bound_to w u)) else card (bound_to w u))"
    using card_mono [OF _ sub] fin(1) card_insert_le_m1 by (auto split: if_splits simp: card_insert_if intro: le_trans)
  moreover have "int (card (bound_to w u)) < cap u" if "u = om_Name t" using free u that by (simp add: free_target_def)
  ultimately have "int (card (bound_to w' u)) \<le> max 0 (cap u)" using fin(2) by (cases "u = om_Name t") auto
  moreover have "finite (bound_to w' u)" using finite_subset [OF sub] fin(1) by (metis finite_insert)
  ultimately show "finite (bound_to w' u) \<and> int (card (bound_to w' u)) \<le> max 0 (cap u)" by simp
qed

lemma nf_step_slots:
  assumes api: "nf_api cl" and caps: "stable_capacity lib cl cap" and step: "nf_step lib cl w w'" and ok: "slots_ok cap w"
  shows "slots_ok cap w'"
  using step
proof (cases rule: nf_step.cases)
  case (reconciled now req r)
  from Reconcile_binding [OF api reconciled] consider "binding w' = binding w"
    | nf t ts used where "binding w' = (binding w)(req \<mapsto> om_Name t)" "listTargets lib cl nf w = Inr ts"
      "countUsedSlots cl w = Inr used" "t \<in> set (filterFeasible lib ts used)" by blast
  then show ?thesis
  proof cases
    case 1
    then show ?thesis using ok by (simp add: slots_ok_def bound_to_def)
  next
    case (2 nf t ts used)
    show ?thesis
    proof (cases "om_Name t = ''''")
      case True
      have "bound_to w' u \<subseteq> bound_to w u" if "u \<noteq> ''''" for u
        using 2(1) True that by (auto simp: bound_to_def split: if_splits)
      with ok show ?thesis by (rule slots_ok_mono)
    next
      case False
      then have "int (card (bound_to w (om_Name t))) \<le> max 0 (cap (om_Name t))" using ok by (simp add: slots_ok_def)
      also have "\<dots> < 2 ^ 63" using caps by (simp add: stable_capacity_def)
      finally have "free_target cap w t" by (rule feasible_is_free [OF api caps _ 2(2,3,4)])
      then show ?thesis by (rule slots_ok_bind [OF ok _ 2(1)])
    qed
  qed
next
  case (created k n)
  have "bound_to w' u \<subseteq> bound_to w u" if "u \<noteq> ''''" for u
    using created that by (auto simp: bound_to_def binding_upd split: if_splits)
  with ok show ?thesis by (rule slots_ok_mono)
next
  case (changed k n n')
  then have "binding w' = binding w" by (auto simp: binding_def)
  then show ?thesis using ok by (simp add: slots_ok_def bound_to_def)
next
  case (deleted k)
  then have "bound_to w' u \<subseteq> bound_to w u" for u by (auto simp: bound_to_def binding_def split: if_splits)
  with ok show ?thesis by (rule slots_ok_mono)
qed



section \<open>Status\<close>

definition put_nf_condition ::
    "NetworkFunctionCondition list \<Rightarrow> NetworkFunctionCondition \<Rightarrow> NetworkFunctionCondition list" where
  "put_nf_condition cs c = UpdateNFCondition \<lparr>nft_AssignedIP = '''', nft_ObservedGeneration = 0, nft_Phase = '''',
     nft_Reason = '''', nft_Conditions = cs\<rparr> c"

lemma UpdateNFCondition_put: "UpdateNFCondition st c = put_nf_condition (nft_Conditions st) c"
  by (simp add: put_nf_condition_def UpdateNFCondition_def GetNFCondition_def RemoveNFCondition_def
      CopyConditions_def split: option.splits)

lemma put_nf_condition_eq:
  "put_nf_condition cs c =
     (case find (\<lambda>x. c_Type x = c_Type c) cs of
        Some e \<Rightarrow> if ConditionsAreEqual e c then cs else filter (\<lambda>x. c_Type x \<noteq> c_Type c) cs @ [c]
      | None \<Rightarrow> filter (\<lambda>x. c_Type x \<noteq> c_Type c) cs @ [c])"
  by (simp add: put_nf_condition_def UpdateNFCondition_def GetNFCondition_def RemoveNFCondition_def
      CopyConditions_def split: option.splits)

lemma find_filter_type:
  "find (\<lambda>x. c_Type x = t) (filter (\<lambda>x. c_Type x \<noteq> t') cs) = (if t = t' then None else find (\<lambda>x. c_Type x = t) cs)"
  by (induction cs) auto

lemma nf_ConditionsAreEqual_refl [simp]: "ConditionsAreEqual c c"
  by (simp add: ConditionsAreEqual_def)

interpretation nf_conditions: condition_store put_nf_condition c_Type ConditionsAreEqual
proof (unfold_locales, goal_cases)
  case (1 c cs)
  then show ?case by (auto simp: put_nf_condition_eq find_append find_filter_type split: option.splits)
next
  case (2 t c cs)
  then show ?case by (auto simp: put_nf_condition_eq find_append find_filter_type split: option.splits)
next
  case (3 cs c)
  then show ?case by (auto simp: put_nf_condition_eq distinct_map_filter split: option.splits)
qed

lemma put_nf_condition_again:
  assumes "ConditionsAreEqual c c'"
  shows "put_nf_condition (put_nf_condition cs c) c' = put_nf_condition cs c"
proof -
  obtain e where "find (\<lambda>x. c_Type x = c_Type c) (put_nf_condition cs c) = Some e" "ConditionsAreEqual e c"
    using nf_conditions.upd_lookup by blast
  then show ?thesis using assms by (auto simp: put_nf_condition_eq [of _ c'] ConditionsAreEqual_def)
qed

lemma find_rev_distinct:
  "distinct (map c_Type cs) \<Longrightarrow> c \<in> set cs \<Longrightarrow> find (\<lambda>x. c_Type c = c_Type x) (rev cs) = Some c"
proof (induction cs)
  case (Cons d cs)
  then show ?case by (cases "c = d") (auto simp: find_append find_None_iff image_iff split: option.splits dest!: find_Some_iff_in)
qed simp

lemma StatusesAreEqual_refl: "distinct (map c_Type (nft_Conditions st)) \<Longrightarrow> StatusesAreEqual (Some st) (Some st)"
  by (auto simp: StatusesAreEqual_def ConditionsSlicesAreEqual_def list_all_iff find_rev_distinct)

definition scheduled_condition :: "time \<Rightarrow> nf \<Rightarrow> NetworkFunctionCondition" where
  "scheduled_condition now nf =
     (if nfs_TargetName (nf_Spec nf) \<noteq> ''''
      then NewScheduledCondition now ConditionTrue ''Scheduled''
             (''The NetworkFunction is scheduled to target '' @ nfs_TargetName (nf_Spec nf) @ ''.'')
      else NewScheduledCondition now ConditionFalse ''SchedulingPending''
             ''The NetworkFunction has not been scheduled to a target yet.'')"

lemma calculateStatus_eq:
  "calculateStatus now nf =
     (nf_Status nf)\<lparr>nft_Phase := (if nft_Phase (nf_Status nf) = '''' then NetworkFunctionPending else nft_Phase (nf_Status nf)),
        nft_Conditions := put_nf_condition (nft_Conditions (nf_Status nf)) (scheduled_condition now nf)\<rparr>"
proof -
  have [simp]: "st\<lparr>nft_Phase := nft_Phase st\<rparr> = st" for st :: NetworkFunctionStatus by (cases st) simp
  show ?thesis
    by (auto simp: calculateStatus_def Let_def UpdateNFCondition_put put_nf_condition_again scheduled_condition_def)
qed

text \<open>
  The reported status is right and settles. For a function whose condition types are distinct, the
  calculated status has a phase, keeps the other conditions and says Scheduled true exactly when a
  target is set; without one the reason is always SchedulingPending, also when the scheduler found no
  matching target. Once it is stored, no later update writes again.
\<close>

theorem status_settles:
  assumes "distinct (map c_Type (nft_Conditions (nf_Status nf)))" "st = calculateStatus now nf"
  shows "(\<exists>c. GetScheduledCondition st = Some c \<and>
       (c_Status c = ConditionTrue \<longleftrightarrow> nfs_TargetName (nf_Spec nf) \<noteq> '''') \<and>
       (nfs_TargetName (nf_Spec nf) = '''' \<longrightarrow> c_Reason c = ''SchedulingPending'')) \<and>
    (\<forall>t. t \<noteq> NFScheduled \<longrightarrow> GetNFCondition t st = GetNFCondition t (nf_Status nf)) \<and>
    nft_Phase st \<noteq> '''' \<and> distinct (map c_Type (nft_Conditions st)) \<and>
    updateStatus cl later (nf\<lparr>nf_Status := st\<rparr>) w = (None, w)"
proof -
  let ?c = "scheduled_condition now nf"
  have type: "c_Type ?c = NFScheduled"
    by (simp add: scheduled_condition_def NewScheduledCondition_def NewNFCondition_def)
  have conds: "nft_Conditions st = put_nf_condition (nft_Conditions (nf_Status nf)) ?c"
    unfolding assms(2) by (simp add: calculateStatus_eq)
  obtain c where c: "GetScheduledCondition st = Some c" "ConditionsAreEqual c ?c"
    unfolding GetScheduledCondition_def GetNFCondition_def conds
    using nf_conditions.upd_lookup [of ?c] type by auto
  have phase: "nft_Phase st \<noteq> ''''" unfolding assms(2) by (simp add: calculateStatus_eq)
  have dist: "distinct (map c_Type (nft_Conditions st))"
    unfolding conds by (rule nf_conditions.upd_distinct [OF assms(1)])
  have "ConditionsAreEqual ?c (scheduled_condition later (nf\<lparr>nf_Status := st\<rparr>))"
    by (simp add: scheduled_condition_def NewScheduledCondition_def NewNFCondition_def ConditionsAreEqual_def)
  then have "calculateStatus later (nf\<lparr>nf_Status := st\<rparr>) = st"
    using phase conds by (simp add: calculateStatus_eq put_nf_condition_again)
  then have "updateStatus cl later (nf\<lparr>nf_Status := st\<rparr>) w = (None, w)"
    by (simp add: updateStatus_def Let_def StatusesAreEqual_refl [OF dist])
  moreover have "GetNFCondition t st = GetNFCondition t (nf_Status nf)" if "t \<noteq> NFScheduled" for t
    unfolding GetNFCondition_def conds using nf_conditions.upd_others that type by simp
  moreover have "(c_Status c = ConditionTrue \<longleftrightarrow> nfs_TargetName (nf_Spec nf) \<noteq> '''') \<and>
      (nfs_TargetName (nf_Spec nf) = '''' \<longrightarrow> c_Reason c = ''SchedulingPending'')"
    using c(2) by (simp add: ConditionsAreEqual_def scheduled_condition_def NewScheduledCondition_def NewNFCondition_def)
  ultimately show ?thesis using c(1) phase dist by blast
qed

section \<open>The control-plane deployment\<close>

text \<open>
  The documented behaviour of \<open>SetControllerReference\<close>: on success it changes the owner references
  only, and setting the same owner again changes nothing.
\<close>

definition sets_owner :: "'sel nf_lib \<Rightarrow> bool" where
  "sets_owner lib \<longleftrightarrow>
     (\<forall>nf dep dep'. nl_SetControllerReference lib nf dep = Inr dep' \<longrightarrow>
        (\<exists>refs. dep' = dep\<lparr>om_OwnerReferences := refs\<rparr>) \<and> nl_SetControllerReference lib nf dep' = Inr dep')"

lemma valid_envs_eq:
  "valid_envs envs = (if list_ex (\<lambda>e. fst e = '''') envs
     then Inl (Errorf ''invalid environment variable with empty name in ControlPlaneSpec.ExtraEnv'' None) else Inr envs)"
  by (induction envs) auto

definition rendered :: "nf \<Rightarrow> ControlPlaneSpec \<Rightarrow> Deployment \<Rightarrow> Deployment" where
  "rendered nf cp dep =
     dep\<lparr>dp_Replicas := Some 1,
       dp_Selector := Some \<lparr>ls_MatchLabels = Some [(CONTROL_PLANE_POD_LABEL, om_Name nf)], ls_MatchExpressions = []\<rparr>,
       dp_TemplateLabels := Some [(CONTROL_PLANE_POD_LABEL, om_Name nf)],
       dp_NodeSelector := cp_NodeSelector cp, dp_Tolerations := cp_Tolerations cp, dp_Affinity := cp_Affinity cp,
       dp_Containers := [(if length (dp_Containers dep) \<noteq> 1 then empty_container else hd (dp_Containers dep))
         \<lparr>ct_Image := cp_Image cp, ct_ImagePullPolicy := cp_ImagePullPolicy cp,
          ct_Resources := cp_Resources cp, ct_Args := cp_Args cp,
          ct_Env := cp_ExtraEnv cp @ [(NF_NAME_ENV_VAR_KEY, om_Name nf), (NF_NAMESPACE_ENV_VAR_KEY, om_Namespace nf)]\<rparr>]\<rparr>"

lemma mutate_deployment_eq:
  "mutate_deployment lib nf cp dep =
     (if list_ex (\<lambda>e. fst e = '''') (cp_ExtraEnv cp)
      then Inl (Errorf ''invalid environment variable with empty name in ControlPlaneSpec.ExtraEnv'' None)
      else nl_SetControllerReference lib nf (rendered nf cp dep))"
  by (simp add: mutate_deployment_def valid_envs_eq rendered_def Let_def)

lemma rendered_again: "rendered nf cp ((rendered nf cp dep)\<lparr>om_OwnerReferences := refs\<rparr>) = (rendered nf cp dep)\<lparr>om_OwnerReferences := refs\<rparr>"
  by (cases dep) (simp add: rendered_def)

text \<open>
  The rendering of the control plane. A nameless variable is refused. Otherwise the deployment
  has one replica and one container whose selector matches its own pods, the two variables that tell
  the container its function win over variables of the same name, the others are as requested, and
  rendering again changes nothing, so a reconcile settles.
\<close>

theorem control_plane_rendering:
  assumes "sets_owner lib" "mutate_deployment lib nf cp dep = Inr dep'"
  shows "(\<forall>e \<in> set (cp_ExtraEnv cp). fst e \<noteq> '''') \<and> dp_Replicas dep' = Some 1 \<and>
    dp_TemplateLabels dep' = ls_MatchLabels (the (dp_Selector dep')) \<and>
    (\<exists>c. dp_Containers dep' = [c] \<and> ct_Image c = cp_Image cp \<and>
       map_of (rev (ct_Env c)) NF_NAME_ENV_VAR_KEY = Some (om_Name nf) \<and>
       map_of (rev (ct_Env c)) NF_NAMESPACE_ENV_VAR_KEY = Some (om_Namespace nf) \<and>
       (\<forall>v. v \<noteq> NF_NAME_ENV_VAR_KEY \<and> v \<noteq> NF_NAMESPACE_ENV_VAR_KEY \<longrightarrow>
          map_of (rev (ct_Env c)) v = map_of (rev (cp_ExtraEnv cp)) v)) \<and>
    mutate_deployment lib nf cp dep' = Inr dep'"
proof -
  have names: "\<not> list_ex (\<lambda>e. fst e = '''') (cp_ExtraEnv cp)"
    and set: "nl_SetControllerReference lib nf (rendered nf cp dep) = Inr dep'"
    using assms(2) by (auto simp: mutate_deployment_eq split: if_splits)
  then obtain refs where dep': "dep' = (rendered nf cp dep)\<lparr>om_OwnerReferences := refs\<rparr>"
    and again: "nl_SetControllerReference lib nf dep' = Inr dep'"
    using assms(1) unfolding sets_owner_def by blast
  have "rendered nf cp dep' = dep'" unfolding dep' by (rule rendered_again)
  then have "mutate_deployment lib nf cp dep' = Inr dep'" using names again by (simp add: mutate_deployment_eq)
  then show ?thesis using names by (auto simp: list_ex_iff dep' rendered_def)
qed


section \<open>Examples\<close>

definition ex_func :: "string \<Rightarrow> string \<Rightarrow> nf" where
  "ex_func name target =
     \<lparr>om_Name = name, om_GenerateName = '''', om_Namespace = '''', om_UID = name, om_Generation = 1,
      om_Labels = None, om_Annotations = None, om_Finalizers = [], om_OwnerReferences = [],
      om_CreationTimestamp = 1, om_DeletionTimestamp = None,
      nf_Spec = \<lparr>nfs_TargetName = target, nfs_ControlPlane = None, nfs_TargetSelector = None,
        nfs_ConfigRef = None, nfs_P4File = ''''\<rparr>,
      nf_Status = \<lparr>nft_AssignedIP = '''', nft_ObservedGeneration = 0, nft_Phase = '''', nft_Reason = '''',
        nft_Conditions = []\<rparr>\<rparr>"

definition ex_slots :: "int \<Rightarrow> P4Target" where
  "ex_slots n = (ex_target ''t'' [] [])\<lparr>pt_Status := (pt_Status (ex_target ''t'' [] []))
     \<lparr>ptt_Capacity := [(''loom.io/nf-slots'', n)]\<rparr>\<rparr>"

definition ex_nf_lib :: "unit nf_lib" where
  "ex_nf_lib = \<lparr>nl_ValidatedSelectorFromSet = (\<lambda>_. Inr ()), nl_ResourceName = map_of,
     nl_SetControllerReference = (\<lambda>nf dep. Inr (dep\<lparr>om_OwnerReferences := []\<rparr>))\<rparr>"

text \<open>A client over stores whose functions all have one of the given keys.\<close>

definition ex_live :: "nsname list \<Rightarrow> nf_store \<Rightarrow> go_error + nf list" where
  "ex_live ks w =
     (if (\<forall>k. k \<notin> set ks \<longrightarrow> w k = None) \<and> (\<forall>k n. w k = Some n \<longrightarrow> meta_key n = k)
      then Inr (List.map_filter w ks) else Inl (ApiError NotFound))"

definition ex_nf_client :: "nsname list \<Rightarrow> int \<Rightarrow> (nf_store, unit) nf_client" where
  "ex_nf_client ks n =
     \<lparr>nc_Get = (\<lambda>w k. case w k of None \<Rightarrow> Inl (ApiError NotFound)
        | Some x \<Rightarrow> if meta_key x = k then Inr x else Inl (ApiError NotFound)),
      nc_ListTargets = (\<lambda>_ _. Inr [ex_slots n]),
      nc_LiveGet = (\<lambda>w k. case w k of None \<Rightarrow> Inl (ApiError NotFound) | Some x \<Rightarrow> Inr x),
      nc_LiveListNFs = ex_live ks,
      nc_PatchLocked = (\<lambda>w x0 x. case w (meta_key x) of None \<Rightarrow> (Inl (ApiError NotFound), w)
        | Some s \<Rightarrow> (Inr x, w(meta_key x \<mapsto> x))),
      nc_StatusPatch = (\<lambda>w x0 x. case w (meta_key x) of None \<Rightarrow> (Inl (ApiError NotFound), w)
        | Some s \<Rightarrow> (Inr (x\<lparr>nf_Spec := nf_Spec s\<rparr>), w(meta_key x \<mapsto> x\<lparr>nf_Spec := nf_Spec s\<rparr>))),
      nc_CreateOrPatch = (\<lambda>w k f. (Inr OperationResultNone, w))\<rparr>"

lemma in_map_filter: "x \<in> set (List.map_filter f xs) \<longleftrightarrow> (\<exists>k \<in> set xs. f k = Some x)"
  by (induction xs) (auto simp: map_filter_simps split: option.splits)

lemma distinct_map_filter_keys:
  "distinct ks \<Longrightarrow> \<forall>k n. w k = Some n \<longrightarrow> key n = k \<Longrightarrow> distinct (map key (List.map_filter w ks))"
  by (induction ks) (auto simp: map_filter_simps in_map_filter split: option.splits)

lemma ex_nf_client_api:
  assumes "distinct ks"
  shows "nf_api (ex_nf_client ks n)"
proof -
  have "distinct (map meta_key ns) \<and> (\<forall>k x. w k = Some x \<longleftrightarrow> x \<in> set ns \<and> meta_key x = k)"
    if "ex_live ks w = Inr ns" for w ns
  proof -
    have ns: "ns = List.map_filter w ks" and keys: "\<forall>k n. w k = Some n \<longrightarrow> meta_key n = k"
      and dom: "\<forall>k. k \<notin> set ks \<longrightarrow> w k = None"
      using that by (auto simp: ex_live_def split: if_splits simp del: split_paired_All)
    have "w k = Some x \<longleftrightarrow> x \<in> set ns \<and> meta_key x = k" for k x
      unfolding ns in_map_filter using keys dom by (metis option.distinct(1))
    then show ?thesis using distinct_map_filter_keys [OF assms keys] ns by blast
  qed
  then show ?thesis
    by (auto simp: nf_api_def ex_nf_client_def nf_written_def simp del: split_paired_All split: option.splits if_splits)
qed

lemma ex_stable: "n < 2 ^ 63 \<Longrightarrow> stable_capacity ex_nf_lib (ex_nf_client ks n) (\<lambda>_. n)"
  by (auto simp: stable_capacity_def ex_nf_lib_def ex_nf_client_def ex_slots_def)

abbreviation ex_keys :: "nsname list" where "ex_keys \<equiv> [([], ''a''), ([], ''b'')]"

definition ex_unbound :: nf_store where
  "ex_unbound = (\<lambda>_. None)(([], ''a'') \<mapsto> ex_func ''a'' [])"

definition ex_bound :: nf_store where
  "ex_bound = (\<lambda>_. None)(([], ''a'') \<mapsto> ex_func ''a'' ''t'')"

lemma ex_schedule:
  "Reconcile ex_nf_lib (ex_nf_client ex_keys 1) 5 ([], ''a'') ex_unbound = (Inr Done, ex_bound)"
proof -
  have live: "ex_live ex_keys ex_unbound = Inr [ex_func ''a'' []]"
    by (auto simp: ex_live_def ex_unbound_def ex_func_def meta_key_def map_filter_simps)
  have key: "meta_key (ex_func ''a'' t) = ([], ''a'')" for t by (simp add: ex_func_def meta_key_def)
  let ?cl = "ex_nf_client ex_keys 1"
  have spec: "(ex_func ''a'' [])\<lparr>nf_Spec := (nf_Spec (ex_func ''a'' []))\<lparr>nfs_TargetName := ''t''\<rparr>\<rparr> = ex_func ''a'' ''t''"
    by (simp add: ex_func_def)
  have unbound: "nfs_TargetName (nf_Spec (ex_func ''a'' [])) = []" "om_Name (ex_slots 1) = ''t''"
    by (simp_all add: ex_func_def ex_slots_def ex_target_def)
  have list: "listTargets ex_nf_lib ?cl (ex_func ''a'' []) ex_unbound = Inr [ex_slots 1]"
    by (simp add: listTargets_def ex_nf_lib_def ex_nf_client_def)
  have used: "countUsedSlots ?cl ex_unbound = Inr (foldl count_slot (\<lambda>_. 0) [ex_func ''a'' []])"
    using live by (simp add: countUsedSlots_def ex_nf_client_def)
  have feasible: "filterFeasible ex_nf_lib [ex_slots 1] (foldl count_slot (\<lambda>_. 0) [ex_func ''a'' []]) = [ex_slots 1]"
    by (simp add: filterFeasible_def HasTaintWithEffects_def ex_slots_def ex_target_def ex_nf_lib_def
        count_slot_def ex_func_def)
  have get: "nc_Get ?cl ex_unbound ([], ''a'') = Inr (ex_func ''a'' [])" "nc_LiveGet ?cl ex_unbound ([], ''a'') = Inr (ex_func ''a'' [])"
    by (simp_all add: ex_nf_client_def ex_unbound_def key)
  have patch: "updateNFWithChosenTarget ?cl (ex_func ''a'' []) (ex_slots 1) ex_unbound = (Inr (ex_func ''a'' ''t''), ex_bound)"
    by (simp add: updateNFWithChosenTarget_def ex_nf_client_def unbound spec key ex_unbound_def ex_bound_def)
  show ?thesis
    unfolding Reconcile_def scheduleNetworkFunction_def key get sum.case list used Let_def feasible unbound
    by (simp add: pickNode_def patch)
qed



theorem status_settles_witness:
  "updateStatus (ex_nf_client ex_keys 1) 9
     ((ex_func ''a'' ''t'')\<lparr>nf_Status := calculateStatus 5 (ex_func ''a'' ''t'')\<rparr>) ex_bound = (None, ex_bound)"
  using status_settles [of "ex_func ''a'' ''t''" _ 5 "ex_nf_client ex_keys 1" 9 ex_bound, OF _ refl]
  by (simp add: ex_func_def)

definition ex_cp :: ControlPlaneSpec where
  "ex_cp = \<lparr>cp_Image = ''ctl'', cp_ImagePullPolicy = [], cp_Resources = [], cp_NodeName = [], cp_NodeSelector = None,
     cp_Tolerations = [], cp_Affinity = None, cp_ExtraEnv = [(''NF_NAME'', ''x''), (''LOG'', ''1'')], cp_Args = []\<rparr>"

definition ex_dep :: Deployment where
  "ex_dep = \<lparr>om_Name = ''a-ctrl'', om_GenerateName = [], om_Namespace = [], om_UID = [], om_Generation = 0,
      om_Labels = None, om_Annotations = None, om_Finalizers = [], om_OwnerReferences = [],
      om_CreationTimestamp = 0, om_DeletionTimestamp = None, dp_Replicas = None, dp_Selector = None,
      dp_TemplateLabels = None, dp_NodeSelector = None, dp_Tolerations = [], dp_Affinity = None, dp_Containers = []\<rparr>"

theorem control_plane_rendering_witness:
  "\<exists>dep' c. mutate_deployment ex_nf_lib (ex_func ''a'' ''t'') ex_cp ex_dep = Inr dep' \<and> dp_Containers dep' = [c] \<and>
     map_of (rev (ct_Env c)) ''NF_NAME'' = Some ''a'' \<and>
     mutate_deployment ex_nf_lib (ex_func ''a'' ''t'') ex_cp dep' = Inr dep'"
proof -
  have lib: "sets_owner ex_nf_lib" by (auto simp: sets_owner_def ex_nf_lib_def)
  obtain dep' where dep': "mutate_deployment ex_nf_lib (ex_func ''a'' ''t'') ex_cp ex_dep = Inr dep'"
    by (simp add: mutate_deployment_eq ex_nf_lib_def ex_cp_def)
  have name: "om_Name (ex_func ''a'' ''t'') = ''a''" by (simp add: ex_func_def)
  show ?thesis using control_plane_rendering [OF lib dep'] dep' name by metis
qed

section \<open>Refinement of the slot specification\<close>

text \<open>
  What the scheduler promises, without objects, clients or caches: a map from functions to targets,
  where a function is registered unbound, is bound once and only to a target with a free slot, and
  may be forgotten.
\<close>

inductive slot_step :: "(string \<Rightarrow> int) \<Rightarrow> (nsname \<rightharpoonup> string) \<Rightarrow> (nsname \<rightharpoonup> string) \<Rightarrow> bool"
  for cap :: "string \<Rightarrow> int" where
  registers: "b k = None \<Longrightarrow> slot_step cap b (b(k \<mapsto> ''''))"
| binds: "b k = Some '''' \<Longrightarrow> t \<noteq> '''' \<Longrightarrow> int (card {j. b j = Some t}) < cap t \<Longrightarrow> slot_step cap b (b(k \<mapsto> t))"
| forgets: "slot_step cap b (b(k := None))"

lemma nf_step_refines:
  assumes api: "nf_api cl" and caps: "stable_capacity lib cl cap" and step: "nf_step lib cl w w'" and ok: "slots_ok cap w"
  shows "binding w' = binding w \<or> slot_step cap (binding w) (binding w')"
  using step
proof (cases rule: nf_step.cases)
  case (reconciled now req r)
  show ?thesis
  proof (cases "binding w' = binding w")
    case False
    then obtain nf t ts used where b: "binding w req = Some ''''" "binding w' = (binding w)(req \<mapsto> om_Name t)"
      "listTargets lib cl nf w = Inr ts" "countUsedSlots cl w = Inr used" "t \<in> set (filterFeasible lib ts used)"
      using Reconcile_binding [OF api reconciled] by blast
    have name: "om_Name t \<noteq> ''''"
    proof
      assume "om_Name t = ''''"
      with b(1,2) have "binding w' = binding w" by auto
      with False show False ..
    qed
    then have "int (card (bound_to w (om_Name t))) \<le> max 0 (cap (om_Name t))" using ok by (simp add: slots_ok_def)
    also have "\<dots> < 2 ^ 63" using caps by (simp add: stable_capacity_def)
    finally have "free_target cap w t" by (rule feasible_is_free [OF api caps _ b(3,4,5)])
    then have "int (card {j. binding w j = Some (om_Name t)}) < cap (om_Name t)"
      using name by (simp add: free_target_def bound_to_def)
    then show ?thesis unfolding b(2) using slot_step.binds [of "binding w" req "om_Name t", OF b(1) name] by simp
  qed simp
next
  case (created k n)
  then have "binding w' = (binding w)(k \<mapsto> '''')" "binding w k = None" by (simp_all add: binding_upd, simp add: binding_def)
  then show ?thesis using slot_step.registers [of "binding w" k] by simp
next
  case (changed k n n')
  then have "binding w' = binding w" by (auto simp: binding_def)
  then show ?thesis ..
next
  case (deleted k)
  then have "binding w' = (binding w)(k := None)" by (auto simp: binding_def)
  then show ?thesis using slot_step.forgets [of cap "binding w" k] by simp
qed



end
