(* ===== verification/DriverNf.thy ===== *)
theory DriverNf
  imports DriverTarget NFScheduler
begin

text \<open>
  The function controller of the BMv2 driver (\<open>src/targets/bmv2/controllers/nf\<close>): events and their filter,
  the status of a function, and the reconcile that ties the target manager, the function manager and the
  configuration manager together. The API server and the machine of the driver are separate worlds.
\<close>

section \<open>Events\<close>

text \<open>The filter of \<open>SetupWithManager\<close> sees the events of both watched kinds.\<close>

datatype watched = WatchedNF NetworkFunction | WatchedConfig NetworkFunctionConfig

definition CreateFunc :: "TargetManager \<Rightarrow> watched \<Rightarrow> bool" where
  "CreateFunc r obj = (case obj of WatchedNF netfunc \<Rightarrow> nfs_TargetName (nf_Spec netfunc) = tg_name r | _ \<Rightarrow> False)"

definition UpdateFunc :: "TargetManager \<Rightarrow> watched \<Rightarrow> watched \<Rightarrow> bool" where
  "UpdateFunc r oldObj newObj =
     (case (oldObj, newObj) of
        (WatchedNF oldNf, WatchedNF newNf) \<Rightarrow>
          if om_Generation oldNf = om_Generation newNf then False
          else nfs_TargetName (nf_Spec oldNf) = tg_name r \<or> nfs_TargetName (nf_Spec newNf) = tg_name r
      | _ \<Rightarrow> False)"

definition DeleteFunc :: "TargetManager \<Rightarrow> watched \<Rightarrow> bool" where
  "DeleteFunc r obj = (case obj of WatchedNF netfunc \<Rightarrow> nfs_TargetName (nf_Spec netfunc) = tg_name r | _ \<Rightarrow> False)"

text \<open>As many requests as functions refer to the configuration, each left at its zero value.\<close>

definition mapNetworkFunctionConfigToRequests :: "CfgManager \<Rightarrow> nsname \<Rightarrow> nsname list" where
  "mapNetworkFunctionConfigToRequests m cfgKey =
     replicate (card (GetAllNetworkFunctionsUsingConfig m cfgKey)) ('''', '''')"

section \<open>Finalizers\<close>

definition strutils_ContainsString :: "string list \<Rightarrow> string \<Rightarrow> bool" where
  "strutils_ContainsString slc s = list_ex (\<lambda>item. item = s) slc"

text \<open>The loop over the slice has no effect.\<close>

definition strutils_RemoveString :: "string list \<Rightarrow> string \<Rightarrow> string list" where
  "strutils_RemoveString slc s = slc @ [s]"

abbreviation NetworkFunctionFinalizer :: string where
  "NetworkFunctionFinalizer \<equiv> ''networkfunctions.loom.io/finalizer''"

definition hasFinalizer :: "NetworkFunction \<Rightarrow> bool" where
  "hasFinalizer nf = strutils_ContainsString (om_Finalizers nf) NetworkFunctionFinalizer"

definition removeFinalizer :: "NetworkFunction \<Rightarrow> NetworkFunction" where
  "removeFinalizer nf =
     (if \<not> hasFinalizer nf then nf
      else nf\<lparr>om_Finalizers := strutils_RemoveString (om_Finalizers nf) NetworkFunctionFinalizer\<rparr>)"

definition ensureFinalizer :: "NetworkFunction \<Rightarrow> NetworkFunction" where
  "ensureFinalizer nf =
     (if hasFinalizer nf then nf else nf\<lparr>om_Finalizers := om_Finalizers nf @ [NetworkFunctionFinalizer]\<rparr>)"

section \<open>Status\<close>

definition isDeployed :: "DeploymentStatus \<Rightarrow> bool" where
  "isDeployed status \<longleftrightarrow> ds_Phase status = PhaseReady"

definition nf_ready_condition :: "string \<Rightarrow> string \<Rightarrow> string \<Rightarrow> NetworkFunctionCondition" where
  "nf_ready_condition status reason msg =
     \<lparr>c_Type = ''Ready'', c_Status = status, c_LastTransitionTime = 0, c_Reason = reason, c_Message = msg, c_LastProbeTime = 0\<rparr>"

text \<open>The condition helpers of the driver (\<open>controllers/nf/utils.go\<close>) are a copy of the operator's.\<close>

definition drv_UpdateNFCondition :: "NetworkFunctionStatus \<Rightarrow> NetworkFunctionCondition \<Rightarrow> NetworkFunctionCondition list" where
  "drv_UpdateNFCondition nfStatus newCondition = UpdateNFCondition nfStatus newCondition"

definition drv_calculateStatus :: "NetworkFunction \<Rightarrow> DeploymentStatus \<Rightarrow> prefix \<Rightarrow> NetworkFunctionStatus" where
  "drv_calculateStatus netFunc depStatus funcIP =
     (let (calculatedPhase, readyCondition) =
            (case ds_Phase depStatus of
               PhaseReady \<Rightarrow> (NetworkFunctionRunning,
                 nf_ready_condition ConditionTrue ''NetworkFunctionReady'' ''The NetworkFunction is ready'')
             | PhaseFailed \<Rightarrow> (NetworkFunctionFailed,
                 nf_ready_condition ConditionFalse ''NetworkFunctionNotReady'' ''The NetworkFunction is not ready'')
             | _ \<Rightarrow> (NetworkFunctionPending,
                 nf_ready_condition ConditionFalse ''NetworkFunctionNotReady'' ''The NetworkFunction is not ready''));
          status = \<lparr>nft_AssignedIP = addr_String (pfx_ip funcIP), nft_ObservedGeneration = om_Generation netFunc,
                    nft_Phase = calculatedPhase, nft_Reason = '''', nft_Conditions = CopyConditions (nf_Status netFunc)\<rparr>
      in status\<lparr>nft_Conditions := drv_UpdateNFCondition status readyCondition\<rparr>)"

section \<open>The reconcile\<close>

record 'a drvnf_client =
  dn_GetNF :: "'a \<Rightarrow> nsname \<Rightarrow> go_error + NetworkFunction"
  dn_GetConfig :: "'a \<Rightarrow> nsname \<Rightarrow> go_error + NetworkFunctionConfig"
  dn_StatusPatch :: "'a \<Rightarrow> NetworkFunction \<Rightarrow> NetworkFunction \<Rightarrow> (go_error + unit) \<times> 'a"

record DriverState =
  dr_P4TargetManager :: TargetManager
  dr_NFManager :: NfManager
  dr_NFConfigManager :: CfgManager

definition drv_updateStatus ::
    "'a drvnf_client \<Rightarrow> NetworkFunction \<Rightarrow> DeploymentStatus \<Rightarrow> prefix \<Rightarrow> 'a \<Rightarrow> (go_error + NetworkFunction) \<times> 'a" where
  "drv_updateStatus cl nf depStatus funcIP wa =
     (let nf1 = nf\<lparr>nf_Status := drv_calculateStatus nf depStatus funcIP\<rparr> in
      case dn_StatusPatch cl wa nf1 nf of
        (Inl err, wa1) \<Rightarrow> (Inl err, wa1)
      | (Inr _, wa1) \<Rightarrow> (Inr nf1, wa1))"

text \<open>The address of the function: the one in its status, or a new one.\<close>

definition function_ip :: "NetworkFunction \<Rightarrow> TargetManager \<Rightarrow> (go_error + addr) \<times> TargetManager" where
  "function_ip netfunc tg =
     (if nft_AssignedIP (nf_Status netfunc) = ''''
      then (case AllocateNetworkFunctionIP tg of
              (Inl err, tg1) \<Rightarrow> (Inl (Wrapf ''failed to allocate Network Function IP'' err), tg1)
            | (Inr ip, tg1) \<Rightarrow> (Inr ip, tg1))
      else (case ParseAddr (nft_AssignedIP (nf_Status netfunc)) of
              None \<Rightarrow> (Inl (Errorf ''invalid IP address in NetworkFunction status'' None), tg)
            | Some ip \<Rightarrow> (Inr ip, tg)))"

definition apply_nf_config ::
    "'a drvnf_client \<Rightarrow> 'w target_env \<Rightarrow> NetworkFunction \<Rightarrow> CfgManager \<Rightarrow> 'a \<Rightarrow> 'w \<Rightarrow> (go_error + unit) \<times> CfgManager \<times> 'w" where
  "apply_nf_config cl env netfunc cm wa w =
     (case nfs_ConfigRef (nf_Spec netfunc) of
        None \<Rightarrow> EnsurePresentConfigForNF (de_Switch env) None netfunc cm w
      | Some name \<Rightarrow>
          (case dn_GetConfig cl wa (om_Namespace netfunc, name) of
             Inl err \<Rightarrow> (Inl err, cm, w)
           | Inr cfg \<Rightarrow> EnsurePresentConfigForNF (de_Switch env) (Some cfg) netfunc cm w))"

text \<open>The result comes with the goroutine the function manager started, if any.\<close>

definition drv_Reconcile ::
    "'a drvnf_client \<Rightarrow> 'w target_env \<Rightarrow> time \<Rightarrow> nsname \<Rightarrow> DriverState \<Rightarrow> 'a \<Rightarrow> 'w \<Rightarrow>
     (go_error + ctrl_result) \<times> job option \<times> DriverState \<times> 'a \<times> 'w" where
  "drv_Reconcile cl env now req r wa w =
     (case dn_GetNF cl wa req of
        Inl err \<Rightarrow>
          if IsNotFound err
          then (case EnsureAbsent req (dr_NFManager r) of (_, j, nm) \<Rightarrow> (Inr Done, j, r\<lparr>dr_NFManager := nm\<rparr>, wa, w))
          else (Inl err, None, r, wa, w)
      | Inr netfunc \<Rightarrow>
          if c_Status (GetNetworkConfiguredCondition (dr_P4TargetManager r) now) \<noteq> ConditionTrue
          then (Inr (RequeueAfter (5 * Second)), None, r, wa, w)
          else
     (case function_ip netfunc (dr_P4TargetManager r) of
        (Inl err, tg1) \<Rightarrow> (Inl err, None, r\<lparr>dr_P4TargetManager := tg1\<rparr>, wa, w)
      | (Inr funcIP, tg1) \<Rightarrow>
          (let fullNfAddress = prefix_From funcIP (pfx_bits (tg_cidr tg1)) in
     case EnsurePresent netfunc fullNfAddress (dr_NFManager r) of (h, j, nm1) \<Rightarrow>
          (let status = dh_status (nm_handles nm1 h);
               r1 = r\<lparr>dr_P4TargetManager := tg1, dr_NFManager := nm1\<rparr> in
     case drv_updateStatus cl netfunc status fullNfAddress wa of
        (Inl err, wa1) \<Rightarrow> (Inl err, j, r1, wa1, w)
      | (Inr netfunc1, wa1) \<Rightarrow>
          if \<not> isDeployed status then (Inr (RequeueAfter (2 * Second)), j, r1, wa1, w)
          else (case apply_nf_config cl env netfunc1 (dr_NFConfigManager r1) wa1 w of
                  (Inl err, cm, w1) \<Rightarrow> (Inl err, j, r1\<lparr>dr_NFConfigManager := cm\<rparr>, wa1, w1)
                | (Inr _, cm, w1) \<Rightarrow> (Inr Done, j, r1\<lparr>dr_NFConfigManager := cm\<rparr>, wa1, w1))))))"

section \<open>Addresses of functions are unique\<close>

abbreviation nf_ip :: "NetworkFunction \<Rightarrow> string" where
  "nf_ip nf \<equiv> nft_AssignedIP (nf_Status nf)"

text \<open>
  What the controller relies on. A read returns the function of that name, perhaps from a stale cache:
  the address it shows is empty or the stored one. A merge patch that succeeds or fails has either
  done nothing or written the fields that differ from the original.
\<close>

definition drv_nf_api :: "'a drvnf_client \<Rightarrow> ('a \<Rightarrow> nsname \<rightharpoonup> NetworkFunction) \<Rightarrow> bool" where
  "drv_nf_api cl stored \<longleftrightarrow>
     (\<forall>wa k nf. dn_GetNF cl wa k = Inr nf \<longrightarrow>
        meta_key nf = k \<and> (\<exists>s. stored wa k = Some s \<and> (nf_ip nf = '''' \<or> nf_ip nf = nf_ip s))) \<and>
     (\<forall>wa nf orig res wa'. dn_StatusPatch cl wa nf orig = (res, wa') \<longrightarrow>
        stored wa' = stored wa \<or>
        (\<exists>s s'. stored wa (meta_key nf) = Some s \<and> stored wa' = (stored wa)(meta_key nf \<mapsto> s') \<and>
                nf_ip s' = (if nf_ip nf = nf_ip orig then nf_ip s else nf_ip nf)))"

lemma drv_nf_apiD:
  assumes "drv_nf_api cl stored"
  shows "dn_GetNF cl wa k = Inr nf \<Longrightarrow>
      meta_key nf = k \<and> (\<exists>s. stored wa k = Some s \<and> (nf_ip nf = '''' \<or> nf_ip nf = nf_ip s))"
    and "dn_StatusPatch cl wa nf orig = (res, wa') \<Longrightarrow>
      stored wa' = stored wa \<or>
      (\<exists>s s'. stored wa (meta_key nf) = Some s \<and> stored wa' = (stored wa)(meta_key nf \<mapsto> s') \<and>
              nf_ip s' = (if nf_ip nf = nf_ip orig then nf_ip s else nf_ip nf))"
  using assms unfolding drv_nf_api_def by metis+

text \<open>
  A history of the driver: reconciles with any outcome, the configuration of the target's network
  (which, once made, stays the same), any progress of the function manager's goroutines, and changes
  by others in the API server, where functions appear without an address and disappear.
\<close>

type_synonym ('a, 'w) driver_state = "DriverState \<times> 'a \<times> 'w"

inductive dn_step ::
    "'a drvnf_client \<Rightarrow> 'w target_env \<Rightarrow> ('a \<Rightarrow> nsname \<rightharpoonup> NetworkFunction) \<Rightarrow> ('a, 'w) driver_state \<Rightarrow> ('a, 'w) driver_state \<Rightarrow> bool"
  for cl :: "'a drvnf_client" and env :: "'w target_env" and stored :: "'a \<Rightarrow> nsname \<rightharpoonup> NetworkFunction" where
  reconcile: "drv_Reconcile cl env now req r wa w = (res, j, r', wa', w') \<Longrightarrow> dn_step cl env stored (r, wa, w) (r', wa', w')"
| network: "EnsureNetworkConfiguration env c (dr_P4TargetManager r) w = (res, tg, w') \<Longrightarrow>
    tg_cidr (dr_P4TargetManager r) = zero_prefix \<or> tg_cidr (dr_P4TargetManager r) = tg_cidr tg \<Longrightarrow>
    tg_cidr tg = zero_prefix \<or> no_mapped (tg_cidr tg) \<Longrightarrow>
    dn_step cl env stored (r, wa, w) (r\<lparr>dr_P4TargetManager := tg\<rparr>, wa, w')"
| goroutine: "dn_step cl env stored (r, wa, w) (r\<lparr>dr_NFManager := nm\<rparr>, wa, w')"
| others: "(\<And>k nf'. stored wa' k = Some nf' \<Longrightarrow> nf_ip nf' = '''' \<or> (\<exists>nf. stored wa k = Some nf \<and> nf_ip nf' = nf_ip nf)) \<Longrightarrow>
    dn_step cl env stored (r, wa, w) (r, wa', w)"

definition ip_at :: "(nsname \<rightharpoonup> NetworkFunction) \<Rightarrow> nsname \<Rightarrow> string" where
  "ip_at st k = (case st k of None \<Rightarrow> '''' | Some nf \<Rightarrow> nf_ip nf)"

definition ips_from :: "addr set \<Rightarrow> (nsname \<Rightarrow> string) \<Rightarrow> bool" where
  "ips_from ips f \<longleftrightarrow> (\<forall>k. f k \<noteq> '''' \<longrightarrow> f k \<in> addr_String ` ips) \<and> inj_on f {k. f k \<noteq> ''''}"

definition dn_inv :: "('a \<Rightarrow> nsname \<rightharpoonup> NetworkFunction) \<Rightarrow> ('a, 'w) driver_state \<Rightarrow> bool" where
  "dn_inv stored = (\<lambda>(r, wa, w).
     tg_inv (dr_P4TargetManager r) \<and>
     (tg_cidr (dr_P4TargetManager r) = zero_prefix \<or> no_mapped (tg_cidr (dr_P4TargetManager r))) \<and>
     ips_from (tg_allocatedIPs (dr_P4TargetManager r)) (ip_at (stored wa)))"

lemma allocated_nth:
  assumes "tg_inv tg" "x \<in> tg_allocatedIPs tg"
  obtains k where "x = pfx_nth (tg_cidr tg) k" "k < pfx_size (tg_cidr tg)" "base_ok (tg_cidr tg)"
proof (cases "tg_ipAllocator tg")
  case (Some al)
  with assms obtain k where "x = pfx_nth (tg_cidr tg) k" "k \<le> aa_index al" and al: "aa_inv al" "aa_BaseNetwork al = tg_cidr tg"
    by (auto simp: tg_inv_def)
  moreover from al obtain n where "n < pfx_size (tg_cidr tg)" "aa_index al = n" by (metis aa_invE)
  ultimately show ?thesis using that [of k] by (simp add: aa_inv_def)
qed (use assms in \<open>simp add: tg_inv_def\<close>)

lemma allocated_string:
  assumes "tg_inv tg" "tg_cidr tg = zero_prefix \<or> no_mapped (tg_cidr tg)" "x \<in> tg_allocatedIPs tg"
  shows "ParseAddr (addr_String x) = Some x" "addr_withoutZone x = x" "prefix_Contains (tg_cidr tg) x"
proof -
  obtain k where k: "x = pfx_nth (tg_cidr tg) k" "k < pfx_size (tg_cidr tg)" "base_ok (tg_cidr tg)"
    using allocated_nth [OF assms(1,3)] by metis
  have valid: "prefix_IsValid (tg_cidr tg)" using k(3) by (simp add: base_ok_def)
  then have nz: "no_mapped (tg_cidr tg)" using assms(2) by (auto simp: prefix_IsValid_def zero_prefix_def)
  have x: "addr_IsValid x" "\<not> addr_hasZone x" "\<not> addr_Is4In6 x"
    using valid nz k(2) by (cases "pfx_ip (tg_cidr tg)"; simp add: k(1) pfx_nth_def no_mapped_def prefix_IsValid_def)+
  then show "ParseAddr (addr_String x) = Some x" by (rule ParseAddr_String)
  show "addr_withoutZone x = x" using x(2) by (cases x) auto
  show "prefix_Contains (tg_cidr tg) x" using k by simp
qed

lemma addr_String_fresh:
  assumes "tg_inv tg" "tg_cidr tg = zero_prefix \<or> no_mapped (tg_cidr tg)" "x \<in> tg_allocatedIPs tg" "ips \<subseteq> tg_allocatedIPs tg" "x \<notin> ips"
  shows "addr_String x \<notin> addr_String ` ips"
  using assms allocated_string(1) [OF assms(1,2)] by (metis imageE option.inject subsetD)

lemma drv_Reconcile_effect:
  assumes "drv_Reconcile cl env now req r wa w = (res, j, r', wa', w')"
  obtains (quiet) "dr_P4TargetManager r' = dr_P4TargetManager r" "wa' = wa"
  | (no_ip) nf e where "dn_GetNF cl wa req = Inr nf" "function_ip nf (dr_P4TargetManager r) = (Inl e, dr_P4TargetManager r')" "wa' = wa"
  | (patched) nf ip st b pres where "dn_GetNF cl wa req = Inr nf"
      "function_ip nf (dr_P4TargetManager r) = (Inr ip, dr_P4TargetManager r')"
      "dn_StatusPatch cl wa (nf\<lparr>nf_Status := drv_calculateStatus nf st (prefix_From ip b)\<rparr>) nf = (pres, wa')"
proof (cases "dn_GetNF cl wa req")
  case (Inl e)
  then show ?thesis using assms that(1) by (auto simp: drv_Reconcile_def split: if_splits prod.splits)
next
  case nf: (Inr nf)
  show ?thesis
  proof (cases "c_Status (GetNetworkConfiguredCondition (dr_P4TargetManager r) now) = ConditionTrue")
    case False
    then show ?thesis using assms nf that(1) by (simp add: drv_Reconcile_def)
  next
    case True
    obtain ipr tg1 where ip: "function_ip nf (dr_P4TargetManager r) = (ipr, tg1)" by fastforce
    show ?thesis
    proof (cases ipr)
      case (Inl e)
      then show ?thesis using assms nf True ip that(2) [OF nf, of e] by (auto simp: drv_Reconcile_def)
    next
      case (Inr a)
      obtain h jj nm1 where pres: "EnsurePresent nf (prefix_From a (pfx_bits (tg_cidr tg1))) (dr_NFManager r) = (h, jj, nm1)"
        using prod_cases3 by blast
      obtain pr wa1 where patch: "dn_StatusPatch cl wa (nf\<lparr>nf_Status := drv_calculateStatus nf (dh_status (nm_handles nm1 h))
          (prefix_From a (pfx_bits (tg_cidr tg1)))\<rparr>) nf = (pr, wa1)" by fastforce
      have "dr_P4TargetManager r' = tg1 \<and> wa' = wa1"
        using assms nf True ip Inr pres patch
        by (auto simp: drv_Reconcile_def Let_def drv_updateStatus_def split: sum.splits if_splits prod.splits)
      then show ?thesis using that(3) [OF nf _ , of a] ip Inr patch by simp
    qed
  qed
qed

lemma assigned_calculated: "nft_AssignedIP (drv_calculateStatus nf st (prefix_From ip b)) = addr_String (addr_withoutZone ip)"
  by (simp add: drv_calculateStatus_def prefix_From_def Let_def split: Phase.splits)

lemma function_ip_cases:
  assumes "function_ip nf tg = (res, tg')"
  obtains (none) e where "res = Inl e" "tg' = tg"
  | (new) ip where "res = Inr ip" "nf_ip nf = ''''" "AllocateNetworkFunctionIP tg = (Inr ip, tg')"
  | (old) ip where "res = Inr ip" "nf_ip nf \<noteq> ''''" "ParseAddr (nf_ip nf) = Some ip" "tg' = tg"
proof (cases "nf_ip nf = ''''")
  case True
  then show ?thesis
    using assms that(1,2) by (auto simp: function_ip_def split: prod.splits sum.splits elim: Allocate_cases)
next
  case False
  then show ?thesis using assms that(1,3) by (auto simp: function_ip_def split: option.splits)
qed

lemma ip_at_upd [simp]: "ip_at (st(k \<mapsto> nf)) = (ip_at st)(k := nf_ip nf)"
  by (auto simp: ip_at_def fun_eq_iff)

lemma ips_fromD: "ips_from ips (ip_at st) \<Longrightarrow> st k = Some nf \<Longrightarrow> nf_ip nf \<noteq> '''' \<Longrightarrow> nf_ip nf \<in> addr_String ` ips"
  unfolding ips_from_def ip_at_def by (drule conjunct1, drule spec [of _ k]) simp

lemma ips_from_mono: "ips_from ips f \<Longrightarrow> ips \<subseteq> ips' \<Longrightarrow> ips_from ips' f"
  unfolding ips_from_def by blast

lemma ips_from_new:
  assumes "ips_from ips f" "addr_String x \<notin> addr_String ` ips" "insert x ips \<subseteq> ips'"
  shows "ips_from ips' (f(k := addr_String x))"
proof -
  have other: "f k' \<noteq> addr_String x" if "f k' \<noteq> ''''" for k' using that assms(1,2) unfolding ips_from_def by metis
  have "inj_on f {k. f k \<noteq> ''''}" using assms(1) by (simp add: ips_from_def)
  then have "inj_on (f(k := addr_String x)) {k'. (f(k := addr_String x)) k' \<noteq> ''''}"
  proof (intro inj_onI)
    fix i j assume inj: "inj_on f {k. f k \<noteq> ''''}"
      and nz: "i \<in> {k'. (f(k := addr_String x)) k' \<noteq> ''''}" "j \<in> {k'. (f(k := addr_String x)) k' \<noteq> ''''}"
      and eq: "(f(k := addr_String x)) i = (f(k := addr_String x)) j"
    show "i = j"
    proof (cases "i = k \<or> j = k")
      case True
      with nz eq other show ?thesis by (cases "i = k"; cases "j = k") (auto simp: eq_commute [of "addr_String x"])
    next
      case False
      then have "f i \<noteq> ''''" "f j \<noteq> ''''" "f i = f j" using nz eq by simp_all
      with inj show ?thesis by (blast dest: inj_onD)
    qed
  qed
  moreover have "(f(k := addr_String x)) k' \<in> addr_String ` ips'" if "(f(k := addr_String x)) k' \<noteq> ''''" for k'
  proof (cases "k' = k")
    case False
    then have "f k' \<in> addr_String ` ips" using that assms(1) unfolding ips_from_def by (metis fun_upd_apply)
    with False assms(3) show ?thesis by auto
  qed (use assms(3) in auto)
  ultimately show ?thesis unfolding ips_from_def by blast
qed

lemma dn_inv_reconcile:
  assumes api: "drv_nf_api cl stored" and inv: "dn_inv stored (r, wa, w)"
    and run: "drv_Reconcile cl env now req r wa w = (res, j, r', wa', w')"
  shows "dn_inv stored (r', wa', w')"
proof -
  let ?tg = "dr_P4TargetManager r" and ?tg' = "dr_P4TargetManager r'"
  have i: "tg_inv ?tg" "tg_cidr ?tg = zero_prefix \<or> no_mapped (tg_cidr ?tg)" "ips_from (tg_allocatedIPs ?tg) (ip_at (stored wa))"
    using inv by (simp_all add: dn_inv_def)
  from run show ?thesis
  proof (cases rule: drv_Reconcile_effect)
    case quiet
    then show ?thesis using i by (simp add: dn_inv_def)
  next
    case (no_ip nf e)
    from no_ip(2) have "?tg' = ?tg" by (cases rule: function_ip_cases) auto
    then show ?thesis using no_ip(3) i by (simp add: dn_inv_def)
  next
    case (patched nf ip st b pres)
    let ?nf = "nf\<lparr>nf_Status := drv_calculateStatus nf st (prefix_From ip b)\<rparr>"
    have key: "meta_key ?nf = meta_key nf" by (simp add: meta_key_def)
    obtain s where nf: "meta_key nf = req" "stored wa req = Some s" "nf_ip nf = '''' \<or> nf_ip nf = nf_ip s"
      using drv_nf_apiD(1) [OF api patched(1)] by blast
    have p: "stored wa' = stored wa \<or> (\<exists>s s'. stored wa req = Some s \<and> stored wa' = (stored wa)(req \<mapsto> s') \<and>
        nf_ip s' = (if nf_ip ?nf = nf_ip nf then nf_ip s else nf_ip ?nf))"
      using drv_nf_apiD(2) [OF api patched(3)] unfolding key nf(1) .
    from patched(2) show ?thesis
    proof (cases rule: function_ip_cases)
      case (new ip')
      obtain k where k: "ip = pfx_nth (tg_cidr ?tg) k" "tg_inv ?tg'" "tg_cidr ?tg' = tg_cidr ?tg" "base_ok (tg_cidr ?tg)"
        "first_nf ?tg \<le> k" "k < pfx_size (tg_cidr ?tg)" "tg_allocatedIPs ?tg = pfx_nth (tg_cidr ?tg) ` {first_nf ?tg..<k}"
        "tg_allocatedIPs ?tg' = pfx_nth (tg_cidr ?tg) ` {first_nf ?tg..<Suc k}"
        using Allocate_fresh [OF i(1) new(3)] new(1) by (metis Inr_inject)
      have nm: "tg_cidr ?tg' = zero_prefix \<or> no_mapped (tg_cidr ?tg')" using i(2) k(3) by simp
      have ins: "tg_allocatedIPs ?tg' = insert ip (tg_allocatedIPs ?tg)"
        unfolding k(1,7,8) using k(5) by (simp add: atLeastLessThanSuc)
      have "ip \<notin> tg_allocatedIPs ?tg" unfolding k(1,7) using k(4,6) by (rule nth_not_before)
      then have fresh: "addr_String ip \<notin> addr_String ` tg_allocatedIPs ?tg"
        using addr_String_fresh [OF k(2) nm, of ip "tg_allocatedIPs ?tg"] by (auto simp: ins)
      have ipn: "nf_ip ?nf = addr_String ip"
        using allocated_string(2) [OF k(2) nm, of ip] by (simp add: ins assigned_calculated)
      have grow: "ips_from (tg_allocatedIPs ?tg') (ip_at (stored wa))" using ips_from_mono [OF i(3)] by (auto simp: ins)
      have "ips_from (tg_allocatedIPs ?tg') (ip_at (stored wa'))"
        using p
      proof (elim disjE exE conjE)
        fix s s' assume s: "stored wa req = Some s" "stored wa' = (stored wa)(req \<mapsto> s')"
          "nf_ip s' = (if nf_ip ?nf = nf_ip nf then nf_ip s else nf_ip ?nf)"
        show ?thesis
        proof (cases "nf_ip ?nf = nf_ip nf")
          case True
          then have "ip_at (stored wa') = ip_at (stored wa)" using s by (auto simp: ip_at_def fun_eq_iff)
          then show ?thesis using grow by simp
        next
          case False
          then have "nf_ip s' = addr_String ip" using s(3) ipn by simp
          then show ?thesis using ips_from_new [OF i(3) fresh, of "tg_allocatedIPs ?tg'"] by (simp add: s(2) ins)
        qed
      qed (use grow in simp)
      then show ?thesis using k(2) nm by (simp add: dn_inv_def)
    next
      case (old ip')
      then have s_ip: "nf_ip nf = nf_ip s" "nf_ip nf \<in> addr_String ` tg_allocatedIPs ?tg"
        using nf(2,3) ips_fromD [OF i(3) nf(2)] by auto
      then obtain a where a: "a \<in> tg_allocatedIPs ?tg" "nf_ip nf = addr_String a" by blast
      have "ip = a" using old(1,3) a(2) allocated_string(1) [OF i(1,2) a(1)] by simp
      then have same: "nf_ip ?nf = nf_ip nf"
        using a allocated_string(2) [OF i(1,2) a(1)] by (simp add: assigned_calculated)
      have "ip_at (stored wa') = ip_at (stored wa)" using p same by (auto simp: ip_at_def fun_eq_iff)
      then show ?thesis using i old(4) by (simp add: dn_inv_def)
    qed simp
  qed
qed

lemma target_NewManager_fields:
  assumes "target_NewManager name tips dips slots bridge = Inr tg"
  shows "tg_cidr tg = zero_prefix" "tg_BridgeName tg = bridge"
  using assms by (auto simp: target_NewManager_def split: if_splits)

lemma dn_inv_network:
  assumes inv: "dn_inv stored (r, wa, w)" and run: "EnsureNetworkConfiguration env c (dr_P4TargetManager r) w = (res, tg, w')"
    and keeps: "tg_cidr (dr_P4TargetManager r) = zero_prefix \<or> tg_cidr (dr_P4TargetManager r) = tg_cidr tg"
    and nm: "tg_cidr tg = zero_prefix \<or> no_mapped (tg_cidr tg)"
  shows "dn_inv stored (r\<lparr>dr_P4TargetManager := tg\<rparr>, wa, w')"
proof -
  have i: "tg_inv (dr_P4TargetManager r)" "ips_from (tg_allocatedIPs (dr_P4TargetManager r)) (ip_at (stored wa))"
    using inv by (simp_all add: dn_inv_def)
  have "tg_allocatedIPs (dr_P4TargetManager r) \<subseteq> tg_allocatedIPs tg"
  proof (cases "tg_cidr (dr_P4TargetManager r) = tg_cidr tg")
    case True
    with run show ?thesis by (cases rule: Ensure_cases) auto
  next
    case False
    with keeps have zero: "tg_cidr (dr_P4TargetManager r) = zero_prefix" by blast
    have "tg_allocatedIPs (dr_P4TargetManager r) = {}"
    proof (rule ccontr)
      assume "tg_allocatedIPs (dr_P4TargetManager r) \<noteq> {}"
      then obtain k where "base_ok (tg_cidr (dr_P4TargetManager r))" using allocated_nth [OF i(1)] by blast
      with zero show False by (simp add: base_ok_def prefix_IsValid_def zero_prefix_def)
    qed
    then show ?thesis by simp
  qed
  with i(2) nm tg_inv_ensure [OF i(1) run] show ?thesis by (auto simp: dn_inv_def intro: ips_from_mono)
qed

lemma dn_inv_step:
  assumes "drv_nf_api cl stored" "dn_step cl env stored s s'" "dn_inv stored s"
  shows "dn_inv stored s'"
  using assms(2,3)
proof (induction rule: dn_step.induct)
  case (reconcile now req r wa w res j r' wa' w')
  show ?case by (rule dn_inv_reconcile [OF assms(1) reconcile(2,1)])
next
  case (network c r w res tg w' wa)
  show ?case by (rule dn_inv_network [OF network(4,1,2,3)])
next
  case (goroutine r wa w nm w')
  then show ?case by (simp add: dn_inv_def)
next
  case (others wa' wa r w)
  have sub: "ip_at (stored wa') k = '''' \<or> ip_at (stored wa') k = ip_at (stored wa) k" for k
    using others(1) [of k] by (cases "stored wa' k") (auto simp: ip_at_def)
  have i: "ips_from (tg_allocatedIPs (dr_P4TargetManager r)) (ip_at (stored wa))" using others(2) by (simp add: dn_inv_def)
  have "inj_on (ip_at (stored wa')) {k. ip_at (stored wa') k \<noteq> ''''}"
    using i sub unfolding ips_from_def by (intro inj_onI) (metis (mono_tags, lifting) inj_on_eq_iff mem_Collect_eq)
  moreover have "ip_at (stored wa') k \<in> addr_String ` tg_allocatedIPs (dr_P4TargetManager r)" if "ip_at (stored wa') k \<noteq> ''''" for k
    using i sub [of k] that unfolding ips_from_def by metis
  ultimately have "ips_from (tg_allocatedIPs (dr_P4TargetManager r)) (ip_at (stored wa'))" unfolding ips_from_def by blast
  with others(2) show ?case by (simp add: dn_inv_def)
qed

text \<open>
  C30: no two functions of a target share an address. Start a driver on a target whose functions have
  no addresses yet, and let it run with any failures of the API, of the bridge and of the switch, with
  stale reads, while functions come and go. As long as the target keeps its network, two functions
  whose status carries an address carry different ones, and every address lies in the network.
\<close>

theorem assigned_ips_unique:
  assumes api: "drv_nf_api cl stored" and new: "target_NewManager name tips dips slots bridge = Inr (dr_P4TargetManager r0)"
    and start: "\<forall>k nf. stored wa0 k = Some nf \<longrightarrow> nf_ip nf = ''''"
    and run: "(dn_step cl env stored)\<^sup>*\<^sup>* (r0, wa0, w0) (r, wa, w)"
    and nf: "stored wa k = Some nf" "nf_ip nf \<noteq> ''''"
  shows "(\<forall>k' nf'. stored wa k' = Some nf' \<and> k' \<noteq> k \<longrightarrow> nf_ip nf' \<noteq> nf_ip nf) \<and>
    (\<exists>a. ParseAddr (nf_ip nf) = Some a \<and> prefix_Contains (tg_cidr (dr_P4TargetManager r)) a)"
proof -
  have "ip_at (stored wa0) k = ''''" for k
    using start by (cases "stored wa0 k") (simp_all add: ip_at_def del: split_paired_All)
  moreover have "tg_cidr (dr_P4TargetManager r0) = zero_prefix" by (rule target_NewManager_fields(1) [OF new])
  ultimately have "dn_inv stored (r0, wa0, w0)" using tg_inv_new [OF new] by (simp add: dn_inv_def ips_from_def)
  with run have "dn_inv stored (r, wa, w)" by (induction rule: rtranclp_induct) (auto intro: dn_inv_step [OF api])
  then have i: "tg_inv (dr_P4TargetManager r)"
    "tg_cidr (dr_P4TargetManager r) = zero_prefix \<or> no_mapped (tg_cidr (dr_P4TargetManager r))"
    "ips_from (tg_allocatedIPs (dr_P4TargetManager r)) (ip_at (stored wa))" by (simp_all add: dn_inv_def)
  have at: "ip_at (stored wa) k' = nf_ip nf'" if "stored wa k' = Some nf'" for k' nf' using that by (simp add: ip_at_def)
  have "k' = k" if "stored wa k' = Some nf'" "nf_ip nf' = nf_ip nf" for k' nf'
    using i(3) at [OF that(1)] at [OF nf(1)] nf(2) that(2)
    unfolding ips_from_def by (intro inj_onD [of "ip_at (stored wa)" "{k. ip_at (stored wa) k \<noteq> ''''}"]) auto
  moreover obtain a where "a \<in> tg_allocatedIPs (dr_P4TargetManager r)" "nf_ip nf = addr_String a"
    using ips_fromD [OF i(3) nf] by blast
  ultimately show ?thesis using allocated_string [OF i(1,2)] by metis
qed

text \<open>
  A driver that starts forgets the addresses of the functions that run: the first address it gives out
  depends on the network of the target only, so it is the one the first function got before.
\<close>

theorem restart_reallocates_first:
  assumes "target_NewManager name tips dips slots bridge = Inr tg0"
    and "EnsureNetworkConfiguration env c tg0 w = (Inr (), tg1, w1)" "AllocateNetworkFunctionIP tg1 = (Inr x, tg2)"
  shows "x = pfx_nth (tg_cidr tg1) (if bridge = '''' then 1 else 2)"
proof -
  have inv: "tg_inv tg1" using tg_inv_ensure [OF tg_inv_new [OF assms(1)] assms(2)] .
  have "tg_allocatedIPs tg1 = {} \<and> tg_BridgeName tg1 = bridge"
    using assms(2)
  proof (cases rule: Ensure_cases)
    case same
    with assms(1) show ?thesis by (auto simp: target_NewManager_def split: if_splits)
  qed (use target_NewManager_fields [OF assms(1)] in auto)
  moreover obtain k where k: "x = pfx_nth (tg_cidr tg1) k" "first_nf tg1 \<le> k" "tg_allocatedIPs tg1 = pfx_nth (tg_cidr tg1) ` {first_nf tg1..<k}"
    using Allocate_fresh [OF inv assms(3)] by metis
  ultimately have "k = first_nf tg1" by auto
  then show ?thesis using k(1) \<open>tg_allocatedIPs tg1 = {} \<and> tg_BridgeName tg1 = bridge\<close> by (simp add: first_nf_def)
qed

section \<open>What a successful pass means\<close>

lemma drv_status_phase:
  "nft_Phase (drv_calculateStatus nf st p) =
     (if ds_Phase st = PhaseReady then NetworkFunctionRunning
      else if ds_Phase st = PhaseFailed then NetworkFunctionFailed else NetworkFunctionPending)"
  by (simp add: drv_calculateStatus_def Let_def split: Phase.splits)

lemma EnsurePresent_tracked:
  assumes "EnsurePresent nf p m = (h, j, m')"
  shows "\<exists>op. nm_ops m' (meta_key nf) = Some op \<and> to_opType op = opPresent \<and> to_handle op = h"
  using assms by (auto simp: EnsurePresent_def ensure_op_def track_def with_handle_def split: option.splits if_splits)

text \<open>
  C35: a pass over a function ends without a requeue only when the function is up. Its deployment is
  tracked and ready, the status written to the API server says running, and the configuration it
  refers to, if any, was read and handed to the configuration manager, which reported success.
\<close>

theorem finished_pass_means_running:
  assumes "drv_Reconcile cl env now req r wa w = (Inr Done, j, r', wa', w')" "dn_GetNF cl wa req = Inr nf"
  shows "\<exists>op nf1.
    nm_ops (dr_NFManager r') (meta_key nf) = Some op \<and> to_opType op = opPresent \<and>
    handle_phase (dr_NFManager r') op = PhaseReady \<and>
    dn_StatusPatch cl wa nf1 nf = (Inr (), wa') \<and> meta_key nf1 = meta_key nf \<and> nft_Phase (nf_Status nf1) = NetworkFunctionRunning \<and>
    (case nfs_ConfigRef (nf_Spec nf) of
       None \<Rightarrow> EnsurePresentConfigForNF (de_Switch env) None nf1 (dr_NFConfigManager r) w = (Inr (), dr_NFConfigManager r', w')
     | Some name \<Rightarrow> (\<exists>cfg. dn_GetConfig cl wa' (om_Namespace nf, name) = Inr cfg \<and>
         EnsurePresentConfigForNF (de_Switch env) (Some cfg) nf1 (dr_NFConfigManager r) w = (Inr (), dr_NFConfigManager r', w')))"
proof -
  have conf: "c_Status (GetNetworkConfiguredCondition (dr_P4TargetManager r) now) = ConditionTrue"
    using assms by (auto simp: drv_Reconcile_def split: if_splits)
  obtain ipr tg1 where ip: "function_ip nf (dr_P4TargetManager r) = (ipr, tg1)" by fastforce
  obtain a where a: "ipr = Inr a" using assms conf ip by (cases ipr) (auto simp: drv_Reconcile_def)
  let ?p = "prefix_From a (pfx_bits (tg_cidr tg1))"
  obtain h jj nm1 where ens: "EnsurePresent nf ?p (dr_NFManager r) = (h, jj, nm1)" using prod_cases3 by blast
  let ?st = "dh_status (nm_handles nm1 h)"
  let ?nf1 = "nf\<lparr>nf_Status := drv_calculateStatus nf ?st ?p\<rparr>"
  obtain pr wa1 where patch: "dn_StatusPatch cl wa ?nf1 nf = (pr, wa1)" by fastforce
  obtain cr cm w1 where cfg: "apply_nf_config cl env ?nf1 (dr_NFConfigManager r) wa1 w = (cr, cm, w1)" using prod_cases3 by blast
  let ?r1 = "r\<lparr>dr_P4TargetManager := tg1, dr_NFManager := nm1\<rparr>"
  have run: "drv_Reconcile cl env now req r wa w =
    (case pr of
       Inl err \<Rightarrow> (Inl err, jj, ?r1, wa1, w)
     | Inr _ \<Rightarrow>
         if ds_Phase ?st \<noteq> PhaseReady then (Inr (RequeueAfter (2 * Second)), jj, ?r1, wa1, w)
         else (case cr of Inl err \<Rightarrow> (Inl err, jj, ?r1\<lparr>dr_NFConfigManager := cm\<rparr>, wa1, w1)
               | Inr _ \<Rightarrow> (Inr Done, jj, ?r1\<lparr>dr_NFConfigManager := cm\<rparr>, wa1, w1)))"
    by (simp add: drv_Reconcile_def assms(2) conf ip a ens patch cfg Let_def drv_updateStatus_def isDeployed_def split: sum.split)
  have pr: "pr = Inr ()" using assms(1) run by (cases pr) auto
  have ready: "ds_Phase ?st = PhaseReady" using assms(1) run pr by (auto split: if_splits)
  have cr: "cr = Inr ()" using assms(1) run pr ready by (cases cr) auto
  have ok: "wa' = wa1" "w' = w1" "dr_NFManager r' = nm1" "dr_NFConfigManager r' = cm"
    using assms(1) run pr ready cr by auto
  obtain op where op: "nm_ops nm1 (meta_key nf) = Some op" "to_opType op = opPresent" "to_handle op = h"
    using EnsurePresent_tracked [OF ens] by blast
  have "case nfs_ConfigRef (nf_Spec nf) of
       None \<Rightarrow> EnsurePresentConfigForNF (de_Switch env) None ?nf1 (dr_NFConfigManager r) w = (Inr (), dr_NFConfigManager r', w')
     | Some name \<Rightarrow> (\<exists>cfg. dn_GetConfig cl wa' (om_Namespace nf, name) = Inr cfg \<and>
         EnsurePresentConfigForNF (de_Switch env) (Some cfg) ?nf1 (dr_NFConfigManager r) w = (Inr (), dr_NFConfigManager r', w'))"
    using cfg cr ok by (auto simp: apply_nf_config_def split: option.splits sum.splits)
  then show ?thesis
    using op patch pr ok ready by (intro exI [of _ op] exI [of _ ?nf1]) (simp add: handle_phase_def drv_status_phase meta_key_def)
qed

text \<open>
  Changes of a configuration reach no function: the filter drops every event of a configuration, and
  the requests the handler would make carry no name.
\<close>

theorem config_events_are_lost:
  "\<not> CreateFunc r (WatchedConfig cfg) \<and> \<not> UpdateFunc r (WatchedConfig cfg) (WatchedConfig cfg') \<and> \<not> DeleteFunc r (WatchedConfig cfg) \<and>
   set (mapNetworkFunctionConfigToRequests m (meta_key cfg)) \<subseteq> {('''', '''')}"
  by (auto simp: CreateFunc_def UpdateFunc_def DeleteFunc_def mapNetworkFunctionConfigToRequests_def)

section \<open>A driver with one function\<close>

definition ex_dn_client :: "(nsname \<rightharpoonup> NetworkFunction) drvnf_client" where
  "ex_dn_client =
     \<lparr>dn_GetNF = (\<lambda>w k. case w k of Some nf \<Rightarrow> if meta_key nf = k then Inr nf else Inl (Errorf ''corrupt'' None)
                        | None \<Rightarrow> Inl (ApiError NotFound)),
      dn_GetConfig = (\<lambda>w k. Inr ex_cfg),
      dn_StatusPatch = (\<lambda>w nf orig. case w (meta_key nf) of
          None \<Rightarrow> (Inl (ApiError NotFound), w)
        | Some s \<Rightarrow> (Inr (), w(meta_key nf \<mapsto>
            if nf_ip nf = nf_ip orig then nf\<lparr>nf_Status := (nf_Status nf)\<lparr>nft_AssignedIP := nf_ip s\<rparr>\<rparr> else nf)))\<rparr>"

lemma ex_dn_api: "drv_nf_api ex_dn_client id"
  unfolding drv_nf_api_def
  by (intro conjI allI impI) (auto simp: ex_dn_client_def split: option.splits if_splits)

definition ex_driver :: "TargetManager \<Rightarrow> NfManager \<Rightarrow> DriverState" where
  "ex_driver tg nm = \<lparr>dr_P4TargetManager = tg, dr_NFManager = nm, dr_NFConfigManager = new_cfg_manager\<rparr>"

definition ex_nfs :: "nsname \<rightharpoonup> NetworkFunction" where
  "ex_nfs = [(''default'', ''nf'') \<mapsto> ex_cfg_nf ''nf'']"

lemma ex_nf_fields: "meta_key (ex_cfg_nf n) = (''default'', n)" "nf_ip (ex_cfg_nf n) = ''''"
  "nfs_ConfigRef (nf_Spec (ex_cfg_nf n)) = Some ''cfg''" "om_Namespace (ex_cfg_nf n) = ''default''" "nft_Conditions (nf_Status (ex_cfg_nf n)) = []"
  by (simp_all add: ex_cfg_nf_def meta_key_def)

lemma ex_ip_string: "addr_String (V4 0x0A090002) = ''10.9.0.2''" "addr_String (addr_withoutZone (V4 0x0A090002)) = ''10.9.0.2''"
  by code_simp+

lemma ex_configured: "c_Status (GetNetworkConfiguredCondition (ex_tg_at a ips) now) = ConditionTrue"
  by (simp add: GetNetworkConfiguredCondition_def ex_tg_at_def ex_tnet_def prefix_IsValid_def mk_condition_def)

definition ex_full :: prefix where
  "ex_full = prefix_From (V4 0x0A090002) 24"

definition ex_patched :: "DeploymentStatus \<Rightarrow> NetworkFunction" where
  "ex_patched st = (ex_cfg_nf ''nf'')\<lparr>nf_Status := drv_calculateStatus (ex_cfg_nf ''nf'') st ex_full\<rparr>"

lemma ex_patched_fields: "meta_key (ex_patched st) = (''default'', ''nf'')" "nf_ip (ex_patched st) = ''10.9.0.2''"
  "nfs_ConfigRef (nf_Spec (ex_patched st)) = Some ''cfg''" "om_Namespace (ex_patched st) = ''default''"
  using ex_nf_fields [of "''nf''"]
  by (simp_all add: ex_patched_def ex_full_def assigned_calculated ex_ip_string meta_key_def)

lemma ex_patch: "dn_StatusPatch ex_dn_client ex_nfs (ex_patched st) (ex_cfg_nf ''nf'') =
    (Inr (), ex_nfs((''default'', ''nf'') \<mapsto> ex_patched st))"
  by (simp add: ex_dn_client_def ex_nfs_def ex_patched_fields ex_nf_fields)

lemma ex_function_ip: "function_ip (ex_cfg_nf ''nf'') (ex_tg_at 0x0A090001 {}) = (Inr (V4 0x0A090002), ex_tg_at 0x0A090002 {V4 0x0A090002})"
  by (simp add: function_ip_def ex_nf_fields ex_allocate)

lemma ex_pass_pending:
  "\<exists>res j r'. dr_P4TargetManager r' = ex_tg_at 0x0A090002 {V4 0x0A090002} \<and> drv_Reconcile ex_dn_client (ex_tenv True) 0 (''default'', ''nf'')
     (ex_driver (ex_tg_at 0x0A090001 {}) (NewManager ''nf0'' 1)) ex_nfs ex_loaded =
     (res, j, r', ex_nfs((''default'', ''nf'') \<mapsto> ex_patched (dh_status newDeploymentHandle)), ex_loaded)"
proof -
  have get: "dn_GetNF ex_dn_client ex_nfs (''default'', ''nf'') = Inr (ex_cfg_nf ''nf'')"
    by (simp add: ex_dn_client_def ex_nfs_def ex_nf_fields)
  obtain h j nm where ens: "EnsurePresent (ex_cfg_nf ''nf'') ex_full (NewManager ''nf0'' 1) = (h, j, nm)" using prod_cases3 by blast
  then have st: "nm_handles nm h = newDeploymentHandle"
    by (auto simp: EnsurePresent_def ensure_op_def track_def NewManager_def)
  have bits: "prefix_From (V4 0x0A090002) (pfx_bits (tg_cidr (ex_tg_at 0x0A090002 {V4 0x0A090002}))) = ex_full"
    by (simp add: ex_full_def ex_tg_at_def ex_tnet_def)
  have pend: "\<not> isDeployed (dh_status newDeploymentHandle)" by (simp add: isDeployed_def newDeploymentHandle_def)
  show ?thesis
    by (simp add: drv_Reconcile_def get ex_driver_def ex_configured ex_function_ip bits ens st Let_def drv_updateStatus_def
        ex_patch [of "dh_status newDeploymentHandle", unfolded ex_patched_def, folded ex_patched_def] pend
        flip: ex_patched_def)
qed

theorem assigned_ips_unique_witness:
  "\<exists>a. ParseAddr ''10.9.0.2'' = Some a \<and> prefix_Contains ex_tnet a"
proof -
  let ?d0 = "ex_driver ex_tg (NewManager ''nf0'' 1)" and ?d1 = "ex_driver (ex_tg_at 0x0A090001 {}) (NewManager ''nf0'' 1)"
  obtain res j r' where tg: "dr_P4TargetManager r' = ex_tg_at 0x0A090002 {V4 0x0A090002}" and pass: "drv_Reconcile ex_dn_client (ex_tenv True) 0 (''default'', ''nf'') ?d1 ex_nfs ex_loaded =
     (res, j, r', ex_nfs((''default'', ''nf'') \<mapsto> ex_patched (dh_status newDeploymentHandle)), ex_loaded)"
    using ex_pass_pending by blast
  have "no_mapped ex_tnet" by (simp add: no_mapped_def ex_tnet_def pfx_nth_def)
  then have "dn_step ex_dn_client (ex_tenv True) id (?d0, ex_nfs, ex_loaded) (?d0\<lparr>dr_P4TargetManager := ex_tg_at 0x0A090001 {}\<rparr>, ex_nfs, ex_loaded)"
    using ex_ensure [of True ex_loaded]
    by (intro dn_step.network [of _ "''10.9.0.0/24''"]) (auto simp: ex_driver_def ex_tg_def ex_tg_at_def)
  then have s1: "dn_step ex_dn_client (ex_tenv True) id (?d0, ex_nfs, ex_loaded) (?d1, ex_nfs, ex_loaded)" by (simp add: ex_driver_def)
  have s2: "dn_step ex_dn_client (ex_tenv True) id (?d1, ex_nfs, ex_loaded)
    (r', ex_nfs((''default'', ''nf'') \<mapsto> ex_patched (dh_status newDeploymentHandle)), ex_loaded)"
    by (rule dn_step.reconcile [OF pass])
  have run: "(dn_step ex_dn_client (ex_tenv True) id)\<^sup>*\<^sup>* (?d0, ex_nfs, ex_loaded)
    (r', ex_nfs((''default'', ''nf'') \<mapsto> ex_patched (dh_status newDeploymentHandle)), ex_loaded)"
    by (rule converse_rtranclp_into_rtranclp, rule s1, rule r_into_rtranclp, rule s2)
  have new: "target_NewManager ''t'' [] [] 1 ''br0'' = Inr (dr_P4TargetManager ?d0)" by (simp add: ex_tg_new ex_driver_def)
  have start: "\<forall>k nf. id ex_nfs k = Some nf \<longrightarrow> nf_ip nf = ''''"
    by (auto simp: ex_nfs_def ex_nf_fields split: if_splits)
  have cidr: "tg_cidr (dr_P4TargetManager r') = ex_tnet" using tg by (simp add: ex_tg_at_def)
  show ?thesis
    using assigned_ips_unique [OF ex_dn_api new start run, where k = "(''default'', ''nf'')"] by (simp add: ex_patched_fields cidr)
qed

definition ex_ready_nm :: NfManager where
  "ex_ready_nm = (NewManager ''nf0'' 1)\<lparr>nm_ops := [(''default'', ''nf'') \<mapsto> \<lparr>to_handle = 0, to_opType = opPresent\<rparr>],
     nm_handles := (\<lambda>_. newDeploymentHandle\<lparr>dh_status := \<lparr>ds_Phase = PhaseReady, ds_Message = '''', ds_Err = None\<rparr>\<rparr>), nm_next := 1\<rparr>"

definition ex_up :: DeploymentStatus where
  "ex_up = \<lparr>ds_Phase = PhaseReady, ds_Message = '''', ds_Err = None\<rparr>"

lemma ex_pass_ready:
  "drv_Reconcile ex_dn_client (ex_tenv True) 0 (''default'', ''nf'') (ex_driver (ex_tg_at 0x0A090001 {}) ex_ready_nm) ex_nfs ex_loaded =
     (Inr Done, None, \<lparr>dr_P4TargetManager = ex_tg_at 0x0A090002 {V4 0x0A090002}, dr_NFManager = ex_ready_nm,
        dr_NFConfigManager = record_applied (meta_key ex_cfg) (''default'', ''nf'') \<lparr>as_resourceVersion = ''17'', as_entries = ex_entries\<rparr> new_cfg_manager\<rparr>,
      ex_nfs((''default'', ''nf'') \<mapsto> ex_patched ex_up), ex_stored)"
proof -
  have get: "dn_GetNF ex_dn_client ex_nfs (''default'', ''nf'') = Inr (ex_cfg_nf ''nf'')"
    by (simp add: ex_dn_client_def ex_nfs_def ex_nf_fields)
  have ens: "EnsurePresent (ex_cfg_nf ''nf'') ex_full ex_ready_nm = (0, None, ex_ready_nm)"
    by (simp add: EnsurePresent_def ensure_op_def ex_ready_nm_def ex_nf_fields)
  have st: "dh_status (nm_handles ex_ready_nm 0) = ex_up" "isDeployed ex_up" by (simp_all add: ex_ready_nm_def ex_up_def isDeployed_def)
  have bits: "prefix_From (V4 0x0A090002) (pfx_bits (tg_cidr (ex_tg_at 0x0A090002 {V4 0x0A090002}))) = ex_full"
    by (simp add: ex_full_def ex_tg_at_def ex_tnet_def)
  have cfg: "apply_nf_config ex_dn_client (ex_tenv True) (ex_patched ex_up) new_cfg_manager wa ex_loaded =
    (Inr (), record_applied (meta_key ex_cfg) (''default'', ''nf'') \<lparr>as_resourceVersion = ''17'', as_entries = ex_entries\<rparr> new_cfg_manager, ex_stored)" for wa
    using ex_EnsurePresent [of new_cfg_manager "ex_patched ex_up"]
    by (simp add: apply_nf_config_def ex_patched_fields ex_dn_client_def ex_tenv_def new_cfg_manager_def)
  show ?thesis
    by (simp add: drv_Reconcile_def get ex_driver_def ex_configured ex_function_ip bits ens st Let_def drv_updateStatus_def
        ex_patch [of ex_up] cfg flip: ex_patched_def)
qed

theorem finished_pass_means_running_witness:
  "\<exists>nf1. dn_StatusPatch ex_dn_client ex_nfs nf1 (ex_cfg_nf ''nf'') = (Inr (), ex_nfs((''default'', ''nf'') \<mapsto> ex_patched ex_up)) \<and>
     nft_Phase (nf_Status nf1) = ''Running'' \<and> snd (snd (EnsurePresentConfigForNF ex_client (Some ex_cfg) nf1 new_cfg_manager ex_loaded)) = ex_stored"
proof -
  have get: "dn_GetNF ex_dn_client ex_nfs (''default'', ''nf'') = Inr (ex_cfg_nf ''nf'')"
    by (simp add: ex_dn_client_def ex_nfs_def ex_nf_fields)
  from finished_pass_means_running [OF ex_pass_ready get]
  show ?thesis by (auto simp: ex_nf_fields ex_dn_client_def ex_driver_def ex_tenv_def)
qed

end
