(* ===== verification/LoomNode.thy ===== *)
theory LoomNode
  imports Ipam Netip_Parse Api
begin

text \<open>
  The loom node controller (\<open>src/operator/internal/controller/infra/loomnode\<close>), which gives every
  node its pod and tunnel networks, the address configuration
  (\<open>src/operator/pkg/util/env/cidr_parser.go\<close>) and the part of the operator's \<open>main\<close> that makes the
  allocators. The IPv6 allocator of the pod networks is the very object the target controller uses.
\<close>

section \<open>The address configuration\<close>

text \<open>
  \<open>read\<close> is the content of a configuration file; the text is ASCII, so \<open>strings.TrimSpace\<close> cuts the six
  ASCII white space characters. The \<open>err\<close> of the standard library parsers is only passed on.
\<close>

definition is_space :: "char \<Rightarrow> bool" where
  "is_space c \<longleftrightarrow> (let n = of_char c :: nat in n = 32 \<or> 9 \<le> n \<and> n \<le> 13)"

definition TrimSpace :: "string \<Rightarrow> string" where
  "TrimSpace s = rev (dropWhile is_space (rev (dropWhile is_space s)))"

definition config_get :: "(string \<Rightarrow> go_error + string) \<Rightarrow> string \<Rightarrow> go_error + string" where
  "config_get read key = (case read key of Inl err \<Rightarrow> Inl err | Inr data \<Rightarrow> Inr (TrimSpace data))"

definition get_prefix :: "(string \<Rightarrow> go_error + string) \<Rightarrow> string \<Rightarrow> go_error + prefix" where
  "get_prefix read key =
     (case config_get read key of
        Inl err \<Rightarrow> Inl err
      | Inr s \<Rightarrow> (case ParsePrefix s of None \<Rightarrow> Inl (Errorf ''netip.ParsePrefix'' None) | Some p \<Rightarrow> Inr p))"

definition get_int :: "(string \<Rightarrow> go_error + string) \<Rightarrow> string \<Rightarrow> go_error + int" where
  "get_int read key =
     (case config_get read key of
        Inl err \<Rightarrow> Inl err
      | Inr s \<Rightarrow> (case ParseInt64 s of None \<Rightarrow> Inl (Errorf ''strconv.ParseInt'' None) | Some n \<Rightarrow> Inr n))"

record CIDRConfig =
  cc_PoolIPv4CIDR :: prefix
  cc_PoolIPv6CIDR :: prefix
  cc_PoolIPv4MaskSize :: int
  cc_PoolIPv6MaskSize :: int

text \<open>The two parsers read the same four keys with a different prefix of the key.\<close>

definition parse_cidr_config :: "(string \<Rightarrow> go_error + string) \<Rightarrow> string \<Rightarrow> go_error + CIDRConfig" where
  "parse_cidr_config read pool =
     (case get_prefix read (pool @ ''-pool-ipv4-cidr'') of Inl err \<Rightarrow> Inl err | Inr v4 \<Rightarrow>
      case get_prefix read (pool @ ''-pool-ipv6-cidr'') of Inl err \<Rightarrow> Inl err | Inr v6 \<Rightarrow>
      case get_int read (pool @ ''-pool-ipv4-mask-size'') of Inl err \<Rightarrow> Inl err | Inr m4 \<Rightarrow>
      case get_int read (pool @ ''-pool-ipv6-mask-size'') of Inl err \<Rightarrow> Inl err | Inr m6 \<Rightarrow>
        Inr \<lparr>cc_PoolIPv4CIDR = v4, cc_PoolIPv6CIDR = v6, cc_PoolIPv4MaskSize = m4, cc_PoolIPv6MaskSize = m6\<rparr>)"

definition ParseClusterCIDRConfig :: "(string \<Rightarrow> go_error + string) \<Rightarrow> go_error + CIDRConfig" where
  "ParseClusterCIDRConfig read = parse_cidr_config read ''cluster''"

definition ParseTunnelCIDRConfig :: "(string \<Rightarrow> go_error + string) \<Rightarrow> go_error + CIDRConfig" where
  "ParseTunnelCIDRConfig read = parse_cidr_config read ''tunnel''"

definition ParseServiceCIDR :: "(string \<Rightarrow> go_error + string) \<Rightarrow> go_error + prefix" where
  "ParseServiceCIDR read = get_prefix read ''service-cidr''"

section \<open>The allocators of the operator\<close>

record LoomNodeReconciler =
  lr_NodeCIDRv4Allocator :: "prefix_allocator option"
  lr_NodeCIDRv6Allocator :: prefix_allocator
  lr_TunnelCIDRv4Allocator :: "prefix_allocator option"
  lr_TunnelCIDRv6Allocator :: prefix_allocator

definition new_pair :: "CIDRConfig \<Rightarrow> ipam_error + (prefix_allocator option \<times> prefix_allocator)" where
  "new_pair cfg =
     (case (if prefix_IsValid (cc_PoolIPv4CIDR cfg)
            then (case NewPrefixAllocator (cc_PoolIPv4CIDR cfg) (cc_PoolIPv4MaskSize cfg) of
                    Inl err \<Rightarrow> Inl err | Inr a \<Rightarrow> Inr (Some a))
            else Inr None) of
        Inl err \<Rightarrow> Inl err
      | Inr v4 \<Rightarrow>
          (case NewPrefixAllocator (cc_PoolIPv6CIDR cfg) (cc_PoolIPv6MaskSize cfg) of
             Inl err \<Rightarrow> Inl err
           | Inr v6 \<Rightarrow> Inr (v4, v6)))"

text \<open>The start of the operator; every error ends the process.\<close>

definition setup_allocators :: "(string \<Rightarrow> go_error + string) \<Rightarrow> (LoomNodeReconciler \<times> addr_pool) option" where
  "setup_allocators read =
     (case ParseClusterCIDRConfig read of Inl _ \<Rightarrow> None | Inr cluster \<Rightarrow>
      case new_pair cluster of Inl _ \<Rightarrow> None | Inr (node4, node6) \<Rightarrow>
      case ParseTunnelCIDRConfig read of Inl _ \<Rightarrow> None | Inr tunnel \<Rightarrow>
      case new_pair tunnel of Inl _ \<Rightarrow> None | Inr (tun4, tun6) \<Rightarrow>
      case ParseServiceCIDR read of Inl _ \<Rightarrow> None | Inr service \<Rightarrow>
      case NewAddrPool service of Inl _ \<Rightarrow> None | Inr serviceIPs \<Rightarrow>
        Some (\<lparr>lr_NodeCIDRv4Allocator = node4, lr_NodeCIDRv6Allocator = node6,
               lr_TunnelCIDRv4Allocator = tun4, lr_TunnelCIDRv6Allocator = tun6\<rparr>, serviceIPs))"

section \<open>The controller\<close>

record LoomNodeSpec =
  ln_Addresses :: "(string \<times> string) list"
  ln_NodeCIDRs :: "string list"
  ln_TunnelCIDRs :: "string list"

record LoomNode = object_meta +
  ln_Spec :: LoomNodeSpec

record 'w ln_client =
  lc_Get :: "'w \<Rightarrow> nsname \<Rightarrow> go_error + LoomNode"
  lc_Patch :: "'w \<Rightarrow> LoomNode \<Rightarrow> LoomNode \<Rightarrow> (go_error + LoomNode) \<times> 'w"

text \<open>
  One prefix of each family. An IPv4 prefix that was taken stays taken when the IPv6 allocator fails.
\<close>

definition next_cidrs ::
    "prefix_allocator option \<Rightarrow> prefix_allocator \<Rightarrow> (ipam_error + string list) \<times> prefix_allocator option \<times> prefix_allocator" where
  "next_cidrs v4 v6 =
     (case (case v4 of
              None \<Rightarrow> Inr ([], None)
            | Some a \<Rightarrow> (case PrefixAllocator_Next a of Inl err \<Rightarrow> Inl err | Inr (p, a) \<Rightarrow> Inr ([prefix_String p], Some a))) of
        Inl err \<Rightarrow> (Inl err, v4, v6)
      | Inr (cidrs, v4) \<Rightarrow>
          (case PrefixAllocator_Next v6 of
             Inl err \<Rightarrow> (Inl err, v4, v6)
           | Inr (p, v6) \<Rightarrow> (Inr (cidrs @ [prefix_String p]), v4, v6)))"

definition assignNodeCIDRs :: "LoomNodeReconciler \<Rightarrow> LoomNode \<Rightarrow> (ipam_error + LoomNode) \<times> LoomNodeReconciler" where
  "assignNodeCIDRs r node =
     (case next_cidrs (lr_NodeCIDRv4Allocator r) (lr_NodeCIDRv6Allocator r) of (res, v4, v6) \<Rightarrow>
        (case res of Inl err \<Rightarrow> Inl err | Inr cidrs \<Rightarrow> Inr (node\<lparr>ln_Spec := (ln_Spec node)\<lparr>ln_NodeCIDRs := cidrs\<rparr>\<rparr>),
         r\<lparr>lr_NodeCIDRv4Allocator := v4, lr_NodeCIDRv6Allocator := v6\<rparr>))"

definition assignTunnelCIDRs :: "LoomNodeReconciler \<Rightarrow> LoomNode \<Rightarrow> (ipam_error + LoomNode) \<times> LoomNodeReconciler" where
  "assignTunnelCIDRs r node =
     (case next_cidrs (lr_TunnelCIDRv4Allocator r) (lr_TunnelCIDRv6Allocator r) of (res, v4, v6) \<Rightarrow>
        (case res of Inl err \<Rightarrow> Inl err | Inr cidrs \<Rightarrow> Inr (node\<lparr>ln_Spec := (ln_Spec node)\<lparr>ln_TunnelCIDRs := cidrs\<rparr>\<rparr>),
         r\<lparr>lr_TunnelCIDRv4Allocator := v4, lr_TunnelCIDRv6Allocator := v6\<rparr>))"

definition Reconcile :: "'w ln_client \<Rightarrow> nsname \<Rightarrow> LoomNodeReconciler \<Rightarrow> 'w \<Rightarrow> (go_error + ctrl_result) \<times> LoomNodeReconciler \<times> 'w" where
  "Reconcile cl req r w =
     (case lc_Get cl w req of
        Inl err \<Rightarrow> (if IsNotFound err then Inr Done else Inl err, r, w)
      | Inr original \<Rightarrow>
          (case (if length (ln_NodeCIDRs (ln_Spec original)) = 0 then assignNodeCIDRs r original else (Inr original, r)) of
             (Inl _, r) \<Rightarrow> (Inl (Errorf ''failed to assign node CIDRs'' None), r, w)
           | (Inr node, r) \<Rightarrow>
               (case (if length (ln_TunnelCIDRs (ln_Spec node)) = 0 then assignTunnelCIDRs r node else (Inr node, r)) of
                  (Inl _, r) \<Rightarrow> (Inl (Errorf ''failed to assign tunnel CIDRs'' None), r, w)
                | (Inr node, r) \<Rightarrow>
                    if length (ln_NodeCIDRs (ln_Spec original)) = 0 \<or> length (ln_TunnelCIDRs (ln_Spec original)) = 0
                    then (case lc_Patch cl w original node of
                            (Inl err, w) \<Rightarrow> (Inl (Wrapf ''failed to update loomnode with assigned CIDRs'' err), r, w)
                          | (Inr _, w) \<Rightarrow> (Inr Done, r, w))
                    else (Inr Done, r, w))))"


section \<open>Networks handed out by one allocator\<close>

text \<open>
  The networks a set of holders has been given: number \<open>f h\<close> of the allocator for holder \<open>h\<close>, different
  numbers for different holders, all of them passed already.
\<close>

definition nets_ok :: "prefix \<Rightarrow> int \<Rightarrow> prefix_allocator \<Rightarrow> ('h \<rightharpoonup> string) \<Rightarrow> ('h \<Rightarrow> nat) \<Rightarrow> bool" where
  "nets_ok b len al nets f \<longleftrightarrow>
     pa_inv al \<and> pa_BaseNetwork al = b \<and> pa_PrefixLen al = len \<and> inj_on f (dom nets) \<and>
     (\<forall>h net. nets h = Some net \<longrightarrow> f h < pa_given al \<and> f h < subnet_count b len \<and> net = prefix_String (subnet b len (f h)))"

lemma nets_ok_sub: "nets_ok b len al nets f \<Longrightarrow> nets' \<subseteq>\<^sub>m nets \<Longrightarrow> nets_ok b len al nets' f"
  unfolding nets_ok_def by (metis (no_types, lifting) domI inj_on_subset map_le_def map_le_implies_dom_le)

lemma nets_ok_Next:
  assumes "nets_ok b len al nets f" "PrefixAllocator_Next al = Inr (p, al')"
  shows "nets_ok b len al' nets f" "p = subnet b len (pa_given al)" "pa_given al < subnet_count b len"
    "pa_given al' = Suc (pa_given al)"
proof -
  have al: "pa_inv al" "pa_BaseNetwork al = b" "pa_PrefixLen al = len" using assms(1) by (simp_all add: nets_ok_def)
  have lt: "pa_given al < subnet_count b len"
    using prefix_seq.next_fail [OF al(1)] assms(2) al(2,3) by (metis Inl_Inr_False not_le)
  obtain al1 where "PrefixAllocator_Next al = Inr (subnet b len (pa_given al), al1)" "pa_inv al1"
      "pa_given al1 = Suc (pa_given al)"
    using prefix_seq.next_ok [OF al(1)] lt al(2,3) by auto
  moreover have "pa_BaseNetwork al' = b \<and> pa_PrefixLen al' = len"
    using assms(2) al(2,3) by (auto simp: PrefixAllocator_Next_def Let_def split: if_splits sum.splits)
  ultimately show "nets_ok b len al' nets f" "p = subnet b len (pa_given al)" "pa_given al < subnet_count b len"
      "pa_given al' = Suc (pa_given al)"
    using assms lt by (auto simp: nets_ok_def intro: less_SucI)
qed

lemma nets_ok_assign:
  assumes ok: "nets_ok b len al nets f" and nxt: "PrefixAllocator_Next al = Inr (p, al')" and free: "nets h = None"
  shows "nets_ok b len al' (nets(h \<mapsto> prefix_String p)) (f(h := pa_given al))"
proof -
  note step = nets_ok_Next [OF ok nxt]
  have old: "f j < pa_given al" if "nets j = Some n" for j n using ok that by (simp add: nets_ok_def)
  have "inj_on (f(h := pa_given al)) (dom (nets(h \<mapsto> prefix_String p)))"
    using ok free by (auto simp: nets_ok_def inj_on_def dest: old)
  then show ?thesis
    using step ok free by (auto simp: nets_ok_def less_SucI)
qed

lemma nets_ok_apart:
  assumes "nets_ok b len al nets f" "nets h = Some n" "nets h' = Some n'" "h \<noteq> h'"
  shows "\<not> (prefix_Contains (subnet b len (f h)) x \<and> prefix_Contains (subnet b len (f h')) x)"
proof -
  have al: "pa_inv al" "pa_BaseNetwork al = b" "pa_PrefixLen al = len" using assms(1) by (simp_all add: nets_ok_def)
  have "f h \<noteq> f h'" using assms by (auto simp: nets_ok_def inj_on_def)
  moreover have "f h < subnet_count b len" "f h' < subnet_count b len" using assms by (auto simp: nets_ok_def)
  ultimately show ?thesis using prefix_seq.items_apart [OF al(1), of "f h" "f h'"] al(2,3) by simp
qed

section \<open>What a reconcile does to the networks\<close>

type_synonym nodes = "nsname \<rightharpoonup> LoomNode"

text \<open>The IPv6 pod network comes last in the list.\<close>

definition node_net :: "nodes \<Rightarrow> nsname \<rightharpoonup> string" where
  "node_net w k = (case w k of None \<Rightarrow> None
     | Some n \<Rightarrow> if ln_NodeCIDRs (ln_Spec n) = [] then None else Some (last (ln_NodeCIDRs (ln_Spec n))))"

definition node_api :: "nodes ln_client \<Rightarrow> bool" where
  "node_api cl \<longleftrightarrow>
     (\<forall>w k n. lc_Get cl w k = Inr n \<longrightarrow> w k = Some n) \<and>
     (\<forall>w k n0 n. lc_Get cl w k = Inr n0 \<longrightarrow>
        (case lc_Patch cl w n0 n of
           (Inl _, w') \<Rightarrow> w' = w
         | (Inr n', w') \<Rightarrow> w' = w(k \<mapsto> n') \<and> ln_Spec n' = ln_Spec n))"

lemma next_cidrs_cases:
  assumes "next_cidrs v4 v6 = (res, v4', v6')"
  shows "(\<exists>e. res = Inl e) \<and> v6' = v6 \<or> (\<exists>p cs. PrefixAllocator_Next v6 = Inr (p, v6') \<and> res = Inr (cs @ [prefix_String p]))"
  using assms by (auto simp: next_cidrs_def split: option.splits sum.splits prod.splits)

lemma assignTunnelCIDRs_spec:
  "assignTunnelCIDRs r n = (Inr n', r') \<Longrightarrow> ln_NodeCIDRs (ln_Spec n') = ln_NodeCIDRs (ln_Spec n)"
  "assignTunnelCIDRs r n = (res, r') \<Longrightarrow> lr_NodeCIDRv6Allocator r' = lr_NodeCIDRv6Allocator r"
  by (auto simp: assignTunnelCIDRs_def split: prod.splits sum.splits)

lemma node_patch:
  assumes "node_api cl" "lc_Get cl w req = Inr n"
  shows "node_net (snd (lc_Patch cl w n m)) = node_net w \<or>
      node_net (snd (lc_Patch cl w n m)) = (node_net w)(req := node_net [req \<mapsto> m] req)"
proof -
  obtain a w1 where a: "lc_Patch cl w n m = (a, w1)" by fastforce
  have stored: "case (a, w1) of (Inl _, w') \<Rightarrow> w' = w | (Inr n', w') \<Rightarrow> w' = w(req \<mapsto> n') \<and> ln_Spec n' = ln_Spec m"
    using conjunct2 [OF assms(1) [unfolded node_api_def], rule_format, OF assms(2), of m] unfolding a .
  show ?thesis
  proof (cases a)
    case (Inl e)
    with stored a show ?thesis by simp
  next
    case (Inr n')
    with stored have "node_net w1 = (node_net w)(req := node_net [req \<mapsto> m] req)"
      by (intro ext) (simp add: node_net_def)
    with a show ?thesis by simp
  qed
qed

lemma Reconcile_node_nets:
  assumes api: "node_api cl" and run: "Reconcile cl req r w = (res, r', w')"
  shows "lr_NodeCIDRv6Allocator r' = lr_NodeCIDRv6Allocator r \<and> node_net w' = node_net w \<or>
    (\<exists>p. PrefixAllocator_Next (lr_NodeCIDRv6Allocator r) = Inr (p, lr_NodeCIDRv6Allocator r') \<and> node_net w req = None \<and>
       (node_net w' = node_net w \<or> node_net w' = (node_net w)(req \<mapsto> prefix_String p)))"
proof (cases "lc_Get cl w req")
  case (Inl e)
  with run show ?thesis by (simp add: Reconcile_def)
next
  case (Inr n)
  then have n: "w req = Some n" using api unfolding node_api_def by blast
  note patch = node_patch [OF api Inr]
  obtain t1 r1 where first: "(if length (ln_NodeCIDRs (ln_Spec n)) = 0 then assignNodeCIDRs r n else (Inr n, r)) = (t1, r1)"
    by fastforce
  note run1 = run [unfolded Reconcile_def Inr sum.case first prod.case]
  show ?thesis
  proof (cases t1)
    case (Inl e)
    have "lr_NodeCIDRv6Allocator r1 = lr_NodeCIDRv6Allocator r"
      using first Inl next_cidrs_cases [of "lr_NodeCIDRv4Allocator r" "lr_NodeCIDRv6Allocator r"]
      by (auto simp: assignNodeCIDRs_def split: if_splits prod.splits sum.splits)
    with Inl run1 show ?thesis by auto
  next
    case (Inr m)
    obtain t2 r2 where second: "(if length (ln_TunnelCIDRs (ln_Spec m)) = 0 then assignTunnelCIDRs r1 m else (Inr m, r1)) = (t2, r2)"
      by fastforce
    have r2: "lr_NodeCIDRv6Allocator r2 = lr_NodeCIDRv6Allocator r1"
      and m2: "\<And>k. t2 = Inr k \<Longrightarrow> ln_NodeCIDRs (ln_Spec k) = ln_NodeCIDRs (ln_Spec m)"
      using second assignTunnelCIDRs_spec by (auto split: if_splits)
    have w': "r' = r2 \<and> (node_net w' = node_net w \<or>
        (\<exists>k. t2 = Inr k \<and> node_net w' = (node_net w)(req := node_net [req \<mapsto> k] req)))"
      using run1 Inr second patch by (auto split: sum.splits if_splits prod.splits) (metis snd_conv)+
    show ?thesis
    proof (cases "ln_NodeCIDRs (ln_Spec n) = []")
      case True
      then have free: "node_net w req = None" using n by (simp add: node_net_def)
      obtain p cs where p: "PrefixAllocator_Next (lr_NodeCIDRv6Allocator r) = Inr (p, lr_NodeCIDRv6Allocator r1)"
          "ln_NodeCIDRs (ln_Spec m) = cs @ [prefix_String p]"
        using first True Inr next_cidrs_cases [of "lr_NodeCIDRv4Allocator r" "lr_NodeCIDRv6Allocator r"]
        by (auto simp: assignNodeCIDRs_def split: prod.splits sum.splits)
      then have "node_net [req \<mapsto> k] req = Some (prefix_String p)" if "t2 = Inr k" for k
        using m2 [OF that] by (simp add: node_net_def)
      with w' p(1) r2 free show ?thesis by (metis (no_types))
    next
      case False
      then have "r1 = r" "m = n" using first Inr by auto
      then have "node_net [req \<mapsto> k] req = node_net w req" if "t2 = Inr k" for k
        using m2 [OF that] n by (simp add: node_net_def)
      with w' r2 \<open>r1 = r\<close> show ?thesis by (metis fun_upd_triv)
    qed
  qed
qed

section \<open>The start of the operator\<close>

lemma expand_ParseAddr_valid: "ParseAddr s = Some a \<Longrightarrow> addr_IsValid a"
  by (auto simp: ParseAddr_def parseIPv4_def parseIPv6_def ipv6_body_def ipv6_finish_def Let_def
      split: if_splits option.splits prod.splits)

lemma ParsePrefix_valid:
  assumes "ParsePrefix s = Some p"
  shows "prefix_IsValid p"
proof -
  obtain t a where a: "ParseAddr t = Some a" "pfx_ip p = a" "\<not> addr_hasZone a"
      "0 \<le> pfx_bits p" "pfx_bits p \<le> (if addr_Is4 a then 32 else 128)"
    using assms by (auto simp: ParsePrefix_def Let_def split: if_splits option.splits)
  then show ?thesis using expand_ParseAddr_valid [OF a(1)] by (cases a) (auto simp: prefix_IsValid_def)
qed

lemma get_prefix_valid: "get_prefix read key = Inr p \<Longrightarrow> prefix_IsValid p"
  by (auto simp: get_prefix_def ParsePrefix_valid split: sum.splits option.splits)

lemma new_pair_result:
  assumes "parse_cidr_config read pool = Inr cfg" "new_pair cfg = Inr (v4, v6)"
  shows "\<exists>a. v4 = Some a \<and> NewPrefixAllocator (pa_BaseNetwork a) (pa_PrefixLen a) = Inr a \<and>
    NewPrefixAllocator (pa_BaseNetwork v6) (pa_PrefixLen v6) = Inr v6"
proof -
  have "prefix_IsValid (cc_PoolIPv4CIDR cfg)"
    using assms(1) get_prefix_valid by (auto simp: parse_cidr_config_def split: sum.splits)
  moreover have "NewPrefixAllocator (pa_BaseNetwork a) (pa_PrefixLen a) = Inr a" if "NewPrefixAllocator b l = Inr a" for a b l
    using that by (auto simp: NewPrefixAllocator_def split: if_splits)
  ultimately show ?thesis using assms(2) by (auto simp: new_pair_def split: sum.splits)
qed

text \<open>An allocator as it is made.\<close>

definition fresh_allocator :: "prefix_allocator \<Rightarrow> bool" where
  "fresh_allocator a \<longleftrightarrow> NewPrefixAllocator (pa_BaseNetwork a) (pa_PrefixLen a) = Inr a"

lemma setup_result:
  assumes "setup_allocators read = Some (r, p)"
  shows "\<exists>a4 t4. lr_NodeCIDRv4Allocator r = Some a4 \<and> lr_TunnelCIDRv4Allocator r = Some t4 \<and>
    fresh_allocator a4 \<and> fresh_allocator t4 \<and> fresh_allocator (lr_NodeCIDRv6Allocator r) \<and>
    fresh_allocator (lr_TunnelCIDRv6Allocator r) \<and> pool_inv p \<and> po_addrs p = Map.empty"
proof -
  obtain cluster tunnel n4 n6 t4 t6 service where c: "parse_cidr_config read ''cluster'' = Inr cluster"
      "new_pair cluster = Inr (n4, n6)" "parse_cidr_config read ''tunnel'' = Inr tunnel" "new_pair tunnel = Inr (t4, t6)"
      "NewAddrPool service = Inr p"
    and r: "r = \<lparr>lr_NodeCIDRv4Allocator = n4, lr_NodeCIDRv6Allocator = n6, lr_TunnelCIDRv4Allocator = t4,
                lr_TunnelCIDRv6Allocator = t6\<rparr>"
    using assms by (auto simp: setup_allocators_def ParseClusterCIDRConfig_def ParseTunnelCIDRConfig_def split: sum.splits)
  have "po_addrs p = Map.empty" using c(5) by (auto simp: NewAddrPool_def split: if_splits)
  with new_pair_result [OF c(1,2)] new_pair_result [OF c(3,4)] NewAddrPool_inv [OF c(5)] r show ?thesis
    by (auto simp: fresh_allocator_def)
qed

lemma fresh_allocator_inv:
  "fresh_allocator a \<Longrightarrow> no_mapped (pa_BaseNetwork a) \<Longrightarrow> pa_inv a \<and> pa_given a = 0 \<and> 0 < subnet_count (pa_BaseNetwork a) (pa_PrefixLen a)"
  using NewPrefixAllocator_inv [of "pa_BaseNetwork a" "pa_PrefixLen a" a]
  by (simp add: fresh_allocator_def subnet_count_def)

lemma first_network:
  assumes "fresh_allocator a" "no_mapped (pa_BaseNetwork a)"
  obtains a' where "PrefixAllocator_Next a = Inr (subnet (pa_BaseNetwork a) (pa_PrefixLen a) 0, a')"
  using prefix_seq.next_ok [of a] fresh_allocator_inv [OF assms] by auto

text \<open>The configuration the repository ships.\<close>

definition ex_config :: "string \<Rightarrow> go_error + string" where
  "ex_config key =
     (case map_of [(''cluster-pool-ipv4-cidr'', ''10.123.0.0/16''), (''cluster-pool-ipv4-mask-size'', ''24''),
        (''cluster-pool-ipv6-cidr'', ''fd00::/16''), (''cluster-pool-ipv6-mask-size'', ''64''),
        (''tunnel-pool-ipv4-cidr'', ''10.124.0.0/16''), (''tunnel-pool-ipv4-mask-size'', ''24''),
        (''tunnel-pool-ipv6-cidr'', ''fd01::/16''), (''tunnel-pool-ipv6-mask-size'', ''64''),
        (''service-cidr'', ''10.112.0.0/16'')] key of None \<Rightarrow> Inl (ApiError NotFound) | Some v \<Rightarrow> Inr v)"

abbreviation ex_net4 :: "32 word \<Rightarrow> prefix" where "ex_net4 a \<equiv> \<lparr>pfx_ip = V4 a, pfx_bits = 16\<rparr>"
abbreviation ex_net6 :: "128 word \<Rightarrow> prefix" where "ex_net6 a \<equiv> \<lparr>pfx_ip = V6 a [], pfx_bits = 16\<rparr>"

lemma ex_ParsePrefix4:
  "ParsePrefix ''10.123.0.0/16'' = Some (ex_net4 0x0A7B0000)" "ParsePrefix ''10.124.0.0/16'' = Some (ex_net4 0x0A7C0000)"
  "ParsePrefix ''10.112.0.0/16'' = Some (ex_net4 0x0A700000)"
  by code_simp+

lemma ex_ParseAddr6:
  "ParseAddr ''fd00::'' = Some (V6 0xfd000000000000000000000000000000 [])"
  "ParseAddr ''fd01::'' = Some (V6 0xfd010000000000000000000000000000 [])"
proof -
  have "hex_char 0 = CHR ''0''" "hex_char 1 = CHR ''1''" "hex_char 13 = CHR ''d''" "hex_char 15 = CHR ''f''" by code_simp+
  then have f: "format_hex 64768 = ''fd00''" "format_hex 64769 = ''fd01''" by (simp_all add: format_hex_small)
  have g: "ipv6_groups [] None ''fd00::'' = Some ([64768], Some 1, [])" "ipv6_groups [] None ''fd01::'' = Some ([64769], Some 1, [])"
    using ipv6_groups_step(3) [of "[]" 64768 None] ipv6_groups_step(3) [of "[]" 64769 None] by (simp_all add: f)
  have "replicate 7 0 = [0, 0, 0, 0, 0, 0, 0 :: nat]" by code_simp
  then have e: "expand_ellipsis [x] 1 = [x, 0, 0, 0, 0, 0, 0, 0]" for x by (simp add: expand_ellipsis_def)
  have w: "word_of_groups [64768, 0, 0, 0, 0, 0, 0, 0] = 0xfd000000000000000000000000000000"
      "word_of_groups [64769, 0, 0, 0, 0, 0, 0, 0] = 0xfd010000000000000000000000000000"
    by (simp_all add: word_of_groups_def)
  have "ParseAddr ''fd00::'' = ipv6_finish [] [64768] (Some 1) []" "ParseAddr ''fd01::'' = ipv6_finish [] [64769] (Some 1) []"
    using g by (simp_all add: ParseAddr_def parseIPv6_def ipv6_body_def)
  then show "ParseAddr ''fd00::'' = Some (V6 0xfd000000000000000000000000000000 [])"
      "ParseAddr ''fd01::'' = Some (V6 0xfd010000000000000000000000000000 [])"
    unfolding ipv6_finish_def by (simp_all add: e [unfolded One_nat_def] w)
qed

lemma ex_ParsePrefix6:
  "ParsePrefix ''fd00::/16'' = Some (ex_net6 0xfd000000000000000000000000000000)"
  "ParsePrefix ''fd01::/16'' = Some (ex_net6 0xfd010000000000000000000000000000)"
proof -
  have "ParseInt64 ''16'' = Some 16" by code_simp
  then show "ParsePrefix ''fd00::/16'' = Some (ex_net6 0xfd000000000000000000000000000000)"
      "ParsePrefix ''fd01::/16'' = Some (ex_net6 0xfd010000000000000000000000000000)"
    by (simp_all add: ParsePrefix_def ex_ParseAddr6)
qed

lemma ex_TrimSpace:
  "TrimSpace ''10.123.0.0/16'' = ''10.123.0.0/16''" "TrimSpace ''10.124.0.0/16'' = ''10.124.0.0/16''"
  "TrimSpace ''10.112.0.0/16'' = ''10.112.0.0/16''" "TrimSpace ''fd00::/16'' = ''fd00::/16''"
  "TrimSpace ''fd01::/16'' = ''fd01::/16''" "TrimSpace ''24'' = ''24''" "TrimSpace ''64'' = ''64''"
  "ParseInt64 ''24'' = Some 24" "ParseInt64 ''64'' = Some 64"
  by code_simp+

definition ex_allocator :: "prefix \<Rightarrow> int \<Rightarrow> prefix_allocator" where
  "ex_allocator b len = \<lparr>pa_BaseNetwork = b, pa_LastAssigned = zero_prefix, pa_PrefixLen = len\<rparr>"

lemma ex_new_allocators:
  "NewPrefixAllocator (ex_net4 0x0A7B0000) 24 = Inr (ex_allocator (ex_net4 0x0A7B0000) 24)"
  "NewPrefixAllocator (ex_net4 0x0A7C0000) 24 = Inr (ex_allocator (ex_net4 0x0A7C0000) 24)"
  "NewPrefixAllocator (ex_net6 0xfd000000000000000000000000000000) 64 = Inr (ex_allocator (ex_net6 0xfd000000000000000000000000000000) 64)"
  "NewPrefixAllocator (ex_net6 0xfd010000000000000000000000000000) 64 = Inr (ex_allocator (ex_net6 0xfd010000000000000000000000000000) 64)"
  by (simp_all add: NewPrefixAllocator_def prefix_Masked_def prefix_IsValid_def addr_Prefix_def prefix_From_def ex_allocator_def)

definition ex_reconciler :: LoomNodeReconciler where
  "ex_reconciler = \<lparr>lr_NodeCIDRv4Allocator = Some (ex_allocator (ex_net4 0x0A7B0000) 24),
     lr_NodeCIDRv6Allocator = ex_allocator (ex_net6 0xfd000000000000000000000000000000) 64,
     lr_TunnelCIDRv4Allocator = Some (ex_allocator (ex_net4 0x0A7C0000) 24),
     lr_TunnelCIDRv6Allocator = ex_allocator (ex_net6 0xfd010000000000000000000000000000) 64\<rparr>"

lemma ex_setup: "\<exists>p. setup_allocators ex_config = Some (ex_reconciler, p)"
  by (simp add: setup_allocators_def ParseClusterCIDRConfig_def ParseTunnelCIDRConfig_def ParseServiceCIDR_def
      parse_cidr_config_def get_prefix_def get_int_def config_get_def ex_config_def ex_TrimSpace ex_ParsePrefix4
      ex_ParsePrefix6 new_pair_def ex_new_allocators ex_reconciler_def)
     (simp add: prefix_IsValid_def NewAddrPool_def prefix_Masked_def addr_Prefix_def prefix_From_def)

lemma ex_no_mapped:
  "no_mapped (ex_net4 x)" "no_mapped (ex_net6 0xfd000000000000000000000000000000)"
  "no_mapped (ex_net6 0xfd010000000000000000000000000000)"
proof -
  show "no_mapped (ex_net4 x)" by (simp add: no_mapped_def pfx_nth_def)
  have unmapped: "no_mapped (ex_net6 a)" if "base_ok (ex_net6 a)" "drop_bit 112 a \<noteq> 0" for a
  proof (unfold no_mapped_def, intro allI impI notI)
    fix i assume i: "i < pfx_size (ex_net6 a)" "addr_Is4In6 (pfx_nth (ex_net6 a) i)"
    then have "drop_bit 112 (a + of_nat i) = drop_bit 112 a" "drop_bit 32 (a + of_nat i) = 0xFFFF"
      using Contains_nth [OF that(1) i(1)] by (simp_all add: prefix_Contains_def pfx_nth_def host_bits_def)
    moreover have "drop_bit 80 (drop_bit 32 (a + of_nat i)) = drop_bit 112 (a + of_nat i)" by simp
    ultimately show False using that(2) by simp
  qed
  show "no_mapped (ex_net6 0xfd000000000000000000000000000000)" "no_mapped (ex_net6 0xfd010000000000000000000000000000)"
    by (rule unmapped; simp add: base_ok_def prefix_Masked_def prefix_IsValid_def addr_Prefix_def prefix_From_def)+
qed

lemma ex_next_cidrs:
  "\<exists>cs. fst (next_cidrs (lr_NodeCIDRv4Allocator ex_reconciler) (lr_NodeCIDRv6Allocator ex_reconciler)) = Inr cs"
  "\<exists>cs. fst (next_cidrs (lr_TunnelCIDRv4Allocator ex_reconciler) (lr_TunnelCIDRv6Allocator ex_reconciler)) = Inr cs"
proof -
  have nxt: "\<exists>p a'. PrefixAllocator_Next (ex_allocator b l) = Inr (p, a')"
    if "NewPrefixAllocator b l = Inr (ex_allocator b l)" "no_mapped b" for b l
    using first_network [of "ex_allocator b l"] that by (metis fresh_allocator_def ex_allocator_def prefix_allocator.select_convs(1,3))
  show "\<exists>cs. fst (next_cidrs (lr_NodeCIDRv4Allocator ex_reconciler) (lr_NodeCIDRv6Allocator ex_reconciler)) = Inr cs"
    "\<exists>cs. fst (next_cidrs (lr_TunnelCIDRv4Allocator ex_reconciler) (lr_TunnelCIDRv6Allocator ex_reconciler)) = Inr cs"
    using nxt [OF ex_new_allocators(1) ex_no_mapped(1)] nxt [OF ex_new_allocators(2) ex_no_mapped(1)]
      nxt [OF ex_new_allocators(3) ex_no_mapped(2)] nxt [OF ex_new_allocators(4) ex_no_mapped(3)]
    by (auto simp: ex_reconciler_def next_cidrs_def)
qed

definition ex_node :: "string \<Rightarrow> LoomNode" where
  "ex_node name =
     \<lparr>om_Name = name, om_GenerateName = '''', om_Namespace = '''', om_UID = name, om_Generation = 1,
      om_Labels = None, om_Annotations = None, om_Finalizers = [], om_OwnerReferences = [],
      om_CreationTimestamp = 1, om_DeletionTimestamp = None,
      ln_Spec = \<lparr>ln_Addresses = [], ln_NodeCIDRs = [], ln_TunnelCIDRs = []\<rparr>\<rparr>"

definition ex_node_client :: "nodes ln_client" where
  "ex_node_client = \<lparr>lc_Get = (\<lambda>w k. case w k of None \<Rightarrow> Inl (ApiError NotFound)
       | Some n \<Rightarrow> if meta_key n = k then Inr n else Inl (ApiError NotFound)),
     lc_Patch = (\<lambda>w n0 n. (Inr (n0\<lparr>ln_Spec := ln_Spec n\<rparr>), w(meta_key n0 \<mapsto> n0\<lparr>ln_Spec := ln_Spec n\<rparr>)))\<rparr>"

lemma ex_node_api: "node_api ex_node_client"
  by (auto simp: node_api_def ex_node_client_def split: option.splits if_splits)

section \<open>Restarts\<close>

definition node_works :: "nodes ln_client \<Rightarrow> bool" where
  "node_works cl \<longleftrightarrow> (\<forall>w k n. w k = Some n \<and> meta_key n = k \<longrightarrow> lc_Get cl w k = Inr n \<and>
     (\<forall>s. lc_Patch cl w n (n\<lparr>ln_Spec := s\<rparr>) = (Inr (n\<lparr>ln_Spec := s\<rparr>), w(k \<mapsto> n\<lparr>ln_Spec := s\<rparr>))))"

definition unassigned :: "LoomNode \<Rightarrow> bool" where
  "unassigned n \<longleftrightarrow> ln_NodeCIDRs (ln_Spec n) = [] \<and> ln_TunnelCIDRs (ln_Spec n) = []"

lemma Reconcile_unassigned:
  assumes "node_works cl" "w k = Some n" "meta_key n = k" "unassigned n" "Reconcile cl k r w = (res, r', w')"
  shows "case (fst (next_cidrs (lr_NodeCIDRv4Allocator r) (lr_NodeCIDRv6Allocator r)),
               fst (next_cidrs (lr_TunnelCIDRv4Allocator r) (lr_TunnelCIDRv6Allocator r))) of
      (Inr cs, Inr ts) \<Rightarrow> w' = w(k \<mapsto> n\<lparr>ln_Spec := (ln_Spec n)\<lparr>ln_NodeCIDRs := cs, ln_TunnelCIDRs := ts\<rparr>\<rparr>)
    | _ \<Rightarrow> w' = w \<and> res \<noteq> Inr Done"
proof -
  have get: "lc_Get cl w k = Inr n" and patch: "\<And>s. lc_Patch cl w n (n\<lparr>ln_Spec := s\<rparr>) = (Inr (n\<lparr>ln_Spec := s\<rparr>), w(k \<mapsto> n\<lparr>ln_Spec := s\<rparr>))"
    using assms(1-3) unfolding node_works_def by blast+
  obtain nr n4 n6 where nc: "next_cidrs (lr_NodeCIDRv4Allocator r) (lr_NodeCIDRv6Allocator r) = (nr, n4, n6)" by (metis prod_cases3)
  obtain tr t4 t6 where tc: "next_cidrs (lr_TunnelCIDRv4Allocator r) (lr_TunnelCIDRv6Allocator r) = (tr, t4, t6)" by (metis prod_cases3)
  show ?thesis
    using assms(4,5) get nc tc patch
    by (cases nr; cases tr) (auto simp: Reconcile_def assignNodeCIDRs_def assignTunnelCIDRs_def unassigned_def)
qed

lemma next_cidrs_nonempty: "fst (next_cidrs v4 v6) = Inr cs \<Longrightarrow> cs \<noteq> []"
  by (auto simp: next_cidrs_def split: option.splits sum.splits prod.splits)

section \<open>Properties\<close>

text \<open>
  When the operator starts, every allocator is a fresh one over a valid configured network and
  the service pool is empty and consistent; IPv4 is always enabled, because a configuration without
  an IPv4 network is refused, so the IPv6-only branches of the node controller are never taken.
\<close>

theorem setup_gives_fresh_allocators:
  assumes "setup_allocators read = Some (r, p)"
  shows "pool_inv p \<and> po_addrs p = Map.empty \<and>
    lr_NodeCIDRv4Allocator r \<noteq> None \<and> lr_TunnelCIDRv4Allocator r \<noteq> None \<and>
    (\<forall>a \<in> {the (lr_NodeCIDRv4Allocator r), lr_NodeCIDRv6Allocator r, the (lr_TunnelCIDRv4Allocator r), lr_TunnelCIDRv6Allocator r}.
       NewPrefixAllocator (pa_BaseNetwork a) (pa_PrefixLen a) = Inr a \<and>
       (no_mapped (pa_BaseNetwork a) \<longrightarrow> pa_inv a \<and> pa_given a = 0 \<and>
          (\<exists>a'. PrefixAllocator_Next a = Inr (subnet (pa_BaseNetwork a) (pa_PrefixLen a) 0, a'))))"
proof -
  note s = setup_result [OF assms]
  have "NewPrefixAllocator (pa_BaseNetwork a) (pa_PrefixLen a) = Inr a \<and>
      (no_mapped (pa_BaseNetwork a) \<longrightarrow> pa_inv a \<and> pa_given a = 0 \<and>
        (\<exists>a'. PrefixAllocator_Next a = Inr (subnet (pa_BaseNetwork a) (pa_PrefixLen a) 0, a')))" if "fresh_allocator a" for a
    using that fresh_allocator_inv [OF that] first_network [OF that] by (metis fresh_allocator_def)
  with s show ?thesis by auto
qed

theorem setup_gives_fresh_allocators_witness:
  "\<exists>p. setup_allocators ex_config = Some (ex_reconciler, p) \<and> pool_inv p \<and> lr_NodeCIDRv4Allocator ex_reconciler \<noteq> None"
proof -
  obtain p where p: "setup_allocators ex_config = Some (ex_reconciler, p)" using ex_setup by blast
  from setup_gives_fresh_allocators [OF p] p show ?thesis by blast
qed


end
