(* ===== verification/DaemonUtil.thy ===== *)
theory DaemonUtil
  imports DriverTarget "HOL-Library.Multiset"
begin

text \<open>
  The helpers of the node daemon: dual-stack addresses and networks (\<open>src/daemon/pkg/utils/net\<close>,
  \<open>src/daemon/pkg/dataplane/vrf/util\<close>), comparison of slices, the janitor that undoes the set-up at shutdown
  (\<open>src/daemon/pkg/janitor\<close>) and the allocator of routing tables (\<open>src/daemon/pkg/dataplane/alloc.go\<close>).
\<close>

section \<open>Dual-stack values\<close>

text \<open>A nil pointer or nil slice is \<open>None\<close>.\<close>

record DualStackNetwork =
  dsn_IPv4Net :: "ip_net option"
  dsn_IPv6Net :: "ip_net option"

record DualStackAddress =
  dsa_IPv4 :: "bytes option"
  dsa_IPv6 :: "bytes option"

definition dsn_IsEmpty :: "DualStackNetwork \<Rightarrow> bool" where
  "dsn_IsEmpty n \<longleftrightarrow> dsn_IPv4Net n = None \<and> dsn_IPv6Net n = None"

definition dsa_IsEmpty :: "DualStackAddress \<Rightarrow> bool" where
  "dsa_IsEmpty a \<longleftrightarrow> dsa_IPv4 a = None \<and> dsa_IPv6 a = None"

definition invalid_ip :: "'a option \<Rightarrow> go_error + 'a" where
  "invalid_ip x = (case x of None \<Rightarrow> Inl (Errorf ''invalid IP address'' None) | Some a \<Rightarrow> Inr a)"

fun fill_addresses :: "addr list \<Rightarrow> DualStackAddress \<Rightarrow> go_error + DualStackAddress" where
  "fill_addresses [] result = Inr result"
| "fill_addresses (ip # ips) result =
     (if addr_Is4 ip
      then (if dsa_IPv4 result \<noteq> None then Inl (Errorf ''multiple IPv4 addresses provided'' None)
            else fill_addresses ips (result\<lparr>dsa_IPv4 := Some (addr_AsSlice ip)\<rparr>))
      else if dsa_IPv6 result \<noteq> None then Inl (Errorf ''multiple IPv6 addresses provided'' None)
      else fill_addresses ips (result\<lparr>dsa_IPv6 := Some (addr_AsSlice ip)\<rparr>))"

definition ParseDualStackAddressFromStrings :: "string list \<Rightarrow> go_error + DualStackAddress" where
  "ParseDualStackAddressFromStrings ipStrings =
     (if length ipStrings > 2 then Inl (Errorf ''too many IP addresses provided'' None)
      else (case map_err (\<lambda>s. invalid_ip (ParseAddr s)) ipStrings of
              Inl err \<Rightarrow> Inl err
            | Inr targetIPs \<Rightarrow> fill_addresses targetIPs \<lparr>dsa_IPv4 = None, dsa_IPv6 = None\<rparr>))"

definition ParseDualStackGatewayFromStrings :: "string list \<Rightarrow> go_error + DualStackAddress" where
  "ParseDualStackGatewayFromStrings gwStrings =
     (case ParseDualStackAddressFromStrings gwStrings of
        Inl err \<Rightarrow> Inl err
      | Inr addrs \<Rightarrow> Inr \<lparr>dsa_IPv4 = dsa_IPv4 addrs, dsa_IPv6 = dsa_IPv6 addrs\<rparr>)"

definition prefix_IPNet :: "prefix \<Rightarrow> ip_net" where
  "prefix_IPNet p = (addr_AsSlice (pfx_ip p), CIDRMask (pfx_bits p) (addr_BitLen (pfx_ip p)))"

fun fill_networks :: "prefix list \<Rightarrow> DualStackNetwork \<Rightarrow> go_error + DualStackNetwork" where
  "fill_networks [] result = Inr result"
| "fill_networks (p # ps) result =
     (if addr_Is4 (pfx_ip p)
      then (if dsn_IPv4Net result \<noteq> None then Inl (Errorf ''multiple IPv4 networks provided'' None)
            else fill_networks ps (result\<lparr>dsn_IPv4Net := Some (prefix_IPNet p)\<rparr>))
      else if dsn_IPv6Net result \<noteq> None then Inl (Errorf ''multiple IPv6 networks provided'' None)
      else fill_networks ps (result\<lparr>dsn_IPv6Net := Some (prefix_IPNet p)\<rparr>))"

definition ParseDualStackNetworkFromStrings :: "string list \<Rightarrow> go_error + DualStackNetwork" where
  "ParseDualStackNetworkFromStrings networkStrings =
     (if length networkStrings > 2 then Inl (Errorf ''too many network addresses provided'' None)
      else (case map_err (\<lambda>s. invalid_ip (ParsePrefix s)) networkStrings of
              Inl err \<Rightarrow> Inl err
            | Inr targetNets \<Rightarrow> fill_networks targetNets \<lparr>dsn_IPv4Net = None, dsn_IPv6Net = None\<rparr>))"

definition ParsePrefixes :: "string list \<Rightarrow> go_error + prefix list" where
  "ParsePrefixes prefixStrings =
     map_err (\<lambda>s. case ParsePrefix s of None \<Rightarrow> Inl (Errorf ''invalid CIDR'' None) | Some p \<Rightarrow> Inr p) prefixStrings"

definition ParseAddresses :: "string list \<Rightarrow> go_error + addr list" where
  "ParseAddresses addressStrings =
     map_err (\<lambda>s. case ParseAddr s of None \<Rightarrow> Inl (Errorf ''ParseAddr'' None) | Some a \<Rightarrow> Inr a) addressStrings"

section \<open>Comparing slices in any order\<close>

fun count_down :: "('a \<Rightarrow> int) \<Rightarrow> 'a list \<Rightarrow> bool" where
  "count_down counts [] = True"
| "count_down counts (v # vs) =
     (let counts' = counts(v := counts v - 1) in if counts' v < 0 then False else count_down counts' vs)"

definition ElementsMatchInAnyOrder :: "'a list \<Rightarrow> 'a list \<Rightarrow> bool" where
  "ElementsMatchInAnyOrder p1 p2 =
     (if length p1 \<noteq> length p2 then False
      else count_down (foldl (\<lambda>counts v. counts(v := counts v + 1)) (\<lambda>_. 0) p1) p2)"

section \<open>Addresses of nodes and interfaces\<close>

text \<open>\<open>backup\<close> is the address found so far that is not an internal one.\<close>

fun node_ip_loop :: "bool \<Rightarrow> (string \<times> string) list \<Rightarrow> bytes option \<Rightarrow> bytes option" where
  "node_ip_loop ipv6 [] backup = backup"
| "node_ip_loop ipv6 ((ip, type) # addrs) backup =
     (case net_ParseIP ip of
        None \<Rightarrow> node_ip_loop ipv6 addrs backup
      | Some parsed \<Rightarrow>
          if ipv6 \<and> net_To4 parsed \<noteq> None \<or> \<not> ipv6 \<and> net_To4 parsed = None then node_ip_loop ipv6 addrs backup
          else if type = ''InternalIP'' then Some parsed
          else if type = ''ExternalIP'' then node_ip_loop ipv6 addrs (Some parsed)
          else node_ip_loop ipv6 addrs (if backup = None then Some parsed else backup))"

definition GetNodeIP :: "(string \<times> string) list \<Rightarrow> bool \<Rightarrow> bytes option" where
  "GetNodeIP addrs ipv6 = node_ip_loop ipv6 addrs None"

definition CreateLinkLocalAddrFromMAC :: "bytes \<Rightarrow> go_error + ip_net" where
  "CreateLinkLocalAddrFromMAC mac =
     (let build = (\<lambda>eui64. Inr ([0xFE, 0x80, 0, 0, 0, 0, 0, 0] @ (hd eui64 XOR 0x02) # tl eui64, CIDRMask 64 128))
      in if length mac = 6 then build (take 3 mac @ [0xFF, 0xFE] @ drop 3 mac)
         else if length mac = 8 then build mac
         else Inl (Errorf ''expected MAC size is 6 bytes (48-bit) or 8 bytes (EUI-64)'' None))"

definition GetVRFName :: "32 word \<Rightarrow> string" where
  "GetVRFName tableID = ''vrf-'' @ format_nat (unat tableID)"

definition GetVRFGatewayName :: "32 word \<Rightarrow> string" where
  "GetVRFGatewayName tableID = ''gw-'' @ format_nat (unat tableID)"

definition hex_digit :: "8 word \<Rightarrow> char" where
  "hex_digit d = (if d < 10 then digit_char (unat d) else char_of (87 + unat d :: nat))"

text \<open>\<open>rand\<close> gives the random bytes; the length is not negative.\<close>

definition GenerateRandomName :: "(nat \<Rightarrow> go_error + bytes) \<Rightarrow> string \<Rightarrow> nat \<Rightarrow> go_error + string" where
  "GenerateRandomName rand prefix len =
     (case rand ((len + 1) div 2) of
        Inl err \<Rightarrow> Inl err
      | Inr bs \<Rightarrow> Inr (prefix @ ''-'' @ take len (concat (map (\<lambda>b. [hex_digit (drop_bit 4 b), hex_digit (b AND 15)]) bs))))"

section \<open>The janitor\<close>

text \<open>A callback changes the world and may fail; \<open>expired\<close> tells whether the deadline has passed in the end.\<close>

record 'w janitor =
  ja_callbacks :: "('w \<Rightarrow> go_error option \<times> 'w) list"

definition janitor_Add :: "('w \<Rightarrow> go_error option \<times> 'w) option \<Rightarrow> 'w janitor \<Rightarrow> 'w janitor" where
  "janitor_Add cb j = (case cb of None \<Rightarrow> j | Some f \<Rightarrow> j\<lparr>ja_callbacks := ja_callbacks j @ [f]\<rparr>)"

fun run_callbacks :: "('w \<Rightarrow> go_error option \<times> 'w) list \<Rightarrow> 'w \<Rightarrow> go_error list \<times> 'w" where
  "run_callbacks [] w = ([], w)"
| "run_callbacks (f # fs) w =
     (case f w of (e, w1) \<Rightarrow> case run_callbacks fs w1 of (es, w2) \<Rightarrow> ((case e of None \<Rightarrow> es | Some err \<Rightarrow> err # es), w2))"

definition Cleanup :: "('w \<Rightarrow> go_error option) \<Rightarrow> 'w janitor \<Rightarrow> 'w \<Rightarrow> go_error list \<times> 'w" where
  "Cleanup expired j w =
     (case run_callbacks (rev (ja_callbacks j)) w of (errs, w1) \<Rightarrow>
        (case expired w1 of None \<Rightarrow> (errs, w1) | Some err \<Rightarrow> (errs @ [err], w1)))"

section \<open>Routing tables\<close>

record TableAllocator =
  ta_firstTableID :: "32 word"
  ta_lastAssigned :: "32 word"

definition NewTableAllocator :: "32 word \<Rightarrow> go_error + TableAllocator" where
  "NewTableAllocator firstID =
     (if firstID \<le> 0 then Inl (Errorf ''table ID must be positive'' None)
      else if firstID \<le> 255 then Inl (Errorf ''table ID must be greater than 255'' None)
      else Inr \<lparr>ta_firstTableID = firstID, ta_lastAssigned = firstID - 1\<rparr>)"

definition TableAllocator_Allocate :: "TableAllocator \<Rightarrow> go_error + (32 word \<times> TableAllocator)" where
  "TableAllocator_Allocate ta =
     (let ta1 = ta\<lparr>ta_lastAssigned := ta_lastAssigned ta + 1\<rparr> in Inr (ta_lastAssigned ta1, ta1))"

section \<open>What the helpers do\<close>

lemma count_down_iff: "count_down counts vs \<longleftrightarrow> (\<forall>v \<in> set vs. int (count_list vs v) \<le> counts v)"
proof (induction vs arbitrary: counts)
  case (Cons v vs)
  show ?case
  proof (cases "counts v - 1 < 0")
    case True
    then show ?thesis by (auto intro!: bexI [of _ v])
  next
    case False
    have "(\<forall>x \<in> set vs. int (count_list vs x) \<le> (counts(v := counts v - 1)) x) \<longleftrightarrow>
      (\<forall>x \<in> set (v # vs). int (count_list (v # vs) x) \<le> counts x)"
      using False by (auto simp: count_list_0_iff)
    with False Cons show ?thesis by (simp add: Let_def)
  qed
qed simp

lemma foldl_counts: "foldl (\<lambda>counts v. counts(v := counts v + 1)) c vs = (\<lambda>x. c x + int (count_list vs x))"
proof (induction vs arbitrary: c)
  case (Cons v vs)
  show ?case using Cons [of "c(v := c v + 1)"] by (auto simp: fun_eq_iff)
qed simp

text \<open>
  The comparison of address lists compares them as multisets: it is true exactly for lists that
  are permutations of each other.
\<close>

theorem elements_match_iff_permuted: "ElementsMatchInAnyOrder xs ys \<longleftrightarrow> mset xs = mset ys"
proof -
  have *: "mset xs = mset ys" if len: "length xs = length ys" and le: "\<forall>v \<in> set ys. count_list ys v \<le> count_list xs v"
  proof -
    have "count_list ys v \<le> count_list xs v" for v using le by (cases "v \<in> set ys") (simp_all add: count_list_0_iff)
    then have "mset ys \<subseteq># mset xs" by (simp add: subseteq_mset_def count_mset)
    then obtain Z where Z: "mset xs = mset ys + Z" by (auto simp: subset_mset.le_iff_add)
    then have "size (mset xs) = size (mset ys) + size Z" by simp
    with len have "Z = {#}" by simp
    with Z show ?thesis by simp
  qed
  have eq: "length xs = length ys" "count_list ys v \<le> count_list xs v" if "mset xs = mset ys" for v
    using that mset_eq_length by (auto simp: count_mset [symmetric])
  show ?thesis
    using * eq by (auto simp: ElementsMatchInAnyOrder_def count_down_iff foldl_counts)
qed


lemma run_callbacks_append:
  "run_callbacks (fs @ gs) w =
     (case run_callbacks fs w of (es, w1) \<Rightarrow> case run_callbacks gs w1 of (es', w2) \<Rightarrow> (es @ es', w2))"
  by (induction fs arbitrary: w) (auto split: prod.splits option.splits)

text \<open>
  The clean-up runs every callback, the last added first, and whatever fails on the way: the callback
  added last runs before those added earlier, on the state it left.
\<close>

theorem cleanup_runs_everything:
  "Cleanup expired (janitor_Add (Some f) j) w =
     (case f w of (e, w1) \<Rightarrow> case Cleanup expired j w1 of (es, w2) \<Rightarrow> ((case e of None \<Rightarrow> es | Some err \<Rightarrow> err # es), w2))"
  by (auto simp: Cleanup_def janitor_Add_def split: prod.splits option.splits)

text \<open>
  Which address of a node is used: the first internal one of the family, else the last external one,
  else the first of any other type.
\<close>

definition usable_ips :: "bool \<Rightarrow> (string \<times> string) list \<Rightarrow> (bytes \<times> string) list" where
  "usable_ips ipv6 addrs =
     List.map_filter (\<lambda>(ip, ty). case net_ParseIP ip of None \<Rightarrow> None
       | Some b \<Rightarrow> if (net_To4 b = None) = ipv6 then Some (b, ty) else None) addrs"

definition or_else :: "'a option \<Rightarrow> 'a option \<Rightarrow> 'a option" where
  "or_else a b = (case a of None \<Rightarrow> b | Some x \<Rightarrow> Some x)"

lemma or_else_simps [simp]: "or_else None b = b" "or_else (Some x) b = Some x" "or_else a None = a"
  by (simp_all add: or_else_def split: option.split)

definition preferred_ip :: "(bytes \<times> string) list \<Rightarrow> bytes option" where
  "preferred_ip ips =
     map_option fst
       (or_else (find (\<lambda>(_, ty). ty = ''InternalIP'') ips)
         (or_else (find (\<lambda>(_, ty). ty = ''ExternalIP'') (rev ips)) (find (\<lambda>_. True) ips)))"

lemma usable_ips_simps:
  "usable_ips ipv6 [] = []"
  "usable_ips ipv6 ((ip, ty) # addrs) =
     (case net_ParseIP ip of
        None \<Rightarrow> usable_ips ipv6 addrs
      | Some b \<Rightarrow> if (net_To4 b = None) = ipv6 then (b, ty) # usable_ips ipv6 addrs else usable_ips ipv6 addrs)"
  by (simp_all add: usable_ips_def List.map_filter_simps split: option.split)

lemma node_ip_loop_eq:
  "node_ip_loop ipv6 addrs backup =
     or_else (map_option fst (find (\<lambda>(_, ty). ty = ''InternalIP'') (usable_ips ipv6 addrs)))
       (or_else (map_option fst (find (\<lambda>(_, ty). ty = ''ExternalIP'') (rev (usable_ips ipv6 addrs))))
         (or_else backup (map_option fst (find (\<lambda>_. True) (usable_ips ipv6 addrs)))))"
proof (induction addrs arbitrary: backup)
  case (Cons a addrs)
  obtain ip ty where a: "a = (ip, ty)" by fastforce
  show ?case
  proof (cases "net_ParseIP ip")
    case None
    then show ?thesis by (simp add: a usable_ips_simps Cons)
  next
    case (Some b)
    show ?thesis
    proof (cases "(net_To4 b = None) = ipv6")
      case True
      then have "\<not> (ipv6 \<and> net_To4 b \<noteq> None \<or> \<not> ipv6 \<and> net_To4 b = None)" by auto
      then show ?thesis
        using Some True Cons
        by (cases "find (\<lambda>(_, ty). ty = ''ExternalIP'') (rev (usable_ips ipv6 addrs))"; cases backup)
          (simp_all add: a usable_ips_simps find_append)
    qed (use Some Cons in \<open>auto simp: a usable_ips_simps\<close>)
  qed
qed (simp add: usable_ips_simps)

theorem GetNodeIP_prefers_internal: "GetNodeIP addrs ipv6 = preferred_ip (usable_ips ipv6 addrs)"
  by (simp add: GetNodeIP_def node_ip_loop_eq preferred_ip_def or_else_def split: option.split)

text \<open>A parsed pair of networks holds exactly the given ones, each in its family, and at most one of each.\<close>

definition given :: "'a option \<Rightarrow> 'a list" where
  "given x = (case x of None \<Rightarrow> [] | Some a \<Rightarrow> [a])"

lemma given_simps [simp]: "given None = []" "given (Some a) = [a]"
  by (simp_all add: given_def)

lemma fill_networks_spec:
  "fill_networks ps r = Inr n \<Longrightarrow>
     given (dsn_IPv4Net n) = given (dsn_IPv4Net r) @ map prefix_IPNet (filter (\<lambda>p. addr_Is4 (pfx_ip p)) ps) \<and>
     given (dsn_IPv6Net n) = given (dsn_IPv6Net r) @ map prefix_IPNet (filter (\<lambda>p. \<not> addr_Is4 (pfx_ip p)) ps)"
proof (induction ps arbitrary: r)
  case (Cons p ps)
  show ?case
  proof (cases "addr_Is4 (pfx_ip p)")
    case True
    with Cons.prems have "dsn_IPv4Net r = None" by (cases "dsn_IPv4Net r") simp_all
    with Cons.IH [of "r\<lparr>dsn_IPv4Net := Some (prefix_IPNet p)\<rparr>"] Cons.prems True show ?thesis by simp
  next
    case False
    with Cons.prems have "dsn_IPv6Net r = None" by (cases "dsn_IPv6Net r") simp_all
    with Cons.IH [of "r\<lparr>dsn_IPv6Net := Some (prefix_IPNet p)\<rparr>"] Cons.prems False show ?thesis by simp
  qed
qed simp

lemma fill_networks_fails:
  "fill_networks ps r = Inl e \<Longrightarrow>
     length (given (dsn_IPv4Net r)) + length (filter (\<lambda>p. addr_Is4 (pfx_ip p)) ps) > 1 \<or>
     length (given (dsn_IPv6Net r)) + length (filter (\<lambda>p. \<not> addr_Is4 (pfx_ip p)) ps) > 1"
proof (induction ps arbitrary: r)
  case (Cons p ps)
  show ?case
  proof (cases "addr_Is4 (pfx_ip p)")
    case True
    show ?thesis
    proof (cases "dsn_IPv4Net r")
      case None
      then show ?thesis using Cons.IH [of "r\<lparr>dsn_IPv4Net := Some (prefix_IPNet p)\<rparr>"] Cons.prems True by auto
    qed (use True in simp)
  next
    case False
    show ?thesis
    proof (cases "dsn_IPv6Net r")
      case None
      then show ?thesis using Cons.IH [of "r\<lparr>dsn_IPv6Net := Some (prefix_IPNet p)\<rparr>"] Cons.prems False by auto
    qed (use False in simp)
  qed
qed simp

theorem dual_stack_networks_parsed:
  assumes "list_all2 (\<lambda>s p. ParsePrefix s = Some p) ss ps"
  shows "(case ParseDualStackNetworkFromStrings ss of
      Inr n \<Rightarrow> given (dsn_IPv4Net n) = map prefix_IPNet (filter (\<lambda>p. addr_Is4 (pfx_ip p)) ps) \<and>
               given (dsn_IPv6Net n) = map prefix_IPNet (filter (\<lambda>p. \<not> addr_Is4 (pfx_ip p)) ps)
    | Inl e \<Rightarrow> length (filter (\<lambda>p. addr_Is4 (pfx_ip p)) ps) > 1 \<or> length (filter (\<lambda>p. \<not> addr_Is4 (pfx_ip p)) ps) > 1)"
proof -
  have parse: "map_err (\<lambda>s. invalid_ip (ParsePrefix s)) ss = Inr ps"
    unfolding map_err_Inr using assms by (rule list_all2_mono) (simp add: invalid_ip_def)
  have len: "length ss = length ps" using assms by (rule list_all2_lengthD)
  have split: "length (filter (\<lambda>p. addr_Is4 (pfx_ip p)) ps) + length (filter (\<lambda>p. \<not> addr_Is4 (pfx_ip p)) ps) = length ps"
    by (rule sum_length_filter_compl)
  show ?thesis
  proof (cases "length ss > 2")
    case True
    with len split show ?thesis by (auto simp: ParseDualStackNetworkFromStrings_def)
  next
    case False
    let ?r = "\<lparr>dsn_IPv4Net = None, dsn_IPv6Net = None\<rparr>"
    have run: "ParseDualStackNetworkFromStrings ss = fill_networks ps ?r" using False parse by (simp add: ParseDualStackNetworkFromStrings_def)
    show ?thesis
    proof (cases "fill_networks ps ?r")
      case (Inl e)
      from fill_networks_fails [OF this] show ?thesis by (simp add: run Inl)
    next
      case (Inr n)
      from fill_networks_spec [OF this] show ?thesis by (simp add: run Inr)
    qed
  qed
qed

text \<open>
  Link-local addresses of interfaces lie in \<open>fe80::/64\<close>, and different 48-bit hardware addresses get
  different ones.
\<close>

lemma xor_cancel: "(a XOR c = b XOR c) \<longleftrightarrow> a = (b :: 8 word)"
  by (metis xor.assoc xor_self_eq xor.right_neutral)

theorem link_local_injective:
  assumes "length m = 6" "length m' = 6" "CreateLinkLocalAddrFromMAC m = CreateLinkLocalAddrFromMAC m'"
  shows "m = m'"
proof -
  obtain a b c d e f where m: "m = [a, b, c, d, e, f]" using assms(1) by (auto simp: length_Suc_conv eval_nat_numeral)
  obtain a' b' c' d' e' f' where m': "m' = [a', b', c', d', e', f']" using assms(2) by (auto simp: length_Suc_conv eval_nat_numeral)
  show ?thesis using assms(3) by (simp add: m m' CreateLinkLocalAddrFromMAC_def xor_cancel)
qed

text \<open>
  Routing tables are handed out in order, all different and none reserved by the kernel (those up to
  255), as long as the 32-bit counter does not wrap around.
\<close>

lemma take_tables:
  "take_next TableAllocator_Allocate n ta = map (\<lambda>i. ta_lastAssigned ta + 1 + of_nat i) [0..<n]"
proof (induction n arbitrary: ta)
  case (Suc n)
  have "take_next TableAllocator_Allocate (Suc n) ta =
    (ta_lastAssigned ta + 1) # map (\<lambda>i. ta_lastAssigned ta + 1 + of_nat (Suc i)) [0..<n]"
    using Suc [of "ta\<lparr>ta_lastAssigned := ta_lastAssigned ta + 1\<rparr>"]
    by (simp add: TableAllocator_Allocate_def [of ta] Let_def add.assoc)
  also have "\<dots> = map (\<lambda>i. ta_lastAssigned ta + 1 + of_nat i) [0..<Suc n]"
    unfolding upt_conv_Cons [OF zero_less_Suc] list.map map_Suc_upt [symmetric] by (simp add: comp_def)
  finally show ?case .
qed simp

theorem tables_distinct:
  assumes "NewTableAllocator first = Inr ta" "unat first + n \<le> 2 ^ 32"
  shows "distinct (take_next TableAllocator_Allocate n ta) \<and> list_all (\<lambda>t. 255 < t) (take_next TableAllocator_Allocate n ta)"
proof -
  have ta: "ta_lastAssigned ta + 1 = first" and first: "\<not> first \<le> 255"
    using assms(1) by (auto simp: NewTableAllocator_def split: if_splits)
  have ids: "unat (first + of_nat i) = unat first + i" if "i < n" for i
  proof -
    have "unat first + i < 2 ^ LENGTH(32)" using assms(2) that by simp
    then show ?thesis by (simp add: unat_word_ariths unat_of_nat)
  qed
  have "inj_on (\<lambda>i. first + of_nat i) {0..<n}"
    by (intro inj_onI) (metis ids atLeastLessThan_iff add_left_cancel)
  moreover have "255 < first + of_nat i" if "i < n" for i
    using first ids [OF that] by (simp add: word_less_nat_alt word_le_nat_alt)
  ultimately show ?thesis unfolding take_tables ta by (simp add: distinct_map list_all_iff)
qed

end
