(* ===== verification/Netlink.thy ===== *)
theory Netlink
  imports DaemonUtil
begin

text \<open>
  The kernel's interface as the node daemon uses it: links, routes and addresses (netlink). The library and the
  kernel are parameters; the state \<open>'w\<close> is whatever the kernel keeps. What a theorem needs of them
  is stated where it needs it.
\<close>

record link =
  lk_Index :: int
  lk_Name :: string
  lk_MasterIndex :: int
  lk_Type :: string
  lk_Table :: int
  lk_PeerName :: string

text \<open>A destination \<open>None\<close> is the default route; 
  the segments are those of an SRv6 encapsulation, the remote address that of a tunnel.\<close>

record route =
  rt_Dst :: "ip_net option"
  rt_Gw :: "bytes option"
  rt_Table :: int
  rt_LinkIndex :: int
  rt_Unreachable :: bool
  rt_Segments :: "bytes list"
  rt_Decap :: "(string \<times> int) option"
  rt_Remote :: "bytes option"

datatype family = FAMILY_V4 | FAMILY_V6

text \<open>The zero values of Go's structs.\<close>

definition empty_link :: link where
  "empty_link = \<lparr>lk_Index = 0, lk_Name = [], lk_MasterIndex = 0, lk_Type = [], lk_Table = 0, lk_PeerName = []\<rparr>"

definition empty_route :: route where
  "empty_route = \<lparr>rt_Dst = None, rt_Gw = None, rt_Table = 0, rt_LinkIndex = 0, rt_Unreachable = False, rt_Segments = [], rt_Decap = None, rt_Remote = None\<rparr>"

definition no_network :: DualStackNetwork where
  "no_network = \<lparr>dsn_IPv4Net = None, dsn_IPv6Net = None\<rparr>"

definition no_address :: DualStackAddress where
  "no_address = \<lparr>dsa_IPv4 = None, dsa_IPv6 = None\<rparr>"

type_synonym 'w call = "(go_error + unit) \<times> 'w"

record 'w netlink =
  nl_LinkByName :: "'w \<Rightarrow> string \<Rightarrow> go_error + link"
  nl_LinkList :: "'w \<Rightarrow> go_error + link list"
  nl_LinkAdd :: "'w \<Rightarrow> link \<Rightarrow> 'w call"
  nl_LinkDel :: "'w \<Rightarrow> link \<Rightarrow> 'w call"
  nl_LinkSetUp :: "'w \<Rightarrow> link \<Rightarrow> 'w call"
  nl_LinkSetMaster :: "'w \<Rightarrow> link \<Rightarrow> link \<Rightarrow> 'w call"
  nl_LinkSetNoMaster :: "'w \<Rightarrow> link \<Rightarrow> 'w call"
  nl_AddrAdd :: "'w \<Rightarrow> link \<Rightarrow> ip_net option \<Rightarrow> 'w call"
  nl_RouteAdd :: "'w \<Rightarrow> route \<Rightarrow> 'w call"
  nl_RouteReplace :: "'w \<Rightarrow> route \<Rightarrow> 'w call"
  nl_RouteDel :: "'w \<Rightarrow> route \<Rightarrow> 'w call"
  nl_RouteList :: "'w \<Rightarrow> family \<Rightarrow> int \<Rightarrow> go_error + route list"

text \<open>A call that may fail, then the rest of the function; the error is wrapped and returned.\<close>

definition and_then :: "(go_error + 'a) \<times> 'w \<Rightarrow> string \<Rightarrow> ('a \<Rightarrow> 'w \<Rightarrow> (go_error + 'b) \<times> 'w) \<Rightarrow> (go_error + 'b) \<times> 'w" where
  "and_then p msg k = (case p of (Inl err, w) \<Rightarrow> (Inl (Wrapf msg err), w) | (Inr x, w) \<Rightarrow> k x w)"

lemma and_then_simps [simp]:
  "and_then (Inl err, w) msg k = (Inl (Wrapf msg err), w)"
  "and_then (Inr x, w) msg k = k x w"
  by (simp_all add: and_then_def)

lemma and_then_Inr: "and_then p msg k = (Inr y, w') \<longleftrightarrow> (\<exists>x w. p = (Inr x, w) \<and> k x w = (Inr y, w'))"
  by (auto simp: and_then_def split: prod.splits sum.splits)

text \<open>A call whose error is returned as it is.\<close>

definition bind_err :: "(go_error + 'a) \<times> 'w \<Rightarrow> ('a \<Rightarrow> 'w \<Rightarrow> (go_error + 'b) \<times> 'w) \<Rightarrow> (go_error + 'b) \<times> 'w" where
  "bind_err p k = (case p of (Inl err, w) \<Rightarrow> (Inl err, w) | (Inr x, w) \<Rightarrow> k x w)"

lemma bind_err_simps [simp]: "bind_err (Inl e, w) k = (Inl e, w)" "bind_err (Inr x, w) k = k x w"
  by (simp_all add: bind_err_def)

lemma bind_err_Inr: "bind_err p k = (Inr y, w') \<longleftrightarrow> (\<exists>x w. p = (Inr x, w) \<and> k x w = (Inr y, w'))"
  by (auto simp: bind_err_def split: prod.splits sum.splits)

end
