(* ===== verification/TargetVrf.thy ===== *)
theory TargetVrf
  imports Netlink
begin

text \<open>
  The host VRF of a target (\<open>src/daemon/pkg/dataplane/vrf/targetvrf.go\<close>): its creation, the default route
  and its teardown, which removes everything enslaved to it. The kernel's interface (netlink) is a
  parameter; what it promises is stated where a theorem needs it.
\<close>

abbreviation ESRCH :: go_error where "ESRCH \<equiv> TypedError ''ESRCH''"

section \<open>Everything enslaved to a VRF\<close>

definition children_of :: "link list \<Rightarrow> int \<Rightarrow> link list" where
  "children_of links master = filter (\<lambda>l. lk_MasterIndex l \<noteq> 0 \<and> lk_MasterIndex l = master) links"

type_synonym walk = "int set \<times> link list \<times> int list"

text \<open>The inner loop of the walk over the children of one device: visited indices, links found, queue.\<close>

fun visit_children :: "link list \<Rightarrow> walk \<Rightarrow> walk" where
  "visit_children [] s = s"
| "visit_children (child # cs) (visited, ordered, queue) =
     (if lk_Index child \<in> visited then visit_children cs (visited, ordered, queue)
      else visit_children cs (insert (lk_Index child) visited, ordered @ [child], queue @ [lk_Index child]))"

lemma visit_children_measure:
  assumes "set cs \<subseteq> set links" "visit_children cs (V, xs, q) = (V', xs', q')"
  shows "2 * card (lk_Index ` set links - V') + length q' \<le> 2 * card (lk_Index ` set links - V) + length q"
  using assms
proof (induction cs "(V, xs, q)" arbitrary: V xs q rule: visit_children.induct)
  case (2 child cs V xs q)
  show ?case
  proof (cases "lk_Index child \<in> V")
    case True
    with 2 show ?thesis by simp
  next
    case False
    let ?I = "lk_Index ` set links"
    have mem: "lk_Index child \<in> ?I - V" using 2(3) False by auto
    then have "card (?I - V - {lk_Index child}) = card (?I - V) - 1" by (rule card_Diff_singleton)
    moreover have "0 < card (?I - V)" using mem card_gt_0_iff by fastforce
    moreover have "?I - insert (lk_Index child) V = ?I - V - {lk_Index child}" by (rule Diff_insert)
    moreover have "2 * card (?I - V') + length q' \<le> 2 * card (?I - insert (lk_Index child) V) + length (q @ [lk_Index child])"
      using 2(2) [OF False] 2(3,4) False by simp
    ultimately show ?thesis by simp
  qed
qed simp

function walk_loop :: "link list \<Rightarrow> walk \<Rightarrow> link list" where
  "walk_loop links (visited, ordered, []) = ordered"
| "walk_loop links (visited, ordered, master # queue) =
     walk_loop links (visit_children (children_of links master) (visited, ordered, queue))"
  by pat_completeness auto
termination
proof (relation "measure (\<lambda>(links, visited, ordered, queue). 2 * card (lk_Index ` set links - visited) + length queue)")
  fix links visited ordered master queue
  obtain V xs q where v: "visit_children (children_of links master) (visited, ordered, queue) = (V, xs, q)" by (metis prod_cases3)
  have "set (children_of links master) \<subseteq> set links" by (auto simp: children_of_def)
  from visit_children_measure [OF this v]
  show "((links, visit_children (children_of links master) (visited, ordered, queue)), links, visited, ordered, master # queue)
    \<in> measure (\<lambda>(links, visited, ordered, queue). 2 * card (lk_Index ` set links - visited) + length queue)"
    by (simp add: v)
qed simp

definition vrfDescendants :: "int \<Rightarrow> link list \<Rightarrow> link list" where
  "vrfDescendants vrfIndex links = rev (walk_loop links ({vrfIndex}, [], [vrfIndex]))"

section \<open>The VRF\<close>

record TargetVRF =
  tv_Vrf :: "link option"
  tv_NfCIDR :: DualStackNetwork
  tv_Tunnel :: string
  tv_TunnelAddrs :: DualStackAddress
  tv_RouterTunnel :: string
  tv_RouterTunnelAddrs :: DualStackAddress

definition TargetVRFName :: "32 word \<Rightarrow> string" where
  "TargetVRFName tableID = ''tvrf-'' @ format_nat (unat tableID)"

fun del_routes :: "'w netlink \<Rightarrow> route list \<Rightarrow> 'w \<Rightarrow> go_error list \<times> 'w" where
  "del_routes nl [] w = ([], w)"
| "del_routes nl (r # rs) w =
     (case nl_RouteDel nl w r of (res, w1) \<Rightarrow>
      case del_routes nl rs w1 of (errs, w2) \<Rightarrow>
        (case res of Inr _ \<Rightarrow> (errs, w2)
         | Inl err \<Rightarrow> (if err = ESRCH then errs else Wrapf ''failed to delete route'' err # errs, w2)))"

definition flush_family :: "'w netlink \<Rightarrow> int \<Rightarrow> family \<Rightarrow> 'w \<Rightarrow> go_error list \<times> 'w" where
  "flush_family nl table fam w =
     (case nl_RouteList nl w fam table of
        Inl err \<Rightarrow> ([Wrapf ''failed to list routes'' err], w)
      | Inr routes \<Rightarrow> del_routes nl routes w)"

definition flushTable :: "'w netlink \<Rightarrow> int \<Rightarrow> 'w \<Rightarrow> go_error list \<times> 'w" where
  "flushTable nl table w =
     (case flush_family nl table FAMILY_V4 w of (errs, w1) \<Rightarrow>
      case flush_family nl table FAMILY_V6 w1 of (errs', w2) \<Rightarrow> (errs @ errs', w2))"

abbreviation physicalLinkType :: string where "physicalLinkType \<equiv> ''device''"

definition detach_link :: "'w netlink \<Rightarrow> link \<Rightarrow> 'w \<Rightarrow> 'w" where
  "detach_link nl link w =
     snd (if lk_Type link = physicalLinkType then nl_LinkSetNoMaster nl w link else nl_LinkDel nl w link)"

text \<open>Errors are only logged.\<close>

definition TargetVRF_Teardown :: "'w netlink \<Rightarrow> TargetVRF \<Rightarrow> 'w \<Rightarrow> 'w" where
  "TargetVRF_Teardown nl t w =
     (case tv_Vrf t of
        None \<Rightarrow> w
      | Some v \<Rightarrow>
          (let w1 = (case nl_LinkByName nl w (lk_Name v) of
                       Inl err \<Rightarrow> w
                     | Inr vrf \<Rightarrow>
                         (let links = (case nl_LinkList nl w of Inl err \<Rightarrow> [] | Inr ls \<Rightarrow> ls);
                              w0 = fold (detach_link nl) (vrfDescendants (lk_Index vrf) links) w
                          in snd (nl_LinkDel nl w0 vrf)))
           in snd (flushTable nl (lk_Table v) w1)))"

fun replace_routes :: "'w netlink \<Rightarrow> string \<Rightarrow> route list \<Rightarrow> 'w \<Rightarrow> (go_error + unit) \<times> 'w" where
  "replace_routes nl msg [] w = (Inr (), w)"
| "replace_routes nl msg (r # rs) w =
     (case nl_RouteReplace nl w r of
        (Inl err, w1) \<Rightarrow> (Inl (Wrapf msg err), w1)
      | (Inr _, w1) \<Rightarrow> replace_routes nl msg rs w1)"

text \<open>The kernel chooses the index of the new device; the returned value keeps name and table.\<close>

definition NewTargetVRF :: "'w netlink \<Rightarrow> 32 word \<Rightarrow> DualStackNetwork \<Rightarrow> 'w \<Rightarrow> (go_error + TargetVRF) \<times> 'w" where
  "NewTargetVRF nl tableID nfCIDR w =
     (if dsn_IsEmpty nfCIDR then (Inl (Errorf ''nf CIDR cannot be empty'' None), w)
      else
     (let name = TargetVRFName tableID;
          mk = (\<lambda>v n. \<lparr>tv_Vrf = v, tv_NfCIDR = n, tv_Tunnel = '''', tv_TunnelAddrs = no_address,
                       tv_RouterTunnel = '''', tv_RouterTunnelAddrs = no_address\<rparr>);
          w1 = (case nl_LinkByName nl w name of
                  Inr stale \<Rightarrow> if lk_Type stale = ''vrf'' then TargetVRF_Teardown nl (mk (Some stale) no_network) w else w
                | Inl _ \<Rightarrow> w);
          vrf = empty_link\<lparr>lk_Name := name, lk_Type := ''vrf'', lk_Table := int (unat tableID)\<rparr>
      in case nl_LinkAdd nl w1 vrf of
           (Inl err, w2) \<Rightarrow> (Inl (Wrapf ''failed to add target VRF'' err), w2)
         | (Inr _, w2) \<Rightarrow>
             (let t = mk (Some vrf) nfCIDR in
              case nl_LinkSetUp nl w2 vrf of
                (Inl err, w3) \<Rightarrow> (Inl (Wrapf ''failed to set up target VRF'' err), TargetVRF_Teardown nl t w3)
              | (Inr _, w3) \<Rightarrow>
                  (case replace_routes nl ''failed to add unreachable route''
                          (map (\<lambda>dst. empty_route\<lparr>rt_Dst := Some dst, rt_Table := int (unat tableID), rt_Unreachable := True\<rparr>)
                             (given (dsn_IPv6Net nfCIDR) @ given (dsn_IPv4Net nfCIDR))) w3 of
                     (Inl err, w4) \<Rightarrow> (Inl err, TargetVRF_Teardown nl t w4)
                   | (Inr _, w4) \<Rightarrow> (Inr t, w4)))))"

definition TargetVRF_AddDefaultRoute :: "'w netlink \<Rightarrow> TargetVRF \<Rightarrow> 'w \<Rightarrow> (go_error + unit) \<times> 'w" where
  "TargetVRF_AddDefaultRoute nl t w =
     (case nl_LinkByName nl w (tv_Tunnel t) of
        Inl err \<Rightarrow> (Inl (Wrapf ''failed to get tunnel'' err), w)
      | Inr tun \<Rightarrow>
          replace_routes nl ''failed to add default route''
            (List.map_filter (\<lambda>(dst, gw). case gw of None \<Rightarrow> None
               | Some g \<Rightarrow> Some (empty_route\<lparr>rt_Dst := Some dst, rt_Gw := Some g, rt_Table := (case tv_Vrf t of Some v \<Rightarrow> lk_Table v | None \<Rightarrow> 0),
                                 rt_LinkIndex := lk_Index tun\<rparr>))
               [((replicate 16 0, CIDRMask 0 128), dsa_IPv6 (tv_RouterTunnelAddrs t)),
                ((replicate 10 0 @ [0xFF, 0xFF] @ replicate 4 0, CIDRMask 0 32), dsa_IPv4 (tv_RouterTunnelAddrs t))]) w)"

section \<open>The walk finds exactly the descendants\<close>

definition master_edges :: "link list \<Rightarrow> (int \<times> int) set" where
  "master_edges links = {(lk_MasterIndex l, lk_Index l) |l. l \<in> set links \<and> lk_MasterIndex l \<noteq> 0}"

text \<open>Every link comes after its master in the list, unless that is the VRF itself.\<close>

definition masters_first :: "int \<Rightarrow> link list \<Rightarrow> bool" where
  "masters_first v xs \<longleftrightarrow> (\<forall>i < length xs. lk_MasterIndex (xs ! i) = v \<or> lk_MasterIndex (xs ! i) \<in> lk_Index ` set (take i xs))"

lemma masters_first_snoc:
  "masters_first v (xs @ [x]) \<longleftrightarrow> masters_first v xs \<and> (lk_MasterIndex x = v \<or> lk_MasterIndex x \<in> lk_Index ` set xs)"
  by (auto simp: masters_first_def nth_append less_Suc_eq)

text \<open>What holds during the walk, \<open>todo\<close> being the children of the current device not yet seen.\<close>

definition walk_inv :: "int \<Rightarrow> link list \<Rightarrow> link list \<Rightarrow> walk \<Rightarrow> bool" where
  "walk_inv v links todo = (\<lambda>(V, xs, q).
     V = insert v (lk_Index ` set xs) \<and> distinct (v # map lk_Index xs) \<and> set xs \<subseteq> set links \<and> masters_first v xs \<and>
     set q \<subseteq> V \<and> lk_Index ` set xs \<subseteq> (master_edges links)\<^sup>+ `` {v} \<and>
     (\<forall>x \<in> V - set q. \<forall>l \<in> set links. lk_MasterIndex l = x \<and> lk_MasterIndex l \<noteq> 0 \<longrightarrow> lk_Index l \<in> V \<union> lk_Index ` set todo))"

lemma visit_children_inv:
  assumes "walk_inv v links cs (V, xs, q)" "m = v \<or> m \<in> lk_Index ` set xs" "(v, m) \<in> (master_edges links)\<^sup>*"
    and "\<forall>c \<in> set cs. c \<in> set links \<and> lk_MasterIndex c = m \<and> m \<noteq> 0"
  shows "walk_inv v links [] (visit_children cs (V, xs, q))"
  using assms
proof (induction cs "(V, xs, q)" arbitrary: V xs q rule: visit_children.induct)
  case (2 c cs V xs q)
  show ?case
  proof (cases "lk_Index c \<in> V")
    case True
    then have todo: "V \<union> lk_Index ` set (c # cs) = V \<union> lk_Index ` set cs" by auto
    have "walk_inv v links cs (V, xs, q)" using 2(3) unfolding walk_inv_def prod.case todo .
    with True 2 show ?thesis by simp
  next
    case False
    have c: "c \<in> set links" "lk_MasterIndex c = m" "m \<noteq> 0" using 2(6) by auto
    then have "(m, lk_Index c) \<in> master_edges links" by (auto simp: master_edges_def)
    with 2(5) have "(v, lk_Index c) \<in> (master_edges links)\<^sup>+" by (rule rtrancl_into_trancl1)
    then have "walk_inv v links cs (insert (lk_Index c) V, xs @ [c], q @ [lk_Index c])"
      using 2(3,4) False c by (auto simp: walk_inv_def masters_first_snoc)
    moreover have "m = v \<or> m \<in> lk_Index ` set (xs @ [c])" using 2(4) by auto
    ultimately have "walk_inv v links [] (visit_children cs (insert (lk_Index c) V, xs @ [c], q @ [lk_Index c]))"
      using 2(2) [OF False] 2(5,6) by simp
    with False show ?thesis by simp
  qed
qed simp

lemma walk_loop_inv:
  "walk_inv v links [] s \<Longrightarrow> \<exists>V. walk_inv v links [] (V, walk_loop links s, [])"
proof (induction links s rule: walk_loop.induct)
  case (1 links V xs)
  then show ?case by auto
next
  case (2 links V xs m q)
  have m: "m = v \<or> m \<in> lk_Index ` set xs" using 2(2) by (auto simp: walk_inv_def)
  have "(v, m) \<in> (master_edges links)\<^sup>*" using m 2(2) by (auto simp: walk_inv_def intro: trancl_into_rtrancl)
  moreover have "walk_inv v links (children_of links m) (V, xs, q)"
    using 2(2) by (auto simp: walk_inv_def children_of_def)
  ultimately have "walk_inv v links [] (visit_children (children_of links m) (V, xs, q))"
    using m by (intro visit_children_inv [where m = m]) (auto simp: children_of_def)
  then show ?case using 2(1) by simp
qed

lemma walk_closed:
  assumes "walk_inv v links [] (V, xs, [])"
  shows "(master_edges links)\<^sup>* `` {v} = V"
proof
  show "V \<subseteq> (master_edges links)\<^sup>* `` {v}" using assms by (auto simp: walk_inv_def intro: trancl_into_rtrancl)
  have "y \<in> V" if "(v, y) \<in> (master_edges links)\<^sup>*" for y
    using that
  proof (induction rule: rtrancl_induct)
    case base
    then show ?case using assms by (simp add: walk_inv_def)
  next
    case (step y z)
    then show ?case using assms by (auto simp: walk_inv_def master_edges_def)
  qed
  then show "(master_edges links)\<^sup>* `` {v} \<subseteq> V" by blast
qed

lemma walk_finds_exactly:
  assumes "distinct (map lk_Index links)"
  shows "set (vrfDescendants v links) = {l \<in> set links. (v, lk_Index l) \<in> (master_edges links)\<^sup>+ \<and> lk_Index l \<noteq> v}"
    and "distinct (map lk_Index (vrfDescendants v links))"
    and "masters_first v (rev (vrfDescendants v links))"
    and "v \<notin> lk_Index ` set (vrfDescendants v links)"
proof -
  define xs where "xs = walk_loop links ({v}, [], [v])"
  have "walk_inv v links [] ({v}, [], [v])" by (auto simp: walk_inv_def masters_first_def)
  then obtain V where inv: "walk_inv v links [] (V, xs, [])" using walk_loop_inv unfolding xs_def by blast
  have dist: "distinct (map lk_Index xs)" "v \<notin> lk_Index ` set xs" "set xs \<subseteq> set links" "masters_first v xs"
    "V = insert v (lk_Index ` set xs)" "lk_Index ` set xs \<subseteq> (master_edges links)\<^sup>+ `` {v}"
    using inv by (auto simp: walk_inv_def)
  have found: "l \<in> set xs" if l: "l \<in> set links" "(v, lk_Index l) \<in> (master_edges links)\<^sup>+" "lk_Index l \<noteq> v" for l
  proof -
    have "lk_Index l \<in> V" using walk_closed [OF inv] trancl_into_rtrancl [OF l(2)] by auto
    then obtain l' where l': "l' \<in> set xs" "lk_Index l' = lk_Index l" using dist(5) l(3) by auto
    then have "l' = l" using assms l(1) dist(3) by (auto simp: distinct_map dest: inj_onD)
    with l' show ?thesis by simp
  qed
  show "set (vrfDescendants v links) = {l \<in> set links. (v, lk_Index l) \<in> (master_edges links)\<^sup>+ \<and> lk_Index l \<noteq> v}"
    unfolding vrfDescendants_def xs_def [symmetric] using found dist(2,3,6) by auto
  show "distinct (map lk_Index (vrfDescendants v links))" "masters_first v (rev (vrfDescendants v links))"
    "v \<notin> lk_Index ` set (vrfDescendants v links)"
    unfolding vrfDescendants_def xs_def [symmetric] using dist(1,2,4) by (simp_all add: rev_map [symmetric])
qed


text \<open>
  C32: the walk that a teardown uses finds exactly the links whose chain of masters leads to the VRF,
  each once, and lists every link before its master, even when the kernel's list of links has cycles of
  masters. (Indices of links are unique.)
\<close>

theorem vrf_descendants_exact:
  assumes "distinct (map lk_Index links)"
  shows "set (vrfDescendants v links) = {l \<in> set links. (v, lk_Index l) \<in> (master_edges links)\<^sup>+ \<and> lk_Index l \<noteq> v} \<and>
    distinct (vrfDescendants v links) \<and>
    (\<forall>i < length (vrfDescendants v links). \<forall>j < length (vrfDescendants v links).
       lk_MasterIndex (vrfDescendants v links ! i) = lk_Index (vrfDescendants v links ! j) \<longrightarrow> i < j)"
proof -
  define xs where "xs = rev (vrfDescendants v links)"
  note walk = walk_finds_exactly [OF assms, of v]
  have ds: "vrfDescendants v links = rev xs" by (simp add: xs_def)
  have dist: "distinct (map lk_Index xs)" "v \<notin> lk_Index ` set xs" "masters_first v xs"
    using walk(2-4) by (simp_all add: ds rev_map [symmetric])
  have before: "i < j" if ij: "i < length xs" "j < length xs" "lk_MasterIndex (xs ! j) = lk_Index (xs ! i)" for i j
  proof -
    have "lk_Index (xs ! i) \<in> lk_Index ` set xs" using ij(1) by (intro imageI nth_mem)
    then have "lk_MasterIndex (xs ! j) \<noteq> v" using ij(3) dist(2) by auto
    then have "lk_MasterIndex (xs ! j) \<in> lk_Index ` set (take j xs)" using dist(3) ij(2) by (auto simp: masters_first_def)
    then obtain k where k: "k < j" "lk_Index (xs ! k) = lk_Index (xs ! i)" using ij(2,3) by (auto simp: in_set_conv_nth)
    then have "map lk_Index xs ! k = map lk_Index xs ! i" using ij(1,2) by simp
    then have "k = i" using nth_eq_iff_index_eq [OF dist(1), of k i] ij(1,2) k(1) by simp
    with k show ?thesis by simp
  qed
  have order: "\<forall>i < length xs. \<forall>j < length xs. lk_MasterIndex (rev xs ! i) = lk_Index (rev xs ! j) \<longrightarrow> i < j"
  proof (intro allI impI)
    fix i j assume ij: "i < length xs" "j < length xs" "lk_MasterIndex (rev xs ! i) = lk_Index (rev xs ! j)"
    have "lk_MasterIndex (xs ! (length xs - Suc i)) = lk_Index (xs ! (length xs - Suc j))"
      using ij(3) unfolding rev_nth [OF ij(1)] rev_nth [OF ij(2)] .
    moreover have "length xs - Suc i < length xs" "length xs - Suc j < length xs" using ij(1,2) by linarith+
    ultimately have "length xs - Suc j < length xs - Suc i" using before by blast
    then show "i < j" using ij(1,2) by linarith
  qed
  show ?thesis using walk(1) dist(1) order by (simp add: ds distinct_map)
qed

definition ex_links :: "link list" where
  "ex_links = map (\<lambda>(i, n, m, t). \<lparr>lk_Index = i, lk_Name = n, lk_MasterIndex = m, lk_Type = t, lk_Table = if t = ''vrf'' then 100 else 0, lk_PeerName = []\<rparr>)
     [(7, ''tvrf-100'', 0, ''vrf''), (9, ''br0'', 7, ''bridge''), (3, ''eth1'', 9, ''device''), (4, ''v0'', 0, ''veth''),
      (5, ''v1'', 3, ''veth''), (11, ''b1'', 12, ''bridge''), (12, ''b2'', 11, ''bridge'')]"

theorem vrf_descendants_exact_witness:
  "map lk_Index (vrfDescendants 7 ex_links) = [5, 3, 9] \<and> distinct (vrfDescendants 7 ex_links)"
proof -
  have "distinct (map lk_Index ex_links)" by (simp add: ex_links_def)
  from vrf_descendants_exact [OF this, of 7] show ?thesis
    by (simp add: vrfDescendants_def ex_links_def children_of_def)
qed

section \<open>A teardown leaves nothing behind\<close>

text \<open>
  What the kernel promises. Deleting a link may take its peer with it and releases the links it was a
  master of; a deletion of a link that is already gone fails and changes nothing. Physical links
  cannot vanish. \<open>fam\<close> tells the family of a route.
\<close>

definition physical_in :: "link list \<Rightarrow> int \<Rightarrow> bool" where
  "physical_in L i \<longleftrightarrow> (\<exists>k \<in> set L. lk_Index k = i \<and> lk_Type k = physicalLinkType)"

definition shrinks :: "link list \<Rightarrow> link list \<Rightarrow> bool" where
  "shrinks L L' \<longleftrightarrow>
     (\<forall>k \<in> set L'. \<exists>k0 \<in> set L. lk_Index k = lk_Index k0 \<and> lk_Type k = lk_Type k0 \<and>
        (lk_MasterIndex k = lk_MasterIndex k0 \<or> lk_MasterIndex k = 0)) \<and>
     (\<forall>i. physical_in L i \<longrightarrow> physical_in L' i)"

definition net_kernel :: "'w netlink \<Rightarrow> ('w \<Rightarrow> link list) \<Rightarrow> ('w \<Rightarrow> route set) \<Rightarrow> (route \<Rightarrow> family) \<Rightarrow> bool" where
  "net_kernel nl links routes fam \<longleftrightarrow>
     (\<forall>w. distinct (map lk_Index (links w)) \<and> nl_LinkList nl w = Inr (links w)) \<and>
     (\<forall>w n l. nl_LinkByName nl w n = Inr l \<longrightarrow> l \<in> set (links w)) \<and>
     (\<forall>w l. \<not> physical_in (links w) (lk_Index l) \<longrightarrow>
        shrinks (links w) (links (snd (nl_LinkDel nl w l))) \<and>
        lk_Index l \<notin> lk_Index ` set (links (snd (nl_LinkDel nl w l))) \<and> routes (snd (nl_LinkDel nl w l)) \<subseteq> routes w) \<and>
     (\<forall>w l. links (snd (nl_LinkSetNoMaster nl w l)) =
          map (\<lambda>k. if lk_Index k = lk_Index l then k\<lparr>lk_MasterIndex := 0\<rparr> else k) (links w) \<and>
        routes (snd (nl_LinkSetNoMaster nl w l)) = routes w) \<and>
     (\<forall>w f t. \<exists>rs. nl_RouteList nl w f t = Inr rs \<and> set rs = {r \<in> routes w. rt_Table r = t \<and> fam r = f}) \<and>
     (\<forall>w r. links (snd (nl_RouteDel nl w r)) = links w \<and> routes (snd (nl_RouteDel nl w r)) = routes w - {r})"

lemma net_kernelD:
  assumes "net_kernel nl links routes fam"
  shows "distinct (map lk_Index (links w))" "nl_LinkList nl w = Inr (links w)"
    "nl_LinkByName nl w n = Inr l \<Longrightarrow> l \<in> set (links w)"
    "\<not> physical_in (links w) (lk_Index l) \<Longrightarrow> shrinks (links w) (links (snd (nl_LinkDel nl w l))) \<and>
       lk_Index l \<notin> lk_Index ` set (links (snd (nl_LinkDel nl w l))) \<and> routes (snd (nl_LinkDel nl w l)) \<subseteq> routes w"
    "links (snd (nl_LinkSetNoMaster nl w l)) = map (\<lambda>k. if lk_Index k = lk_Index l then k\<lparr>lk_MasterIndex := 0\<rparr> else k) (links w) \<and>
       routes (snd (nl_LinkSetNoMaster nl w l)) = routes w"
    "\<exists>rs. nl_RouteList nl w f tb = Inr rs \<and> set rs = {r \<in> routes w. rt_Table r = tb \<and> fam r = f}"
    "links (snd (nl_RouteDel nl w r)) = links w \<and> routes (snd (nl_RouteDel nl w r)) = routes w - {r}"
  using assms unfolding net_kernel_def by simp_all

lemma shrinks_refl: "shrinks L L"
  unfolding shrinks_def by blast

lemma shrinks_trans:
  assumes "shrinks A B" "shrinks B C"
  shows "shrinks A C"
  unfolding shrinks_def
proof (intro conjI ballI impI)
  fix k assume "k \<in> set C"
  then obtain k1 where k1: "k1 \<in> set B" "lk_Index k = lk_Index k1" "lk_Type k = lk_Type k1"
    "lk_MasterIndex k = lk_MasterIndex k1 \<or> lk_MasterIndex k = 0" using assms(2) unfolding shrinks_def by blast
  then obtain k0 where "k0 \<in> set A" "lk_Index k1 = lk_Index k0" "lk_Type k1 = lk_Type k0"
    "lk_MasterIndex k1 = lk_MasterIndex k0 \<or> lk_MasterIndex k1 = 0" using assms(1) unfolding shrinks_def by blast
  with k1 show "\<exists>k0 \<in> set A. lk_Index k = lk_Index k0 \<and> lk_Type k = lk_Type k0 \<and>
      (lk_MasterIndex k = lk_MasterIndex k0 \<or> lk_MasterIndex k = 0)" by auto
qed (use assms in \<open>auto simp: shrinks_def\<close>)

lemma shrinks_physical: "shrinks L L' \<Longrightarrow> physical_in L' i = physical_in L i"
  unfolding shrinks_def physical_in_def by metis

lemma shrinks_set_no_master: "shrinks L (map (\<lambda>k. if lk_Index k = i then k\<lparr>lk_MasterIndex := 0\<rparr> else k) L)"
proof -
  have "physical_in (map (\<lambda>k. if lk_Index k = i then k\<lparr>lk_MasterIndex := 0\<rparr> else k) L) j" if j: "physical_in L j" for j
  proof -
    obtain k where "k \<in> set L" "lk_Index k = j" "lk_Type k = physicalLinkType" using j by (auto simp: physical_in_def)
    then show ?thesis unfolding physical_in_def
      by (intro bexI [of _ "if lk_Index k = i then k\<lparr>lk_MasterIndex := 0\<rparr> else k"]) auto
  qed
  then show ?thesis unfolding shrinks_def by auto
qed

text \<open>A link that was dealt with is gone or, when it is physical, has no master any more.\<close>

definition dealt_with :: "link list \<Rightarrow> link \<Rightarrow> bool" where
  "dealt_with L d \<longleftrightarrow> (\<forall>k \<in> set L. lk_Index k = lk_Index d \<longrightarrow> lk_Type d = physicalLinkType \<and> lk_MasterIndex k = 0)"

lemma dealt_with_shrinks:
  assumes "dealt_with L d" "shrinks L L'"
  shows "dealt_with L' d"
  unfolding dealt_with_def
proof (intro ballI impI)
  fix k assume "k \<in> set L'" "lk_Index k = lk_Index d"
  then obtain k0 where "k0 \<in> set L" "lk_Index k0 = lk_Index d" "lk_MasterIndex k = lk_MasterIndex k0 \<or> lk_MasterIndex k = 0"
    using assms(2) unfolding shrinks_def by metis
  with assms(1) show "lk_Type d = physicalLinkType \<and> lk_MasterIndex k = 0" unfolding dealt_with_def by auto
qed

lemma detach_link_effect:
  assumes k: "net_kernel nl links routes fam" and d: "lk_Type d \<noteq> physicalLinkType \<Longrightarrow> \<not> physical_in (links w) (lk_Index d)"
  shows "shrinks (links w) (links (detach_link nl d w)) \<and> dealt_with (links (detach_link nl d w)) d \<and> routes (detach_link nl d w) \<subseteq> routes w"
proof (cases "lk_Type d = physicalLinkType")
  case True
  with net_kernelD(5) [OF k, of w d] show ?thesis by (auto simp: detach_link_def shrinks_set_no_master dealt_with_def)
next
  case False
  with net_kernelD(4) [OF k d [OF False]] show ?thesis by (auto simp: detach_link_def dealt_with_def image_iff)
qed

lemma detach_all:
  assumes k: "net_kernel nl links routes fam"
    and "\<forall>d \<in> set ds. lk_Type d \<noteq> physicalLinkType \<longrightarrow> \<not> physical_in (links w) (lk_Index d)"
  shows "shrinks (links w) (links (fold (detach_link nl) ds w)) \<and> (\<forall>d \<in> set ds. dealt_with (links (fold (detach_link nl) ds w)) d) \<and>
    routes (fold (detach_link nl) ds w) \<subseteq> routes w"
  using assms(2)
proof (induction ds arbitrary: w)
  case (Cons d ds)
  have d: "shrinks (links w) (links (detach_link nl d w)) \<and> dealt_with (links (detach_link nl d w)) d \<and> routes (detach_link nl d w) \<subseteq> routes w"
    using Cons(2) by (intro detach_link_effect [OF k]) auto
  have ih: "shrinks (links (detach_link nl d w)) (links (fold (detach_link nl) ds (detach_link nl d w))) \<and>
    (\<forall>d' \<in> set ds. dealt_with (links (fold (detach_link nl) ds (detach_link nl d w))) d') \<and>
    routes (fold (detach_link nl) ds (detach_link nl d w)) \<subseteq> routes (detach_link nl d w)"
    using Cons(2) d by (intro Cons(1)) (auto simp: shrinks_physical)
  have "shrinks (links w) (links (fold (detach_link nl) ds (detach_link nl d w)))" using d ih shrinks_trans by blast
  moreover have "dealt_with (links (fold (detach_link nl) ds (detach_link nl d w))) d" using d ih dealt_with_shrinks by blast
  ultimately show ?case using d ih by auto
qed (simp add: shrinks_refl)

lemma del_routes_effect:
  assumes k: "net_kernel nl links routes fam"
  shows "links (snd (del_routes nl rs w)) = links w \<and> routes (snd (del_routes nl rs w)) = routes w - set rs"
proof (induction rs arbitrary: w)
  case (Cons r rs)
  obtain res w1 where r: "nl_RouteDel nl w r = (res, w1)" by fastforce
  have "snd (del_routes nl (r # rs) w) = snd (del_routes nl rs w1)" by (simp add: r split: prod.splits sum.splits)
  with Cons [of w1] net_kernelD(7) [OF k, of w r] r show ?case by auto
qed simp

lemma flushTable_effect:
  assumes k: "net_kernel nl links routes fam"
  shows "links (snd (flushTable nl tb w)) = links w \<and> routes (snd (flushTable nl tb w)) = {r \<in> routes w. rt_Table r \<noteq> tb}"
proof -
  have fl: "links (snd (flush_family nl tb f w)) = links w \<and>
    routes (snd (flush_family nl tb f w)) = routes w - {r \<in> routes w. rt_Table r = tb \<and> fam r = f}" for f w
    using net_kernelD(6) [OF k, of w f tb] del_routes_effect [OF k] by (auto simp: flush_family_def)
  obtain e1 w1 e2 w2 where w1: "flush_family nl tb FAMILY_V4 w = (e1, w1)" "flush_family nl tb FAMILY_V6 w1 = (e2, w2)" by fastforce
  have "fam r = FAMILY_V4 \<or> fam r = FAMILY_V6" for r by (cases "fam r") auto
  with fl [of FAMILY_V4 w] fl [of FAMILY_V6 w1] show ?thesis by (auto simp: flushTable_def w1)
qed

text \<open>
  C31: tearing down a target's VRF leaves nothing behind and takes no hardware with it. On a working
  kernel, the VRF is gone and no link has it as master; every virtual link that led to it is deleted;
  every physical link still exists, and those that led to the VRF are released; and no route is left
  in its table.
\<close>

theorem teardown_leaves_nothing:
  assumes k: "net_kernel nl links routes fam" and t: "tv_Vrf t = Some v"
    and vrf: "nl_LinkByName nl w (lk_Name v) = Inr vrf" "lk_Index vrf \<noteq> 0" "lk_Type vrf \<noteq> physicalLinkType"
  shows "let w' = TargetVRF_Teardown nl t w in
    (\<forall>l \<in> set (links w'). lk_Index l \<noteq> lk_Index vrf \<and> lk_MasterIndex l \<noteq> lk_Index vrf) \<and>
    (\<forall>l \<in> set (links w). (lk_Index vrf, lk_Index l) \<in> (master_edges (links w))\<^sup>+ \<and> lk_Index l \<noteq> lk_Index vrf \<longrightarrow>
       (if lk_Type l = physicalLinkType then \<exists>l' \<in> set (links w'). lk_Index l' = lk_Index l \<and> lk_MasterIndex l' = 0
        else lk_Index l \<notin> lk_Index ` set (links w'))) \<and>
    (\<forall>l \<in> set (links w). lk_Type l = physicalLinkType \<longrightarrow> lk_Index l \<in> lk_Index ` set (links w')) \<and>
    (\<forall>r \<in> routes w'. r \<in> routes w \<and> rt_Table r \<noteq> lk_Table v)"
proof -
  let ?vi = "lk_Index vrf"
  let ?ds = "vrfDescendants ?vi (links w)"
  define w0 where "w0 = fold (detach_link nl) ?ds w"
  define w1 where "w1 = snd (nl_LinkDel nl w0 vrf)"
  have w': "TargetVRF_Teardown nl t w = snd (flushTable nl (lk_Table v) w1)"
    by (simp add: TargetVRF_Teardown_def t vrf(1) net_kernelD(2) [OF k] w1_def w0_def)
  note fl = flushTable_effect [OF k, of "lk_Table v" w1]
  have ds: "set ?ds = {l \<in> set (links w). (?vi, lk_Index l) \<in> (master_edges (links w))\<^sup>+ \<and> lk_Index l \<noteq> ?vi}"
    using walk_finds_exactly [OF net_kernelD(1) [OF k], of ?vi w] by blast
  have virt: "\<not> physical_in (links w) (lk_Index d)" if "d \<in> set (links w)" "lk_Type d \<noteq> physicalLinkType" for d
    using that net_kernelD(1) [OF k, of w] by (auto simp: physical_in_def distinct_map dest: inj_onD)
  have all: "shrinks (links w) (links w0) \<and> (\<forall>d \<in> set ?ds. dealt_with (links w0) d) \<and> routes w0 \<subseteq> routes w"
    unfolding w0_def using virt ds by (intro detach_all [OF k]) auto
  have "\<not> physical_in (links w0) ?vi" using virt [OF net_kernelD(3) [OF k vrf(1)] vrf(3)] all shrinks_physical by blast
  from net_kernelD(4) [OF k this, folded w1_def]
  have del: "shrinks (links w0) (links w1) \<and> ?vi \<notin> lk_Index ` set (links w1) \<and> routes w1 \<subseteq> routes w0" .
  have sh: "shrinks (links w) (links w1)" using all del shrinks_trans by blast
  have dealt: "dealt_with (links w1) d" if "d \<in> set ?ds" for d using that all del dealt_with_shrinks by blast
  have no_master: "lk_MasterIndex l \<noteq> ?vi" if l: "l \<in> set (links w1)" for l
  proof
    assume m: "lk_MasterIndex l = ?vi"
    from sh l obtain l0 where l0: "l0 \<in> set (links w)" "lk_Index l = lk_Index l0" "lk_MasterIndex l0 = ?vi"
      using m vrf(2) unfolding shrinks_def by metis
    then have "(?vi, lk_Index l0) \<in> master_edges (links w)"
      unfolding master_edges_def using vrf(2) by (intro CollectI exI [of _ l0]) simp
    moreover have "lk_Index l0 \<noteq> ?vi" using l l0(2) del by (metis imageI)
    ultimately have "l0 \<in> set ?ds" using ds l0(1) by blast
    from dealt [OF this] l l0(2) m vrf(2) show False by (auto simp: dealt_with_def)
  qed
  have gone: "if lk_Type d = physicalLinkType then \<exists>l' \<in> set (links w1). lk_Index l' = lk_Index d \<and> lk_MasterIndex l' = 0
      else lk_Index d \<notin> lk_Index ` set (links w1)" if d: "d \<in> set ?ds" for d
  proof (cases "lk_Type d = physicalLinkType")
    case True
    have "d \<in> set (links w)" using d ds by blast
    with True sh obtain k where "k \<in> set (links w1)" "lk_Index k = lk_Index d" unfolding shrinks_def physical_in_def by metis
    with dealt [OF d] True show ?thesis by (auto simp: dealt_with_def)
  next
    case False
    with dealt [OF d] show ?thesis by (auto simp: dealt_with_def)
  qed
  have phys: "lk_Index l \<in> lk_Index ` set (links w1)" if l: "l \<in> set (links w)" "lk_Type l = physicalLinkType" for l
  proof -
    from l sh obtain k where "k \<in> set (links w1)" "lk_Index k = lk_Index l" unfolding shrinks_def physical_in_def by metis
    then show ?thesis by (metis imageI)
  qed
  have noidx: "lk_Index l \<noteq> ?vi" if "l \<in> set (links w1)" for l using that del by (metis imageI)
  have "routes w1 \<subseteq> routes w" using all del by blast
  then have rts: "\<forall>r \<in> routes (snd (flushTable nl (lk_Table v) w1)). r \<in> routes w \<and> rt_Table r \<noteq> lk_Table v" using fl by auto
  show ?thesis unfolding Let_def w' using fl no_master noidx gone phys rts ds by simp
qed

text \<open>A concrete kernel: the indices of the links deleted, those of the links released, and the routes.\<close>

type_synonym ex_world = "int set \<times> int set \<times> route list"

fun ex_release :: "ex_world \<Rightarrow> link \<Rightarrow> link" where
  "ex_release (D, F, R) l = (if lk_Index l \<in> F \<or> lk_MasterIndex l \<in> D then l\<lparr>lk_MasterIndex := 0\<rparr> else l)"

definition ex_present :: "ex_world \<Rightarrow> link list" where
  "ex_present w = map (ex_release w) (filter (\<lambda>l. lk_Index l \<notin> fst w) ex_links)"

definition ex_family :: "route \<Rightarrow> family" where
  "ex_family r = (case rt_Dst r of Some (ip, _) \<Rightarrow> if length ip = 4 then FAMILY_V4 else FAMILY_V6 | None \<Rightarrow> FAMILY_V6)"

definition ex_netlink :: "ex_world netlink" where
  "ex_netlink = \<lparr>
     nl_LinkByName = (\<lambda>w n. case find (\<lambda>l. lk_Name l = n) (ex_present w) of Some l \<Rightarrow> Inr l | None \<Rightarrow> Inl (TypedError ''LinkNotFoundError'')),
     nl_LinkList = (\<lambda>w. Inr (ex_present w)),
     nl_LinkAdd = (\<lambda>w l. (Inl (TypedError ''EPERM''), w)),
     nl_LinkDel = (\<lambda>(D, F, R) l. if lk_Index l = 3 then (Inl (TypedError ''EOPNOTSUPP''), (D, F, R)) else (Inr (), (insert (lk_Index l) D, F, R))),
     nl_LinkSetUp = (\<lambda>w l. (Inr (), w)),
     nl_LinkSetMaster = (\<lambda>w l m. (Inl (TypedError ''EPERM''), w)),
     nl_LinkSetNoMaster = (\<lambda>(D, F, R) l. (Inr (), (D, insert (lk_Index l) F, R))),
     nl_AddrAdd = (\<lambda>w l a. (Inr (), w)),
     nl_RouteAdd = (\<lambda>(D, F, R) r. (Inr (), (D, F, r # R))),
     nl_RouteReplace = (\<lambda>(D, F, R) r. (Inr (), (D, F, r # R))),
     nl_RouteDel = (\<lambda>(D, F, R) r. (Inr (), (D, F, filter (\<lambda>r'. r' \<noteq> r) R))),
     nl_RouteList = (\<lambda>(D, F, R) f t. Inr (filter (\<lambda>r. rt_Table r = t \<and> ex_family r = f) R))\<rparr>"

lemma ex_release_sel [simp]:
  "lk_Index (ex_release w l) = lk_Index l" "lk_Type (ex_release w l) = lk_Type l" "lk_Name (ex_release w l) = lk_Name l"
  by (cases w; simp)+

lemma ex_links_physical: "k \<in> set ex_links \<Longrightarrow> lk_Type k = physicalLinkType \<longleftrightarrow> lk_Index k = 3"
  by (auto simp: ex_links_def)

lemma ex_present_set: "k \<in> set (ex_present w) \<longleftrightarrow> (\<exists>l \<in> set ex_links. lk_Index l \<notin> fst w \<and> k = ex_release w l)"
  by (auto simp: ex_present_def)

lemma ex_present_index: "lk_Index ` set (ex_present w) = lk_Index ` set ex_links - fst w"
  by (auto simp: ex_present_def image_image)

lemma ex_physical: "physical_in (ex_present w) i \<longleftrightarrow> i = 3 \<and> 3 \<notin> fst w"
proof -
  have "\<exists>l \<in> set ex_links. lk_Index l = 3" by (simp add: ex_links_def)
  moreover have "physical_in (ex_present w) i \<longleftrightarrow>
    (\<exists>l \<in> set ex_links. lk_Index l \<notin> fst w \<and> lk_Index l = i \<and> lk_Type l = physicalLinkType)"
    unfolding physical_in_def ex_present_def by auto
  ultimately show ?thesis using ex_links_physical by (metis (full_types))
qed

lemma ex_shrinks:
  assumes "D \<subseteq> D'" "3 \<in> D' \<Longrightarrow> 3 \<in> D"
  shows "shrinks (ex_present (D, F, R)) (ex_present (D', F, R))"
  unfolding shrinks_def ex_physical
proof (intro conjI ballI allI impI)
  fix k assume "k \<in> set (ex_present (D', F, R))"
  then obtain l where l: "l \<in> set ex_links" "lk_Index l \<notin> D'" "k = ex_release (D', F, R) l" by (auto simp: ex_present_set)
  then have "ex_release (D, F, R) l \<in> set (ex_present (D, F, R))" using assms(1) by (auto simp: ex_present_def)
  moreover have "lk_MasterIndex k = lk_MasterIndex (ex_release (D, F, R) l) \<or> lk_MasterIndex k = 0" using l(3) assms(1) by auto
  ultimately show "\<exists>k0 \<in> set (ex_present (D, F, R)). lk_Index k = lk_Index k0 \<and> lk_Type k = lk_Type k0 \<and>
      (lk_MasterIndex k = lk_MasterIndex k0 \<or> lk_MasterIndex k = 0)"
    using l(3) by (metis ex_release_sel(1,2))
qed (use assms(2) in auto)

lemma ex_net_kernel: "net_kernel ex_netlink ex_present (\<lambda>(D, F, R). set R) ex_family"
  unfolding net_kernel_def
proof (intro conjI allI impI)
  fix w :: ex_world
  have "distinct (map lk_Index ex_links)" by (simp add: ex_links_def)
  then show "distinct (map lk_Index (ex_present w))" by (simp add: ex_present_def distinct_map inj_on_def)
  show "nl_LinkList ex_netlink w = Inr (ex_present w)" by (simp add: ex_netlink_def)
next
  fix w n l assume "nl_LinkByName ex_netlink w n = Inr l"
  then show "l \<in> set (ex_present w)" by (auto simp: ex_netlink_def find_Some_iff split: option.splits)
next
  fix w :: ex_world and l :: link assume "\<not> physical_in (ex_present w) (lk_Index l)"
  then have p: "lk_Index l = 3 \<Longrightarrow> 3 \<in> fst w" by (simp add: ex_physical)
  obtain D F R where w: "w = (D, F, R)" by (cases w)
  show "shrinks (ex_present w) (ex_present (snd (nl_LinkDel ex_netlink w l)))"
    by (auto simp: w ex_netlink_def shrinks_refl intro!: ex_shrinks)
  show "lk_Index l \<notin> lk_Index ` set (ex_present (snd (nl_LinkDel ex_netlink w l)))"
    using p by (auto simp: w ex_netlink_def ex_present_index)
  show "(case snd (nl_LinkDel ex_netlink w l) of (D, F, R) \<Rightarrow> set R) \<subseteq> (case w of (D, F, R) \<Rightarrow> set R)"
    by (auto simp: w ex_netlink_def)
next
  fix w :: ex_world and l :: link
  obtain D F R where w: "w = (D, F, R)" by (cases w)
  show "ex_present (snd (nl_LinkSetNoMaster ex_netlink w l)) = map (\<lambda>k. if lk_Index k = lk_Index l then k\<lparr>lk_MasterIndex := 0\<rparr> else k) (ex_present w)"
    "(case snd (nl_LinkSetNoMaster ex_netlink w l) of (D, F, R) \<Rightarrow> set R) = (case w of (D, F, R) \<Rightarrow> set R)"
    by (auto simp: w ex_netlink_def ex_present_def)
next
  fix w :: ex_world and f t
  show "\<exists>rs. nl_RouteList ex_netlink w f t = Inr rs \<and> set rs = {r \<in> (case w of (D, F, R) \<Rightarrow> set R). rt_Table r = t \<and> ex_family r = f}"
    by (cases w) (auto simp: ex_netlink_def)
next
  fix w :: ex_world and r :: route
  obtain D F R where w: "w = (D, F, R)" by (cases w)
  have "ex_release (D, F, R) = ex_release (D, F, filter (\<lambda>r'. r' \<noteq> r) R)" by (rule ext) simp
  then show "ex_present (snd (nl_RouteDel ex_netlink w r)) = ex_present w" by (simp add: w ex_netlink_def ex_present_def)
  show "(case snd (nl_RouteDel ex_netlink w r) of (D, F, R) \<Rightarrow> set R) = (case w of (D, F, R) \<Rightarrow> set R) - {r}"
    by (auto simp: w ex_netlink_def)
qed

theorem teardown_leaves_nothing_witness:
  "let w = ({}, {}, [empty_route\<lparr>rt_Dst := Some (replicate 4 0, replicate 4 0), rt_Table := 100, rt_Unreachable := True\<rparr>]);
       t = \<lparr>tv_Vrf = Some (ex_links ! 0), tv_NfCIDR = no_network, tv_Tunnel = ''v1'',
            tv_TunnelAddrs = no_address, tv_RouterTunnel = '''', tv_RouterTunnelAddrs = no_address\<rparr>;
       w' = TargetVRF_Teardown ex_netlink t w
   in snd (snd w') = [] \<and> list_all (\<lambda>l. lk_Index l \<noteq> 7 \<and> lk_Index l \<noteq> 9) (ex_present w')"
proof -
  let ?w = "({}, {}, [empty_route\<lparr>rt_Dst := Some (replicate 4 0, replicate 4 0), rt_Table := 100, rt_Unreachable := True\<rparr>]) :: ex_world"
  let ?t = "\<lparr>tv_Vrf = Some (ex_links ! 0), tv_NfCIDR = no_network, tv_Tunnel = ''v1'',
            tv_TunnelAddrs = no_address, tv_RouterTunnel = '''', tv_RouterTunnelAddrs = no_address\<rparr>"
  define w' where "w' = TargetVRF_Teardown ex_netlink ?t ?w"
  have links: "ex_present ?w = ex_links" by (simp add: ex_present_def map_idI)
  have vrf: "nl_LinkByName ex_netlink ?w (lk_Name (ex_links ! 0)) = Inr (ex_links ! 0)" "lk_Index (ex_links ! 0) = 7" "lk_Type (ex_links ! 0) \<noteq> physicalLinkType"
    "lk_Table (ex_links ! 0) = 100"
    by (simp_all add: ex_netlink_def links) (simp_all add: ex_links_def)
  have br: "ex_links ! 1 \<in> set ex_links" "lk_Index (ex_links ! 1) = 9" "lk_MasterIndex (ex_links ! 1) = 7" "lk_Type (ex_links ! 1) \<noteq> physicalLinkType"
    by (simp_all add: ex_links_def)
  then have "(7, 9) \<in> master_edges ex_links" unfolding master_edges_def by (intro CollectI exI [of _ "ex_links ! 1"]) simp
  then have e: "(7, 9) \<in> (master_edges ex_links)\<^sup>+" by (rule r_into_trancl)
  have t: "tv_Vrf ?t = Some (ex_links ! 0)" "lk_Index (ex_links ! 0) \<noteq> 0" using vrf(2) by simp_all
  note tl = teardown_leaves_nothing [OF ex_net_kernel t(1) vrf(1) t(2) vrf(3), unfolded Let_def, folded w'_def, unfolded links vrf(2,4)]
  have routes: "\<forall>r \<in> (case w' of (D, F, R) \<Rightarrow> set R). rt_Table r = 100 \<and> rt_Table r \<noteq> 100"
    using tl [THEN conjunct2, THEN conjunct2, THEN conjunct2] by fastforce
  have seven: "\<forall>l \<in> set (ex_present w'). lk_Index l \<noteq> 7" using tl [THEN conjunct1] by blast
  have "lk_Index (ex_links ! 1) \<notin> lk_Index ` set (ex_present w')" using tl [THEN conjunct2, THEN conjunct1] br e by auto
  then have nine: "9 \<notin> lk_Index ` set (ex_present w')" using br(2) by simp
  have "snd (snd w') = []" using routes by (cases w') auto
  then show ?thesis unfolding Let_def w'_def [symmetric] using seven nine by (auto simp: list_all_iff)
qed

end
