(* ===== verification/Subnets.thy ===== *)
theory Subnets
  imports TargetVrf
begin

text \<open>
  The subnets of the software dataplane (\<open>src/daemon/pkg/dataplane/vrf/appsubnet.go\<close>,
  \<open>routingsubnet.go\<close>) and the allocators behind them (\<open>src/daemon/pkg/dataplane/alloc.go\<close>). An application
  has subnets of its own, each a VRF with a bridge; the routing subnet connects them, the targets and
  the other nodes. The address library (iplib) and netlink are parameters.
\<close>

section \<open>Allocators of networks and addresses\<close>

text \<open>iplib: the network of a prefix length around an address, its successor of a given length, and the next address.\<close>

record iplib =
  il_NewNet :: "bytes \<Rightarrow> int \<Rightarrow> ip_net"
  il_NextNet :: "ip_net \<Rightarrow> int \<Rightarrow> ip_net"
  il_NextIP :: "ip_net \<Rightarrow> bytes \<Rightarrow> bytes \<times> go_error option"

text \<open>Go's \<open>net.IPMask.Size\<close> and \<open>net.IPNet.Contains\<close>.\<close>

definition mask_length :: "bytes \<Rightarrow> nat option" where
  "mask_length m = find (\<lambda>n. CIDRMask (int n) (int (8 * length m)) = m) [0..<Suc (8 * length m)]"

definition mask_ones :: "bytes \<Rightarrow> int" where
  "mask_ones m = (case mask_length m of Some n \<Rightarrow> int n | None \<Rightarrow> 0)"

definition networkNumberAndMask :: "ip_net \<Rightarrow> ip_net option" where
  "networkNumberAndMask n =
     (case n of (b, m) \<Rightarrow>
        case (case net_To4 b of Some b4 \<Rightarrow> Some b4 | None \<Rightarrow> if length b = 16 then Some b else None) of
          None \<Rightarrow> None
        | Some ip \<Rightarrow>
            if length m = 4 then (if length ip = 4 then Some (ip, m) else None)
            else if length m = 16 then Some (ip, if length ip = 4 then drop 12 m else m)
            else None)"

definition IPNet_Contains :: "ip_net \<Rightarrow> bytes \<Rightarrow> bool" where
  "IPNet_Contains n ip0 =
     (let ip = (case net_To4 ip0 of Some b4 \<Rightarrow> b4 | None \<Rightarrow> ip0) in
      case networkNumberAndMask n of
        None \<Rightarrow> ip = []
      | Some (nn, m) \<Rightarrow> length ip = length nn \<and> list_all (\<lambda>(a, b, k). a AND k = b AND k) (zip nn (zip ip m)))"

text \<open>\<open>net.IPNet.String\<close>; the receiver may be nil.\<close>

definition hex_string :: "bytes \<Rightarrow> string" where
  "hex_string m = concat (map (\<lambda>b. [hex_char (unat b div 16), hex_char (unat b mod 16)]) m)"

definition IPNet_String :: "ip_net option \<Rightarrow> string" where
  "IPNet_String n =
     (case n of None \<Rightarrow> ''<nil>''
      | Some ipn \<Rightarrow>
          (case networkNumberAndMask ipn of
             None \<Rightarrow> ''<nil>''
           | Some (nn, m) \<Rightarrow>
               (case mask_length m of
                  None \<Rightarrow> net_IP_String nn @ ''/'' @ hex_string m
                | Some l \<Rightarrow> net_IP_String nn @ ''/'' @ format_nat l)))"

record SubnetAllocator =
  sn_baseNet :: ip_net
  sn_last :: "ip_net option"
  sn_prefix :: int

definition NewSubnet4Allocator :: "ip_net option \<Rightarrow> int \<Rightarrow> go_error + SubnetAllocator" where
  "NewSubnet4Allocator baseNet prefix =
     (case baseNet of
        None \<Rightarrow> Inl (Errorf ''base network is nil'' None)
      | Some b \<Rightarrow>
          if length (fst b) \<noteq> 4 then Inl (Errorf ''base network is not a valid IPv4 network'' None)
          else if prefix \<le> 0 \<or> prefix > 32 then Inl (Errorf ''invalid prefix length'' None)
          else Inr \<lparr>sn_baseNet = b, sn_last = None, sn_prefix = prefix\<rparr>)"

definition is_ipv6_net :: "ip_net \<Rightarrow> bool" where
  "is_ipv6_net b \<longleftrightarrow> (length (fst b) = 4 \<or> length (fst b) = 16) \<and> net_To4 (fst b) = None"

definition NewSubnet6Allocator :: "ip_net option \<Rightarrow> int \<Rightarrow> go_error + SubnetAllocator" where
  "NewSubnet6Allocator baseNet prefix =
     (case baseNet of
        None \<Rightarrow> Inl (Errorf ''base network is nil'' None)
      | Some b \<Rightarrow>
          if \<not> is_ipv6_net b then Inl (Errorf ''base network is not a valid IPv6 network'' None)
          else if prefix \<le> 0 \<or> prefix > 128 then Inl (Errorf ''invalid prefix length'' None)
          else Inr \<lparr>sn_baseNet = b, sn_last = None, sn_prefix = prefix\<rparr>)"

text \<open>The two methods differ only in the library's type.\<close>

definition SubnetAllocator_Allocate :: "iplib \<Rightarrow> SubnetAllocator \<Rightarrow> go_error + (ip_net \<times> SubnetAllocator)" where
  "SubnetAllocator_Allocate il sa =
     (let subnet = (case sn_last sa of
                      None \<Rightarrow> il_NewNet il (fst (sn_baseNet sa)) (sn_prefix sa)
                    | Some l \<Rightarrow> il_NextNet il l (sn_prefix sa))
      in if \<not> IPNet_Contains (sn_baseNet sa) (fst subnet) then Inl (Errorf ''no more subnets available in the base network'' None)
         else Inr (subnet, sa\<lparr>sn_last := Some subnet\<rparr>))"

record IPAllocator =
  ia_baseNet :: ip_net
  ia_lastIP :: "bytes option"

definition NewIPv4Allocator :: "iplib \<Rightarrow> ip_net option \<Rightarrow> go_error + IPAllocator" where
  "NewIPv4Allocator il baseNet =
     (case baseNet of
        None \<Rightarrow> Inl (Errorf ''base network is nil'' None)
      | Some b \<Rightarrow>
          if length (fst b) \<noteq> 4 then Inl (Errorf ''base network is not a valid IPv4 network'' None)
          else Inr \<lparr>ia_baseNet = il_NewNet il (fst b) (mask_ones (snd b)), ia_lastIP = None\<rparr>)"

definition NewIPv6Allocator :: "iplib \<Rightarrow> ip_net option \<Rightarrow> go_error + IPAllocator" where
  "NewIPv6Allocator il baseNet =
     (case baseNet of
        None \<Rightarrow> Inl (Errorf ''base network is nil'' None)
      | Some b \<Rightarrow>
          if \<not> is_ipv6_net b then Inl (Errorf ''base network is not a valid IPv6 network'' None)
          else Inr \<lparr>ia_baseNet = il_NewNet il (fst b) (mask_ones (snd b)), ia_lastIP = None\<rparr>)"

text \<open>The error of the first call is dropped.\<close>

definition IPAllocator_Allocate :: "iplib \<Rightarrow> IPAllocator \<Rightarrow> go_error + (ip_net \<times> IPAllocator)" where
  "IPAllocator_Allocate il a =
     (let hand_out = (\<lambda>newIP. Inr ((newIP, snd (ia_baseNet a)), a\<lparr>ia_lastIP := Some newIP\<rparr>)) in
      case ia_lastIP a of
        None \<Rightarrow> hand_out (fst (il_NextIP il (ia_baseNet a) (fst (ia_baseNet a))))
      | Some l \<Rightarrow>
          (case il_NextIP il (ia_baseNet a) l of
             (_, Some err) \<Rightarrow> Inl (Wrapf ''no more IPs available in the base network'' err)
           | (newIP, None) \<Rightarrow> hand_out newIP))"

section \<open>Application subnets\<close>

datatype StackType = UnknownStack | IPv4Only | IPv6Only | DualStack

record AppSubnet =
  as_Networks :: DualStackNetwork
  as_GatewayIPs :: DualStackAddress
  as_Bridge :: "link option"
  as_Vrf :: "link option"
  as_IPv6Allocator :: "IPAllocator option"
  as_IPv4Allocator :: "IPAllocator option"
  as_Tunnel :: string

definition stack_of :: "DualStackNetwork \<Rightarrow> StackType" where
  "stack_of n =
     (if dsn_IPv4Net n \<noteq> None \<and> dsn_IPv6Net n \<noteq> None then DualStack
      else if dsn_IPv4Net n \<noteq> None then IPv4Only
      else if dsn_IPv6Net n \<noteq> None then IPv6Only else UnknownStack)"

definition AppSubnet_GetStack :: "AppSubnet \<Rightarrow> StackType" where
  "AppSubnet_GetStack s = stack_of (as_Networks s)"

definition TargetVRF_GetStack :: "TargetVRF \<Rightarrow> StackType" where
  "TargetVRF_GetStack t = stack_of (tv_NfCIDR t)"

definition AppSubnet_Teardown :: "'w netlink \<Rightarrow> AppSubnet \<Rightarrow> 'w \<Rightarrow> 'w" where
  "AppSubnet_Teardown nl s w =
     (let w1 = (case as_Bridge s of None \<Rightarrow> w | Some b \<Rightarrow> snd (nl_LinkDel nl w b));
          w2 = (if as_Tunnel s = '''' then w1
                else case nl_LinkByName nl w1 (as_Tunnel s) of Inl _ \<Rightarrow> w1 | Inr tun \<Rightarrow> snd (nl_LinkDel nl w1 tun))
      in case as_Vrf s of None \<Rightarrow> w2 | Some v \<Rightarrow> snd (nl_LinkDel nl w2 v))"

text \<open>A step of a constructor: on an error, undo and return it wrapped.\<close>

definition or_undo :: "(go_error + 'a) \<times> 'w \<Rightarrow> string \<Rightarrow> ('w \<Rightarrow> 'w) \<Rightarrow> ('a \<Rightarrow> 'w \<Rightarrow> (go_error + 'b) \<times> 'w) \<Rightarrow> (go_error + 'b) \<times> 'w" where
  "or_undo p msg undo k = (case p of (Inl err, w) \<Rightarrow> (Inl (Wrapf msg err), undo w) | (Inr x, w) \<Rightarrow> k x w)"

text \<open>The index of a link that was just added: the library call fills it in.\<close>

definition index_of :: "'w netlink \<Rightarrow> 'w \<Rightarrow> string \<Rightarrow> int" where
  "index_of nl w name = (case nl_LinkByName nl w name of Inr l \<Rightarrow> lk_Index l | Inl _ \<Rightarrow> 0)"

text \<open>One family of a new subnet: its allocator and the gateway, its first address.\<close>

definition with_gateway :: "(ip_net option \<Rightarrow> go_error + IPAllocator) \<Rightarrow> iplib \<Rightarrow> ip_net option \<Rightarrow> go_error + (IPAllocator \<times> ip_net) option" where
  "with_gateway new il net =
     (case net of
        None \<Rightarrow> Inr None
      | Some _ \<Rightarrow>
          (case new net of
             Inl err \<Rightarrow> Inl (Wrapf ''failed to create allocator for application subnet'' err)
           | Inr a \<Rightarrow>
               (case IPAllocator_Allocate il a of
                  Inl err \<Rightarrow> Inl (Wrapf ''failed to allocate gateway for application subnet'' err)
                | Inr (gw, a') \<Rightarrow> Inr (Some (a', gw)))))"

text \<open>\<open>rnd\<close> is the source of randomness. The gateway of an absent family is nil and is added all the same.\<close>

definition NewAppSubnet ::
  "'w netlink \<Rightarrow> iplib \<Rightarrow> iplib \<Rightarrow> (nat \<Rightarrow> go_error + bytes) \<Rightarrow> ip_net option \<Rightarrow> ip_net option \<Rightarrow> 32 word \<Rightarrow> 'w \<Rightarrow> (go_error + AppSubnet) \<times> 'w" where
  "NewAppSubnet nl il4 il6 rnd ip4Net ip6Net tableID w =
     (if ip6Net = None \<and> ip4Net = None then (Inl (Errorf ''ip6Net and ip4Net cant both be nil. Provide at least one of them'' None), w)
      else
      case with_gateway (NewIPv4Allocator il4) il4 ip4Net of Inl err \<Rightarrow> (Inl err, w) | Inr g4 \<Rightarrow>
      case with_gateway (NewIPv6Allocator il6) il6 ip6Net of Inl err \<Rightarrow> (Inl err, w) | Inr g6 \<Rightarrow>
      (let appVrf = empty_link\<lparr>lk_Name := GetVRFName tableID, lk_Type := ''vrf'', lk_Table := int (unat tableID)\<rparr>;
           gw = (\<lambda>g. map_option (fst \<circ> snd) g);
           subnet0 = \<lparr>as_Networks = \<lparr>dsn_IPv4Net = ip4Net, dsn_IPv6Net = ip6Net\<rparr>, as_GatewayIPs = \<lparr>dsa_IPv4 = gw g4, dsa_IPv6 = gw g6\<rparr>,
                      as_Bridge = None, as_Vrf = None, as_IPv6Allocator = map_option fst g6, as_IPv4Allocator = map_option fst g4, as_Tunnel = ''''\<rparr>
       in case nl_LinkAdd nl w appVrf of
            (Inl err, w1) \<Rightarrow> (Inl (Wrapf ''failed to add VRF for application subnet'' err), w1)
          | (Inr _, w1) \<Rightarrow>
              (let subnet = subnet0\<lparr>as_Vrf := Some appVrf\<rparr>; undo = AppSubnet_Teardown nl subnet in
               or_undo (nl_LinkSetUp nl w1 appVrf) ''failed to set up VRF for application subnet'' undo (\<lambda>_ w2.
               or_undo (GenerateRandomName rnd ''br'' 8, w2) ''failed to generate bridge name'' undo (\<lambda>bridgeName w3.
                 let bridge = empty_link\<lparr>lk_Name := bridgeName, lk_MasterIndex := index_of nl w3 (lk_Name appVrf), lk_Type := ''bridge''\<rparr>
                 in or_undo (nl_LinkAdd nl w3 bridge) ''failed to add bridge'' undo (\<lambda>_ w4.
                    or_undo (nl_AddrAdd nl w4 bridge (map_option snd g6)) ''failed to add IPv6 address to bridge'' undo (\<lambda>_ w5.
                    or_undo (nl_AddrAdd nl w5 bridge (map_option snd g4)) ''failed to add IPv4 address to bridge'' undo (\<lambda>_ w6.
                      let subnet' = subnet\<lparr>as_Bridge := Some bridge\<rparr>
                      in or_undo (nl_LinkSetUp nl w6 bridge) ''failed to set up bridge'' (AppSubnet_Teardown nl subnet') (\<lambda>_ w7.
                         (Inr subnet', w7)))))))))) "

definition allocate_from :: "iplib \<Rightarrow> IPAllocator option \<Rightarrow> go_error + (ip_net \<times> IPAllocator)" where
  "allocate_from il a = (case a of None \<Rightarrow> Inl (TypedError ''nil pointer'') | Some al \<Rightarrow> IPAllocator_Allocate il al)"

text \<open>The addresses and the subnet with its advanced allocators; both may advance before the second fails.\<close>

definition AppSubnet_AllocateIPs :: "iplib \<Rightarrow> iplib \<Rightarrow> AppSubnet \<Rightarrow> (go_error + DualStackNetwork) \<times> AppSubnet" where
  "AppSubnet_AllocateIPs il4 il6 s =
     (case AppSubnet_GetStack s of
        IPv4Only \<Rightarrow>
          (case allocate_from il4 (as_IPv4Allocator s) of
             Inl err \<Rightarrow> (Inl err, s)
           | Inr (ipv4, a) \<Rightarrow> (Inr (no_network\<lparr>dsn_IPv4Net := Some ipv4\<rparr>), s\<lparr>as_IPv4Allocator := Some a\<rparr>))
      | IPv6Only \<Rightarrow>
          (case allocate_from il6 (as_IPv6Allocator s) of
             Inl err \<Rightarrow> (Inl err, s)
           | Inr (ipv6, a) \<Rightarrow> (Inr (no_network\<lparr>dsn_IPv4Net := Some ipv6\<rparr>), s\<lparr>as_IPv6Allocator := Some a\<rparr>))
      | DualStack \<Rightarrow>
          (case allocate_from il6 (as_IPv6Allocator s) of
             Inl err \<Rightarrow> (Inl err, s)
           | Inr (ipv6, a) \<Rightarrow>
               (let s1 = s\<lparr>as_IPv6Allocator := Some a\<rparr> in
                case allocate_from il4 (as_IPv4Allocator s) of
                  Inl err \<Rightarrow> (Inl err, s1)
                | Inr (ipv4, a4) \<Rightarrow> (Inr \<lparr>dsn_IPv4Net = Some ipv4, dsn_IPv6Net = Some ipv6\<rparr>, s1\<lparr>as_IPv4Allocator := Some a4\<rparr>)))
      | UnknownStack \<Rightarrow> (Inl (Errorf ''unknown stack type'' None), s))"

definition table_of :: "link option \<Rightarrow> int" where
  "table_of v = (case v of None \<Rightarrow> 0 | Some l \<Rightarrow> lk_Table l)"

text \<open>
  \<open>AddRoute\<close> of both subnets: \<open>put\<close> is \<open>RouteAdd\<close> for an application and \<open>RouteReplace\<close> for the routing subnet.
  Whether a family is routed is decided by its gateway, not by its destination.
\<close>

definition add_family_route ::
  "('w \<Rightarrow> route \<Rightarrow> 'w call) \<Rightarrow> int \<Rightarrow> int \<Rightarrow> ip_net option \<Rightarrow> bytes option \<Rightarrow> 'w \<Rightarrow> 'w call" where
  "add_family_route put table index dst gw w =
     (case gw of
        None \<Rightarrow> (Inr (), w)
      | Some g \<Rightarrow>
          and_then (put w (empty_route\<lparr>rt_Dst := dst, rt_Gw := Some g, rt_Table := table, rt_LinkIndex := index\<rparr>))
            ''failed to add route to app subnet in routing VRF'' (\<lambda>_ w. (Inr (), w)))"

definition subnet_AddRoute ::
  "'w netlink \<Rightarrow> ('w \<Rightarrow> route \<Rightarrow> 'w call) \<Rightarrow> link option \<Rightarrow> DualStackNetwork \<Rightarrow> DualStackAddress \<Rightarrow> string \<Rightarrow> 'w \<Rightarrow> 'w call" where
  "subnet_AddRoute nl put vrf dst gw outInterface w =
     (if dsn_IsEmpty dst then (Inl (Errorf ''destination must contain at least one non-nil network'' None), w)
      else if dsn_IPv4Net dst \<noteq> None \<and> dsa_IPv4 gw = None then (Inl (Errorf ''gatewayIPs contains nil IPv4Gateway'' None), w)
      else if dsn_IPv6Net dst \<noteq> None \<and> dsa_IPv6 gw = None then (Inl (Errorf ''gatewayIPs contains nil IPv6Gateway'' None), w)
      else
        and_then (nl_LinkByName nl w outInterface, w) ''failed to get output interface from subnet'' (\<lambda>outIf w1.
        and_then (nl_LinkSetMaster nl w1 outIf (case vrf of Some v \<Rightarrow> v | None \<Rightarrow> empty_link)) ''failed to set master for router tunnel in routing subnet'' (\<lambda>_ w2.
        bind_err (add_family_route put (table_of vrf) (lk_Index outIf) (dsn_IPv6Net dst) (dsa_IPv6 gw) w2) (\<lambda>_ w3.
          add_family_route put (table_of vrf) (lk_Index outIf) (dsn_IPv4Net dst) (dsa_IPv4 gw) w3))))"

definition AppSubnet_AddRoute :: "'w netlink \<Rightarrow> AppSubnet \<Rightarrow> DualStackNetwork \<Rightarrow> DualStackAddress \<Rightarrow> string \<Rightarrow> 'w \<Rightarrow> 'w call" where
  "AppSubnet_AddRoute nl s = subnet_AddRoute nl (nl_RouteAdd nl) (as_Vrf s)"

definition everywhere :: DualStackNetwork where
  "everywhere = \<lparr>dsn_IPv4Net = Some (replicate 10 0 @ [0xFF, 0xFF] @ replicate 4 0, CIDRMask 0 32), dsn_IPv6Net = Some (replicate 16 0, CIDRMask 0 128)\<rparr>"

definition AppSubnet_AddDefaultRoute :: "'w netlink \<Rightarrow> AppSubnet \<Rightarrow> DualStackAddress \<Rightarrow> string \<Rightarrow> 'w \<Rightarrow> 'w call" where
  "AppSubnet_AddDefaultRoute nl s gatewayIPs tunnelInterfaceName = AppSubnet_AddRoute nl s everywhere gatewayIPs tunnelInterfaceName"

text \<open>A route through the VRF of another subnet; the same in both kinds of subnet.\<close>

definition subnet_AddRouteViaVRF :: "'w netlink \<Rightarrow> link option \<Rightarrow> DualStackNetwork \<Rightarrow> string \<Rightarrow> 'w \<Rightarrow> 'w call" where
  "subnet_AddRouteViaVRF nl own dst vrfName w =
     (if dsn_IsEmpty dst then (Inl (Errorf ''subnet must contain at least one non-nil network'' None), w)
      else and_then (nl_LinkByName nl w vrfName, w) ''failed to get VRF for destination subnet'' (\<lambda>vrf w1.
        let add = (\<lambda>d w. case d of None \<Rightarrow> (Inr (), w)
                    | Some n \<Rightarrow> and_then (nl_RouteAdd nl w (empty_route\<lparr>rt_Dst := Some n, rt_Table := table_of own, rt_LinkIndex := lk_Index vrf\<rparr>))
                                  ''failed to add route to app subnet in routing VRF'' (\<lambda>_ w. (Inr (), w)))
        in bind_err (add (dsn_IPv6Net dst) w1) (\<lambda>_ w2. add (dsn_IPv4Net dst) w2)))"

definition AppSubnet_AddRouteViaVRF :: "'w netlink \<Rightarrow> AppSubnet \<Rightarrow> DualStackNetwork \<Rightarrow> string \<Rightarrow> 'w \<Rightarrow> 'w call" where
  "AppSubnet_AddRouteViaVRF nl s = subnet_AddRouteViaVRF nl (as_Vrf s)"

text \<open>The other subnet, which may be nil, is given by its networks and the name of its VRF.\<close>

definition AppSubnet_AddDefaultRouteViaSubnet :: "'w netlink \<Rightarrow> AppSubnet \<Rightarrow> (DualStackNetwork \<times> string) option \<Rightarrow> 'w \<Rightarrow> 'w call" where
  "AppSubnet_AddDefaultRouteViaSubnet nl s dstSubnet w =
     (case dstSubnet of None \<Rightarrow> (Inl (Errorf ''destination subnet cannot be nil'' None), w)
      | Some (_, vrfName) \<Rightarrow> AppSubnet_AddRouteViaVRF nl s everywhere vrfName w)"

definition AppSubnet_AddRouteToSubnet :: "'w netlink \<Rightarrow> AppSubnet \<Rightarrow> (DualStackNetwork \<times> string) option \<Rightarrow> 'w \<Rightarrow> 'w call" where
  "AppSubnet_AddRouteToSubnet nl s dstSubnet w =
     (case dstSubnet of None \<Rightarrow> (Inl (Errorf ''destination subnet cannot be nil'' None), w)
      | Some (dualNet, vrfName) \<Rightarrow> AppSubnet_AddRouteViaVRF nl s dualNet vrfName w)"

text \<open>The segments are reversed: the kernel wants the last one first.\<close>

definition srv6_route :: "AppSubnet \<Rightarrow> link \<Rightarrow> ip_net \<Rightarrow> bytes list \<Rightarrow> ip_net \<Rightarrow> route" where
  "srv6_route s tun dst sids decap = empty_route\<lparr>rt_Dst := Some dst, rt_Table := table_of (as_Vrf s),
     rt_Segments := rev (sids @ [fst decap]), rt_LinkIndex := lk_Index tun\<rparr>"

definition put_srv6 :: "'w netlink \<Rightarrow> AppSubnet \<Rightarrow> link \<Rightarrow> bytes list \<Rightarrow> ip_net option \<Rightarrow> ip_net \<Rightarrow> 'w \<Rightarrow> 'w call" where
  "put_srv6 nl s tun sids dst decap w =
     (case dst of None \<Rightarrow> (Inr (), w)
      | Some n \<Rightarrow> and_then (nl_RouteReplace nl w (srv6_route s tun n sids decap)) ''failed to add SRv6 route'' (\<lambda>_ w. (Inr (), w)))"

definition AppSubnet_AddSRv6Route :: "'w netlink \<Rightarrow> AppSubnet \<Rightarrow> DualStackNetwork \<Rightarrow> bytes list \<Rightarrow> ip_net \<Rightarrow> ip_net \<Rightarrow> 'w \<Rightarrow> 'w call" where
  "AppSubnet_AddSRv6Route nl s dst sids decapSIDv4 decapSIDv6 w =
     (if dsn_IsEmpty dst then (Inl (Errorf ''destination's IPv4Net and IPv6Net are both nil'' None), w)
      else if as_Tunnel s = '''' then (Inl (Errorf ''Cannot add an SRv6 route, as the tunnel is not set'' None), w)
      else and_then (nl_LinkByName nl w (as_Tunnel s), w) ''failed to get tunnel'' (\<lambda>tun w1.
        bind_err (put_srv6 nl s tun sids (dsn_IPv4Net dst) decapSIDv4 w1) (\<lambda>_ w2. put_srv6 nl s tun sids (dsn_IPv6Net dst) decapSIDv6 w2)))"

definition del_route :: "'w netlink \<Rightarrow> string \<Rightarrow> int \<Rightarrow> ip_net option \<Rightarrow> 'w \<Rightarrow> 'w call" where
  "del_route nl msg table d w =
     (case d of None \<Rightarrow> (Inr (), w)
      | Some n \<Rightarrow> and_then (nl_RouteDel nl w (empty_route\<lparr>rt_Dst := Some n, rt_Table := table\<rparr>)) msg (\<lambda>_ w. (Inr (), w)))"

definition AppSubnet_DeleteSRv6Route :: "'w netlink \<Rightarrow> AppSubnet \<Rightarrow> DualStackNetwork \<Rightarrow> 'w \<Rightarrow> 'w call" where
  "AppSubnet_DeleteSRv6Route nl s dst w =
     (if dsn_IsEmpty dst then (Inl (Errorf ''destination's IPv4Net and IPv6Net are both nil'' None), w)
      else bind_err (del_route nl ''failed to delete SRv6 route'' (table_of (as_Vrf s)) (dsn_IPv4Net dst) w) (\<lambda>_ w1.
             del_route nl ''failed to delete SRv6 route'' (table_of (as_Vrf s)) (dsn_IPv6Net dst) w1))"

section \<open>The routing subnet\<close>

abbreviation RoutingVRFName :: string where "RoutingVRFName \<equiv> ''router-vrf''"
abbreviation DecapInterfaceName :: string where "DecapInterfaceName \<equiv> ''decap0''"
abbreviation DecapPeerInterfaceName :: string where "DecapPeerInterfaceName \<equiv> ''decap0pipe''"
abbreviation LinkNotFoundError :: go_error where "LinkNotFoundError \<equiv> TypedError ''LinkNotFoundError''"

record RoutingSubnet =
  rs_TargetNetwork :: ip_net
  rs_SIDNetwork :: ip_net
  rs_Gateway :: "bytes option"
  rs_Vrf :: "link option"
  rs_DecapIface :: "link option"
  rs_Bridge :: "link option"
  rs_IP6Allocator :: "IPAllocator option"
  rs_SIDAllocator :: "IPAllocator option"
  rs_DecapSIDv6 :: "ip_net option"
  rs_DecapSIDv4 :: "ip_net option"

definition delete_named :: "'w netlink \<Rightarrow> string \<Rightarrow> 'w \<Rightarrow> 'w" where
  "delete_named nl name w = (case nl_LinkByName nl w name of Inl _ \<Rightarrow> w | Inr l \<Rightarrow> snd (nl_LinkDel nl w l))"

definition RoutingSubnet_Teardown :: "'w netlink \<Rightarrow> RoutingSubnet \<Rightarrow> 'w \<Rightarrow> 'w" where
  "RoutingSubnet_Teardown nl r w =
     (let w1 = (case rs_Bridge r of None \<Rightarrow> w | Some b \<Rightarrow> delete_named nl (lk_Name b) w);
          w2 = (if rs_Vrf r = None then w1 else delete_named nl RoutingVRFName w1)
      in if rs_DecapIface r = None then w2 else delete_named nl DecapInterfaceName w2)"

fun delete_bridges :: "'w netlink \<Rightarrow> int \<Rightarrow> link list \<Rightarrow> 'w \<Rightarrow> 'w call" where
  "delete_bridges nl master [] w = (Inr (), w)"
| "delete_bridges nl master (l # ls) w =
     (if lk_MasterIndex l \<noteq> master \<or> lk_Type l \<noteq> ''bridge'' then delete_bridges nl master ls w
      else and_then (nl_LinkDel nl w l) ''failed to delete stale bridge'' (\<lambda>_ w. delete_bridges nl master ls w))"

fun delete_decap_ends :: "'w netlink \<Rightarrow> string list \<Rightarrow> 'w \<Rightarrow> 'w call" where
  "delete_decap_ends nl [] w = (Inr (), w)"
| "delete_decap_ends nl (name # names) w =
     (case nl_LinkByName nl w name of
        Inl err \<Rightarrow> if err = LinkNotFoundError then delete_decap_ends nl names w else (Inl (Wrapf ''failed to get'' err), w)
      | Inr l \<Rightarrow> and_then (nl_LinkDel nl w l) ''failed to delete stale'' (\<lambda>_ w. delete_decap_ends nl names w))"

definition cleanupStaleRoutingSubnet :: "'w netlink \<Rightarrow> 'w \<Rightarrow> 'w call" where
  "cleanupStaleRoutingSubnet nl w =
     (let rest = delete_decap_ends nl [DecapInterfaceName, DecapPeerInterfaceName] in
      case nl_LinkByName nl w RoutingVRFName of
        Inl err \<Rightarrow> if err = LinkNotFoundError then rest w else (Inl (Wrapf ''failed to get router VRF'' err), w)
      | Inr routerVrf \<Rightarrow>
          and_then (nl_LinkList nl w, w) ''failed to list links'' (\<lambda>links w1.
          bind_err (delete_bridges nl (lk_Index routerVrf) links w1) (\<lambda>_ w2.
          and_then (nl_LinkDel nl w2 routerVrf) ''failed to delete stale router VRF'' (\<lambda>_ w3. rest w3))))"

definition decap_route :: "int \<Rightarrow> int \<Rightarrow> string \<Rightarrow> ip_net \<Rightarrow> route" where
  "decap_route table index action sid = empty_route\<lparr>rt_Dst := Some (fst sid, CIDRMask 128 128), rt_Table := table,
     rt_Decap := Some (action, table), rt_LinkIndex := index\<rparr>"

text \<open>\<open>attach\<close> loads the eBPF program on an interface. The code ignores an error of the first allocation, which cannot fail.\<close>

definition NewRoutingSubnet ::
  "'w netlink \<Rightarrow> iplib \<Rightarrow> (nat \<Rightarrow> go_error + bytes) \<Rightarrow> ('w \<Rightarrow> string \<Rightarrow> 'w call) \<Rightarrow> ip_net option \<Rightarrow> ip_net option \<Rightarrow> 32 word \<Rightarrow> 'w \<Rightarrow>
   (go_error + RoutingSubnet) \<times> 'w" where
  "NewRoutingSubnet nl il6 rnd attach targetNetwork sidNetwork tableID w =
     (case targetNetwork of None \<Rightarrow> (Inl (Errorf ''invalid target network'' None), w) | Some tn \<Rightarrow>
      case sidNetwork of None \<Rightarrow> (Inl (Errorf ''invalid sid network'' None), w) | Some sn \<Rightarrow>
      (let table = int (unat tableID);
           s0 = \<lparr>rs_TargetNetwork = tn, rs_SIDNetwork = sn, rs_Gateway = None, rs_Vrf = None, rs_DecapIface = None, rs_Bridge = None,
                 rs_IP6Allocator = None, rs_SIDAllocator = None, rs_DecapSIDv6 = None, rs_DecapSIDv4 = None\<rparr>;
           undo = RoutingSubnet_Teardown nl;
           vrf = empty_link\<lparr>lk_Name := RoutingVRFName, lk_Type := ''vrf'', lk_Table := table\<rparr>;
           decap = empty_link\<lparr>lk_Name := DecapInterfaceName, lk_Type := ''veth'', lk_PeerName := DecapPeerInterfaceName\<rparr>
       in or_undo (NewIPv6Allocator il6 targetNetwork, w) ''failed to create IPv6 allocator for routing subnet'' (undo s0) (\<lambda>a w.
          or_undo (NewIPv6Allocator il6 sidNetwork, w) ''failed to create IPv6 allocator for routing subnet'' (undo s0) (\<lambda>sa w.
          or_undo (cleanupStaleRoutingSubnet nl w) ''failed to clean up stale routing subnet'' (undo s0) (\<lambda>_ w.
          or_undo (nl_LinkAdd nl w vrf) ''failed to add router VRF'' (undo s0) (\<lambda>_ w.
          let s1 = s0\<lparr>rs_IP6Allocator := Some a, rs_SIDAllocator := Some sa, rs_Vrf := Some vrf\<rparr> in
          or_undo (nl_LinkSetUp nl w vrf) ''failed to set up router VRF'' (undo s1) (\<lambda>_ w.
          or_undo (GenerateRandomName rnd ''br'' 8, w) ''failed to generate bridge name'' (undo s1) (\<lambda>bridgeName w.
          let bridge = empty_link\<lparr>lk_Name := bridgeName, lk_Type := ''bridge''\<rparr> in
          or_undo (nl_LinkAdd nl w bridge) ''failed to add bridge to netlink'' (undo s1) (\<lambda>_ w.
          let s2 = s1\<lparr>rs_Bridge := Some bridge\<rparr> in
          or_undo (nl_LinkSetMaster nl w bridge vrf) ''failed to set master for bridge'' (undo s2) (\<lambda>_ w.
          or_undo (nl_LinkSetUp nl w bridge) ''failed to bridge up'' (undo s2) (\<lambda>_ w.
          or_undo (IPAllocator_Allocate il6 a, w) ''nil pointer'' (undo s2) (\<lambda>(gw, a') w.
          let s3 = s2\<lparr>rs_IP6Allocator := Some a'\<rparr> in
          or_undo (nl_AddrAdd nl w bridge (Some gw)) ''failed to add address to bridge'' (undo s3) (\<lambda>_ w.
          let s4 = s3\<lparr>rs_Gateway := Some (fst gw)\<rparr> in
          or_undo (attach w bridgeName) ''failed to attach program to bridge'' (undo s4) (\<lambda>_ w.
          or_undo (nl_LinkAdd nl w decap) ''failed to add decap interface'' (undo s4) (\<lambda>_ w.
          let s5 = s4\<lparr>rs_DecapIface := Some decap\<rparr> in
          or_undo (nl_LinkSetMaster nl w decap vrf) ''failed to set master for decap interface'' (undo s5) (\<lambda>_ w.
          or_undo (nl_LinkSetUp nl w decap) ''failed to set up decap interface'' (undo s5) (\<lambda>_ w.
          or_undo (nl_LinkByName nl w DecapPeerInterfaceName, w) ''failed to get decap peer interface'' (undo s5) (\<lambda>decapPeer w.
          or_undo (nl_LinkSetMaster nl w decapPeer vrf) ''failed to set master for decap peer interface'' (undo s5) (\<lambda>_ w.
          or_undo (nl_LinkSetUp nl w decapPeer) ''failed to set up decap peer interface'' (undo s5) (\<lambda>_ w.
          or_undo (IPAllocator_Allocate il6 sa, w) ''failed to allocate decap SID'' (undo s5) (\<lambda>(sid6, sa') w.
          or_undo (nl_RouteAdd nl w (decap_route table (index_of nl w DecapInterfaceName) ''End.DT6'' sid6)) ''failed to add decap route'' (undo s5) (\<lambda>_ w.
          or_undo (IPAllocator_Allocate il6 sa', w) ''failed to allocate decap SID'' (undo s5) (\<lambda>(sid4, sa'') w.
          or_undo (nl_RouteAdd nl w (decap_route table (index_of nl w DecapInterfaceName) ''End.DT4'' sid4)) ''failed to add decap route'' (undo s5) (\<lambda>_ w.
            (Inr (s5\<lparr>rs_SIDAllocator := Some sa'', rs_DecapSIDv6 := Some sid6, rs_DecapSIDv4 := Some sid4\<rparr>), w)))))))))))))))))))))))))"

definition RoutingSubnet_AllocateIPs :: "iplib \<Rightarrow> RoutingSubnet \<Rightarrow> (go_error + DualStackNetwork) \<times> RoutingSubnet" where
  "RoutingSubnet_AllocateIPs il6 r =
     (case allocate_from il6 (rs_IP6Allocator r) of
        Inl err \<Rightarrow> (Inl err, r)
      | Inr (ipv6, a) \<Rightarrow> (Inr (no_network\<lparr>dsn_IPv6Net := Some ipv6\<rparr>), r\<lparr>rs_IP6Allocator := Some a\<rparr>))"

definition RoutingSubnet_AddRoute :: "'w netlink \<Rightarrow> RoutingSubnet \<Rightarrow> DualStackNetwork \<Rightarrow> DualStackAddress \<Rightarrow> string \<Rightarrow> 'w \<Rightarrow> 'w call" where
  "RoutingSubnet_AddRoute nl r = subnet_AddRoute nl (nl_RouteReplace nl) (rs_Vrf r)"

definition RoutingSubnet_AddDefaultRoute :: "'w netlink \<Rightarrow> RoutingSubnet \<Rightarrow> DualStackAddress \<Rightarrow> string \<Rightarrow> 'w \<Rightarrow> 'w call" where
  "RoutingSubnet_AddDefaultRoute nl r gatewayIPs tunnelInterfaceName = RoutingSubnet_AddRoute nl r everywhere gatewayIPs tunnelInterfaceName"

definition RoutingSubnet_AddRouteViaVRF :: "'w netlink \<Rightarrow> RoutingSubnet \<Rightarrow> DualStackNetwork \<Rightarrow> string \<Rightarrow> 'w \<Rightarrow> 'w call" where
  "RoutingSubnet_AddRouteViaVRF nl r = subnet_AddRouteViaVRF nl (rs_Vrf r)"

definition RoutingSubnet_AddDefaultRouteViaSubnet :: "'w netlink \<Rightarrow> RoutingSubnet \<Rightarrow> (DualStackNetwork \<times> string) option \<Rightarrow> 'w \<Rightarrow> 'w call" where
  "RoutingSubnet_AddDefaultRouteViaSubnet nl r dstSubnet w =
     (case dstSubnet of None \<Rightarrow> (Inl (Errorf ''destination subnet cannot be nil'' None), w)
      | Some (_, vrfName) \<Rightarrow> RoutingSubnet_AddRouteViaVRF nl r everywhere vrfName w)"

definition RoutingSubnet_AddRouteToSubnet :: "'w netlink \<Rightarrow> RoutingSubnet \<Rightarrow> (DualStackNetwork \<times> string) option \<Rightarrow> 'w \<Rightarrow> 'w call" where
  "RoutingSubnet_AddRouteToSubnet nl r dstSubnet w =
     (case dstSubnet of None \<Rightarrow> (Inl (Errorf ''destination subnet cannot be nil'' None), w)
      | Some (dualNet, vrfName) \<Rightarrow> RoutingSubnet_AddRouteViaVRF nl r dualNet vrfName w)"

definition RoutingSubnet_RemoveRoute :: "'w netlink \<Rightarrow> RoutingSubnet \<Rightarrow> DualStackNetwork \<Rightarrow> 'w \<Rightarrow> 'w call" where
  "RoutingSubnet_RemoveRoute nl r dst w =
     (if dsn_IsEmpty dst then (Inl (Errorf ''destination must contain at least one non-nil network'' None), w)
      else bind_err (del_route nl ''failed to delete IPv4 route to app subnet in routing VRF'' (table_of (rs_Vrf r)) (dsn_IPv4Net dst) w) (\<lambda>_ w1.
             del_route nl ''failed to delete IPv6 route to app subnet in routing VRF'' (table_of (rs_Vrf r)) (dsn_IPv6Net dst) w1))"

end
