(* ===== verification/IpTables.thy ===== *)
theory IpTables
  imports Netlink
begin

text \<open>
  The firewall rules of the node daemon (\<open>src/daemon/pkg/dataplane/vrf/software_linux.go\<close>): the chain that lets
  SRv6 traffic through, the conntrack zones of the VRFs and the exemption from SNAT, installed at start
  and removed at shutdown. The iptables library is a parameter.
\<close>

section \<open>The library\<close>

type_synonym rule = "string list"

record 'w iptables =
  ipt_ClearChain :: "'w \<Rightarrow> string \<Rightarrow> string \<Rightarrow> 'w call"
  ipt_Append :: "'w \<Rightarrow> string \<Rightarrow> string \<Rightarrow> rule \<Rightarrow> 'w call"
  ipt_AppendUnique :: "'w \<Rightarrow> string \<Rightarrow> string \<Rightarrow> rule \<Rightarrow> 'w call"
  ipt_DeleteIfExists :: "'w \<Rightarrow> string \<Rightarrow> string \<Rightarrow> rule \<Rightarrow> 'w call"
  ipt_Insert :: "'w \<Rightarrow> string \<Rightarrow> string \<Rightarrow> nat \<Rightarrow> rule \<Rightarrow> 'w call"
  ipt_InsertUnique :: "'w \<Rightarrow> string \<Rightarrow> string \<Rightarrow> nat \<Rightarrow> rule \<Rightarrow> 'w call"
  ipt_ChainExists :: "'w \<Rightarrow> string \<Rightarrow> string \<Rightarrow> go_error + bool"
  ipt_List :: "'w \<Rightarrow> string \<Rightarrow> string \<Rightarrow> go_error + string list"
  ipt_DeleteById :: "'w \<Rightarrow> string \<Rightarrow> string \<Rightarrow> nat \<Rightarrow> 'w call"
  ipt_DeleteChain :: "'w \<Rightarrow> string \<Rightarrow> string \<Rightarrow> 'w call"

fun strings_Contains :: "string \<Rightarrow> string \<Rightarrow> bool" where
  "strings_Contains [] t \<longleftrightarrow> t = []"
| "strings_Contains (c # s) t \<longleftrightarrow> take (length t) (c # s) = t \<or> strings_Contains s t"

definition strings_HasSuffix :: "string \<Rightarrow> string \<Rightarrow> bool" where
  "strings_HasSuffix s t \<longleftrightarrow> length t \<le> length s \<and> drop (length s - length t) s = t"

section \<open>The SRv6 chain\<close>

abbreviation DefaultSRv6TableName :: string where "DefaultSRv6TableName \<equiv> ''IML-SRV6''"
abbreviation CTZoneChainName :: string where "CTZoneChainName \<equiv> ''IML-CT-ZONES''"
abbreviation NoSNATRuleComment :: string where "NoSNATRuleComment \<equiv> ''iml-srv6: no SNAT inside fabric''"

definition isInvalidDropRule :: "string \<Rightarrow> bool" where
  "isInvalidDropRule rule \<longleftrightarrow> strings_Contains rule ''--ctstate INVALID'' \<and> strings_HasSuffix rule ''-j DROP''"

text \<open>The loop counts down from the last rule; \<open>rules ! 0\<close> is the declaration of the chain.\<close>

fun delete_drops :: "'w iptables \<Rightarrow> string list \<Rightarrow> nat \<Rightarrow> 'w \<Rightarrow> 'w call" where
  "delete_drops ipt rules 0 w = (Inr (), w)"
| "delete_drops ipt rules (Suc i) w =
     (if \<not> isInvalidDropRule (rules ! Suc i) then delete_drops ipt rules i w
      else case ipt_DeleteById ipt w ''filter'' ''KUBE-FORWARD'' (Suc i) of
             (Inl err, w') \<Rightarrow> (Inl err, w')
           | (Inr _, w') \<Rightarrow> delete_drops ipt rules i w')"

definition deleteKubeForwardInvalidDropRules :: "'w iptables \<Rightarrow> 'w \<Rightarrow> 'w call" where
  "deleteKubeForwardInvalidDropRules ipt w =
     (case ipt_ChainExists ipt w ''filter'' ''KUBE-FORWARD'' of
        Inl err \<Rightarrow> (Inl err, w)
      | Inr False \<Rightarrow> (Inr (), w)
      | Inr True \<Rightarrow>
          (case ipt_List ipt w ''filter'' ''KUBE-FORWARD'' of
             Inl err \<Rightarrow> (Inl err, w)
           | Inr rules \<Rightarrow> delete_drops ipt rules (length rules - 1) w))"

abbreviation srv6_accept :: rule where "srv6_accept \<equiv> [''-m'', ''rt'', ''--rt-type'', ''4'', ''-j'', ''ACCEPT'']"

definition ensureFilterIPTablesRulesArePresent :: "'w iptables \<Rightarrow> 'w \<Rightarrow> 'w call" where
  "ensureFilterIPTablesRulesArePresent ipt w =
     and_then (ipt_ClearChain ipt w ''filter'' DefaultSRv6TableName) ''failed to clear iptables chain'' (\<lambda>_ w.
     and_then (ipt_Append ipt w ''filter'' DefaultSRv6TableName srv6_accept) ''failed to append SRv6 accept rule'' (\<lambda>_ w.
     and_then (ipt_Append ipt w ''filter'' DefaultSRv6TableName [''-j'', ''RETURN'']) ''failed to append return rule'' (\<lambda>_ w.
     and_then (ipt_DeleteIfExists ipt w ''filter'' ''FORWARD'' [''-j'', DefaultSRv6TableName]) ''failed to delete existing hook rule to FORWARD chain'' (\<lambda>_ w.
     and_then (ipt_InsertUnique ipt w ''filter'' ''FORWARD'' 1 [''-j'', DefaultSRv6TableName]) ''failed to insert hook rule to FORWARD chain'' (\<lambda>_ w.
     and_then (deleteKubeForwardInvalidDropRules ipt w) ''failed to delete INVALID drop rule from KUBE-FORWARD chain'' (\<lambda>_ w.
       (Inr (), w)))))))"

definition ensureFilterIPTablesRulesAreRemoved :: "'w iptables \<Rightarrow> 'w \<Rightarrow> 'w call" where
  "ensureFilterIPTablesRulesAreRemoved ipt w =
     and_then (ipt_ClearChain ipt w ''filter'' DefaultSRv6TableName) ''failed to clear chain'' (\<lambda>_ w.
     and_then (ipt_DeleteIfExists ipt w ''filter'' ''FORWARD'' [''-j'', DefaultSRv6TableName]) ''failed to delete existing hook rule to FORWARD chain'' (\<lambda>_ w.
     and_then (ipt_DeleteChain ipt w ''filter'' DefaultSRv6TableName) ''failed to delete chain'' (\<lambda>_ w.
       (Inr (), w))))"

section \<open>Conntrack zones\<close>

definition ensureRawIPTablesRulesArePresent :: "'w iptables \<Rightarrow> 'w \<Rightarrow> 'w call" where
  "ensureRawIPTablesRulesArePresent ipt w =
     and_then (ipt_ClearChain ipt w ''raw'' CTZoneChainName) ''failed to clear chain'' (\<lambda>_ w.
     and_then (ipt_DeleteIfExists ipt w ''raw'' ''PREROUTING'' [''-j'', CTZoneChainName]) ''failed to delete existing hook rule to PREROUTING chain'' (\<lambda>_ w.
     and_then (ipt_InsertUnique ipt w ''raw'' ''PREROUTING'' 1 [''-j'', CTZoneChainName]) ''failed to insert hook rule to PREROUTING chain'' (\<lambda>_ w.
       (Inr (), w))))"

definition ensureRawIPTablesRulesAreRemoved :: "'w iptables \<Rightarrow> 'w \<Rightarrow> 'w call" where
  "ensureRawIPTablesRulesAreRemoved ipt w =
     and_then (ipt_ClearChain ipt w ''raw'' CTZoneChainName) ''failed to clear chain'' (\<lambda>_ w.
     and_then (ipt_DeleteIfExists ipt w ''raw'' ''PREROUTING'' [''-j'', CTZoneChainName]) ''failed to delete existing hook rule to PREROUTING chain'' (\<lambda>_ w.
     and_then (ipt_DeleteChain ipt w ''raw'' CTZoneChainName) ''failed to delete chain'' (\<lambda>_ w.
       (Inr (), w))))"

definition ctZoneRule :: "string \<Rightarrow> 32 word \<Rightarrow> rule" where
  "ctZoneRule ifaceName zone = [''-i'', ifaceName, ''-j'', ''CT'', ''--zone'', format_nat (unat zone)]"

text \<open>The handle for IPv4 is absent in a cluster without IPv4.\<close>

definition removeCTZoneRule :: "'w iptables \<Rightarrow> 'w iptables option \<Rightarrow> string \<Rightarrow> 32 word \<Rightarrow> 'w \<Rightarrow> 'w call" where
  "removeCTZoneRule ipt ip4t ifaceName zone w =
     and_then (ipt_DeleteIfExists ipt w ''raw'' CTZoneChainName (ctZoneRule ifaceName zone)) ''failed to delete IPv6 CT zone rule'' (\<lambda>_ w.
       case ip4t of
         None \<Rightarrow> (Inr (), w)
       | Some ip4 \<Rightarrow> and_then (ipt_DeleteIfExists ip4 w ''raw'' CTZoneChainName (ctZoneRule ifaceName zone)) ''failed to delete IPv4 CT zone rule'' (\<lambda>_ w. (Inr (), w)))"

definition addCTZoneRule :: "'w iptables \<Rightarrow> 'w iptables option \<Rightarrow> string \<Rightarrow> 32 word \<Rightarrow> 'w \<Rightarrow> 'w call" where
  "addCTZoneRule ipt ip4t ifaceName zone w =
     and_then (ipt_AppendUnique ipt w ''raw'' CTZoneChainName (ctZoneRule ifaceName zone)) ''failed to append IPv6 CT zone rule'' (\<lambda>_ w.
       case ip4t of
         None \<Rightarrow> (Inr (), w)
       | Some ip4 \<Rightarrow> and_then (ipt_AppendUnique ip4 w ''raw'' CTZoneChainName (ctZoneRule ifaceName zone)) ''failed to append IPv4 CT zone rule'' (\<lambda>_ w. (Inr (), w)))"

section \<open>No SNAT inside the cluster\<close>

text \<open>\<open>net\<close> is the text of the cluster's IPv4 network.\<close>

definition noSNATRule :: "string \<Rightarrow> rule" where
  "noSNATRule net = [''-s'', net, ''-d'', net, ''-m'', ''comment'', ''--comment'', NoSNATRuleComment, ''-j'', ''ACCEPT'']"

definition ensureNatIPTables4RulesArePresent :: "'w iptables \<Rightarrow> string \<Rightarrow> 'w \<Rightarrow> 'w call" where
  "ensureNatIPTables4RulesArePresent ipt net w =
     and_then (ipt_DeleteIfExists ipt w ''nat'' ''POSTROUTING'' (noSNATRule net)) ''failed to delete existing no-SNAT rule from POSTROUTING chain'' (\<lambda>_ w.
     and_then (ipt_Insert ipt w ''nat'' ''POSTROUTING'' 1 (noSNATRule net)) ''failed to insert no-SNAT rule to POSTROUTING chain'' (\<lambda>_ w.
       (Inr (), w)))"

definition ensureNatIPTables4RulesAreRemoved :: "'w iptables \<Rightarrow> string \<Rightarrow> 'w \<Rightarrow> 'w call" where
  "ensureNatIPTables4RulesAreRemoved ipt net w =
     and_then (ipt_DeleteIfExists ipt w ''nat'' ''POSTROUTING'' (noSNATRule net)) ''failed to delete no-SNAT rule from POSTROUTING chain'' (\<lambda>_ w. (Inr (), w))"

section \<open>What iptables promises\<close>

text \<open>
  \<open>st w\<close> maps a table and a chain to the rules of the chain; \<open>render\<close> is how a rule is printed. A call
  on a chain that does not exist promises nothing, except that clearing it creates it. A chain is
  deleted when it is empty and no rule of its table mentions it.
\<close>

type_synonym 'w rules_of = "'w \<Rightarrow> string \<times> string \<rightharpoonup> rule list"

definition does :: "'w rules_of \<Rightarrow> 'w call \<Rightarrow> (string \<times> string \<rightharpoonup> rule list) \<Rightarrow> bool" where
  "does st p s \<longleftrightarrow> fst p = Inr () \<and> st (snd p) = s"

definition ipt_ok :: "'w iptables \<Rightarrow> 'w rules_of \<Rightarrow> (string \<Rightarrow> rule \<Rightarrow> string) \<Rightarrow> bool" where
  "ipt_ok ipt st render \<longleftrightarrow>
     (\<forall>w t c. does st (ipt_ClearChain ipt w t c) ((st w)((t, c) \<mapsto> []))) \<and>
     (\<forall>w t c r rs. st w (t, c) = Some rs \<longrightarrow>
        does st (ipt_Append ipt w t c r) ((st w)((t, c) \<mapsto> rs @ [r])) \<and>
        does st (ipt_AppendUnique ipt w t c r) ((st w)((t, c) \<mapsto> if r \<in> set rs then rs else rs @ [r])) \<and>
        does st (ipt_DeleteIfExists ipt w t c r) ((st w)((t, c) \<mapsto> remove1 r rs)) \<and>
        does st (ipt_Insert ipt w t c 1 r) ((st w)((t, c) \<mapsto> r # rs)) \<and>
        does st (ipt_InsertUnique ipt w t c 1 r) ((st w)((t, c) \<mapsto> if r \<in> set rs then rs else r # rs))) \<and>
     (\<forall>w t c. ipt_ChainExists ipt w t c = Inr (st w (t, c) \<noteq> None)) \<and>
     (\<forall>w t c rs. st w (t, c) = Some rs \<longrightarrow> (\<exists>h. ipt_List ipt w t c = Inr (h # map (render c) rs))) \<and>
     (\<forall>w t c rs n. st w (t, c) = Some rs \<and> n < length rs \<longrightarrow>
        does st (ipt_DeleteById ipt w t c (Suc n)) ((st w)((t, c) \<mapsto> take n rs @ drop (Suc n) rs))) \<and>
     (\<forall>w t c. st w (t, c) = Some [] \<and> (\<forall>c' rs r. st w (t, c') = Some rs \<and> r \<in> set rs \<longrightarrow> c \<notin> set r) \<longrightarrow>
        does st (ipt_DeleteChain ipt w t c) ((st w)((t, c) := None)))"

section \<open>Installing and removing the rules\<close>

lemma and_then_does: "does st p s \<Longrightarrow> and_then p msg k = k () (snd p)"
  by (cases p) (auto simp: does_def)

lemma doesD: "does st p s \<Longrightarrow> st (snd p) = s"
  by (simp add: does_def)

lemma does_return [simp]: "does st (Inr (), w) s \<longleftrightarrow> st w = s"
  by (simp add: does_def)

lemma ipt_okD:
  assumes "ipt_ok ipt st render"
  shows "does st (ipt_ClearChain ipt w t c) ((st w)((t, c) \<mapsto> []))"
    and "st w (t, c) = Some rs \<Longrightarrow> does st (ipt_Append ipt w t c r) ((st w)((t, c) \<mapsto> rs @ [r]))"
    and "st w (t, c) = Some rs \<Longrightarrow> does st (ipt_AppendUnique ipt w t c r) ((st w)((t, c) \<mapsto> if r \<in> set rs then rs else rs @ [r]))"
    and "st w (t, c) = Some rs \<Longrightarrow> does st (ipt_DeleteIfExists ipt w t c r) ((st w)((t, c) \<mapsto> remove1 r rs))"
    and "st w (t, c) = Some rs \<Longrightarrow> does st (ipt_Insert ipt w t c 1 r) ((st w)((t, c) \<mapsto> r # rs))"
    and "st w (t, c) = Some rs \<Longrightarrow> does st (ipt_InsertUnique ipt w t c 1 r) ((st w)((t, c) \<mapsto> if r \<in> set rs then rs else r # rs))"
    and "ipt_ChainExists ipt w t c = Inr (st w (t, c) \<noteq> None)"
    and "st w (t, c) = Some rs \<Longrightarrow> \<exists>h. ipt_List ipt w t c = Inr (h # map (render c) rs)"
    and "st w (t, c) = Some rs \<Longrightarrow> n < length rs \<Longrightarrow> does st (ipt_DeleteById ipt w t c (Suc n)) ((st w)((t, c) \<mapsto> take n rs @ drop (Suc n) rs))"
    and "st w (t, c) = Some [] \<Longrightarrow> (\<forall>c' rs r. st w (t, c') = Some rs \<and> r \<in> set rs \<longrightarrow> c \<notin> set r) \<Longrightarrow>
      does st (ipt_DeleteChain ipt w t c) ((st w)((t, c) := None))"
  using assms unfolding ipt_ok_def by metis+

lemma delete_drops_effect:
  assumes ok: "ipt_ok ipt st render"
  shows "i \<le> length rs \<Longrightarrow> st w (''filter'', ''KUBE-FORWARD'') = Some (take i rs @ zs) \<Longrightarrow>
    does st (delete_drops ipt (h # map (render ''KUBE-FORWARD'') rs) i w)
      ((st w)((''filter'', ''KUBE-FORWARD'') \<mapsto> filter (\<lambda>r. \<not> isInvalidDropRule (render ''KUBE-FORWARD'' r)) (take i rs) @ zs))"
proof (induction i arbitrary: w zs)
  case 0
  then show ?case by (auto simp: fun_eq_iff)
next
  case (Suc i)
  have i: "i < length rs" "take (Suc i) rs = take i rs @ [rs ! i]" using Suc.prems(1) by (auto simp: take_Suc_conv_app_nth)
  show ?case
  proof (cases "isInvalidDropRule (render ''KUBE-FORWARD'' (rs ! i))")
    case False
    with Suc.IH [of w "rs ! i # zs"] Suc.prems(2) i show ?thesis by simp
  next
    case True
    let ?d = "ipt_DeleteById ipt w ''filter'' ''KUBE-FORWARD'' (Suc i)"
    have d: "does st ?d ((st w)((''filter'', ''KUBE-FORWARD'') \<mapsto> take i rs @ zs))"
      using ipt_okD(9) [OF ok, OF Suc.prems(2), of i] i by simp
    then have "delete_drops ipt (h # map (render ''KUBE-FORWARD'') rs) (Suc i) w = delete_drops ipt (h # map (render ''KUBE-FORWARD'') rs) i (snd ?d)"
      using True i(1) by (auto simp: does_def split: prod.splits sum.splits)
    moreover have "filter (\<lambda>r. \<not> isInvalidDropRule (render ''KUBE-FORWARD'' r)) (take (Suc i) rs) =
        filter (\<lambda>r. \<not> isInvalidDropRule (render ''KUBE-FORWARD'' r)) (take i rs)" using True i(2) by simp
    moreover have "st (snd ?d) (''filter'', ''KUBE-FORWARD'') = Some (take i rs @ zs)" unfolding doesD [OF d] by simp
    note Suc.IH [OF less_imp_le [OF i(1)] this, unfolded doesD [OF d] fun_upd_upd]
    ultimately show ?thesis by simp
  qed
qed

text \<open>The rules of kube-proxy that remain.\<close>

definition without_drops :: "(string \<Rightarrow> rule \<Rightarrow> string) \<Rightarrow> (string \<times> string \<rightharpoonup> rule list) \<Rightarrow> string \<times> string \<rightharpoonup> rule list" where
  "without_drops render s = s((''filter'', ''KUBE-FORWARD'') :=
     map_option (filter (\<lambda>r. \<not> isInvalidDropRule (render ''KUBE-FORWARD'' r))) (s (''filter'', ''KUBE-FORWARD'')))"

lemma deleteKubeForward_effect:
  assumes ok: "ipt_ok ipt st render"
  shows "does st (deleteKubeForwardInvalidDropRules ipt w) (without_drops render (st w))"
proof (cases "st w (''filter'', ''KUBE-FORWARD'')")
  case None
  then show ?thesis by (auto simp: deleteKubeForwardInvalidDropRules_def ipt_okD(7) [OF ok] without_drops_def fun_eq_iff)
next
  case (Some rs)
  from ipt_okD(8) [OF ok, OF Some] obtain h where h: "ipt_List ipt w ''filter'' ''KUBE-FORWARD'' = Inr (h # map (render ''KUBE-FORWARD'') rs)" by blast
  show ?thesis
    using delete_drops_effect [OF ok, of "length rs" rs w "[]" h] Some
    by (simp add: deleteKubeForwardInvalidDropRules_def ipt_okD(7) [OF ok] h without_drops_def)
qed

abbreviation srv6_hook :: rule where "srv6_hook \<equiv> [''-j'', DefaultSRv6TableName]"

lemma filter_rules_effect:
  assumes ok: "ipt_ok ipt st render" and F: "st w (''filter'', ''FORWARD'') = Some F"
  shows "does st (ensureFilterIPTablesRulesArePresent ipt w)
    (without_drops render ((st w)((''filter'', DefaultSRv6TableName) \<mapsto> [srv6_accept, [''-j'', ''RETURN'']],
       (''filter'', ''FORWARD'') \<mapsto> if srv6_hook \<in> set (remove1 srv6_hook F) then remove1 srv6_hook F else srv6_hook # remove1 srv6_hook F)))"
proof -
  let ?w1 = "snd (ipt_ClearChain ipt w ''filter'' DefaultSRv6TableName)"
  let ?w2 = "snd (ipt_Append ipt ?w1 ''filter'' DefaultSRv6TableName srv6_accept)"
  let ?w3 = "snd (ipt_Append ipt ?w2 ''filter'' DefaultSRv6TableName [''-j'', ''RETURN''])"
  let ?w4 = "snd (ipt_DeleteIfExists ipt ?w3 ''filter'' ''FORWARD'' srv6_hook)"
  let ?w5 = "snd (ipt_InsertUnique ipt ?w4 ''filter'' ''FORWARD'' 1 srv6_hook)"
  note c1 = ipt_okD(1) [OF ok, of w "''filter''" DefaultSRv6TableName]
  note s1 = doesD [OF c1]
  have c2: "does st (ipt_Append ipt ?w1 ''filter'' DefaultSRv6TableName srv6_accept) ((st w)((''filter'', DefaultSRv6TableName) \<mapsto> [srv6_accept]))"
    using ipt_okD(2) [OF ok, of ?w1 "''filter''" DefaultSRv6TableName "[]" srv6_accept] s1 by simp
  note s2 = doesD [OF c2]
  have c3: "does st (ipt_Append ipt ?w2 ''filter'' DefaultSRv6TableName [''-j'', ''RETURN''])
      ((st w)((''filter'', DefaultSRv6TableName) \<mapsto> [srv6_accept, [''-j'', ''RETURN'']]))"
    using ipt_okD(2) [OF ok, of ?w2 "''filter''" DefaultSRv6TableName "[srv6_accept]" "[''-j'', ''RETURN'']"] s2 by simp
  note s3 = doesD [OF c3]
  have c4: "does st (ipt_DeleteIfExists ipt ?w3 ''filter'' ''FORWARD'' srv6_hook)
      ((st ?w3)((''filter'', ''FORWARD'') \<mapsto> remove1 srv6_hook F))"
    by (rule ipt_okD(4) [OF ok]) (simp add: s3 F)
  note s4 = doesD [OF c4]
  have c5: "does st (ipt_InsertUnique ipt ?w4 ''filter'' ''FORWARD'' 1 srv6_hook)
      ((st ?w4)((''filter'', ''FORWARD'') \<mapsto> if srv6_hook \<in> set (remove1 srv6_hook F) then remove1 srv6_hook F else srv6_hook # remove1 srv6_hook F))"
    by (rule ipt_okD(6) [OF ok]) (simp add: s4)
  note s5 = doesD [OF c5]
  note c6 = deleteKubeForward_effect [OF ok, of ?w5]
  have "ensureFilterIPTablesRulesArePresent ipt w = (Inr (), snd (deleteKubeForwardInvalidDropRules ipt ?w5))"
    by (simp add: ensureFilterIPTablesRulesArePresent_def and_then_does [OF c1] and_then_does [OF c2] and_then_does [OF c3]
        and_then_does [OF c4] and_then_does [OF c5] and_then_does [OF c6] del: One_nat_def)
  then show ?thesis using doesD [OF c6] s5 s4 s3 by (simp add: without_drops_def)
qed



text \<open>The same holds for the exemption from SNAT, whatever else was added to the chain behind it.\<close>

lemma nat_round_trip:
  assumes ok: "ipt_ok ipt st render" and P: "st w (''nat'', ''POSTROUTING'') = Some P"
  shows "\<exists>w1. ensureNatIPTables4RulesArePresent ipt net w = (Inr (), w1) \<and>
    st w1 = (st w)((''nat'', ''POSTROUTING'') \<mapsto> noSNATRule net # remove1 (noSNATRule net) P) \<and>
    (\<exists>w2. ensureNatIPTables4RulesAreRemoved ipt net w1 = (Inr (), w2) \<and>
      st w2 = (st w)((''nat'', ''POSTROUTING'') \<mapsto> remove1 (noSNATRule net) P))"
proof -
  let ?r = "noSNATRule net"
  let ?a = "snd (ipt_DeleteIfExists ipt w ''nat'' ''POSTROUTING'' ?r)"
  let ?b = "snd (ipt_Insert ipt ?a ''nat'' ''POSTROUTING'' 1 ?r)"
  note c1 = ipt_okD(4) [OF ok, OF P, of ?r]
  have "st ?a (''nat'', ''POSTROUTING'') = Some (remove1 ?r P)" unfolding doesD [OF c1] by simp
  note c2 = ipt_okD(5) [OF ok, OF this, of ?r, unfolded doesD [OF c1] fun_upd_upd]
  have "st ?b (''nat'', ''POSTROUTING'') = Some (?r # remove1 ?r P)" unfolding doesD [OF c2] by simp
  from ipt_okD(4) [OF ok, OF this, of ?r, unfolded doesD [OF c2] fun_upd_upd]
  have c3: "does st (ipt_DeleteIfExists ipt ?b ''nat'' ''POSTROUTING'' ?r) ((st w)((''nat'', ''POSTROUTING'') \<mapsto> remove1 ?r P))" by simp
  have "ensureNatIPTables4RulesArePresent ipt net w = (Inr (), ?b)"
    by (simp add: ensureNatIPTables4RulesArePresent_def and_then_does [OF c1] and_then_does [OF c2] del: One_nat_def)
  moreover have "ensureNatIPTables4RulesAreRemoved ipt net ?b = (Inr (), snd (ipt_DeleteIfExists ipt ?b ''nat'' ''POSTROUTING'' ?r))"
    by (simp add: ensureNatIPTables4RulesAreRemoved_def and_then_does [OF c3] del: One_nat_def)
  ultimately show ?thesis using doesD [OF c2] doesD [OF c3] by blast
qed

section \<open>A concrete firewall\<close>

type_synonym ex_rules = "string \<times> string \<rightharpoonup> rule list"

definition ex_on :: "(rule list \<Rightarrow> rule list) \<Rightarrow> ex_rules \<Rightarrow> string \<Rightarrow> string \<Rightarrow> ex_rules call" where
  "ex_on f w t c = (case w (t, c) of None \<Rightarrow> (Inl (TypedError ''no chain''), w) | Some rs \<Rightarrow> (Inr (), w((t, c) \<mapsto> f rs)))"

definition ex_render :: "string \<Rightarrow> rule \<Rightarrow> string" where
  "ex_render c r = foldl (\<lambda>s a. s @ '' '' @ a) (''-A '' @ c) r"

definition ex_iptables :: "ex_rules iptables" where
  "ex_iptables = \<lparr>
     ipt_ClearChain = (\<lambda>w t c. (Inr (), w((t, c) \<mapsto> []))),
     ipt_Append = (\<lambda>w t c r. ex_on (\<lambda>rs. rs @ [r]) w t c),
     ipt_AppendUnique = (\<lambda>w t c r. ex_on (\<lambda>rs. if r \<in> set rs then rs else rs @ [r]) w t c),
     ipt_DeleteIfExists = (\<lambda>w t c r. ex_on (remove1 r) w t c),
     ipt_Insert = (\<lambda>w t c n r. ex_on (\<lambda>rs. take (n - 1) rs @ r # drop (n - 1) rs) w t c),
     ipt_InsertUnique = (\<lambda>w t c n r. ex_on (\<lambda>rs. if r \<in> set rs then rs else take (n - 1) rs @ r # drop (n - 1) rs) w t c),
     ipt_ChainExists = (\<lambda>w t c. Inr (w (t, c) \<noteq> None)),
     ipt_List = (\<lambda>w t c. case w (t, c) of None \<Rightarrow> Inl (TypedError ''no chain'') | Some rs \<Rightarrow> Inr ((''-N '' @ c) # map (ex_render c) rs)),
     ipt_DeleteById = (\<lambda>w t c n. ex_on (\<lambda>rs. take (n - 1) rs @ drop n rs) w t c),
     ipt_DeleteChain = (\<lambda>w t c. (Inr (), w((t, c) := None)))\<rparr>"

lemma ex_ipt_ok: "ipt_ok ex_iptables id ex_render"
  by (simp add: ipt_ok_def ex_iptables_def ex_on_def does_def)

definition ex_chains :: ex_rules where
  "ex_chains = [(''filter'', ''FORWARD'') \<mapsto> [[''-j'', ''KUBE-FORWARD'']],
     (''filter'', ''KUBE-FORWARD'') \<mapsto> [[''-m'', ''conntrack'', ''--ctstate'', ''INVALID'', ''-j'', ''DROP''], [''-m'', ''mark'', ''-j'', ''ACCEPT'']]]"

lemma ex_invalid:
  "isInvalidDropRule (ex_render ''KUBE-FORWARD'' [''-m'', ''conntrack'', ''--ctstate'', ''INVALID'', ''-j'', ''DROP''])"
  "\<not> isInvalidDropRule (ex_render ''KUBE-FORWARD'' [''-m'', ''mark'', ''-j'', ''ACCEPT''])"
  by (simp_all add: isInvalidDropRule_def ex_render_def strings_HasSuffix_def)



end
