(* ===== verification/Software.thy ===== *)
theory Software
  imports Subnets IpTables "HOL-Library.AList"
begin

text \<open>
  The software dataplane of a node (\<open>src/daemon/pkg/dataplane/vrf/software_linux.go\<close>): its start and shutdown, the
  subnets of applications, the VRFs of targets, the tunnels that connect them to the routing subnet, and the
  SRv6 routes of service chains.
\<close>

section \<open>State\<close>

record SRv6Route =
  sr_SourceApp :: nsname
  sr_DestinationApp :: nsname
  sr_DestNet :: DualStackNetwork
  sr_FunctionIPs :: "bytes list"

record P4TargetInstance =
  ti_TargetIPs :: DualStackNetwork
  ti_ifaceName :: string

record GlobalConfig =
  gc_ClusterCIDR :: DualStackNetwork
  gc_ServiceCIDR :: DualStackNetwork
  gc_PodCIDR :: DualStackNetwork
  gc_TunnelCIDR :: DualStackNetwork
  gc_NodeName :: string

text \<open>The subnets of an application as its status records them, node by node: IPv4 and IPv6 networks as text.\<close>

record Application = object_meta +
  ap_Subnets :: "(string \<times> (string \<times> string) list) list"

record Software =
  sw_appSubnets :: "nsname \<rightharpoonup> AppSubnet list"
  sw_p4Targets :: "string \<rightharpoonup> P4TargetInstance"
  sw_p4TargetVRFs :: "string \<rightharpoonup> TargetVRF"
  sw_routingSubnet :: RoutingSubnet
  sw_serviceChainRoutes :: "nsname \<rightharpoonup> SRv6Route list"
  sw_has_ip4t :: bool
  sw_appNet6Allocator :: SubnetAllocator
  sw_appNet4Allocator :: "SubnetAllocator option"
  sw_tunNet6Allocator :: SubnetAllocator
  sw_tunNet4Allocator :: "SubnetAllocator option"
  sw_tableAllocator :: TableAllocator
  sw_cfg :: GlobalConfig

text \<open>
  What the dataplane uses of the outside: the kernel, both firewalls, iplib for both families, random
  bytes (the k-th draw of a call), the files of \<open>/proc\<close>, the eBPF loader and the API client.
\<close>

record 'w dataplane_env =
  dp_nl :: "'w netlink"
  dp_ipt :: "'w iptables"
  dp_ip4t :: "'w iptables"
  dp_iptErr :: "go_error option"
  dp_ip4tErr :: "go_error option"
  dp_il4 :: iplib
  dp_il6 :: iplib
  dp_rnd :: "'w \<Rightarrow> nat \<Rightarrow> nat \<Rightarrow> go_error + bytes"
  dp_WriteFile :: "'w \<Rightarrow> string \<Rightarrow> string \<Rightarrow> 'w call"
  dp_Attach :: "'w \<Rightarrow> string \<Rightarrow> 'w call"
  dp_GetApp :: "'w \<Rightarrow> nsname \<Rightarrow> go_error + Application"
  dp_PatchAppStatus :: "'w \<Rightarrow> nsname \<Rightarrow> Application \<Rightarrow> 'w call"

definition ip4t_of :: "'w dataplane_env \<Rightarrow> Software \<Rightarrow> 'w iptables option" where
  "ip4t_of env d = (if sw_has_ip4t d then Some (dp_ip4t env) else None)"

definition router_table :: "Software \<Rightarrow> 32 word" where
  "router_table d = word_of_int (table_of (rs_Vrf (sw_routingSubnet d)))"

definition vrf_name :: "link option \<Rightarrow> string" where
  "vrf_name v = (case v of None \<Rightarrow> '''' | Some l \<Rightarrow> lk_Name l)"

definition bridge_name :: "link option \<Rightarrow> string" where
  "bridge_name b = (case b of None \<Rightarrow> '''' | Some l \<Rightarrow> lk_Name l)"

definition add_zone :: "'w dataplane_env \<Rightarrow> Software \<Rightarrow> string \<Rightarrow> 32 word \<Rightarrow> 'w \<Rightarrow> 'w call" where
  "add_zone env d = addCTZoneRule (dp_ipt env) (ip4t_of env d)"

definition remove_zone :: "'w dataplane_env \<Rightarrow> Software \<Rightarrow> string \<Rightarrow> 32 word \<Rightarrow> 'w \<Rightarrow> 'w" where
  "remove_zone env d ifaceName zone w = snd (removeCTZoneRule (dp_ipt env) (ip4t_of env d) ifaceName zone w)"

section \<open>Tunnels\<close>

definition two_addresses :: "(ip_net option \<Rightarrow> go_error + IPAllocator) \<Rightarrow> iplib \<Rightarrow> ip_net \<Rightarrow> go_error + (ip_net \<times> ip_net)" where
  "two_addresses new il net =
     (case new (Some net) of Inl err \<Rightarrow> Inl err | Inr a \<Rightarrow>
      case IPAllocator_Allocate il a of Inl err \<Rightarrow> Inl err | Inr (x, a1) \<Rightarrow>
      case IPAllocator_Allocate il a1 of Inl err \<Rightarrow> Inl err | Inr (y, _) \<Rightarrow> Inr (x, y))"

type_synonym tunnel_addrs = "(ip_net \<times> ip_net) option \<times> (ip_net \<times> ip_net)"

text \<open>The addresses of both ends, IPv4 first when the node has a tunnel network for it. Networks taken stay taken.\<close>

definition tunnel_addresses :: "'w dataplane_env \<Rightarrow> Software \<Rightarrow> (go_error + tunnel_addrs) \<times> Software" where
  "tunnel_addresses env d =
     (let v6 = (\<lambda>v4 d. case SubnetAllocator_Allocate (dp_il6 env) (sw_tunNet6Allocator d) of
                  Inl err \<Rightarrow> (Inl err, d)
                | Inr (net, a) \<Rightarrow>
                    (let d' = d\<lparr>sw_tunNet6Allocator := a\<rparr> in
                     case two_addresses (NewIPv6Allocator (dp_il6 env)) (dp_il6 env) net of
                       Inl err \<Rightarrow> (Inl err, d')
                     | Inr xy \<Rightarrow> (Inr (v4, xy), d')))
      in case sw_tunNet4Allocator d of
           None \<Rightarrow> v6 None d
         | Some a4 \<Rightarrow>
             (case SubnetAllocator_Allocate (dp_il4 env) a4 of
                Inl err \<Rightarrow> (Inl err, d)
              | Inr (net, a4') \<Rightarrow>
                  (let d' = d\<lparr>sw_tunNet4Allocator := Some a4'\<rparr> in
                   case two_addresses (NewIPv4Allocator (dp_il4 env)) (dp_il4 env) net of
                     Inl err \<Rightarrow> (Inl err, d')
                   | Inr xy \<Rightarrow> v6 (Some xy) d')))"

text \<open>Zones, addresses and activation of both ends; on an error the zone rules are removed again.\<close>

definition wire_ends :: "'w dataplane_env \<Rightarrow> Software \<Rightarrow> link \<times> 32 word \<Rightarrow> link \<times> 32 word \<Rightarrow> tunnel_addrs \<Rightarrow> 'w \<Rightarrow> 'w call" where
  "wire_ends env d e1 e2 addrs w =
     (case e1 of (tun1, t1) \<Rightarrow> case e2 of (tun2, t2) \<Rightarrow> case addrs of (v4, a1, a2) \<Rightarrow>
      let nl = dp_nl env;
          p = bind_err (add_zone env d (lk_Name tun1) t1 w) (\<lambda>_ w.
              bind_err (add_zone env d (lk_Name tun2) t2 w) (\<lambda>_ w.
              bind_err (nl_AddrAdd nl w tun1 (Some a1)) (\<lambda>_ w.
              bind_err (nl_AddrAdd nl w tun2 (Some a2)) (\<lambda>_ w.
              bind_err (case v4 of None \<Rightarrow> (Inr (), w)
                        | Some (b1, b2) \<Rightarrow> bind_err (nl_AddrAdd nl w tun1 (Some b1)) (\<lambda>_ w. nl_AddrAdd nl w tun2 (Some b2))) (\<lambda>_ w.
              bind_err (nl_LinkSetUp nl w tun1) (\<lambda>_ w. nl_LinkSetUp nl w tun2))))))
      in case p of
           (Inr _, w') \<Rightarrow> (Inr (), w')
         | (Inl err, w') \<Rightarrow> (Inl err, remove_zone env d (lk_Name tun2) t2 (remove_zone env d (lk_Name tun1) t1 w')))"

type_synonym tun_data = "string \<times> DualStackAddress"

text \<open>
  One end is always in the routing subnet; the other in the VRF named \<open>vrf2\<close> with table \<open>table2\<close>. The second result
  is what \<open>SetTunnel\<close> was called with on the other end: it stays set when a later step fails.
\<close>

definition createSubnetToSubnetTunnels ::
  "'w dataplane_env \<Rightarrow> string \<Rightarrow> 32 word \<Rightarrow> Software \<Rightarrow> 'w \<Rightarrow> (go_error + tun_data \<times> tun_data) \<times> string \<times> Software \<times> 'w" where
  "createSubnetToSubnetTunnels env vrf2 table2 d w =
     (let nl = dp_nl env in
      case GenerateRandomName (dp_rnd env w 0) ''imltun'' 4 of Inl err \<Rightarrow> (Inl err, '''', d, w) | Inr tunName1 \<Rightarrow>
      case GenerateRandomName (dp_rnd env w 1) ''imltun'' 4 of Inl err \<Rightarrow> (Inl err, '''', d, w) | Inr tunName2 \<Rightarrow>
      case tunnel_addresses env d of (Inl err, d1) \<Rightarrow> (Inl err, '''', d1, w) | (Inr addrs, d1) \<Rightarrow>
      case nl_LinkByName nl w (vrf_name (rs_Vrf (sw_routingSubnet d1))) of Inl err \<Rightarrow> (Inl err, '''', d1, w) | Inr v1 \<Rightarrow>
      case nl_LinkByName nl w vrf2 of Inl err \<Rightarrow> (Inl err, '''', d1, w) | Inr v2 \<Rightarrow>
      (let tun1 = empty_link\<lparr>lk_Name := tunName1, lk_Type := ''veth'', lk_PeerName := tunName2\<rparr> in
       case nl_LinkAdd nl w tun1 of
         (Inl err, w1) \<Rightarrow> (Inl err, '''', d1, w1)
       | (Inr _, w1) \<Rightarrow>
           (case bind_err (nl_LinkByName nl w1 tunName2, w1) (\<lambda>tun2 w2.
                 bind_err (nl_LinkSetMaster nl w2 tun1 v1) (\<lambda>_ w3.
                 bind_err (nl_LinkSetMaster nl w3 tun2 v2) (\<lambda>_ w4.
                   wire_ends env d1 (tun1, router_table d1) (tun2, table2) addrs w4))) of
              (Inl err, w5) \<Rightarrow> (Inl err, tunName2, d1, w5)
            | (Inr _, w5) \<Rightarrow>
                (case addrs of (v4, a1, a2) \<Rightarrow>
                   (Inr ((tunName1, \<lparr>dsa_IPv4 = map_option (fst \<circ> fst) v4, dsa_IPv6 = Some (fst a1)\<rparr>),
                         (tunName2, \<lparr>dsa_IPv4 = map_option (fst \<circ> snd) v4, dsa_IPv6 = Some (fst a2)\<rparr>)), tunName2, d1, w5)))))"

section \<open>Application subnets\<close>

definition addSubnetToAppStatus :: "'w dataplane_env \<Rightarrow> Software \<Rightarrow> nsname \<Rightarrow> ip_net option \<Rightarrow> ip_net option \<Rightarrow> 'w \<Rightarrow> 'w call" where
  "addSubnetToAppStatus env d appID appNet4 appNet6 w =
     and_then (dp_GetApp env w appID, w) ''failed to get application'' (\<lambda>app w.
       let node = gc_NodeName (sw_cfg d);
           here = (case map_of (ap_Subnets app) node of None \<Rightarrow> [] | Some ns \<Rightarrow> ns);
           app' = app\<lparr>ap_Subnets := AList.update node (here @ [(IPNet_String appNet4, IPNet_String appNet6)]) (ap_Subnets app)\<rparr>
       in and_then (dp_PatchAppStatus env w appID app') ''failed to patch application'' (\<lambda>_ w. (Inr (), w)))"

definition take_subnet :: "iplib \<Rightarrow> SubnetAllocator option \<Rightarrow> go_error + (ip_net option \<times> SubnetAllocator option)" where
  "take_subnet il a =
     (case a of None \<Rightarrow> Inr (None, None)
      | Some al \<Rightarrow> (case SubnetAllocator_Allocate il al of Inl err \<Rightarrow> Inl err | Inr (n, al') \<Rightarrow> Inr (Some n, Some al')))"

text \<open>
  Undoing a subnet whose set-up failed: zone rules of the bridge, of both tunnel ends when the tunnels exist,
  then the subnet itself.
\<close>

definition undo_app_subnet :: "'w dataplane_env \<Rightarrow> Software \<Rightarrow> AppSubnet \<Rightarrow> (string \<times> string) option \<Rightarrow> 'w \<Rightarrow> 'w" where
  "undo_app_subnet env d s tuns w =
     (let zone = word_of_int (table_of (as_Vrf s));
          w1 = remove_zone env d (bridge_name (as_Bridge s)) zone w;
          w2 = (case tuns of None \<Rightarrow> w1
                | Some (t1, t2) \<Rightarrow> remove_zone env d t2 zone (remove_zone env d t1 (router_table d) w1))
      in AppSubnet_Teardown (dp_nl env) s w2)"

text \<open>An error of \<open>AddDefaultRoute\<close> is overwritten by the outcome of the status update.\<close>

definition addApplicationSubnet :: "'w dataplane_env \<Rightarrow> nsname \<Rightarrow> Software \<Rightarrow> 'w \<Rightarrow> (go_error + AppSubnet) \<times> Software \<times> 'w" where
  "addApplicationSubnet env appID d w =
     (case take_subnet (dp_il4 env) (sw_appNet4Allocator d) of
        Inl err \<Rightarrow> (Inl (Wrapf ''failed to allocate IPv4 application subnet'' err), d, w)
      | Inr (appNet4, al4) \<Rightarrow>
      (let d1 = d\<lparr>sw_appNet4Allocator := al4\<rparr> in
      case SubnetAllocator_Allocate (dp_il6 env) (sw_appNet6Allocator d1) of
        Inl err \<Rightarrow> (Inl (Wrapf ''failed to allocate IPv6 application subnet'' err), d1, w)
      | Inr (net6, al6) \<Rightarrow>
      (let d2 = d1\<lparr>sw_appNet6Allocator := al6\<rparr> in
      case TableAllocator_Allocate (sw_tableAllocator d2) of
        Inl err \<Rightarrow> (Inl (Wrapf ''failed to allocate application table'' err), d2, w)
      | Inr (tableID, ta) \<Rightarrow>
      (let d3 = d2\<lparr>sw_tableAllocator := ta\<rparr> in
      case NewAppSubnet (dp_nl env) (dp_il4 env) (dp_il6 env) (dp_rnd env w 0) appNet4 (Some net6) tableID w of
        (Inl err, w1) \<Rightarrow> (Inl (Wrapf ''failed to create application subnet'' err), d3, w1)
      | (Inr s, w1) \<Rightarrow>
      (case add_zone env d3 (bridge_name (as_Bridge s)) tableID w1 of
        (Inl err, w2) \<Rightarrow> (Inl (Wrapf ''failed to add app subnet CT zone rules'' err), d3, undo_app_subnet env d3 s None w2)
      | (Inr _, w2) \<Rightarrow>
      (case createSubnetToSubnetTunnels env (vrf_name (as_Vrf s)) tableID d3 w2 of
        (Inl err, tun, d4, w3) \<Rightarrow>
          (Inl (Wrapf ''failed to create subnet to application subnet'' err), d4, undo_app_subnet env d4 (s\<lparr>as_Tunnel := tun\<rparr>) None w3)
      | (Inr (t1, t2), tun, d4, w3) \<Rightarrow>
      (let s' = s\<lparr>as_Tunnel := tun\<rparr>; undo = undo_app_subnet env d4 s' (Some (fst t1, fst t2)) in
      case RoutingSubnet_AddRoute (dp_nl env) (sw_routingSubnet d4) (as_Networks s') (snd t2) (fst t1) w3 of
        (Inl err, w4) \<Rightarrow> (Inl (Wrapf ''failed to install routes towards app subnet in routing subnet'' err), d4, undo w4)
      | (Inr _, w4) \<Rightarrow>
      (let w5 = snd (AppSubnet_AddDefaultRoute (dp_nl env) s' (snd t1) (fst t2) w4);
           known = (case sw_appSubnets d4 appID of None \<Rightarrow> [] | Some ss \<Rightarrow> ss);
           d5 = d4\<lparr>sw_appSubnets := (sw_appSubnets d4)(appID \<mapsto> known @ [s'])\<rparr>
       in case addSubnetToAppStatus env d5 appID appNet4 (Some net6) w5 of
            (Inl err, w6) \<Rightarrow> (Inl (Wrapf ''failed to update application status with subnet info'' err), d5, undo w6)
          | (Inr _, w6) \<Rightarrow> (Inr s', d5, w6)))))))))"

record AppConfig =
  ac_IPs :: DualStackNetwork
  ac_ClusterCIDRs :: DualStackNetwork
  ac_ServiceCIDRs :: DualStackNetwork
  ac_Gateways :: DualStackAddress
  ac_Bridge :: string
  ac_IfaceName :: string
  ac_MTU :: nat

abbreviation DefaultMTU :: nat where "DefaultMTU \<equiv> 1294"

text \<open>Addresses from the i-th subnet of an application. The allocators are shared by pointer, so the stored subnet advances.\<close>

definition allocate_instance :: "'w dataplane_env \<Rightarrow> nsname \<Rightarrow> nat \<Rightarrow> Software \<Rightarrow> 'w \<Rightarrow> (go_error + AppConfig) \<times> Software \<times> 'w" where
  "allocate_instance env app i d w =
     (case sw_appSubnets d app of None \<Rightarrow> (Inl (TypedError ''nil pointer''), d, w) | Some ss \<Rightarrow>
      (case AppSubnet_AllocateIPs (dp_il4 env) (dp_il6 env) (ss ! i) of
         (res, s') \<Rightarrow>
           (let d' = d\<lparr>sw_appSubnets := (sw_appSubnets d)(app \<mapsto> ss[i := s'])\<rparr> in
            case res of
              Inl err \<Rightarrow> (Inl (Wrapf ''failed to allocate IPs for application'' err), d', w)
            | Inr ips \<Rightarrow>
                (case GenerateRandomName (dp_rnd env w 0) ''nfr'' 8 of
                   Inl err \<Rightarrow> (Inl (Wrapf ''failed to generate interface name'' err), d', w)
                 | Inr ifaceName \<Rightarrow>
                     (Inr \<lparr>ac_IPs = ips, ac_ClusterCIDRs = gc_ClusterCIDR (sw_cfg d), ac_ServiceCIDRs = gc_ServiceCIDR (sw_cfg d),
                           ac_Gateways = as_GatewayIPs s', ac_Bridge = bridge_name (as_Bridge s'), ac_IfaceName = ifaceName, ac_MTU = DefaultMTU\<rparr>,
                      d', w)))))"

text \<open>\<open>HasIPsAvailable\<close> is always true: the first subnet is taken when there is one, a new one otherwise.\<close>

definition ConfigureAppInstance :: "'w dataplane_env \<Rightarrow> nsname \<Rightarrow> Software \<Rightarrow> 'w \<Rightarrow> (go_error + AppConfig) \<times> Software \<times> 'w" where
  "ConfigureAppInstance env app d w =
     (case sw_appSubnets d app of
        Some (s # ss) \<Rightarrow> allocate_instance env app 0 d w
      | _ \<Rightarrow>
          (case addApplicationSubnet env app d w of
             (Inl err, d1, w1) \<Rightarrow> (Inl (Wrapf ''failed to add subnet'' err), d1, w1)
           | (Inr _, d1, w1) \<Rightarrow> allocate_instance env app (case sw_appSubnets d1 app of Some ss \<Rightarrow> length ss - 1 | None \<Rightarrow> 0) d1 w1))"

section \<open>Service chains\<close>

fun add_to_subnets :: "'w dataplane_env \<Rightarrow> Software \<Rightarrow> SRv6Route \<Rightarrow> AppSubnet list \<Rightarrow> 'w \<Rightarrow> 'w call" where
  "add_to_subnets env d route [] w = (Inr (), w)"
| "add_to_subnets env d route (s # ss) w =
     (case (rs_DecapSIDv4 (sw_routingSubnet d), rs_DecapSIDv6 (sw_routingSubnet d)) of
        (Some sid4, Some sid6) \<Rightarrow>
          and_then (AppSubnet_AddSRv6Route (dp_nl env) s (sr_DestNet route) (sr_FunctionIPs route) sid4 sid6 w)
            ''failed to add SRv6 route to subnet'' (\<lambda>_ w. add_to_subnets env d route ss w)
      | _ \<Rightarrow> (Inl (TypedError ''nil pointer''), w))"

definition chain_routes :: "Software \<Rightarrow> nsname \<Rightarrow> SRv6Route list" where
  "chain_routes d chain = (case sw_serviceChainRoutes d chain of None \<Rightarrow> [] | Some rs \<Rightarrow> rs)"

fun add_chain_routes :: "'w dataplane_env \<Rightarrow> nsname \<Rightarrow> SRv6Route list \<Rightarrow> Software \<Rightarrow> 'w \<Rightarrow> (go_error + unit) \<times> Software \<times> 'w" where
  "add_chain_routes env chain [] d w = (Inr (), d, w)"
| "add_chain_routes env chain (route # routes) d w =
     (case sw_appSubnets d (sr_SourceApp route) of
        None \<Rightarrow> (Inl (Errorf ''source app subnet does not exist'' None), d, w)
      | Some [] \<Rightarrow> (Inl (Errorf ''source app subnet has no subnets in use'' None), d, w)
      | Some subnets \<Rightarrow>
          (case add_to_subnets env d route subnets w of
             (Inl err, w1) \<Rightarrow> (Inl err, d, w1)
           | (Inr _, w1) \<Rightarrow>
               add_chain_routes env chain routes
                 (d\<lparr>sw_serviceChainRoutes := (sw_serviceChainRoutes d)(chain \<mapsto> chain_routes d chain @ [route])\<rparr>) w1))"

definition AddServiceChainRoutes :: "'w dataplane_env \<Rightarrow> nsname \<Rightarrow> SRv6Route list \<Rightarrow> Software \<Rightarrow> 'w \<Rightarrow> (go_error + unit) \<times> Software \<times> 'w" where
  "AddServiceChainRoutes env chain routes d w =
     add_chain_routes env chain routes (d\<lparr>sw_serviceChainRoutes := (sw_serviceChainRoutes d)(chain \<mapsto> chain_routes d chain)\<rparr>) w"

definition ListServiceChainRoutes :: "nsname \<Rightarrow> Software \<Rightarrow> SRv6Route list" where
  "ListServiceChainRoutes chain d = (case sw_serviceChainRoutes d chain of None \<Rightarrow> [] | Some rs \<Rightarrow> rs)"

fun delete_from_subnets :: "'w dataplane_env \<Rightarrow> SRv6Route \<Rightarrow> AppSubnet list \<Rightarrow> 'w \<Rightarrow> 'w call" where
  "delete_from_subnets env route [] w = (Inr (), w)"
| "delete_from_subnets env route (s # ss) w =
     and_then (AppSubnet_DeleteSRv6Route (dp_nl env) s (sr_DestNet route) w)
       ''failed to add SRv6 route to subnet'' (\<lambda>_ w. delete_from_subnets env route ss w)"

text \<open>The last step appends the route to the recorded ones again.\<close>

definition DeleteServiceChainRoute :: "'w dataplane_env \<Rightarrow> nsname \<Rightarrow> SRv6Route \<Rightarrow> Software \<Rightarrow> 'w \<Rightarrow> (go_error + unit) \<times> Software \<times> 'w" where
  "DeleteServiceChainRoute env chain route d w =
     (case sw_serviceChainRoutes d chain of
        None \<Rightarrow> (Inr (), d, w)
      | Some known \<Rightarrow>
          (case sw_appSubnets d (sr_SourceApp route) of
             None \<Rightarrow> (Inr (), d, w)
           | Some subnets \<Rightarrow>
               (case delete_from_subnets env route subnets w of
                  (Inl err, w1) \<Rightarrow> (Inl err, d, w1)
                | (Inr _, w1) \<Rightarrow> (Inr (), d\<lparr>sw_serviceChainRoutes := (sw_serviceChainRoutes d)(chain \<mapsto> known @ [route])\<rparr>, w1))))"

text \<open>The loop runs over the routes recorded when it starts.\<close>

fun delete_chain_routes :: "'w dataplane_env \<Rightarrow> nsname \<Rightarrow> SRv6Route list \<Rightarrow> Software \<Rightarrow> 'w \<Rightarrow> (go_error + unit) \<times> Software \<times> 'w" where
  "delete_chain_routes env chain [] d w = (Inr (), d, w)"
| "delete_chain_routes env chain (route # routes) d w =
     (case DeleteServiceChainRoute env chain route d w of
        (Inl err, d1, w1) \<Rightarrow> (Inl err, d1, w1)
      | (Inr _, d1, w1) \<Rightarrow> delete_chain_routes env chain routes d1 w1)"

definition DeleteAllServiceChainRoutes :: "'w dataplane_env \<Rightarrow> nsname \<Rightarrow> Software \<Rightarrow> 'w \<Rightarrow> (go_error + unit) \<times> Software \<times> 'w" where
  "DeleteAllServiceChainRoutes env chain d w =
     (case sw_serviceChainRoutes d chain of
        None \<Rightarrow> (Inr (), d, w)
      | Some routes \<Rightarrow>
          (case delete_chain_routes env chain routes d w of
             (Inl err, d1, w1) \<Rightarrow> (Inl err, d1, w1)
           | (Inr _, d1, w1) \<Rightarrow> (Inr (), d1\<lparr>sw_serviceChainRoutes := (sw_serviceChainRoutes d1)(chain := None)\<rparr>, w1)))"

section \<open>Targets on the routing bridge\<close>

record P4TargetConfig =
  pc_IPv6Net :: ip_net
  pc_ClusterIPv6CIDR :: ip_net
  pc_IPv6Gateway :: "bytes option"
  pc_Bridge :: string
  pc_MTU :: nat
  pc_IfaceName :: string

definition target_config :: "Software \<Rightarrow> P4TargetInstance \<Rightarrow> go_error + P4TargetConfig" where
  "target_config d t =
     (case (dsn_IPv6Net (ti_TargetIPs t), dsn_IPv6Net (gc_ClusterCIDR (sw_cfg d))) of
        (Some net, Some cluster) \<Rightarrow>
          Inr \<lparr>pc_IPv6Net = net, pc_ClusterIPv6CIDR = cluster, pc_IPv6Gateway = rs_Gateway (sw_routingSubnet d),
               pc_Bridge = bridge_name (rs_Bridge (sw_routingSubnet d)), pc_MTU = DefaultMTU, pc_IfaceName = ti_ifaceName t\<rparr>
      | _ \<Rightarrow> Inl (TypedError ''nil pointer''))"

definition ConfigureP4TargetInstance :: "'w dataplane_env \<Rightarrow> string \<Rightarrow> Software \<Rightarrow> 'w \<Rightarrow> (go_error + P4TargetConfig) \<times> Software" where
  "ConfigureP4TargetInstance env targetName d w =
     (case sw_p4Targets d targetName of
        Some t \<Rightarrow> (target_config d t, d)
      | None \<Rightarrow>
          (case RoutingSubnet_AllocateIPs (dp_il6 env) (sw_routingSubnet d) of
             (Inl err, r) \<Rightarrow> (Inl (Wrapf ''failed to allocate IPs for target'' err), d\<lparr>sw_routingSubnet := r\<rparr>)
           | (Inr ips, r) \<Rightarrow>
               (let d1 = d\<lparr>sw_routingSubnet := r\<rparr> in
                case GenerateRandomName (dp_rnd env w 0) ''nfr'' 8 of
                  Inl err \<Rightarrow> (Inl (Wrapf ''failed to generate interface name'' err), d1)
                | Inr ifaceName \<Rightarrow>
                    (let t = \<lparr>ti_TargetIPs = ips, ti_ifaceName = ifaceName\<rparr>;
                         d2 = d1\<lparr>sw_p4Targets := (sw_p4Targets d1)(targetName \<mapsto> t)\<rparr>
                     in (target_config d2 t, d2)))))"

definition UpdateP4TargetRoutes :: "'w dataplane_env \<Rightarrow> P4Target \<Rightarrow> Software \<Rightarrow> 'w \<Rightarrow> 'w call" where
  "UpdateP4TargetRoutes env target d w =
     (if ptt_NodeName (pt_Status target) \<noteq> gc_NodeName (sw_cfg d) then (Inr (), w)
      else if ptt_TargetIPs (pt_Status target) = [] \<or> ptt_DriverIPs (pt_Status target) = [] \<or> pts_NfCIDR (pt_Spec target) = '''' then (Inr (), w)
      else
        and_then (ParseDualStackGatewayFromStrings (ptt_TargetIPs (pt_Status target)), w) ''failed to parse target IPs for P4Target'' (\<lambda>targetAddrs w.
        and_then (ParseDualStackNetworkFromStrings [pts_NfCIDR (pt_Spec target)], w) ''failed to parse nf CIDR for P4Target'' (\<lambda>nfCIDR w.
        and_then (RoutingSubnet_AddRoute (dp_nl env) (sw_routingSubnet d) nfCIDR targetAddrs (bridge_name (rs_Bridge (sw_routingSubnet d))) w)
          ''failed to add route for P4Target'' (\<lambda>_ w. (Inr (), w)))))"

section \<open>Targets in a host VRF\<close>

record P4TargetVRFInfo =
  vi_Name :: string
  vi_Table :: "32 word"
  vi_Interface :: string
  vi_Addresses :: DualStackAddress
  vi_Gateways :: DualStackAddress

definition targetVRFInfo :: "TargetVRF \<Rightarrow> P4TargetVRFInfo" where
  "targetVRFInfo t = \<lparr>vi_Name = vrf_name (tv_Vrf t), vi_Table = word_of_int (table_of (tv_Vrf t)), vi_Interface = tv_Tunnel t,
     vi_Addresses = tv_TunnelAddrs t, vi_Gateways = tv_RouterTunnelAddrs t\<rparr>"

definition linkExists :: "'w netlink \<Rightarrow> string \<Rightarrow> 'w \<Rightarrow> bool" where
  "linkExists nl name w = (case nl_LinkByName nl w name of Inr _ \<Rightarrow> True | Inl _ \<Rightarrow> False)"

definition ipNetString :: "ip_net option \<Rightarrow> string" where
  "ipNetString n = (if n = None then '''' else IPNet_String n)"

definition sameDualStackNetwork :: "DualStackNetwork \<Rightarrow> DualStackNetwork \<Rightarrow> bool" where
  "sameDualStackNetwork a b \<longleftrightarrow>
     ipNetString (dsn_IPv4Net a) = ipNetString (dsn_IPv4Net b) \<and> ipNetString (dsn_IPv6Net a) = ipNetString (dsn_IPv6Net b)"

definition teardownTargetVRF :: "'w dataplane_env \<Rightarrow> Software \<Rightarrow> TargetVRF \<Rightarrow> 'w \<Rightarrow> 'w" where
  "teardownTargetVRF env d t w =
     (let nl = dp_nl env;
          w1 = (if tv_RouterTunnel t = '''' then w
                else remove_zone env d (tv_RouterTunnel t) (router_table d) (snd (RoutingSubnet_RemoveRoute nl (sw_routingSubnet d) (tv_NfCIDR t) w)));
          w2 = (if tv_Tunnel t = '''' then w1 else remove_zone env d (tv_Tunnel t) (word_of_int (table_of (tv_Vrf t))) w1);
          w3 = TargetVRF_Teardown nl t w2
      in if tv_Tunnel t = '''' then w3 else delete_named nl (tv_Tunnel t) w3)"

text \<open>Creating the VRF of a target: its own routing table, the device, the tunnels, and the routes, those into the VRF last.\<close>

definition create_target_vrf ::
  "'w dataplane_env \<Rightarrow> string \<Rightarrow> DualStackNetwork \<Rightarrow> Software \<Rightarrow> 'w \<Rightarrow> (go_error + P4TargetVRFInfo) \<times> Software \<times> 'w" where
  "create_target_vrf env key nfCIDR d w =
     (case TableAllocator_Allocate (sw_tableAllocator d) of
        Inl err \<Rightarrow> (Inl (Wrapf ''failed to allocate table for P4Target'' err), d, w)
      | Inr (tableID, ta) \<Rightarrow>
      (let d1 = d\<lparr>sw_tableAllocator := ta\<rparr> in
      case NewTargetVRF (dp_nl env) tableID nfCIDR w of
        (Inl err, w1) \<Rightarrow> (Inl (Wrapf ''failed to create VRF for P4Target'' err), d1, w1)
      | (Inr t, w1) \<Rightarrow>
      (case createSubnetToSubnetTunnels env (vrf_name (tv_Vrf t)) tableID d1 w1 of
        (Inl err, tun, d2, w2) \<Rightarrow>
          (Inl (Wrapf ''failed to connect VRF of P4Target to the routing VRF'' err), d2, teardownTargetVRF env d2 (t\<lparr>tv_Tunnel := tun\<rparr>) w2)
      | (Inr (routerTun, vrfTun), tun, d2, w2) \<Rightarrow>
      (let t' = t\<lparr>tv_Tunnel := tun, tv_TunnelAddrs := snd vrfTun, tv_RouterTunnel := fst routerTun, tv_RouterTunnelAddrs := snd routerTun\<rparr> in
      case TargetVRF_AddDefaultRoute (dp_nl env) t' w2 of
        (Inl err, w3) \<Rightarrow> (Inl (Wrapf ''failed to route VRF of P4Target to the routing VRF'' err), d2, teardownTargetVRF env d2 t' w3)
      | (Inr _, w3) \<Rightarrow>
      (case RoutingSubnet_AddRoute (dp_nl env) (sw_routingSubnet d2) nfCIDR (snd vrfTun) (fst routerTun) w3 of
        (Inl err, w4) \<Rightarrow> (Inl (Wrapf ''failed to route NF CIDR of P4Target into its VRF'' err), d2, teardownTargetVRF env d2 t' w4)
      | (Inr _, w4) \<Rightarrow>
          (Inr (targetVRFInfo t'), d2\<lparr>sw_p4TargetVRFs := (sw_p4TargetVRFs d2)(key \<mapsto> t')\<rparr>, w4))))))"

definition EnsureP4TargetVRF :: "'w dataplane_env \<Rightarrow> P4Target \<Rightarrow> Software \<Rightarrow> 'w \<Rightarrow> (go_error + P4TargetVRFInfo) \<times> Software \<times> 'w" where
  "EnsureP4TargetVRF env target d w =
     (if pts_NfCIDR (pt_Spec target) = '''' then (Inl (Errorf ''P4Target has no NF CIDR assigned yet'' None), d, w)
      else
      case ParseDualStackNetworkFromStrings [pts_NfCIDR (pt_Spec target)] of
        Inl err \<Rightarrow> (Inl (Wrapf ''failed to parse nf CIDR for P4Target'' err), d, w)
      | Inr nfCIDR \<Rightarrow>
          (case sw_p4TargetVRFs d (om_Name target) of
             Some existing \<Rightarrow>
               if sameDualStackNetwork (tv_NfCIDR existing) nfCIDR \<and> linkExists (dp_nl env) (vrf_name (tv_Vrf existing)) w
               then (Inr (targetVRFInfo existing), d, w)
               else create_target_vrf env (om_Name target) nfCIDR
                      (d\<lparr>sw_p4TargetVRFs := (sw_p4TargetVRFs d)(om_Name target := None)\<rparr>) (teardownTargetVRF env d existing w)
           | None \<Rightarrow> create_target_vrf env (om_Name target) nfCIDR d w))"

definition RemoveP4TargetVRF :: "'w dataplane_env \<Rightarrow> string \<Rightarrow> Software \<Rightarrow> 'w \<Rightarrow> Software \<times> 'w" where
  "RemoveP4TargetVRF env key d w =
     (case sw_p4TargetVRFs d key of
        None \<Rightarrow> (d, w)
      | Some t \<Rightarrow> (d\<lparr>sw_p4TargetVRFs := (sw_p4TargetVRFs d)(key := None)\<rparr>, teardownTargetVRF env d t w))"

section \<open>Start and shutdown\<close>

abbreviation sysctls :: "(string \<times> string) list" where
  "sysctls \<equiv> [(''/proc/sys/net/ipv6/conf/all/forwarding'', ''1''), (''/proc/sys/net/ipv4/ip_forward'', ''1''),
     (''/proc/sys/net/ipv6/conf/all/seg6_enabled'', ''1''), (''/proc/sys/net/ipv6/conf/default/seg6_enabled'', ''1''),
     (''/proc/sys/net/vrf/strict_mode'', ''1''), (''/proc/sys/net/ipv4/conf/all/rp_filter'', ''0''),
     (''/proc/sys/net/netfilter/nf_hooks_lwtunnel'', ''1'')]"

fun write_files :: "'w dataplane_env \<Rightarrow> (string \<times> string) list \<Rightarrow> 'w \<Rightarrow> 'w call" where
  "write_files env [] w = (Inr (), w)"
| "write_files env ((f, v) # fs) w = and_then (dp_WriteFile env w f v) ''failed to write sysctl'' (\<lambda>_ w. write_files env fs w)"

abbreviation geneve_TunnelName :: string where "geneve_TunnelName \<equiv> ''imlgnv0''"

fun add_zones :: "'w dataplane_env \<Rightarrow> Software \<Rightarrow> string list \<Rightarrow> 32 word \<Rightarrow> 'w \<Rightarrow> 'w call" where
  "add_zones env d [] zone w = (Inr (), w)"
| "add_zones env d (i # is) zone w = bind_err (add_zone env d i zone w) (\<lambda>_ w. add_zones env d is zone w)"

definition addRouterVRFCTZoneRules :: "'w dataplane_env \<Rightarrow> Software \<Rightarrow> 'w \<Rightarrow> 'w call" where
  "addRouterVRFCTZoneRules env d w =
     add_zones env d [geneve_TunnelName, bridge_name (rs_Bridge (sw_routingSubnet d)), DecapInterfaceName, DecapPeerInterfaceName] (router_table d) w"

text \<open>The allocators a start needs: networks for applications and for tunnels.\<close>

definition start_allocators ::
  "GlobalConfig \<Rightarrow> go_error + (SubnetAllocator \<times> SubnetAllocator option \<times> SubnetAllocator \<times> SubnetAllocator option)" where
  "start_allocators cfg =
     (case NewSubnet6Allocator (dsn_IPv6Net (gc_PodCIDR cfg)) 96 of Inl err \<Rightarrow> Inl (Wrapf ''failed to create IPv6 subnet allocator'' err) | Inr net6 \<Rightarrow>
      case (if dsn_IPv4Net (gc_ClusterCIDR cfg) = None then Inr None else map_sum id Some (NewSubnet4Allocator (dsn_IPv4Net (gc_PodCIDR cfg)) 28)) of
        Inl err \<Rightarrow> Inl (Wrapf ''failed to create application subnet allocator'' err) | Inr net4 \<Rightarrow>
      case NewSubnet6Allocator (dsn_IPv6Net (gc_TunnelCIDR cfg)) 126 of Inl err \<Rightarrow> Inl (Wrapf ''failed to create tunnel subnet allocator'' err) | Inr tun6 \<Rightarrow>
      case (if dsn_IPv4Net (gc_TunnelCIDR cfg) = None then Inr None else map_sum id Some (NewSubnet4Allocator (dsn_IPv4Net (gc_TunnelCIDR cfg)) 30)) of
        Inl err \<Rightarrow> Inl (Wrapf ''failed to create tunnel subnet allocator'' err) | Inr tun4 \<Rightarrow>
      Inr (net6, net4, tun6, tun4))"

text \<open>The firewall rules of both families.\<close>

definition install_rules :: "'w dataplane_env \<Rightarrow> GlobalConfig \<Rightarrow> 'w \<Rightarrow> 'w call" where
  "install_rules env cfg w =
     (case dp_iptErr env of Some err \<Rightarrow> (Inl (Wrapf ''failed to create ip6t'' err), w) | None \<Rightarrow>
      and_then (ensureFilterIPTablesRulesArePresent (dp_ipt env) w) ''failed to create filter iptables rules'' (\<lambda>_ w.
      and_then (ensureRawIPTablesRulesArePresent (dp_ipt env) w) ''failed to create raw iptables rules'' (\<lambda>_ w.
      if dsn_IPv4Net (gc_ClusterCIDR cfg) = None then (Inr (), w)
      else case dp_ip4tErr env of Some err \<Rightarrow> (Inl (Wrapf ''failed to create ip4t'' err), w) | None \<Rightarrow>
      and_then (ensureNatIPTables4RulesArePresent (dp_ip4t env) (IPNet_String (dsn_IPv4Net (gc_ClusterCIDR cfg))) w) ''failed to create nat IPv4 iptables rules'' (\<lambda>_ w.
      and_then (ensureRawIPTablesRulesArePresent (dp_ip4t env) w) ''failed to create raw IPv4 iptables rules'' (\<lambda>_ w. (Inr (), w))))))"

definition NewSoftware :: "'w dataplane_env \<Rightarrow> GlobalConfig \<Rightarrow> 'w \<Rightarrow> (go_error + Software) \<times> 'w" where
  "NewSoftware env cfg w =
     (if dsn_IPv6Net (gc_ClusterCIDR cfg) = None then (Inl (Errorf ''cluster IPv6 Range cannot nil'' None), w)
      else
      case start_allocators cfg of Inl err \<Rightarrow> (Inl err, w) | Inr (net6, net4, tun6, tun4) \<Rightarrow>
      case SubnetAllocator_Allocate (dp_il6 env) net6 of Inl err \<Rightarrow> (Inl (Wrapf ''failed to assign router-vrf's ip network'' err), w) | Inr (routingIPNet, net6') \<Rightarrow>
      case SubnetAllocator_Allocate (dp_il6 env) net6' of Inl err \<Rightarrow> (Inl (Wrapf ''failed to assign router-vrf's SID network'' err), w) | Inr (routingSIDNet, net6'') \<Rightarrow>
      case NewTableAllocator 1000 of Inl err \<Rightarrow> (Inl (Wrapf ''failed to create table allocator'' err), w) | Inr ta \<Rightarrow>
      case TableAllocator_Allocate ta of Inl err \<Rightarrow> (Inl (Wrapf ''failed to create routing table allocator'' err), w) | Inr (rtrVrfTable, ta') \<Rightarrow>
      (case write_files env sysctls w of (Inl err, w1) \<Rightarrow> (Inl err, w1) | (Inr _, w1) \<Rightarrow>
       case NewRoutingSubnet (dp_nl env) (dp_il6 env) (dp_rnd env w1 0) (dp_Attach env) (Some routingIPNet) (Some routingSIDNet) rtrVrfTable w1 of
         (Inl err, w2) \<Rightarrow> (Inl (Wrapf ''failed to create routing subnet'' err), w2)
       | (Inr rtrSubnet, w2) \<Rightarrow>
       (let undo = RoutingSubnet_Teardown (dp_nl env) rtrSubnet in
        case install_rules env cfg w2 of
          (Inl err, w3) \<Rightarrow> (Inl err, undo w3)
        | (Inr _, w3) \<Rightarrow>
        (let d = \<lparr>sw_appSubnets = Map.empty, sw_p4Targets = Map.empty, sw_p4TargetVRFs = Map.empty, sw_routingSubnet = rtrSubnet,
                  sw_serviceChainRoutes = Map.empty, sw_has_ip4t = (dsn_IPv4Net (gc_ClusterCIDR cfg) \<noteq> None), sw_appNet6Allocator = net6'',
                  sw_appNet4Allocator = net4, sw_tunNet6Allocator = tun6, sw_tunNet4Allocator = tun4, sw_tableAllocator = ta', sw_cfg = cfg\<rparr>
         in case addRouterVRFCTZoneRules env d w3 of
              (Inl err, w4) \<Rightarrow> (Inl (Wrapf ''failed to add router VRF CT zone rules'' err), undo w4)
            | (Inr _, w4) \<Rightarrow> (Inr d, w4)))))"

text \<open>The maps are walked in any order: \<open>vrfs\<close> and \<open>apps\<close> are the keys in the order taken. Errors are only logged.\<close>

definition Shutdown :: "'w dataplane_env \<Rightarrow> string list \<Rightarrow> nsname list \<Rightarrow> Software \<Rightarrow> 'w \<Rightarrow> Software \<times> 'w" where
  "Shutdown env vrfs apps d w =
     (let (d1, w1) = fold (\<lambda>k (d, w). RemoveP4TargetVRF env k d w) vrfs (d, w);
          w2 = RoutingSubnet_Teardown (dp_nl env) (sw_routingSubnet d1) w1;
          w3 = fold (\<lambda>a w. fold (AppSubnet_Teardown (dp_nl env)) (case sw_appSubnets d1 a of None \<Rightarrow> [] | Some ss \<Rightarrow> ss) w) apps w2;
          w4 = snd (ensureFilterIPTablesRulesAreRemoved (dp_ipt env) w3);
          w5 = snd (ensureRawIPTablesRulesAreRemoved (dp_ipt env) w4)
      in (d1, if sw_has_ip4t d1
              then snd (ensureRawIPTablesRulesAreRemoved (dp_ip4t env)
                     (snd (ensureNatIPTables4RulesAreRemoved (dp_ip4t env) (IPNet_String (dsn_IPv4Net (gc_ClusterCIDR (sw_cfg d1)))) w5)))
              else w5))"


section \<open>No two VRFs share a routing table\<close>

text \<open>Who can hold a routing table: the routing subnet, the i-th subnet of an application, the VRF of a target.\<close>

datatype vrf_holder = HRouter | HApp nsname nat | HTarget string

fun vrf_table :: "Software \<Rightarrow> vrf_holder \<Rightarrow> int option" where
  "vrf_table d HRouter = map_option lk_Table (rs_Vrf (sw_routingSubnet d))"
| "vrf_table d (HApp a i) =
     (case sw_appSubnets d a of None \<Rightarrow> None | Some ss \<Rightarrow> if i < length ss then map_option lk_Table (as_Vrf (ss ! i)) else None)"
| "vrf_table d (HTarget k) = (case sw_p4TargetVRFs d k of None \<Rightarrow> None | Some t \<Rightarrow> map_option lk_Table (tv_Vrf t))"

definition tables_inv :: "nat \<Rightarrow> Software \<Rightarrow> bool" where
  "tables_inv n d \<longleftrightarrow> unat (ta_lastAssigned (sw_tableAllocator d)) = n \<and>
     (\<forall>h t. vrf_table d h = Some t \<longrightarrow> t \<le> int n) \<and>
     (\<forall>h h' t. vrf_table d h = Some t \<and> vrf_table d h' = Some t \<longrightarrow> h = h')"

definition no_new_tables :: "Software \<Rightarrow> Software \<Rightarrow> bool" where
  "no_new_tables d d' \<longleftrightarrow> (\<forall>h t. vrf_table d' h = Some t \<longrightarrow> vrf_table d h = Some t)"

lemma tables_keep:
  assumes "tables_inv n d" "sw_tableAllocator d' = sw_tableAllocator d" "no_new_tables d d'"
  shows "tables_inv n d'"
  using assms unfolding tables_inv_def no_new_tables_def by metis

lemma tables_grow:
  assumes inv: "tables_inv n d" and n: "Suc n < 2 ^ 32" and ta: "TableAllocator_Allocate (sw_tableAllocator d) = Inr (tb, sw_tableAllocator d')"
    and new: "\<forall>h t. vrf_table d' h = Some t \<longrightarrow> vrf_table d h = Some t \<or> h = h0 \<and> t = int (unat tb)"
  shows "tables_inv (Suc n) d'"
proof -
  have last: "unat (ta_lastAssigned (sw_tableAllocator d)) = n" using inv by (simp add: tables_inv_def)
  have tb: "tb = ta_lastAssigned (sw_tableAllocator d) + 1" "ta_lastAssigned (sw_tableAllocator d') = tb"
    using ta [symmetric] by (simp_all add: TableAllocator_Allocate_def Let_def)
  have un: "unat tb = Suc n" unfolding tb(1) using last n by (simp add: unat_word_ariths)
  have old: "t \<le> int n" if "vrf_table d h = Some t" for h t using inv that by (simp add: tables_inv_def)
  have le: "t \<le> int (Suc n)" if "vrf_table d' h = Some t" for h t using new that old [of h t] un by fastforce
  have inj: "h = h'" if h: "vrf_table d' h = Some t" "vrf_table d' h' = Some t" for h h' t
  proof (cases "t = int (Suc n)")
    case True
    then have "vrf_table d h \<noteq> Some t" "vrf_table d h' \<noteq> Some t" using old [of h t] old [of h' t] by auto
    then show ?thesis using new h by blast
  next
    case False
    then have "vrf_table d h = Some t" "vrf_table d h' = Some t" using new h un by auto
    then show ?thesis using inv unfolding tables_inv_def by blast
  qed
  show ?thesis unfolding tables_inv_def using un tb(2) le inj by blast
qed

lemma or_undo_Inr: "or_undo p msg undo k = (Inr y, w') \<longleftrightarrow> (\<exists>x w. p = (Inr x, w) \<and> k x w = (Inr y, w'))"
  by (auto simp: or_undo_def split: prod.splits sum.splits)

lemma NewTargetVRF_table: "NewTargetVRF nl tb cidr w = (Inr t, w') \<Longrightarrow> map_option lk_Table (tv_Vrf t) = Some (int (unat tb)) \<and> tv_NfCIDR t = cidr"
  by (auto simp: NewTargetVRF_def Let_def split: if_splits prod.splits sum.splits)

lemma NewAppSubnet_table:
  "NewAppSubnet nl il4 il6 rnd n4 n6 tb w = (Inr s, w') \<Longrightarrow> map_option lk_Table (as_Vrf s) = Some (int (unat tb))"
  by (auto simp: NewAppSubnet_def Let_def or_undo_Inr split: if_splits sum.splits prod.splits)

lemma NewRoutingSubnet_table:
  "NewRoutingSubnet nl il6 rnd attach tn sn tb w = (Inr r, w') \<Longrightarrow> map_option lk_Table (rs_Vrf r) = Some (int (unat tb))"
  by (auto simp: NewRoutingSubnet_def Let_def or_undo_Inr split: option.splits sum.splits prod.splits)

lemma AllocateIPs_vrf: "AppSubnet_AllocateIPs il4 il6 s = (res, s') \<Longrightarrow> as_Vrf s' = as_Vrf s"
  by (auto simp: AppSubnet_AllocateIPs_def Let_def split: StackType.splits sum.splits prod.splits)

text \<open>Creating tunnels changes only the allocators of the tunnel networks.\<close>

definition same_vrfs :: "Software \<Rightarrow> Software \<Rightarrow> bool" where
  "same_vrfs d d' \<longleftrightarrow> sw_appSubnets d' = sw_appSubnets d \<and> sw_p4TargetVRFs d' = sw_p4TargetVRFs d \<and>
     sw_routingSubnet d' = sw_routingSubnet d \<and> sw_tableAllocator d' = sw_tableAllocator d"

lemma same_vrfs_table: "same_vrfs d d' \<Longrightarrow> vrf_table d' h = vrf_table d h"
  by (cases h) (simp_all add: same_vrfs_def)

lemma tunnel_addresses_same: "tunnel_addresses env d = (res, d') \<Longrightarrow> same_vrfs d d'"
  by (auto simp: tunnel_addresses_def same_vrfs_def Let_def split: option.splits sum.splits prod.splits)

lemma tunnels_same:
  assumes "createSubnetToSubnetTunnels env v tb d w = (res, tun, d', w')"
  shows "same_vrfs d d'"
proof -
  obtain r d1 where a: "tunnel_addresses env d = (r, d1)" by fastforce
  have "d' = d1 \<or> d' = d" using assms a by (auto simp: createSubnetToSubnetTunnels_def Let_def split: sum.splits prod.splits)
  then show ?thesis using tunnel_addresses_same [OF a] by (auto simp: same_vrfs_def)
qed


text \<open>The calls the controllers and the CNI server make, in any order, each in any state of the kernel.\<close>

datatype dp_op =
    OpEnsure P4Target
  | OpRemove string
  | OpTarget string
  | OpApp nsname
  | OpAddChain nsname "SRv6Route list"
  | OpDelChain nsname

fun run_op :: "'w dataplane_env \<Rightarrow> dp_op \<times> 'w \<Rightarrow> Software \<Rightarrow> Software" where
  "run_op env (OpEnsure t, w) d = fst (snd (EnsureP4TargetVRF env t d w))"
| "run_op env (OpRemove k, w) d = fst (RemoveP4TargetVRF env k d w)"
| "run_op env (OpTarget k, w) d = snd (ConfigureP4TargetInstance env k d w)"
| "run_op env (OpApp a, w) d = fst (snd (ConfigureAppInstance env a d w))"
| "run_op env (OpAddChain c rs, w) d = fst (snd (AddServiceChainRoutes env c rs d w))"
| "run_op env (OpDelChain c, w) d = fst (snd (DeleteAllServiceChainRoutes env c d w))"

definition next_ok :: "nat \<Rightarrow> Software \<Rightarrow> bool" where
  "next_ok n d \<longleftrightarrow> tables_inv n d \<or> tables_inv (Suc n) d"

lemma no_new_same: "same_vrfs d d' \<Longrightarrow> no_new_tables d d'"
  by (simp add: no_new_tables_def same_vrfs_table)

lemma no_new_trans: "no_new_tables a b \<Longrightarrow> no_new_tables b c \<Longrightarrow> no_new_tables a c"
  by (simp add: no_new_tables_def)

lemma tables_same: "tables_inv n d \<Longrightarrow> same_vrfs d d' \<Longrightarrow> tables_inv n d'"
  by (rule tables_keep [of n d]) (auto simp: no_new_same, simp add: same_vrfs_def)

lemma drop_target: "no_new_tables d (d\<lparr>sw_p4TargetVRFs := (sw_p4TargetVRFs d)(k := None)\<rparr>)"
  unfolding no_new_tables_def
proof (intro allI impI)
  fix h t assume "vrf_table (d\<lparr>sw_p4TargetVRFs := (sw_p4TargetVRFs d)(k := None)\<rparr>) h = Some t"
  then show "vrf_table d h = Some t" by (cases h) (auto split: if_splits)
qed

lemma create_target_tables:
  assumes inv: "tables_inv n d" and n: "Suc n < 2 ^ 32" and c: "create_target_vrf env k cidr d w = (res, d', w')"
  shows "tables_inv (Suc n) d'"
proof -
  obtain tb ta where ta: "TableAllocator_Allocate (sw_tableAllocator d) = Inr (tb, ta)" by (simp add: TableAllocator_Allocate_def Let_def)
  let ?d1 = "d\<lparr>sw_tableAllocator := ta\<rparr>"
  have grow: "tables_inv (Suc n) d2" if d2: "sw_tableAllocator d2 = ta"
    "\<forall>h t. vrf_table d2 h = Some t \<longrightarrow> vrf_table ?d1 h = Some t \<or> h = HTarget k \<and> t = int (unat tb)" for d2
  proof (rule tables_grow [OF inv n, of tb])
    have "vrf_table ?d1 h = vrf_table d h" for h by (cases h) simp_all
    with d2(2) show "\<forall>h t. vrf_table d2 h = Some t \<longrightarrow> vrf_table d h = Some t \<or> h = HTarget k \<and> t = int (unat tb)" by simp
  qed (simp add: ta d2(1))
  have same: "tables_inv (Suc n) d2" if "same_vrfs ?d1 d2" for d2
    using that by (intro grow) (auto simp: same_vrfs_table, simp add: same_vrfs_def)
  have put: "tables_inv (Suc n) (d2\<lparr>sw_p4TargetVRFs := (sw_p4TargetVRFs d2)(k \<mapsto> t)\<rparr>)"
    if d2: "same_vrfs ?d1 d2" and t: "map_option lk_Table (tv_Vrf t) = Some (int (unat tb))" for d2 t
  proof (rule grow)
    show "sw_tableAllocator (d2\<lparr>sw_p4TargetVRFs := (sw_p4TargetVRFs d2)(k \<mapsto> t)\<rparr>) = ta" using d2 by (simp add: same_vrfs_def)
    show "\<forall>h x. vrf_table (d2\<lparr>sw_p4TargetVRFs := (sw_p4TargetVRFs d2)(k \<mapsto> t)\<rparr>) h = Some x \<longrightarrow>
      vrf_table ?d1 h = Some x \<or> h = HTarget k \<and> x = int (unat tb)"
    proof (intro allI impI)
      fix h x assume "vrf_table (d2\<lparr>sw_p4TargetVRFs := (sw_p4TargetVRFs d2)(k \<mapsto> t)\<rparr>) h = Some x"
      then show "vrf_table ?d1 h = Some x \<or> h = HTarget k \<and> x = int (unat tb)"
        using d2 t by (cases h) (auto simp: same_vrfs_def split: if_splits)
    qed
  qed
  have refl: "same_vrfs ?d1 ?d1" by (simp add: same_vrfs_def)
  show ?thesis
    using c by (auto simp: create_target_vrf_def ta Let_def split: sum.splits prod.splits dest!: NewTargetVRF_table tunnels_same
        intro: same [OF refl] same put)
qed

lemma new_app_subnet_tables:
  assumes inv: "tables_inv n d" and n: "Suc n < 2 ^ 32"
  shows "next_ok n (fst (snd (addApplicationSubnet env a d w)))"
proof -
  obtain tb ta where ta0: "TableAllocator_Allocate (sw_tableAllocator d) = Inr (tb, ta)" by (simp add: TableAllocator_Allocate_def Let_def)
  have early: "next_ok n d2" if "same_vrfs d d2" for d2 using tables_same [OF inv that] by (simp add: next_ok_def)
  have late: "next_ok n d2" if d2: "same_vrfs (d\<lparr>sw_appNet4Allocator := x, sw_appNet6Allocator := y, sw_tableAllocator := ta\<rparr>) d2" for d2 x y
  proof -
    have "vrf_table (d\<lparr>sw_appNet4Allocator := x, sw_appNet6Allocator := y, sw_tableAllocator := ta\<rparr>) h = vrf_table d h" for h by (cases h) simp_all
    then have "tables_inv (Suc n) d2"
      using d2 by (intro tables_grow [OF inv n, of tb]) (auto simp: same_vrfs_table ta0, simp add: same_vrfs_def ta0)
    then show ?thesis by (simp add: next_ok_def)
  qed
  have put: "next_ok n (d2\<lparr>sw_appSubnets := (sw_appSubnets d2)(a \<mapsto> (case sw_appSubnets d2 a of None \<Rightarrow> [] | Some ss \<Rightarrow> ss) @ [s])\<rparr>)"
    if d2: "same_vrfs (d\<lparr>sw_appNet4Allocator := x, sw_appNet6Allocator := y, sw_tableAllocator := ta\<rparr>) d2"
      and s: "map_option lk_Table (as_Vrf s) = Some (int (unat tb))" for d2 x y s
  proof -
    let ?known = "case sw_appSubnets d2 a of None \<Rightarrow> [] | Some ss \<Rightarrow> ss"
    let ?d3 = "d2\<lparr>sw_appSubnets := (sw_appSubnets d2)(a \<mapsto> ?known @ [s])\<rparr>"
    have "tables_inv (Suc n) ?d3"
    proof (rule tables_grow [OF inv n, of tb])
      show "TableAllocator_Allocate (sw_tableAllocator d) = Inr (tb, sw_tableAllocator ?d3)" using d2 by (simp add: same_vrfs_def ta0)
      show "\<forall>h t. vrf_table ?d3 h = Some t \<longrightarrow> vrf_table d h = Some t \<or> h = HApp a (length ?known) \<and> t = int (unat tb)"
      proof (intro allI impI)
        fix h t assume "vrf_table ?d3 h = Some t"
        then show "vrf_table d h = Some t \<or> h = HApp a (length ?known) \<and> t = int (unat tb)"
          using d2 s by (cases h) (auto simp: same_vrfs_def nth_append split: if_splits option.splits)
      qed
    qed
    then show ?thesis by (simp add: next_ok_def)
  qed
  have refl: "same_vrfs d (d\<lparr>sw_appNet4Allocator := x\<rparr>)" "same_vrfs d d"
    "same_vrfs d (d\<lparr>sw_appNet4Allocator := x, sw_appNet6Allocator := y\<rparr>)" "same_vrfs e e" for x y e by (simp_all add: same_vrfs_def)
  show ?thesis
    by (auto simp: addApplicationSubnet_def ta0 Let_def split: sum.splits prod.splits dest!: NewAppSubnet_table tunnels_same
        intro: early [OF refl(1)] early [OF refl(2)] early [OF refl(3)] late [OF refl(4)] late put)
qed


lemma configure_app_tables:
  assumes inv: "tables_inv n d" and n: "Suc n < 2 ^ 32"
  shows "next_ok n (fst (snd (ConfigureAppInstance env a d w)))"
proof -
  have fin: "next_ok n (d1\<lparr>sw_appSubnets := (sw_appSubnets d1)(a \<mapsto> ss[i := s'])\<rparr>)"
    if ok: "next_ok n d1" and ss: "sw_appSubnets d1 a = Some ss" and s': "AppSubnet_AllocateIPs il4 il6 (ss ! i) = (res, s')" for d1 ss i il4 il6 res s'
  proof -
    let ?d2 = "d1\<lparr>sw_appSubnets := (sw_appSubnets d1)(a \<mapsto> ss[i := s'])\<rparr>"
    have upd: "as_Vrf (ss[i := s'] ! j) = as_Vrf (ss ! j)" for j
      using AllocateIPs_vrf [OF s'] by (cases "j = i"; cases "i < length ss") (simp_all add: list_update_beyond)
    have "no_new_tables d1 ?d2" unfolding no_new_tables_def
    proof (intro allI impI)
      fix h t assume "vrf_table ?d2 h = Some t"
      then show "vrf_table d1 h = Some t"
        using ss by (cases h) (auto simp: upd split: if_splits)
    qed
    then show ?thesis using ok tables_keep [of _ d1 ?d2] by (auto simp: next_ok_def)
  qed
  have inst: "next_ok n (fst (snd (allocate_instance env a i d1 w1)))" if "next_ok n d1" for i d1 w1
    using that by (auto simp: allocate_instance_def Let_def split: option.splits prod.splits sum.splits intro: fin)
  have start: "next_ok n d" using inv by (simp add: next_ok_def)
  obtain res d1 w1 where add: "addApplicationSubnet env a d w = (res, d1, w1)" by (metis prod_cases3)
  then have "next_ok n d1" using new_app_subnet_tables [OF inv n, of env a w] by simp
  then show ?thesis using inst start add by (auto simp: ConfigureAppInstance_def split: option.splits list.splits sum.splits)
qed

lemma add_chain_same: "same_vrfs d (fst (snd (add_chain_routes env c rs d w)))"
proof (induction env c rs d w rule: add_chain_routes.induct)
  case (2 env c r rs d w)
  then show ?case by (fastforce simp: same_vrfs_def split: option.splits list.splits prod.splits sum.splits)
qed (simp add: same_vrfs_def)

lemma delete_chain_same: "same_vrfs d (fst (snd (delete_chain_routes env c rs d w)))"
proof (induction env c rs d w rule: delete_chain_routes.induct)
  case (2 env c r rs d w)
  have "same_vrfs d (fst (snd (DeleteServiceChainRoute env c r d w)))"
    by (auto simp: DeleteServiceChainRoute_def same_vrfs_def split: option.splits prod.splits sum.splits)
  with 2 show ?case by (fastforce simp: same_vrfs_def split: prod.splits sum.splits)
qed (simp add: same_vrfs_def)

lemma run_op_tables:
  assumes inv: "tables_inv n d" and n: "Suc n < 2 ^ 32"
  shows "next_ok n (run_op env (op, w) d)"
proof (cases op)
  case (OpEnsure t)
  have "next_ok n (fst (snd (create_target_vrf env k cidr d' w')))" if "tables_inv n d'" for k cidr d' w'
    using create_target_tables [OF that n, of env k cidr w'] by (auto simp: next_ok_def prod_eq_iff)
  moreover have "tables_inv n (d\<lparr>sw_p4TargetVRFs := (sw_p4TargetVRFs d)(k := None)\<rparr>)" for k
    by (rule tables_keep [OF inv _ drop_target]) simp
  ultimately show ?thesis using inv by (auto simp: OpEnsure EnsureP4TargetVRF_def next_ok_def split: sum.splits option.splits)
next
  case (OpRemove k)
  have "tables_inv n (d\<lparr>sw_p4TargetVRFs := (sw_p4TargetVRFs d)(k := None)\<rparr>)" by (rule tables_keep [OF inv _ drop_target]) simp
  then show ?thesis using inv by (auto simp: OpRemove RemoveP4TargetVRF_def next_ok_def split: option.splits)
next
  case (OpTarget k)
  have "tables_inv n (d\<lparr>sw_routingSubnet := r\<rparr>)" "tables_inv n (d\<lparr>sw_routingSubnet := r, sw_p4Targets := x\<rparr>)"
    if r: "RoutingSubnet_AllocateIPs il6 (sw_routingSubnet d) = (res, r)" for r res il6 x
  proof -
    have v: "rs_Vrf r = rs_Vrf (sw_routingSubnet d)" using r by (auto simp: RoutingSubnet_AllocateIPs_def split: sum.splits prod.splits)
    have "vrf_table (d\<lparr>sw_routingSubnet := r\<rparr>) h = vrf_table d h" "vrf_table (d\<lparr>sw_routingSubnet := r, sw_p4Targets := x\<rparr>) h = vrf_table d h" for h
      by (cases h; simp add: v)+
    then show "tables_inv n (d\<lparr>sw_routingSubnet := r\<rparr>)" "tables_inv n (d\<lparr>sw_routingSubnet := r, sw_p4Targets := x\<rparr>)"
      using inv by (simp_all add: tables_inv_def)
  qed
  then show ?thesis using inv
    by (auto simp: OpTarget ConfigureP4TargetInstance_def next_ok_def Let_def split: option.splits sum.splits prod.splits)
next
  case (OpApp a)
  then show ?thesis using configure_app_tables [OF inv n] by simp
next
  case (OpAddChain c rs)
  let ?d = "d\<lparr>sw_serviceChainRoutes := (sw_serviceChainRoutes d)(c \<mapsto> chain_routes d c)\<rparr>"
  have "same_vrfs d (fst (snd (add_chain_routes env c rs ?d w)))" using add_chain_same [of ?d env c rs w] by (simp add: same_vrfs_def)
  then show ?thesis using tables_same [OF inv] by (simp add: OpAddChain AddServiceChainRoutes_def next_ok_def)
next
  case (OpDelChain c)
  have "same_vrfs d (fst (snd (DeleteAllServiceChainRoutes env c d w)))"
  proof (cases "sw_serviceChainRoutes d c")
    case (Some rs)
    obtain res d1 w1 where "delete_chain_routes env c rs d w = (res, d1, w1)" by (metis prod_cases3)
    with Some delete_chain_same [of d env c rs w] show ?thesis
      by (auto simp: DeleteAllServiceChainRoutes_def same_vrfs_def split: sum.splits)
  qed (simp add: DeleteAllServiceChainRoutes_def same_vrfs_def)
  then show ?thesis using tables_same [OF inv] by (simp add: OpDelChain next_ok_def)
qed

lemma NewSoftware_tables: "NewSoftware env cfg w = (Inr d, w') \<Longrightarrow> tables_inv 1000 d"
proof -
  assume n: "NewSoftware env cfg w = (Inr d, w')"
  then have r: "map_option lk_Table (rs_Vrf (sw_routingSubnet d)) = Some 1000" "ta_lastAssigned (sw_tableAllocator d) = 1000"
    "sw_appSubnets d = Map.empty" "sw_p4TargetVRFs d = Map.empty"
    by (auto simp: NewSoftware_def Let_def NewTableAllocator_def TableAllocator_Allocate_def split: if_splits sum.splits prod.splits
        dest!: NewRoutingSubnet_table simp del: write_files.simps)
  have "vrf_table d h = Some t \<longleftrightarrow> h = HRouter \<and> t = 1000" for h t using r by (cases h) auto
  then show ?thesis using r(2) by (simp add: tables_inv_def)
qed

lemma run_tables:
  assumes "tables_inv n d" "n + length ops < 2 ^ 32"
  shows "\<exists>m. tables_inv m (fold (run_op env) ops d)"
  using assms
proof (induction ops arbitrary: n d)
  case (Cons op ops)
  have "next_ok n (run_op env op d)" using run_op_tables [OF Cons.prems(1), of env "fst op" "snd op"] Cons.prems(2) by simp
  then show ?case using Cons.IH [of n] Cons.IH [of "Suc n"] Cons.prems(2) by (auto simp: next_ok_def)
qed auto



text \<open>A kernel in which every call succeeds, to show that a start can succeed.\<close>

definition ex_nl :: "unit netlink" where
  "ex_nl = \<lparr>nl_LinkByName = (\<lambda>w n. if n = RoutingVRFName then Inl LinkNotFoundError else Inr (empty_link\<lparr>lk_Name := n\<rparr>)),
     nl_LinkList = (\<lambda>w. Inr []), nl_LinkAdd = (\<lambda>w l. (Inr (), w)), nl_LinkDel = (\<lambda>w l. (Inr (), w)), nl_LinkSetUp = (\<lambda>w l. (Inr (), w)),
     nl_LinkSetMaster = (\<lambda>w l m. (Inr (), w)), nl_LinkSetNoMaster = (\<lambda>w l. (Inr (), w)), nl_AddrAdd = (\<lambda>w l a. (Inr (), w)),
     nl_RouteAdd = (\<lambda>w r. (Inr (), w)), nl_RouteReplace = (\<lambda>w r. (Inr (), w)), nl_RouteDel = (\<lambda>w r. (Inr (), w)), nl_RouteList = (\<lambda>w f t. Inr [])\<rparr>"

definition ex_ipt :: "'w iptables" where
  "ex_ipt = \<lparr>ipt_ClearChain = (\<lambda>w t c. (Inr (), w)), ipt_Append = (\<lambda>w t c r. (Inr (), w)), ipt_AppendUnique = (\<lambda>w t c r. (Inr (), w)),
     ipt_DeleteIfExists = (\<lambda>w t c r. (Inr (), w)), ipt_Insert = (\<lambda>w t c n r. (Inr (), w)), ipt_InsertUnique = (\<lambda>w t c n r. (Inr (), w)),
     ipt_ChainExists = (\<lambda>w t c. Inr False), ipt_List = (\<lambda>w t c. Inr []), ipt_DeleteById = (\<lambda>w t c n. (Inr (), w)), ipt_DeleteChain = (\<lambda>w t c. (Inr (), w))\<rparr>"

definition ex_il :: iplib where
  "ex_il = \<lparr>il_NewNet = (\<lambda>b n. (b, CIDRMask n 128)), il_NextNet = (\<lambda>n p. n), il_NextIP = (\<lambda>n b. (butlast b @ [last b + 1], None))\<rparr>"

definition ex_dp :: "unit dataplane_env" where
  "ex_dp = \<lparr>dp_nl = ex_nl, dp_ipt = ex_ipt, dp_ip4t = ex_ipt, dp_iptErr = None, dp_ip4tErr = None, dp_il4 = ex_il, dp_il6 = ex_il,
     dp_rnd = (\<lambda>w k n. Inr (replicate n (of_nat k))), dp_WriteFile = (\<lambda>w f v. (Inr (), w)), dp_Attach = (\<lambda>w n. (Inr (), w)),
     dp_GetApp = (\<lambda>w n. Inl (TypedError [])), dp_PatchAppStatus = (\<lambda>w n a. (Inr (), w))\<rparr>"

definition ex_pod_net :: ip_net where
  "ex_pod_net = (0xFD # replicate 15 0, replicate 8 0xFF @ replicate 8 0)"

definition ex_gcfg :: GlobalConfig where
  "ex_gcfg = \<lparr>gc_ClusterCIDR = no_network\<lparr>dsn_IPv6Net := Some ex_pod_net\<rparr>, gc_ServiceCIDR = no_network,
     gc_PodCIDR = no_network\<lparr>dsn_IPv6Net := Some ex_pod_net\<rparr>, gc_TunnelCIDR = no_network\<lparr>dsn_IPv6Net := Some ex_pod_net\<rparr>, gc_NodeName = ''n1''\<rparr>"

lemma ex_allocators: "is_ipv6_net ex_pod_net" "NewSubnet6Allocator (Some ex_pod_net) 96 = Inr \<lparr>sn_baseNet = ex_pod_net, sn_last = None, sn_prefix = 96\<rparr>"
  "NewSubnet6Allocator (Some ex_pod_net) 126 = Inr \<lparr>sn_baseNet = ex_pod_net, sn_last = None, sn_prefix = 126\<rparr>"
  "IPNet_Contains ex_pod_net (fst ex_pod_net)"
  by code_simp+

lemma ex_random: "\<exists>n. GenerateRandomName (dp_rnd ex_dp w k) p l = Inr n"
  by (simp add: GenerateRandomName_def ex_dp_def Let_def)

lemma ex_routing:
  assumes n: "GenerateRandomName rnd ''br'' 8 = Inr n"
  shows "\<exists>r. NewRoutingSubnet ex_nl ex_il rnd (\<lambda>w n. (Inr (), w)) (Some (fst ex_pod_net, m)) (Some (fst ex_pod_net, m)) tb () = (Inr r, ())"
proof -
  have v6: "is_ipv6_net (fst ex_pod_net, m)" using ex_allocators(1) by (simp add: is_ipv6_net_def)
  show ?thesis
    by (simp add: NewRoutingSubnet_def NewIPv6Allocator_def v6 n or_undo_def Let_def cleanupStaleRoutingSubnet_def ex_nl_def
        IPAllocator_Allocate_def ex_il_def and_then_def)
qed

lemma ex_rules: "install_rules ex_dp ex_gcfg w = (Inr (), w)"
  by (simp add: install_rules_def ex_dp_def ex_gcfg_def no_network_def ex_ipt_def ensureFilterIPTablesRulesArePresent_def
      deleteKubeForwardInvalidDropRules_def ensureRawIPTablesRulesArePresent_def)

lemma ex_start: "\<exists>d. NewSoftware ex_dp ex_gcfg () = (Inr d, ())"
proof -
  let ?n = "(fst ex_pod_net, CIDRMask 96 128)"
  have alloc: "start_allocators ex_gcfg = Inr (\<lparr>sn_baseNet = ex_pod_net, sn_last = None, sn_prefix = 96\<rparr>, None, \<lparr>sn_baseNet = ex_pod_net, sn_last = None, sn_prefix = 126\<rparr>, None)"
    by (simp add: start_allocators_def ex_gcfg_def no_network_def ex_allocators)
  have first: "SubnetAllocator_Allocate ex_il \<lparr>sn_baseNet = ex_pod_net, sn_last = None, sn_prefix = 96\<rparr> = Inr (?n, \<lparr>sn_baseNet = ex_pod_net, sn_last = Some ?n, sn_prefix = 96\<rparr>)"
    "SubnetAllocator_Allocate ex_il \<lparr>sn_baseNet = ex_pod_net, sn_last = Some ?n, sn_prefix = 96\<rparr> = Inr (?n, \<lparr>sn_baseNet = ex_pod_net, sn_last = Some ?n, sn_prefix = 96\<rparr>)"
    by (simp_all add: SubnetAllocator_Allocate_def ex_il_def ex_allocators Let_def)
  have env: "dp_il6 ex_dp = ex_il" "dp_nl ex_dp = ex_nl" by (simp_all add: ex_dp_def)
  have zones: "addRouterVRFCTZoneRules ex_dp d () = (Inr (), ())" for d
    by (simp add: addRouterVRFCTZoneRules_def add_zone_def addCTZoneRule_def ex_dp_def ex_ipt_def ip4t_of_def)
  have files: "write_files ex_dp fs () = (Inr (), ())" for fs by (induction fs) (auto simp: ex_dp_def)
  obtain bn where bn: "GenerateRandomName (dp_rnd ex_dp () 0) ''br'' 8 = Inr bn" using ex_random by blast
  have att: "dp_Attach ex_dp = (\<lambda>w n. (Inr (), w))" by (simp add: ex_dp_def)
  obtain r where r: "NewRoutingSubnet ex_nl ex_il (dp_rnd ex_dp () 0) (dp_Attach ex_dp) (Some ?n) (Some ?n) 1000 () = (Inr r, ())"
    using ex_routing [OF bn] unfolding att by blast
  have c: "dsn_IPv6Net (gc_ClusterCIDR ex_gcfg) \<noteq> None" by (simp add: ex_gcfg_def)
  show ?thesis
    by (simp add: NewSoftware_def c alloc env first NewTableAllocator_def TableAllocator_Allocate_def files r ex_rules zones Let_def del: write_files.simps)
qed



section \<open>Routes of service chains\<close>

text \<open>
  What the kernel promises of its routing tables: \<open>fib w\<close> maps a table and a destination to the route there. A
  successful replacement puts a route, a successful deletion removes the one with that destination.
\<close>

type_synonym 'w fib = "'w \<Rightarrow> int \<times> ip_net option \<rightharpoonup> route"

definition fib_kernel :: "'w netlink \<Rightarrow> 'w fib \<Rightarrow> bool" where
  "fib_kernel nl fib \<longleftrightarrow>
     (\<forall>w r w'. nl_RouteReplace nl w r = (Inr (), w') \<longrightarrow> fib w' = (fib w)((rt_Table r, rt_Dst r) \<mapsto> r)) \<and>
     (\<forall>w r w'. nl_RouteDel nl w r = (Inr (), w') \<longrightarrow> fib w' = (fib w)((rt_Table r, rt_Dst r) := None))"

definition dest_nets :: "SRv6Route \<Rightarrow> ip_net list" where
  "dest_nets r = given (dsn_IPv4Net (sr_DestNet r)) @ given (dsn_IPv6Net (sr_DestNet r))"

definition subnet_table :: "AppSubnet \<Rightarrow> int" where
  "subnet_table s = table_of (as_Vrf s)"

text \<open>The entries a list of routes concerns, in the tables of the given subnets.\<close>

definition route_keys :: "AppSubnet list \<Rightarrow> SRv6Route list \<Rightarrow> (int \<times> ip_net option) set" where
  "route_keys ss rs = {(subnet_table s, Some n) |s r n. s \<in> set ss \<and> r \<in> set rs \<and> n \<in> set (dest_nets r)}"

text \<open>The entry sends packets for \<open>n\<close> through the functions of \<open>r\<close> in order, and then to the decapsulation.\<close>

definition steers :: "Software \<Rightarrow> AppSubnet \<Rightarrow> SRv6Route \<Rightarrow> ip_net \<Rightarrow> route \<Rightarrow> bool" where
  "steers d s r n e \<longleftrightarrow> (\<exists>tun sid. e = srv6_route s tun n (sr_FunctionIPs r) sid \<and>
     (dsn_IPv6Net (sr_DestNet r) = Some n \<and> rs_DecapSIDv6 (sw_routingSubnet d) = Some sid \<or>
      dsn_IPv4Net (sr_DestNet r) = Some n \<and> rs_DecapSIDv4 (sw_routingSubnet d) = Some sid))"

lemma put_srv6_fib:
  assumes "fib_kernel nl fib" "put_srv6 nl s tun sids dst sid w = (Inr (), w')"
  shows "fib w' = (case dst of None \<Rightarrow> fib w | Some n \<Rightarrow> (fib w)((subnet_table s, Some n) \<mapsto> srv6_route s tun n sids sid))"
  using assms unfolding fib_kernel_def by (cases dst) (auto simp: put_srv6_def and_then_Inr srv6_route_def subnet_table_def)

lemma AddSRv6Route_fib:
  assumes k: "fib_kernel nl fib" and a: "AppSubnet_AddSRv6Route nl s (sr_DestNet r) (sr_FunctionIPs r) sid4 sid6 w = (Inr (), w')"
    and d: "rs_DecapSIDv4 (sw_routingSubnet d) = Some sid4" "rs_DecapSIDv6 (sw_routingSubnet d) = Some sid6"
  shows "(\<forall>n \<in> set (dest_nets r). \<exists>e. fib w' (subnet_table s, Some n) = Some e \<and> steers d s r n e) \<and>
    (\<forall>key. key \<notin> route_keys [s] [r] \<longrightarrow> fib w' key = fib w key)"
proof -
  obtain tun w1 where w1: "put_srv6 nl s tun (sr_FunctionIPs r) (dsn_IPv4Net (sr_DestNet r)) sid4 w = (Inr (), w1)"
    "put_srv6 nl s tun (sr_FunctionIPs r) (dsn_IPv6Net (sr_DestNet r)) sid6 w1 = (Inr (), w')"
    using a by (auto simp: AppSubnet_AddSRv6Route_def and_then_Inr bind_err_Inr split: if_splits)
  note f = put_srv6_fib [OF k w1(1)] put_srv6_fib [OF k w1(2)]
  have st: "steers d s r n (srv6_route s tun n (sr_FunctionIPs r) sid4)" if "dsn_IPv4Net (sr_DestNet r) = Some n" for n
    unfolding steers_def using that d by blast
  have st6: "steers d s r n (srv6_route s tun n (sr_FunctionIPs r) sid6)" if "dsn_IPv6Net (sr_DestNet r) = Some n" for n
    unfolding steers_def using that d by blast
  show ?thesis using f st st6 by (auto simp: dest_nets_def route_keys_def given_def split: option.splits)
qed

lemma route_keys_Cons: "route_keys (s # ss) rs = route_keys [s] rs \<union> route_keys ss rs" "route_keys ss (r # rs) = route_keys ss [r] \<union> route_keys ss rs"
  by (auto simp: route_keys_def)

lemma add_to_subnets_fib:
  assumes k: "fib_kernel (dp_nl env) fib" and "add_to_subnets env d r ss w = (Inr (), w')" and "distinct (map subnet_table ss)"
  shows "(\<forall>s \<in> set ss. \<forall>n \<in> set (dest_nets r). \<exists>e. fib w' (subnet_table s, Some n) = Some e \<and> steers d s r n e) \<and>
    (\<forall>key. key \<notin> route_keys ss [r] \<longrightarrow> fib w' key = fib w key)"
  using assms(2,3)
proof (induction ss arbitrary: w)
  case (Cons s ss)
  obtain sid4 sid6 w1 where sid: "rs_DecapSIDv4 (sw_routingSubnet d) = Some sid4" "rs_DecapSIDv6 (sw_routingSubnet d) = Some sid6"
    and w1: "AppSubnet_AddSRv6Route (dp_nl env) s (sr_DestNet r) (sr_FunctionIPs r) sid4 sid6 w = (Inr (), w1)" "add_to_subnets env d r ss w1 = (Inr (), w')"
    using Cons.prems(1) by (auto simp: and_then_Inr split: option.splits)
  note head = AddSRv6Route_fib [OF k w1(1) sid] and tail = Cons.IH [OF w1(2)]
  have "(subnet_table s, Some n) \<notin> route_keys ss [r]" for n using Cons.prems(2) by (auto simp: route_keys_def)
  then have "\<forall>n \<in> set (dest_nets r). \<exists>e. fib w' (subnet_table s, Some n) = Some e \<and> steers d s r n e" using head tail Cons.prems(2) by simp
  then show ?case using head tail Cons.prems(2) by (auto simp: route_keys_Cons(1) [of s ss])
qed (simp add: route_keys_def)

lemma add_chain_routes_fib:
  assumes k: "fib_kernel (dp_nl env) fib" and "add_chain_routes env chain rs d w = (Inr (), d', w')"
    and ss: "sw_appSubnets d app = Some ss" "distinct (map subnet_table ss)" and "\<forall>r \<in> set rs. sr_SourceApp r = app"
    and "distinct (concat (map dest_nets rs))"
  shows "(\<forall>r \<in> set rs. \<forall>s \<in> set ss. \<forall>n \<in> set (dest_nets r). \<exists>e. fib w' (subnet_table s, Some n) = Some e \<and> steers d s r n e) \<and>
    (\<forall>key. key \<notin> route_keys ss rs \<longrightarrow> fib w' key = fib w key) \<and>
    d' = d\<lparr>sw_serviceChainRoutes := (sw_serviceChainRoutes d)(chain := sw_serviceChainRoutes d' chain)\<rparr> \<and> chain_routes d' chain = chain_routes d chain @ rs"
  using assms(2-)
proof (induction rs arbitrary: d w)
  case (Cons r rs)
  let ?d1 = "d\<lparr>sw_serviceChainRoutes := (sw_serviceChainRoutes d)(chain \<mapsto> chain_routes d chain @ [r])\<rparr>"
  obtain w1 where w1: "add_to_subnets env d r ss w = (Inr (), w1)" "add_chain_routes env chain rs ?d1 w1 = (Inr (), d', w')"
    using Cons.prems by (auto split: list.splits prod.splits sum.splits)
  note head = add_to_subnets_fib [OF k w1(1) Cons.prems(3)]
  have tail: "(\<forall>r \<in> set rs. \<forall>s \<in> set ss. \<forall>n \<in> set (dest_nets r). \<exists>e. fib w' (subnet_table s, Some n) = Some e \<and> steers ?d1 s r n e) \<and>
    (\<forall>key. key \<notin> route_keys ss rs \<longrightarrow> fib w' key = fib w1 key) \<and>
    d' = ?d1\<lparr>sw_serviceChainRoutes := (sw_serviceChainRoutes ?d1)(chain := sw_serviceChainRoutes d' chain)\<rparr> \<and> chain_routes d' chain = chain_routes ?d1 chain @ rs"
    using Cons.prems by (intro Cons.IH [OF w1(2)]) auto
  have same: "steers ?d1 = steers d" by (simp add: steers_def fun_eq_iff)
  have "(subnet_table s, Some n) \<notin> route_keys ss rs" if "n \<in> set (dest_nets r)" for s n
    using that Cons.prems(5) by (auto simp: route_keys_def)
  then have "\<forall>s \<in> set ss. \<forall>n \<in> set (dest_nets r). \<exists>e. fib w' (subnet_table s, Some n) = Some e \<and> steers d s r n e" using head tail by simp
  moreover have "\<forall>key. key \<notin> route_keys ss (r # rs) \<longrightarrow> fib w' key = fib w key"
    using head tail by (simp add: route_keys_Cons(2) [of ss r rs])
  moreover have "d' = d\<lparr>sw_serviceChainRoutes := (sw_serviceChainRoutes d)(chain := sw_serviceChainRoutes d' chain)\<rparr>" using tail by simp
  moreover have "chain_routes d' chain = chain_routes d chain @ r # rs" using tail by (simp add: chain_routes_def)
  ultimately show ?case using tail unfolding same by (metis set_ConsD)
qed (simp add: chain_routes_def)


lemma del_route_fib:
  assumes "fib_kernel nl fib" "del_route nl msg t dst w = (Inr (), w')"
  shows "fib w' = (case dst of None \<Rightarrow> fib w | Some n \<Rightarrow> (fib w)((t, Some n) := None))"
  using assms unfolding fib_kernel_def by (cases dst) (auto simp: del_route_def and_then_Inr)

lemma delete_from_subnets_fib:
  assumes k: "fib_kernel (dp_nl env) fib" and "delete_from_subnets env r ss w = (Inr (), w')"
  shows "fib w' key = (if key \<in> route_keys ss [r] then None else fib w key)"
  using assms(2)
proof (induction ss arbitrary: w)
  case (Cons s ss)
  obtain w1 w2 where w1: "del_route (dp_nl env) ''failed to delete SRv6 route'' (subnet_table s) (dsn_IPv4Net (sr_DestNet r)) w = (Inr (), w1)"
    "del_route (dp_nl env) ''failed to delete SRv6 route'' (subnet_table s) (dsn_IPv6Net (sr_DestNet r)) w1 = (Inr (), w2)"
    "delete_from_subnets env r ss w2 = (Inr (), w')"
    using Cons.prems by (auto simp: AppSubnet_DeleteSRv6Route_def and_then_Inr bind_err_Inr subnet_table_def split: if_splits)
  have "fib w2 key = (if key \<in> route_keys [s] [r] then None else fib w key)"
    using del_route_fib [OF k w1(1)] del_route_fib [OF k w1(2)] by (auto simp: route_keys_def dest_nets_def given_def split: option.splits)
  then show ?case using Cons.IH [OF w1(3)] by (simp add: route_keys_Cons(1) [of s ss])
qed (simp add: route_keys_def)

lemma delete_chain_routes_fib:
  assumes k: "fib_kernel (dp_nl env) fib" and "delete_chain_routes env chain rs d w = (Inr (), d', w')"
    and ss: "sw_appSubnets d app = Some ss" and "\<forall>r \<in> set rs. sr_SourceApp r = app" and "sw_serviceChainRoutes d chain \<noteq> None"
  shows "fib w' key = (if key \<in> route_keys ss rs then None else fib w key) \<and>
    (\<forall>c. c \<noteq> chain \<longrightarrow> sw_serviceChainRoutes d' c = sw_serviceChainRoutes d c)"
  using assms(2-)
proof (induction rs arbitrary: d w)
  case (Cons r rs)
  obtain known where known: "sw_serviceChainRoutes d chain = Some known" using Cons.prems(4) by blast
  let ?d1 = "d\<lparr>sw_serviceChainRoutes := (sw_serviceChainRoutes d)(chain \<mapsto> known @ [r])\<rparr>"
  have app: "sr_SourceApp r = app" using Cons.prems(3) by simp
  obtain res w1 where df: "delete_from_subnets env r ss w = (res, w1)" by fastforce
  have "res = Inr () \<and> delete_chain_routes env chain rs ?d1 w1 = (Inr (), d', w')"
    using Cons.prems(1) by (cases res) (simp_all add: DeleteServiceChainRoute_def known app Cons.prems(2) df)
  with df have w1: "delete_from_subnets env r ss w = (Inr (), w1)" "delete_chain_routes env chain rs ?d1 w1 = (Inr (), d', w')" by simp_all
  have "fib w' key = (if key \<in> route_keys ss rs then None else fib w1 key) \<and> (\<forall>c. c \<noteq> chain \<longrightarrow> sw_serviceChainRoutes d' c = sw_serviceChainRoutes ?d1 c)"
    by (rule Cons.IH [OF w1(2)]) (use Cons.prems in simp_all)
  then show ?case using delete_from_subnets_fib [OF k w1(1), of key] by (simp add: route_keys_Cons(2) [of ss r rs])
qed (simp add: route_keys_def)

text \<open>
  Adding the routes of a chain steers the traffic as asked. When the call succeeds, every subnet of the source
  application has, for every destination network, a route whose segments are the functions of the
  chain in order (the kernel wants them reversed), ending in the decapsulation for its family; nothing else
  in any table changes, and the routes are recorded for the chain. (The destination networks are
  different, and so are the tables of the subnets.)
\<close>

theorem chain_routes_installed:
  assumes "fib_kernel (dp_nl env) fib" and "AddServiceChainRoutes env chain routes d w = (Inr (), d', w')"
    and "sw_appSubnets d app = Some ss" "distinct (map subnet_table ss)" and "\<forall>r \<in> set routes. sr_SourceApp r = app"
    and "distinct (concat (map dest_nets routes))"
  shows "(\<forall>r \<in> set routes. \<forall>s \<in> set ss. \<forall>n \<in> set (dest_nets r). \<exists>e. fib w' (subnet_table s, Some n) = Some e \<and> steers d s r n e) \<and>
    (\<forall>key. key \<notin> route_keys ss routes \<longrightarrow> fib w' key = fib w key) \<and>
    ListServiceChainRoutes chain d' = ListServiceChainRoutes chain d @ routes"
proof -
  let ?d = "d\<lparr>sw_serviceChainRoutes := (sw_serviceChainRoutes d)(chain \<mapsto> chain_routes d chain)\<rparr>"
  have same: "steers ?d = steers d" by (simp add: steers_def fun_eq_iff)
  have "add_chain_routes env chain routes ?d w = (Inr (), d', w')" using assms(2) by (simp add: AddServiceChainRoutes_def)
  from add_chain_routes_fib [OF assms(1) this, of app ss] assms(3-) same
  show ?thesis by (simp add: ListServiceChainRoutes_def chain_routes_def)
qed

text \<open>
  C34: deleting a chain takes back exactly its routes. When the call succeeds, the entries of its recorded routes
  are gone from the tables of the source application, every other entry of every table is as before, the
  chain is forgotten, and the records of other chains are untouched.
\<close>

theorem chain_routes_removed:
  assumes "fib_kernel (dp_nl env) fib" and "DeleteAllServiceChainRoutes env chain d w = (Inr (), d', w')"
    and "sw_serviceChainRoutes d chain = Some routes" and "sw_appSubnets d app = Some ss" "\<forall>r \<in> set routes. sr_SourceApp r = app"
  shows "fib w' key = (if key \<in> route_keys ss routes then None else fib w key) \<and> sw_serviceChainRoutes d' chain = None \<and>
    (\<forall>c. c \<noteq> chain \<longrightarrow> sw_serviceChainRoutes d' c = sw_serviceChainRoutes d c)"
proof -
  obtain d1 where d1: "delete_chain_routes env chain routes d w = (Inr (), d1, w')" "d' = d1\<lparr>sw_serviceChainRoutes := (sw_serviceChainRoutes d1)(chain := None)\<rparr>"
    using assms(2,3) by (auto simp: DeleteAllServiceChainRoutes_def split: prod.splits sum.splits)
  from delete_chain_routes_fib [OF assms(1) d1(1) assms(4,5), of key] assms(3) d1(2) show ?thesis by simp
qed

text \<open>An example: one subnet, one destination, one function.\<close>

type_synonym ex_fib = "int \<times> ip_net option \<rightharpoonup> route"

definition ex_fib_dp :: "ex_fib dataplane_env" where
  "ex_fib_dp = \<lparr>dp_nl = \<lparr>nl_LinkByName = (\<lambda>w n. Inr (empty_link\<lparr>lk_Name := n, lk_Index := 4\<rparr>)),
     nl_LinkList = (\<lambda>w. Inr []), nl_LinkAdd = (\<lambda>w l. (Inr (), w)), nl_LinkDel = (\<lambda>w l. (Inr (), w)), nl_LinkSetUp = (\<lambda>w l. (Inr (), w)),
     nl_LinkSetMaster = (\<lambda>w l m. (Inr (), w)), nl_LinkSetNoMaster = (\<lambda>w l. (Inr (), w)), nl_AddrAdd = (\<lambda>w l a. (Inr (), w)),
     nl_RouteAdd = (\<lambda>w r. (Inr (), w((rt_Table r, rt_Dst r) \<mapsto> r))), nl_RouteReplace = (\<lambda>w r. (Inr (), w((rt_Table r, rt_Dst r) \<mapsto> r))),
     nl_RouteDel = (\<lambda>w r. (Inr (), w((rt_Table r, rt_Dst r) := None))), nl_RouteList = (\<lambda>w f t. Inr [])\<rparr>,
     dp_ipt = ex_ipt, dp_ip4t = ex_ipt,
     dp_iptErr = None, dp_ip4tErr = None, dp_il4 = ex_il, dp_il6 = ex_il,
     dp_rnd = (\<lambda>w k n. Inr (replicate n 0)), dp_WriteFile = (\<lambda>w f v. (Inr (), w)), dp_Attach = (\<lambda>w n. (Inr (), w)),
     dp_GetApp = (\<lambda>w n. Inl (TypedError [])), dp_PatchAppStatus = (\<lambda>w n a. (Inr (), w))\<rparr>"

lemma ex_fib_kernel: "fib_kernel (dp_nl ex_fib_dp) id"
  by (simp add: fib_kernel_def ex_fib_dp_def)

definition ex_subnet :: AppSubnet where
  "ex_subnet = \<lparr>as_Networks = no_network, as_GatewayIPs = no_address, as_Bridge = None,
     as_Vrf = Some (empty_link\<lparr>lk_Table := 1001\<rparr>), as_IPv6Allocator = None, as_IPv4Allocator = None, as_Tunnel = ''imltun1''\<rparr>"

definition ex_software :: Software where
  "ex_software = \<lparr>sw_appSubnets = [(''ns'', ''a'') \<mapsto> [ex_subnet]], sw_p4Targets = Map.empty, sw_p4TargetVRFs = Map.empty,
     sw_routingSubnet = \<lparr>rs_TargetNetwork = ex_pod_net, rs_SIDNetwork = ex_pod_net, rs_Gateway = None, rs_Vrf = None, rs_DecapIface = None, rs_Bridge = None,
       rs_IP6Allocator = None, rs_SIDAllocator = None, rs_DecapSIDv6 = Some ([0xFD, 6], []), rs_DecapSIDv4 = Some ([0xFD, 4], [])\<rparr>,
     sw_serviceChainRoutes = Map.empty, sw_has_ip4t = False, sw_appNet6Allocator = \<lparr>sn_baseNet = ex_pod_net, sn_last = None, sn_prefix = 96\<rparr>,
     sw_appNet4Allocator = None, sw_tunNet6Allocator = \<lparr>sn_baseNet = ex_pod_net, sn_last = None, sn_prefix = 126\<rparr>, sw_tunNet4Allocator = None,
     sw_tableAllocator = \<lparr>ta_firstTableID = 1000, ta_lastAssigned = 1001\<rparr>, sw_cfg = ex_gcfg\<rparr>"

definition ex_chain_route :: SRv6Route where
  "ex_chain_route = \<lparr>sr_SourceApp = (''ns'', ''a''), sr_DestinationApp = (''ns'', ''b''), sr_DestNet = no_network\<lparr>dsn_IPv6Net := Some ex_pod_net\<rparr>,
     sr_FunctionIPs = [[0xFD, 1]]\<rparr>"

lemma ex_add: "\<exists>d' w'. AddServiceChainRoutes ex_fib_dp (''ns'', ''c'') [ex_chain_route] ex_software Map.empty = (Inr (), d', w')"
  by (simp add: AddServiceChainRoutes_def ex_software_def ex_chain_route_def ex_subnet_def AppSubnet_AddSRv6Route_def dsn_IsEmpty_def put_srv6_def ex_fib_dp_def no_network_def)

theorem chain_routes_installed_witness:
  "\<exists>d' w' e. AddServiceChainRoutes ex_fib_dp (''ns'', ''c'') [ex_chain_route] ex_software Map.empty = (Inr (), d', w') \<and>
     w' (1001, Some ex_pod_net) = Some e \<and> rt_Segments e = [[0xFD, 6], [0xFD, 1]]"
proof -
  obtain d' w' where a: "AddServiceChainRoutes ex_fib_dp (''ns'', ''c'') [ex_chain_route] ex_software Map.empty = (Inr (), d', w')" using ex_add by blast
  have ss: "sw_appSubnets ex_software (''ns'', ''a'') = Some [ex_subnet]" "distinct (map subnet_table [ex_subnet])"
    "\<forall>r \<in> set [ex_chain_route]. sr_SourceApp r = (''ns'', ''a'')" "distinct (concat (map dest_nets [ex_chain_route]))"
    by (simp_all add: ex_software_def ex_chain_route_def dest_nets_def no_network_def)
  have n: "ex_pod_net \<in> set (dest_nets ex_chain_route)" "subnet_table ex_subnet = 1001" "dsn_IPv4Net (sr_DestNet ex_chain_route) = None"
    "rs_DecapSIDv6 (sw_routingSubnet ex_software) = Some ([0xFD, 6], [])" "sr_FunctionIPs ex_chain_route = [[0xFD, 1]]"
    by (simp_all add: ex_chain_route_def dest_nets_def no_network_def ex_subnet_def subnet_table_def table_of_def ex_software_def)
  from chain_routes_installed [OF ex_fib_kernel a ss] n obtain e where
    e: "w' (1001, Some ex_pod_net) = Some e" "steers ex_software ex_subnet ex_chain_route ex_pod_net e" by auto
  have "rt_Segments e = [[0xFD, 6], [0xFD, 1]]" using e(2) n(3-5) by (auto simp: steers_def srv6_route_def)
  with a e(1) show ?thesis by blast
qed

definition ex_recorded :: Software where
  "ex_recorded = ex_software\<lparr>sw_serviceChainRoutes := [(''ns'', ''c'') \<mapsto> [ex_chain_route]]\<rparr>"

theorem chain_routes_removed_witness:
  "\<exists>d' w'. DeleteAllServiceChainRoutes ex_fib_dp (''ns'', ''c'') ex_recorded [(1001, Some ex_pod_net) \<mapsto> empty_route, (1002, Some ex_pod_net) \<mapsto> empty_route] = (Inr (), d', w') \<and>
     w' (1001, Some ex_pod_net) = None \<and> w' (1002, Some ex_pod_net) = Some empty_route \<and> sw_serviceChainRoutes d' (''ns'', ''c'') = None"
proof -
  let ?w = "[(1001, Some ex_pod_net) \<mapsto> empty_route, (1002, Some ex_pod_net) \<mapsto> empty_route] :: ex_fib"
  obtain d' w' where a: "DeleteAllServiceChainRoutes ex_fib_dp (''ns'', ''c'') ex_recorded ?w = (Inr (), d', w')"
    by (simp add: DeleteAllServiceChainRoutes_def ex_recorded_def ex_software_def DeleteServiceChainRoute_def ex_chain_route_def
        AppSubnet_DeleteSRv6Route_def dsn_IsEmpty_def del_route_def ex_fib_dp_def no_network_def)
  have ss: "sw_serviceChainRoutes ex_recorded (''ns'', ''c'') = Some [ex_chain_route]" "sw_appSubnets ex_recorded (''ns'', ''a'') = Some [ex_subnet]"
    "\<forall>r \<in> set [ex_chain_route]. sr_SourceApp r = (''ns'', ''a'')"
    by (simp_all add: ex_recorded_def ex_software_def ex_chain_route_def)
  have keys: "route_keys [ex_subnet] [ex_chain_route] = {(1001, Some ex_pod_net)}"
    by (auto simp: route_keys_def ex_chain_route_def dest_nets_def no_network_def ex_subnet_def subnet_table_def table_of_def simp del: split_paired_Ex)
  note r = chain_routes_removed [OF ex_fib_kernel a ss, unfolded keys id_apply]
  have "w' (1001, Some ex_pod_net) = None" "w' (1002, Some ex_pod_net) = Some empty_route" "sw_serviceChainRoutes d' (''ns'', ''c'') = None"
    using r [of "(1001, Some ex_pod_net)"] r [of "(1002, Some ex_pod_net)"] by simp_all
  with a show ?thesis by blast
qed

end
