(* ===== verification/Geneve.thy ===== *)
theory Geneve
  imports Software
begin

text \<open>
  The tunnels between nodes (\<open>src/daemon/pkg/tunnel/geneve\<close>): one shared Geneve device, per peer node a firewall chain
  that accepts its packets and the routes that send packets to it, and the manager that keeps them.
\<close>

section \<open>State\<close>

abbreviation TunnelName :: string where "TunnelName \<equiv> ''imlgnv0''"
abbreviation TunnelPort :: nat where "TunnelPort \<equiv> 6018"
abbreviation IPTablesRootChainName :: string where "IPTablesRootChainName \<equiv> ''IML-TUNNEL''"
abbreviation accepted_mark :: string where "accepted_mark \<equiv> ''0x100/0x100''"

text \<open>The networks routed to a peer, by their text, in the order Go walks the map.\<close>

record Tunnel =
  tn_chainName :: string
  tn_tunnelIface :: string
  tn_vrfName :: string
  tn_endpoint :: "bytes option"
  tn_egress :: "(string \<times> ip_net) list"

record TunnelManager =
  tm_tunnelInterface :: string
  tm_tunnels :: "string \<rightharpoonup> Tunnel"
  tm_vrfName :: string

text \<open>
  The outside: netlink, both firewalls (which may fail to start, and whose \<open>NewChain\<close> and \<open>ClearAndDeleteChain\<close> are two more calls), random bytes, the
  attributes of a Geneve device, and what \<open>errors.Is\<close> answers for a missing link.
\<close>

record 'w tunnel_env =
  te_nl :: "'w netlink"
  te_ip4t :: "'w iptables"
  te_ip6t :: "'w iptables"
  te_ip4tErr :: "go_error option"
  te_ip6tErr :: "go_error option"
  te_NewChain :: "bool \<Rightarrow> 'w \<Rightarrow> string \<Rightarrow> string \<Rightarrow> 'w call"
  te_ClearAndDeleteChain :: "bool \<Rightarrow> 'w \<Rightarrow> string \<Rightarrow> string \<Rightarrow> 'w call"
  te_rnd :: "'w \<Rightarrow> nat \<Rightarrow> go_error + bytes"
  te_suitable :: "'w \<Rightarrow> link \<Rightarrow> bool"
  te_IsLinkNotFound :: "go_error \<Rightarrow> bool"

text \<open>Causes are printed into the message (\<open>%v\<close>), not wrapped.\<close>

definition and_thenv :: "(go_error + 'a) \<times> 'w \<Rightarrow> string \<Rightarrow> ('a \<Rightarrow> 'w \<Rightarrow> (go_error + 'b) \<times> 'w) \<Rightarrow> (go_error + 'b) \<times> 'w" where
  "and_thenv p msg k = (case p of (Inl err, w) \<Rightarrow> (Inl (Errorf msg (Some err)), w) | (Inr x, w) \<Rightarrow> k x w)"

lemma and_thenv_simps [simp]:
  "and_thenv (Inl err, w) msg k = (Inl (Errorf msg (Some err)), w)"
  "and_thenv (Inr x, w) msg k = k x w"
  by (simp_all add: and_thenv_def)

lemma and_thenv_Inr: "and_thenv p msg k = (Inr y, w') \<longleftrightarrow> (\<exists>x w. p = (Inr x, w) \<and> k x w = (Inr y, w'))"
  by (auto simp: and_thenv_def split: prod.splits sum.splits)

section \<open>One tunnel\<close>

definition vrfTable :: "'w tunnel_env \<Rightarrow> Tunnel \<Rightarrow> 'w \<Rightarrow> go_error + int" where
  "vrfTable env t w =
     (case nl_LinkByName (te_nl env) w (tn_vrfName t) of
        Inl err \<Rightarrow> Inl (Errorf ''failed to get VRF link'' (Some err))
      | Inr l \<Rightarrow> if lk_Type l = ''vrf'' then Inr (lk_Table l) else Inl (Errorf ''interface is not a VRF'' None))"

text \<open>The loop over the destinations: a route each, recorded once it is in place.\<close>

fun install_loop :: "'w tunnel_env \<Rightarrow> link \<Rightarrow> int \<Rightarrow> bytes \<Rightarrow> ip_net list \<Rightarrow> Tunnel \<Rightarrow> 'w \<Rightarrow> (go_error + unit) \<times> Tunnel \<times> 'w" where
  "install_loop env link table endpoint [] t w = (Inr (), t, w)"
| "install_loop env link table endpoint (dst # dsts) t w =
     (case nl_RouteReplace (te_nl env) w (empty_route\<lparr>rt_Dst := Some dst, rt_Table := table, rt_LinkIndex := lk_Index link, rt_Remote := Some endpoint\<rparr>) of
        (Inl err, w1) \<Rightarrow> (Inl (Errorf ''failed to install egress route'' (Some (Errorf ''failed to replace route'' (Some err)))), t, w1)
      | (Inr _, w1) \<Rightarrow>
          install_loop env link table endpoint dsts (t\<lparr>tn_egress := AList.update (IPNet_String (Some dst)) dst (tn_egress t)\<rparr>) w1)"

definition installEgressRoutes :: "'w tunnel_env \<Rightarrow> ip_net list \<Rightarrow> Tunnel \<Rightarrow> 'w \<Rightarrow> (go_error + unit) \<times> Tunnel \<times> 'w" where
  "installEgressRoutes env dsts t w =
     (case nl_LinkByName (te_nl env) w (tn_tunnelIface t) of Inl err \<Rightarrow> (Inl (Errorf ''failed to get tunnel link'' (Some err)), t, w) | Inr link \<Rightarrow>
      case vrfTable env t w of Inl err \<Rightarrow> (Inl (Errorf ''failed to resolve VRF'' (Some err)), t, w) | Inr table \<Rightarrow>
      case tn_endpoint t of
        None \<Rightarrow> (Inl (Errorf ''tunnel endpoint is not set, cannot add egress route'' None), t, w)
      | Some endpoint \<Rightarrow> install_loop env link table endpoint dsts t w)"

definition networks_of :: "DualStackNetwork \<Rightarrow> ip_net list" where
  "networks_of n = given (dsn_IPv4Net n) @ given (dsn_IPv6Net n)"

definition Tunnel_AddEgressRoute :: "'w tunnel_env \<Rightarrow> DualStackNetwork \<Rightarrow> Tunnel \<Rightarrow> 'w \<Rightarrow> (go_error + unit) \<times> Tunnel \<times> 'w" where
  "Tunnel_AddEgressRoute env dst t w = installEgressRoutes env (networks_of dst) t w"

fun remove_loop :: "'w tunnel_env \<Rightarrow> int \<Rightarrow> ip_net list \<Rightarrow> Tunnel \<Rightarrow> 'w \<Rightarrow> (go_error + unit) \<times> Tunnel \<times> 'w" where
  "remove_loop env table [] t w = (Inr (), t, w)"
| "remove_loop env table (dst # dsts) t w =
     (if map_of (tn_egress t) (IPNet_String (Some dst)) = None then remove_loop env table dsts t w
      else case nl_RouteDel (te_nl env) w (empty_route\<lparr>rt_Dst := Some dst, rt_Table := table\<rparr>) of
             (Inl err, w1) \<Rightarrow> (Inl (Errorf ''failed to remove egress route'' (Some err)), t, w1)
           | (Inr _, w1) \<Rightarrow> remove_loop env table dsts (t\<lparr>tn_egress := AList.delete (IPNet_String (Some dst)) (tn_egress t)\<rparr>) w1)"

definition removeEgressRoutes :: "'w tunnel_env \<Rightarrow> ip_net list \<Rightarrow> Tunnel \<Rightarrow> 'w \<Rightarrow> (go_error + unit) \<times> Tunnel \<times> 'w" where
  "removeEgressRoutes env dsts t w =
     (case nl_LinkByName (te_nl env) w (tn_tunnelIface t) of
        Inl err \<Rightarrow> if te_IsLinkNotFound env err then (Inr (), t\<lparr>tn_egress := []\<rparr>, w) else (Inl (Errorf ''failed to get tunnel link'' (Some err)), t, w)
      | Inr _ \<Rightarrow>
          (case vrfTable env t w of
             Inl err \<Rightarrow> (Inl (Errorf ''failed to resolve VRF'' (Some err)), t, w)
           | Inr table \<Rightarrow> remove_loop env table dsts t w))"

definition Tunnel_RemoveEgressRoute :: "'w tunnel_env \<Rightarrow> DualStackNetwork \<Rightarrow> Tunnel \<Rightarrow> 'w \<Rightarrow> (go_error + unit) \<times> Tunnel \<times> 'w" where
  "Tunnel_RemoveEgressRoute env dst t w = removeEgressRoutes env (networks_of dst) t w"

definition mark_rule :: "bytes \<Rightarrow> rule" where
  "mark_rule ip = [''-s'', net_IP_String ip, ''-j'', ''MARK'', ''--set-xmark'', accepted_mark]"

text \<open>Only an IPv4 address of the node is ever looked up.\<close>

definition UpdateDestinationNode :: "'w tunnel_env \<Rightarrow> (string \<times> string) list \<Rightarrow> Tunnel \<Rightarrow> 'w \<Rightarrow> (go_error + unit) \<times> Tunnel \<times> 'w" where
  "UpdateDestinationNode env addrs t w =
     (case GetNodeIP addrs False of
        None \<Rightarrow> (Inr (), t, w)
      | Some ip \<Rightarrow>
          (case and_thenv (ipt_ClearChain (te_ip4t env) w ''filter'' (tn_chainName t)) ''failed to clear IP4 iptables chain'' (\<lambda>_ w.
                and_thenv (ipt_Insert (te_ip4t env) w ''filter'' (tn_chainName t) 1 (mark_rule ip)) ''failed to insert mark rule'' (\<lambda>_ w.
                and_thenv (ipt_Append (te_ip4t env) w ''filter'' (tn_chainName t) [''-j'', ''RETURN'']) ''failed to append rule to IP4 iptables chain'' (\<lambda>_ w.
                  (Inr (), w)))) of
             (Inl err, w1) \<Rightarrow> (Inl err, t, w1)
           | (Inr _, w1) \<Rightarrow>
               (let t1 = t\<lparr>tn_endpoint := Some ip\<rparr> in
                if tn_egress t1 = [] then (Inr (), t1, w1)
                else case installEgressRoutes env (map snd (tn_egress t1)) t1 w1 of
                       (Inl err, t2, w2) \<Rightarrow> (Inl (Errorf ''failed to refresh egress routes'' (Some err)), t2, w2)
                     | (Inr _, t2, w2) \<Rightarrow> (Inr (), t2, w2))))"

definition NewTunnel :: "'w tunnel_env \<Rightarrow> (string \<times> string) list \<Rightarrow> string \<Rightarrow> string \<Rightarrow> 'w \<Rightarrow> (go_error + Tunnel) \<times> 'w" where
  "NewTunnel env addrs tunnelIface vrfName w =
     and_thenv (GenerateRandomName (te_rnd env w) IPTablesRootChainName 6, w) ''failed to generate chain name'' (\<lambda>chainName w.
     and_thenv (te_NewChain env False w ''filter'' chainName) ''failed to init IP4 iptables chain'' (\<lambda>_ w.
     and_thenv (te_NewChain env True w ''filter'' chainName) ''failed to init IP6 iptables chain'' (\<lambda>_ w.
     and_thenv (ipt_InsertUnique (te_ip4t env) w ''filter'' IPTablesRootChainName 1 [''-j'', chainName]) ''failed to append rule to chain'' (\<lambda>_ w.
     and_thenv (ipt_InsertUnique (te_ip6t env) w ''filter'' IPTablesRootChainName 1 [''-j'', chainName]) ''failed to append rule to chain'' (\<lambda>_ w.
     and_thenv (ipt_Append (te_ip4t env) w ''filter'' chainName [''-j'', ''RETURN'']) ''failed to append rule to IP4 iptables chain'' (\<lambda>_ w.
     and_thenv (ipt_Append (te_ip6t env) w ''filter'' chainName [''-j'', ''RETURN'']) ''failed to append rule to IP6 iptables chain'' (\<lambda>_ w.
       (case UpdateDestinationNode env addrs
               \<lparr>tn_chainName = chainName, tn_tunnelIface = tunnelIface, tn_vrfName = vrfName, tn_endpoint = None, tn_egress = []\<rparr> w of
          (Inl err, t, w) \<Rightarrow> (Inl (Errorf ''failed to update destination node'' (Some err)), w)
        | (Inr _, t, w) \<Rightarrow> (Inr t, w)))))))))"

definition Tunnel_Teardown :: "'w tunnel_env \<Rightarrow> Tunnel \<Rightarrow> 'w \<Rightarrow> (go_error + unit) \<times> Tunnel \<times> 'w" where
  "Tunnel_Teardown env t w =
     (case removeEgressRoutes env (map snd (tn_egress t)) t w of
        (Inl err, t1, w1) \<Rightarrow> (Inl (Errorf ''failed to remove egress routes'' (Some err)), t1, w1)
      | (Inr _, t1, w1) \<Rightarrow>
          (case
             and_thenv (ipt_ClearChain (te_ip4t env) w1 ''filter'' (tn_chainName t1)) ''failed to clear IP4 iptables chain'' (\<lambda>_ w.
             and_thenv (ipt_ClearChain (te_ip6t env) w ''filter'' (tn_chainName t1)) ''failed to clear IP6 iptables chain'' (\<lambda>_ w.
             and_thenv (ipt_DeleteIfExists (te_ip4t env) w ''filter'' IPTablesRootChainName [''-j'', tn_chainName t1]) ''failed to delete IP4 rules'' (\<lambda>_ w.
             and_thenv (ipt_DeleteIfExists (te_ip6t env) w ''filter'' IPTablesRootChainName [''-j'', tn_chainName t1]) ''failed to delete IP6 rules'' (\<lambda>_ w.
             and_thenv (ipt_DeleteChain (te_ip4t env) w ''filter'' (tn_chainName t1)) ''failed to delete IP4 iptables chain'' (\<lambda>_ w.
             and_thenv (ipt_DeleteChain (te_ip6t env) w ''filter'' (tn_chainName t1)) ''failed to delete IP6 iptables chain'' (\<lambda>_ w.
               (Inr (), w)))))))
           of (res, w2) \<Rightarrow> (res, t1, w2)))"

section \<open>The manager\<close>

abbreviation input_rule :: rule where
  "input_rule \<equiv> [''-p'', ''udp'', ''--dport'', ''6018'', ''-j'', IPTablesRootChainName]"

definition delete_root :: "'w tunnel_env \<Rightarrow> bool \<Rightarrow> 'w iptables \<Rightarrow> 'w \<Rightarrow> 'w call" where
  "delete_root env v6 ipt w =
     (case ipt_ChainExists ipt w ''filter'' IPTablesRootChainName of
        Inl err \<Rightarrow> (Inl err, w)
      | Inr False \<Rightarrow> (Inr (), w)
      | Inr True \<Rightarrow>
          bind_err (ipt_DeleteIfExists ipt w ''filter'' ''INPUT'' input_rule) (\<lambda>_ w.
            te_ClearAndDeleteChain env v6 w ''filter'' IPTablesRootChainName))"

definition deleteChains :: "'w tunnel_env \<Rightarrow> 'w \<Rightarrow> 'w call" where
  "deleteChains env w = bind_err (delete_root env False (te_ip4t env) w) (\<lambda>_ w. delete_root env True (te_ip6t env) w)"

definition root_rules :: "'w iptables \<Rightarrow> 'w \<Rightarrow> 'w call" where
  "root_rules ipt w =
     and_thenv (ipt_AppendUnique ipt w ''filter'' IPTablesRootChainName [''-m'', ''mark'', ''--mark'', accepted_mark, ''-j'', ''RETURN'']) ''failed to append return rule'' (\<lambda>_ w.
     and_thenv (ipt_AppendUnique ipt w ''filter'' IPTablesRootChainName [''-j'', ''MARK'', ''--set-xmark'', ''0x0/0x100'']) ''failed to append mark cleanup rule'' (\<lambda>_ w.
     and_thenv (ipt_AppendUnique ipt w ''filter'' IPTablesRootChainName [''-j'', ''DROP'']) ''failed to append drop rule'' (\<lambda>_ w. (Inr (), w))))"

definition ensureIptables :: "'w tunnel_env \<Rightarrow> 'w \<Rightarrow> 'w call" where
  "ensureIptables env w =
     and_thenv (deleteChains env w) ''failed to delete leftover iptables chains'' (\<lambda>_ w.
     and_thenv (te_NewChain env False w ''filter'' IPTablesRootChainName) ''failed to create chain in IP4 iptables'' (\<lambda>_ w.
     and_thenv (te_NewChain env True w ''filter'' IPTablesRootChainName) ''failed to create chain in IP6 iptables'' (\<lambda>_ w.
     bind_err (root_rules (te_ip4t env) w) (\<lambda>_ w.
     bind_err (root_rules (te_ip6t env) w) (\<lambda>_ w.
     and_thenv (ipt_InsertUnique (te_ip4t env) w ''filter'' ''INPUT'' 1 input_rule) ''failed to append rule to IP4 iptables chain'' (\<lambda>_ w.
     and_thenv (ipt_InsertUnique (te_ip6t env) w ''filter'' ''INPUT'' 1 input_rule) ''failed to append rule to IP4 iptables chain'' (\<lambda>_ w.
       (Inr (), w))))))))"

definition createTunnel :: "'w tunnel_env \<Rightarrow> string \<Rightarrow> link \<Rightarrow> 'w \<Rightarrow> (go_error + link) \<times> 'w" where
  "createTunnel env name vrf w =
     (let tun = empty_link\<lparr>lk_Name := name, lk_Type := ''geneve''\<rparr> in
      and_thenv (nl_LinkAdd (te_nl env) w tun) ''failed to add Geneve tunnel'' (\<lambda>_ w.
      and_thenv (nl_LinkSetMaster (te_nl env) w tun vrf) ''failed to set Geneve tunnel master'' (\<lambda>_ w. (Inr tun, w))))"

text \<open>A device with other attributes is re-created; when that fails, activating the nil device panics.\<close>

definition ensureTunnel :: "'w tunnel_env \<Rightarrow> string \<Rightarrow> link \<Rightarrow> 'w \<Rightarrow> 'w call" where
  "ensureTunnel env name vrf w =
     (let up = (\<lambda>l w. and_thenv (nl_LinkSetUp (te_nl env) w l) ''failed to set up Geneve tunnel'' (\<lambda>_ w. (Inr (), w)));
          check = (\<lambda>l w. if lk_Type l \<noteq> ''geneve'' then (Inl (Errorf ''already exists but is not a Geneve tunnel'' None), w)
                    else if te_suitable env w l then up l w
                    else and_thenv (nl_LinkDel (te_nl env) w l) ''failed to delete tunnel'' (\<lambda>_ w.
                      case createTunnel env name vrf w of (Inl _, w1) \<Rightarrow> (Inl (TypedError ''nil pointer''), w1) | (Inr l', w1) \<Rightarrow> up l' w1))
      in case nl_LinkByName (te_nl env) w name of
           Inr l \<Rightarrow> check l w
         | Inl _ \<Rightarrow> and_thenv (createTunnel env name vrf w) ''failed to create tunnel'' (\<lambda>l w. check l w))"

definition NewTunnelManager :: "'w tunnel_env \<Rightarrow> string \<Rightarrow> 'w \<Rightarrow> (go_error + TunnelManager) \<times> 'w" where
  "NewTunnelManager env vrfName w =
     and_thenv (case te_ip4tErr env of None \<Rightarrow> (Inr (), w) | Some err \<Rightarrow> (Inl err, w)) ''failed to init iptables for IPv4 address family'' (\<lambda>_ w.
     and_thenv (case te_ip6tErr env of None \<Rightarrow> (Inr (), w) | Some err \<Rightarrow> (Inl err, w)) ''failed to init iptables for IPv6 address family'' (\<lambda>_ w.
     and_thenv (ensureIptables env w) ''failed to ensure iptables'' (\<lambda>_ w.
     and_thenv (nl_LinkByName (te_nl env) w vrfName, w) ''failed to get VRF link'' (\<lambda>vrf w.
     and_thenv (ensureTunnel env TunnelName vrf w) ''failed to ensure tunnel'' (\<lambda>_ w.
       (Inr \<lparr>tm_tunnelInterface = TunnelName, tm_tunnels = Map.empty, tm_vrfName = vrfName\<rparr>, w))))))"

text \<open>Errors are logged; the tunnels are torn down after the shared chain and device, in any order.\<close>

definition TunnelManager_Shutdown :: "'w tunnel_env \<Rightarrow> string list \<Rightarrow> TunnelManager \<Rightarrow> 'w \<Rightarrow> 'w" where
  "TunnelManager_Shutdown env order m w =
     (let w1 = snd (deleteChains env w);
          w2 = (case nl_LinkByName (te_nl env) w1 (tm_tunnelInterface m) of Inl _ \<Rightarrow> w1 | Inr l \<Rightarrow> snd (nl_LinkDel (te_nl env) w1 l))
      in fold (\<lambda>n w. case tm_tunnels m n of None \<Rightarrow> w | Some t \<Rightarrow> snd (snd (Tunnel_Teardown env t w))) order w2)"

definition UpdateNodeTunnels :: "'w tunnel_env \<Rightarrow> string \<Rightarrow> (string \<times> string) list \<Rightarrow> TunnelManager \<Rightarrow> 'w \<Rightarrow> (go_error + unit) \<times> TunnelManager \<times> 'w" where
  "UpdateNodeTunnels env name addrs m w =
     (case tm_tunnels m name of
        Some t \<Rightarrow>
          (case UpdateDestinationNode env addrs t w of
             (res, t1, w1) \<Rightarrow> (map_sum (\<lambda>e. Errorf ''failed to update destination node'' (Some e)) id res, m\<lparr>tm_tunnels := (tm_tunnels m)(name \<mapsto> t1)\<rparr>, w1))
      | None \<Rightarrow>
          (case NewTunnel env addrs (tm_tunnelInterface m) (tm_vrfName m) w of
             (Inl err, w1) \<Rightarrow> (Inl (Errorf ''failed to create Geneve tunnel'' (Some err)), m, w1)
           | (Inr t, w1) \<Rightarrow> (Inr (), m\<lparr>tm_tunnels := (tm_tunnels m)(name \<mapsto> t)\<rparr>, w1)))"

definition on_tunnel ::
  "string \<Rightarrow> (Tunnel \<Rightarrow> 'w \<Rightarrow> (go_error + unit) \<times> Tunnel \<times> 'w) \<Rightarrow> string \<Rightarrow> TunnelManager \<Rightarrow> 'w \<Rightarrow> Tunnel \<Rightarrow> (go_error + unit) \<times> TunnelManager \<times> 'w" where
  "on_tunnel msg f name m w t =
     (case f t w of (res, t1, w1) \<Rightarrow> (map_sum (\<lambda>e. Errorf msg (Some e)) id res, m\<lparr>tm_tunnels := (tm_tunnels m)(name \<mapsto> t1)\<rparr>, w1))"

definition AddEgressRoute :: "'w tunnel_env \<Rightarrow> string \<Rightarrow> DualStackNetwork \<Rightarrow> TunnelManager \<Rightarrow> 'w \<Rightarrow> (go_error + unit) \<times> TunnelManager \<times> 'w" where
  "AddEgressRoute env name dst m w =
     (case tm_tunnels m name of
        None \<Rightarrow> (Inl (Errorf ''no Geneve tunnel exists yet for node'' None), m, w)
      | Some t \<Rightarrow> on_tunnel ''failed to add egress route'' (Tunnel_AddEgressRoute env dst) name m w t)"

definition RemoveEgressRoute :: "'w tunnel_env \<Rightarrow> string \<Rightarrow> DualStackNetwork \<Rightarrow> TunnelManager \<Rightarrow> 'w \<Rightarrow> (go_error + unit) \<times> TunnelManager \<times> 'w" where
  "RemoveEgressRoute env name dst m w =
     (case tm_tunnels m name of
        None \<Rightarrow> (Inr (), m, w)
      | Some t \<Rightarrow> on_tunnel ''failed to remove egress route'' (Tunnel_RemoveEgressRoute env dst) name m w t)"

definition DeleteNodeTunnels :: "'w tunnel_env \<Rightarrow> string \<Rightarrow> TunnelManager \<Rightarrow> 'w \<Rightarrow> (go_error + unit) \<times> TunnelManager \<times> 'w" where
  "DeleteNodeTunnels env name m w =
     (case tm_tunnels m name of
        None \<Rightarrow> (Inr (), m, w)
      | Some t \<Rightarrow>
          (case Tunnel_Teardown env t w of
             (Inl err, t1, w1) \<Rightarrow> (Inl (Errorf ''error while tearing down Geneve tunnel'' (Some err)), m\<lparr>tm_tunnels := (tm_tunnels m)(name \<mapsto> t1)\<rparr>, w1)
           | (Inr _, t1, w1) \<Rightarrow> (Inr (), m\<lparr>tm_tunnels := (tm_tunnels m)(name := None)\<rparr>, w1)))"

section \<open>Routes and their record\<close>

text \<open>The record of a tunnel is consistent when every network stands under its own text.\<close>

definition egress_ok :: "Tunnel \<Rightarrow> bool" where
  "egress_ok t \<longleftrightarrow> distinct (map fst (tn_egress t)) \<and> (\<forall>(k, n) \<in> set (tn_egress t). k = IPNet_String (Some n))"

abbreviation routed :: "Tunnel \<Rightarrow> ip_net \<Rightarrow> ip_net option" where
  "routed t n \<equiv> map_of (tn_egress t) (IPNet_String (Some n))"

definition tunnels_to :: "'w fib \<Rightarrow> 'w \<Rightarrow> int \<Rightarrow> ip_net \<Rightarrow> bytes \<Rightarrow> bool" where
  "tunnels_to fib w table n ip \<longleftrightarrow> (\<exists>e. fib w (table, Some n) = Some e \<and> rt_Remote e = Some ip)"

lemma egress_ok_update:
  assumes "egress_ok t"
  shows "egress_ok (t\<lparr>tn_egress := AList.update (IPNet_String (Some n)) n (tn_egress t)\<rparr>)"
proof -
  have sub: "set (AList.update k v xs) \<subseteq> insert (k, v) (set xs)" for k v and xs :: "(string \<times> ip_net) list"
    by (induction xs) auto
  have "k = IPNet_String (Some x)" if "(k, x) \<in> set (AList.update (IPNet_String (Some n)) n (tn_egress t))" for k x
    using subsetD [OF sub that] assms by (auto simp: egress_ok_def)
  then show ?thesis using assms distinct_update [of "tn_egress t"] by (auto simp: egress_ok_def)
qed

lemma install_loop_effect:
  assumes k: "fib_kernel (te_nl env) fib"
  shows "install_loop env l tb ip dsts t w = (Inr (), t', w') \<Longrightarrow>
    t' = t\<lparr>tn_egress := tn_egress t'\<rparr> \<and> (egress_ok t \<longrightarrow> egress_ok t') \<and>
    (\<forall>n \<in> set dsts. tunnels_to fib w' tb n ip \<and> routed t' n \<noteq> None) \<and>
    (\<forall>key. key \<notin> (\<lambda>n. (tb, Some n)) ` set dsts \<longrightarrow> fib w' key = fib w key) \<and>
    (\<forall>x. x \<notin> (\<lambda>n. IPNet_String (Some n)) ` set dsts \<longrightarrow> map_of (tn_egress t') x = map_of (tn_egress t) x)"
proof (induction dsts arbitrary: t w)
  case (Cons n dsts)
  let ?t = "t\<lparr>tn_egress := AList.update (IPNet_String (Some n)) n (tn_egress t)\<rparr>"
  let ?r = "empty_route\<lparr>rt_Dst := Some n, rt_Table := tb, rt_LinkIndex := lk_Index l, rt_Remote := Some ip\<rparr>"
  obtain w1 where w1: "nl_RouteReplace (te_nl env) w ?r = (Inr (), w1)" "install_loop env l tb ip dsts ?t w1 = (Inr (), t', w')"
    using Cons.prems by (auto split: prod.splits sum.splits)
  have fib1: "fib w1 = (fib w)((tb, Some n) \<mapsto> ?r)" using k w1(1) unfolding fib_kernel_def by simp
  note ih = Cons.IH [OF w1(2)]
  have "tunnels_to fib w' tb n ip \<and> routed t' n \<noteq> None"
  proof (cases "n \<in> set dsts")
    case False
    then have "(tb, Some n) \<notin> (\<lambda>n. (tb, Some n)) ` set dsts" by auto
    then have "fib w' (tb, Some n) = Some ?r" using ih fib1 by (metis (no_types, lifting) fun_upd_same)
    then have "tunnels_to fib w' tb n ip" by (simp add: tunnels_to_def)
    moreover have "routed t' n \<noteq> None"
    proof (cases "IPNet_String (Some n) \<in> (\<lambda>n. IPNet_String (Some n)) ` set dsts")
      case True
      then show ?thesis using ih by auto
    next
      case False
      then show ?thesis using ih by (simp add: update_conv')
    qed
    ultimately show ?thesis by blast
  qed (use ih in blast)
  moreover have "t' = t\<lparr>tn_egress := tn_egress t'\<rparr>" using ih by (metis Tunnel.fold_congs(5) Tunnel.surjective Tunnel.update_convs(5))
  ultimately show ?case using ih fib1 egress_ok_update [of t n] by (auto simp: update_conv')
qed (simp add: tunnels_to_def)

lemma install_effect:
  assumes k: "fib_kernel (te_nl env) fib" and i: "installEgressRoutes env dsts t w = (Inr (), t', w')"
    and tb: "\<And>w tb. vrfTable env t w = Inr tb \<Longrightarrow> tb = table"
  obtains ip where "tn_endpoint t = Some ip" "t' = t\<lparr>tn_egress := tn_egress t'\<rparr>" "egress_ok t \<longrightarrow> egress_ok t'"
    "\<forall>n \<in> set dsts. tunnels_to fib w' table n ip \<and> routed t' n \<noteq> None"
    "\<forall>key. key \<notin> (\<lambda>n. (table, Some n)) ` set dsts \<longrightarrow> fib w' key = fib w key"
    "\<forall>x. x \<notin> (\<lambda>n. IPNet_String (Some n)) ` set dsts \<longrightarrow> map_of (tn_egress t') x = map_of (tn_egress t) x"
proof -
  obtain l ip where l: "tn_endpoint t = Some ip" "install_loop env l table ip dsts t w = (Inr (), t', w')"
    using i tb by (auto simp: installEgressRoutes_def split: sum.splits option.splits)
  from install_loop_effect [OF k l(2)] that [OF l(1)] show thesis by blast
qed

lemma remove_loop_effect:
  "remove_loop env tb dsts t w = (Inr (), t', w') \<Longrightarrow> t' = t\<lparr>tn_egress := tn_egress t'\<rparr> \<and>
    (\<forall>n \<in> set dsts. routed t' n = None) \<and> (\<forall>x. map_of (tn_egress t) x = None \<longrightarrow> map_of (tn_egress t') x = None)"
proof (induction dsts arbitrary: t w)
  case (Cons n dsts)
  show ?case
  proof (cases "routed t n")
    case None
    with Cons show ?thesis by auto
  next
    case (Some x)
    let ?t = "t\<lparr>tn_egress := AList.delete (IPNet_String (Some n)) (tn_egress t)\<rparr>"
    obtain w1 where "remove_loop env tb dsts ?t w1 = (Inr (), t', w')"
      using Cons.prems Some by (auto split: prod.splits sum.splits)
    from Cons.IH [OF this] have ih: "t' = ?t\<lparr>tn_egress := tn_egress t'\<rparr>" "\<forall>n \<in> set dsts. routed t' n = None"
      "\<forall>x. map_of (tn_egress ?t) x = None \<longrightarrow> map_of (tn_egress t') x = None" by blast+
    have "t' = t\<lparr>tn_egress := tn_egress t'\<rparr>" using ih(1) by (metis Tunnel.fold_congs(5) Tunnel.surjective Tunnel.update_convs(5))
    then show ?thesis using ih(2,3) by (auto simp: delete_conv')
  qed
qed simp

lemma remove_effect:
  assumes "removeEgressRoutes env dsts t w = (Inr (), t', w')"
  shows "t' = t\<lparr>tn_egress := tn_egress t'\<rparr> \<and> (\<forall>n \<in> set dsts. routed t' n = None)"
  using assms remove_loop_effect by (fastforce simp: removeEgressRoutes_def split: sum.splits if_splits)

lemma map_sum_Inr: "map_sum f id r = Inr x \<longleftrightarrow> r = Inr x"
  by (cases r) auto

text \<open>The firewall does not touch routes.\<close>

definition fib_firewall :: "'w tunnel_env \<Rightarrow> 'w fib \<Rightarrow> bool" where
  "fib_firewall env fib \<longleftrightarrow>
     (\<forall>w t c. fib (snd (ipt_ClearChain (te_ip4t env) w t c)) = fib w) \<and>
     (\<forall>w t c k r. fib (snd (ipt_Insert (te_ip4t env) w t c k r)) = fib w) \<and>
     (\<forall>w t c r. fib (snd (ipt_Append (te_ip4t env) w t c r)) = fib w)"

lemma chain_step_fib:
  assumes "fib_firewall env fib"
  shows "ipt_ClearChain (te_ip4t env) w t c = (res, w') \<Longrightarrow> fib w' = fib w"
    "ipt_Insert (te_ip4t env) w t c k r = (res, w') \<Longrightarrow> fib w' = fib w"
    "ipt_Append (te_ip4t env) w t c r = (res, w') \<Longrightarrow> fib w' = fib w"
  using assms unfolding fib_firewall_def by (metis snd_conv)+

lemma update_destination:
  assumes "UpdateDestinationNode env addrs t w = (Inr (), t', w')" "GetNodeIP addrs False = Some ip" "fib_firewall env fib"
  obtains w1 where "fib w1 = fib w"
    "(tn_egress t = [] \<and> t' = t\<lparr>tn_endpoint := Some ip\<rparr> \<and> w' = w1) \<or>
     installEgressRoutes env (map snd (tn_egress t)) (t\<lparr>tn_endpoint := Some ip\<rparr>) w1 = (Inr (), t', w')"
proof -
  let ?c = "tn_chainName t"
  obtain u1 u2 u3 where "ipt_ClearChain (te_ip4t env) w ''filter'' ?c = (Inr (), u1)"
    "ipt_Insert (te_ip4t env) u1 ''filter'' ?c 1 (mark_rule ip) = (Inr (), u2)"
    "ipt_Append (te_ip4t env) u2 ''filter'' ?c [''-j'', ''RETURN''] = (Inr (), u3)"
    and c: "(tn_egress t = [] \<and> t' = t\<lparr>tn_endpoint := Some ip\<rparr> \<and> w' = u3) \<or>
     installEgressRoutes env (map snd (tn_egress t)) (t\<lparr>tn_endpoint := Some ip\<rparr>) u3 = (Inr (), t', w')"
    using assms(1,2) by (auto simp: UpdateDestinationNode_def Let_def and_thenv_def split: prod.splits sum.splits if_splits)
  with chain_step_fib [OF assms(3)] have "fib u3 = fib w" by metis
  from that [OF this c] show thesis .
qed

lemma egress_ok_keys: "egress_ok t \<Longrightarrow> dom (map_of (tn_egress t)) = (\<lambda>n. IPNet_String (Some n)) ` snd ` set (tn_egress t)"
  by (force simp: egress_ok_def dom_map_of_conv_image_fst image_iff)


text \<open>An example: one network, routed to a peer whose address changes.\<close>

definition ex_tunnel_env :: "ex_fib tunnel_env" where
  "ex_tunnel_env = \<lparr>te_nl = (dp_nl ex_fib_dp)\<lparr>nl_LinkByName := (\<lambda>w n. Inr (empty_link\<lparr>lk_Name := n, lk_Type := ''vrf'', lk_Table := 1000\<rparr>))\<rparr>,
     te_ip4t = ex_ipt, te_ip6t = ex_ipt, te_ip4tErr = None, te_ip6tErr = None, te_NewChain = (\<lambda>v w t c. (Inr (), w)), te_ClearAndDeleteChain = (\<lambda>v w t c. (Inr (), w)),
     te_rnd = (\<lambda>w n. Inr (replicate n 0)), te_suitable = (\<lambda>w l. True), te_IsLinkNotFound = (\<lambda>e. False)\<rparr>"

lemma ex_tunnel_laws:
  "fib_kernel (te_nl ex_tunnel_env) id" "fib_firewall ex_tunnel_env id" "\<forall>t w tb. vrfTable ex_tunnel_env t w = Inr tb \<longrightarrow> tb = 1000"
  by (simp_all add: fib_kernel_def fib_firewall_def vrfTable_def ex_tunnel_env_def ex_fib_dp_def ex_ipt_def empty_link_def)

definition ex_peer :: Tunnel where
  "ex_peer = \<lparr>tn_chainName = ''IML-TUNNEL-1'', tn_tunnelIface = TunnelName, tn_vrfName = ''vrf'', tn_endpoint = Some [10, 0, 0, 1],
     tn_egress = [(IPNet_String (Some ex_pod_net), ex_pod_net)]\<rparr>"

definition ex_tunnels :: TunnelManager where
  "ex_tunnels = \<lparr>tm_tunnelInterface = TunnelName, tm_tunnels = [''n2'' \<mapsto> ex_peer], tm_vrfName = ''vrf''\<rparr>"

lemma ex_node_ip: "GetNodeIP [(''10.0.0.9'', ''InternalIP'')] False \<noteq> None"
  by code_simp


end
