(* ===== verification/DaemonCtl.thy ===== *)
theory DaemonCtl
  imports LoomNode Geneve
begin

text \<open>
  The controllers of the node daemon (\<open>src/daemon/controllers\<close>): service chains, targets, the node itself and its
  peers. They drive the software dataplane and the tunnels; the API client is a parameter.
\<close>

section \<open>State and client\<close>

record ServiceChain = object_meta +
  sc_From :: nsname
  sc_To :: nsname
  sc_Functions :: "label_selector list"

record DaemonState =
  ds_sw :: Software
  ds_tm :: TunnelManager
  ds_remoteRoutes :: "nsname \<rightharpoonup> string \<times> string"

text \<open>
  Selectors are the library's: \<open>dc_Selector\<close> converts a label selector and may fail, \<open>dc_Matches\<close> tests labels. A node
  of Kubernetes is the list of its addresses with their types.
\<close>

record 'w daemon_env =
  dc_dp :: "'w dataplane_env"
  dc_tn :: "'w tunnel_env"
  dc_GetChain :: "'w \<Rightarrow> nsname \<Rightarrow> go_error + ServiceChain"
  dc_ListChains :: "'w \<Rightarrow> go_error + ServiceChain list"
  dc_GetApp :: "'w \<Rightarrow> nsname \<Rightarrow> go_error + Application"
  dc_ListNFs :: "'w \<Rightarrow> go_error + NetworkFunction list"
  dc_Selector :: "label_selector \<Rightarrow> go_error option"
  dc_Matches :: "label_selector \<Rightarrow> strmap \<Rightarrow> bool"
  dc_GetTarget :: "'w \<Rightarrow> nsname \<Rightarrow> go_error + P4Target"
  dc_PatchTargetStatus :: "'w \<Rightarrow> P4Target \<Rightarrow> 'w call"
  dc_GetNode :: "'w \<Rightarrow> nsname \<Rightarrow> go_error + (string \<times> string) list"
  dc_GetLoomNode :: "'w \<Rightarrow> nsname \<Rightarrow> go_error + LoomNode"
  dc_PatchLoomNode :: "'w \<Rightarrow> LoomNode \<Rightarrow> 'w call"

section \<open>Service chains\<close>

definition GetReadyCondition :: "NetworkFunction \<Rightarrow> NetworkFunctionCondition option" where
  "GetReadyCondition nf = find (\<lambda>c. c_Type c = ''Ready'') (nft_Conditions (nf_Status nf))"

definition filterNFs :: "NetworkFunction list \<Rightarrow> NetworkFunction list" where
  "filterNFs nfs = filter (\<lambda>nf. nfs_TargetName (nf_Spec nf) \<noteq> '''' \<and>
     (case GetReadyCondition nf of None \<Rightarrow> False | Some c \<Rightarrow> c_Status c = ConditionTrue)) nfs"

text \<open>The list call of the library selects by labels, over all namespaces.\<close>

definition listMatchingNFs :: "'w daemon_env \<Rightarrow> label_selector \<Rightarrow> 'w \<Rightarrow> go_error + NetworkFunction list" where
  "listMatchingNFs env sel w =
     (case dc_Selector env sel of
        Some err \<Rightarrow> Inl err
      | None \<Rightarrow> (case dc_ListNFs env w of Inl err \<Rightarrow> Inl err | Inr nfs \<Rightarrow> Inr (filter (\<lambda>nf. dc_Matches env sel (om_Labels nf)) nfs)))"

text \<open>Go's \<open>net.ParseCIDR\<close>: the network, masked.\<close>

definition net_ParseCIDR :: "string \<Rightarrow> ip_net option" where
  "net_ParseCIDR s =
     (if CHR ''/'' \<notin> set s then None
      else let a = takeWhile (\<lambda>c. c \<noteq> CHR ''/'') s; m = tl (dropWhile (\<lambda>c. c \<noteq> CHR ''/'') s) in
           case (ParseAddr a, parse_digits m) of
             (Some ip, Some n) \<Rightarrow>
               if addr_hasZone ip \<or> int n > addr_BitLen ip then None
               else let mk = CIDRMask (int n) (addr_BitLen ip) in Some (map2 (\<lambda>b k. b AND k) (addr_AsSlice ip) mk, mk)
           | _ \<Rightarrow> None)"

text \<open>
  The addresses of the first function of each stage, in order. No stage may be empty; an address that does not
  parse is left out.
\<close>

fun chain_segments :: "NetworkFunction list list \<Rightarrow> bytes list option" where
  "chain_segments [] = Some []"
| "chain_segments ([] # stages) = None"
| "chain_segments ((nf # nfs) # stages) =
     (case chain_segments stages of
        None \<Rightarrow> None
      | Some segs \<Rightarrow> Some (case net_ParseIP (nft_AssignedIP (nf_Status nf)) of None \<Rightarrow> segs | Some ip \<Rightarrow> ip # segs))"

definition calculateSRv6Routes :: "Application \<Rightarrow> Application \<Rightarrow> NetworkFunction list list \<Rightarrow> SRv6Route list" where
  "calculateSRv6Routes srcApp dstApp matchingNFs =
     (case chain_segments matchingNFs of
        None \<Rightarrow> []
      | Some segments \<Rightarrow>
          map (\<lambda>(v4, v6). \<lparr>sr_SourceApp = meta_key srcApp, sr_DestinationApp = meta_key dstApp,
                 sr_DestNet = \<lparr>dsn_IPv4Net = net_ParseCIDR v4, dsn_IPv6Net = net_ParseCIDR v6\<rparr>, sr_FunctionIPs = segments\<rparr>)
            (concat (map snd (ap_Subnets dstApp))))"

definition sc_Reconcile :: "'w daemon_env \<Rightarrow> nsname \<Rightarrow> DaemonState \<Rightarrow> 'w \<Rightarrow> (go_error + ctrl_result) \<times> DaemonState \<times> 'w" where
  "sc_Reconcile env req s w =
     (case dc_GetChain env w req of
        Inl err \<Rightarrow>
          if IsNotFound err then
            (case DeleteAllServiceChainRoutes (dc_dp env) req (ds_sw s) w of
               (Inl e, d, w1) \<Rightarrow> (Inl e, s\<lparr>ds_sw := d\<rparr>, w1)
             | (Inr _, d, w1) \<Rightarrow> (Inr Done, s\<lparr>ds_sw := d\<rparr>, w1))
          else (Inl err, s, w)
      | Inr chain \<Rightarrow>
      (case dc_GetApp env w (sc_From chain) of
        Inl err \<Rightarrow> if IsNotFound err then (Inr (RequeueAfter (5 * Second)), s, w) else (Inl err, s, w)
      | Inr srcApp \<Rightarrow>
      (if map_of (ap_Subnets srcApp) (gc_NodeName (sw_cfg (ds_sw s))) = None then (Inr Done, s, w)
       else
      case dc_GetApp env w (sc_To chain) of
        Inl err \<Rightarrow> if IsNotFound err then (Inr (RequeueAfter (5 * Second)), s, w) else (Inl err, s, w)
      | Inr dstApp \<Rightarrow>
      (if length (ap_Subnets dstApp) = 0 then (Inr Done, s, w)
       else
      case map_err (\<lambda>sel. listMatchingNFs env sel w) (sc_Functions chain) of
        Inl err \<Rightarrow> (Inl (Wrapf ''failed to list matching NFs'' err), s, w)
      | Inr stages \<Rightarrow>
      (let routes = calculateSRv6Routes srcApp dstApp (map filterNFs stages) in
       if length routes = 0 then (Inr Done, s, w)
       else case AddServiceChainRoutes (dc_dp env) (meta_key chain) routes (ds_sw s) w of
              (Inl err, d, w1) \<Rightarrow> (Inl (Wrapf ''failed to add Route'' err), s\<lparr>ds_sw := d\<rparr>, w1)
            | (Inr _, d, w1) \<Rightarrow> (Inr Done, s\<lparr>ds_sw := d\<rparr>, w1))))))"

text \<open>Which chains an event concerns.\<close>

definition chain_index :: "(ServiceChain \<Rightarrow> nsname) \<Rightarrow> ServiceChain \<Rightarrow> nsname option" where
  "chain_index f sc =
     (if snd (f sc) = '''' then None
      else Some (if fst (f sc) = '''' then om_Namespace sc else fst (f sc), snd (f sc)))"

definition mapApplicationsToRequests :: "'w daemon_env \<Rightarrow> nsname \<Rightarrow> 'w \<Rightarrow> nsname list" where
  "mapApplicationsToRequests env app w =
     (case dc_ListChains env w of
        Inl _ \<Rightarrow> []
      | Inr scs \<Rightarrow>
          (let here = filter (\<lambda>sc. om_Namespace sc = fst app) scs in
           map meta_key (filter (\<lambda>sc. chain_index sc_From sc = Some app) here) @ map meta_key (filter (\<lambda>sc. chain_index sc_To sc = Some app) here)))"

definition reconcileAllChains :: "'w daemon_env \<Rightarrow> 'w \<Rightarrow> nsname list" where
  "reconcileAllChains env w = (case dc_ListChains env w of Inl _ \<Rightarrow> [] | Inr scs \<Rightarrow> map meta_key scs)"

text \<open>A selector that does not convert is a nil selector: testing labels with it panics (\<open>None\<close>).\<close>

fun selects :: "'w daemon_env \<Rightarrow> strmap \<Rightarrow> label_selector list \<Rightarrow> bool option" where
  "selects env ls [] = Some False"
| "selects env ls (sel # sels) =
     (if dc_Selector env sel \<noteq> None then None else if dc_Matches env sel ls then Some True else selects env ls sels)"

definition mapNFsToRequests :: "'w daemon_env \<Rightarrow> NetworkFunction \<Rightarrow> 'w \<Rightarrow> nsname list option" where
  "mapNFsToRequests env nf w =
     (case dc_ListChains env w of
        Inl _ \<Rightarrow> Some []
      | Inr scs \<Rightarrow>
          map_option concat (those (map (\<lambda>sc. map_option (\<lambda>b. if b then [meta_key sc] else []) (selects env (om_Labels nf) (sc_Functions sc)))
            (filter (\<lambda>sc. om_Namespace sc = om_Namespace nf) scs))))"

section \<open>Targets\<close>

definition dualStackAddressStrings :: "DualStackAddress \<Rightarrow> string list" where
  "dualStackAddressStrings addrs = map net_IP_String (given (dsa_IPv6 addrs) @ given (dsa_IPv4 addrs))"

definition hostVRFStatus :: "P4TargetVRFInfo \<Rightarrow> P4TargetHostVRFStatus" where
  "hostVRFStatus info = \<lparr>hv_Name = vi_Name info, hv_Table = int (unat (vi_Table info)), hv_Interface = vi_Interface info,
     hv_Addresses = dualStackAddressStrings (vi_Addresses info), hv_Gateways = dualStackAddressStrings (vi_Gateways info)\<rparr>"

definition patchHostVRFStatus :: "'w daemon_env \<Rightarrow> P4Target \<Rightarrow> P4TargetHostVRFStatus option \<Rightarrow> 'w \<Rightarrow> 'w call" where
  "patchHostVRFStatus env target desired w =
     (if ptt_HostVRF (pt_Status target) = desired then (Inr (), w)
      else and_then (dc_PatchTargetStatus env w (target\<lparr>pt_Status := (pt_Status target)\<lparr>ptt_HostVRF := desired\<rparr>\<rparr>))
             ''failed to patch host VRF status of P4Target'' (\<lambda>_ w. (Inr (), w)))"

definition removeRemoteRoute :: "'w daemon_env \<Rightarrow> nsname \<Rightarrow> DaemonState \<Rightarrow> 'w \<Rightarrow> (go_error + unit) \<times> DaemonState \<times> 'w" where
  "removeRemoteRoute env key s w =
     (case ds_remoteRoutes s key of
        None \<Rightarrow> (Inr (), s, w)
      | Some (nodeName, nfCIDR) \<Rightarrow>
          (case ParseDualStackNetworkFromStrings [nfCIDR] of
             Inl err \<Rightarrow> (Inl (Wrapf ''failed to parse nf CIDR'' err), s, w)
           | Inr net \<Rightarrow>
               (case RemoveEgressRoute (dc_tn env) nodeName net (ds_tm s) w of
                  (Inl err, m, w1) \<Rightarrow> (Inl (Wrapf ''failed to remove route for P4Target'' err), s\<lparr>ds_tm := m\<rparr>, w1)
                | (Inr _, m, w1) \<Rightarrow> (Inr (), s\<lparr>ds_tm := m, ds_remoteRoutes := (ds_remoteRoutes s)(key := None)\<rparr>, w1))))"

text \<open>The route to a target on a peer node.\<close>

definition route_to_peer :: "'w daemon_env \<Rightarrow> nsname \<Rightarrow> string \<Rightarrow> string \<Rightarrow> DaemonState \<Rightarrow> 'w \<Rightarrow> (go_error + ctrl_result) \<times> DaemonState \<times> 'w" where
  "route_to_peer env key nodeName cidr s w =
     (case (if ds_remoteRoutes s key \<noteq> None \<and> ds_remoteRoutes s key \<noteq> Some (nodeName, cidr) then removeRemoteRoute env key s w else (Inr (), s, w)) of
        (Inl err, s1, w1) \<Rightarrow> (Inl err, s1, w1)
      | (Inr _, s1, w1) \<Rightarrow>
          (case ParseDualStackNetworkFromStrings [cidr] of
             Inl err \<Rightarrow> (Inl (Wrapf ''failed to parse nf CIDR for P4Target'' err), s1, w1)
           | Inr nfCIDR \<Rightarrow>
               (case AddEgressRoute (dc_tn env) nodeName nfCIDR (ds_tm s1) w1 of
                  (Inl err, m, w2) \<Rightarrow> (Inl (Wrapf ''failed to route P4Target towards node'' err), s1\<lparr>ds_tm := m\<rparr>, w2)
                | (Inr _, m, w2) \<Rightarrow>
                    (Inr Done, s1\<lparr>ds_tm := m, ds_remoteRoutes := (ds_remoteRoutes s1)(key \<mapsto> (nodeName, cidr))\<rparr>, w2))))"

text \<open>\<open>RemoveP4TargetVRF\<close> and \<open>RemoveP4TargetRoutes\<close> never fail; the second does nothing.\<close>

definition dt_Reconcile :: "'w daemon_env \<Rightarrow> nsname \<Rightarrow> DaemonState \<Rightarrow> 'w \<Rightarrow> (go_error + ctrl_result) \<times> DaemonState \<times> 'w" where
  "dt_Reconcile env req s w =
     (let remove_vrf = (\<lambda>s w. case RemoveP4TargetVRF (dc_dp env) (snd req) (ds_sw s) w of (d, w1) \<Rightarrow> (s\<lparr>ds_sw := d\<rparr>, w1)) in
      case dc_GetTarget env w req of
        Inl err \<Rightarrow>
          if IsNotFound err then
            (case removeRemoteRoute env req s w of
               (Inl e, s1, w1) \<Rightarrow> (Inl e, s1, w1)
             | (Inr _, s1, w1) \<Rightarrow> (case remove_vrf s1 w1 of (s2, w2) \<Rightarrow> (Inr Done, s2, w2)))
          else (Inl (Wrapf ''failed to get p4target'' err), s, w)
      | Inr target \<Rightarrow>
      (let nodeName = ptt_NodeName (pt_Status target);
           isLocal = (nodeName \<noteq> '''' \<and> nodeName = gc_NodeName (sw_cfg (ds_sw s)));
           isHostVRF = (pts_AttachmentType (pt_Spec target) = ''HostVRF'');
           (s0, w0) = (if \<not> isLocal \<or> \<not> isHostVRF then remove_vrf s w else (s, w))
       in case (if (\<not> isLocal \<or> \<not> isHostVRF) \<and> isLocal \<and> ptt_HostVRF (pt_Status target) \<noteq> None
                then patchHostVRFStatus env target None w0 else (Inr (), w0)) of
            (Inl err, w1) \<Rightarrow> (Inl err, s0, w1)
          | (Inr _, w1) \<Rightarrow>
              if nodeName = '''' \<or> pts_NfCIDR (pt_Spec target) = '''' then (Inr Done, s0, w1)
              else if isLocal then
                (case removeRemoteRoute env req s0 w1 of
                   (Inl err, s1, w2) \<Rightarrow> (Inl err, s1, w2)
                 | (Inr _, s1, w2) \<Rightarrow>
                     if isHostVRF then
                       (case EnsureP4TargetVRF (dc_dp env) target (ds_sw s1) w2 of
                          (Inl err, d, w3) \<Rightarrow> (Inl (Wrapf ''failed to set up VRF for P4Target'' err), s1\<lparr>ds_sw := d\<rparr>, w3)
                        | (Inr info, d, w3) \<Rightarrow>
                            (case patchHostVRFStatus env target (Some (hostVRFStatus info)) w3 of
                               (Inl err, w4) \<Rightarrow> (Inl err, s1\<lparr>ds_sw := d\<rparr>, w4)
                             | (Inr _, w4) \<Rightarrow> (Inr Done, s1\<lparr>ds_sw := d\<rparr>, w4)))
                     else
                       (case UpdateP4TargetRoutes (dc_dp env) target (ds_sw s1) w2 of
                          (Inl err, w3) \<Rightarrow> (Inl (Wrapf ''failed to update P4Target routes'' err), s1, w3)
                        | (Inr _, w3) \<Rightarrow> (Inr Done, s1, w3)))
              else route_to_peer env req nodeName (pts_NfCIDR (pt_Spec target)) s0 w1))"

section \<open>Nodes\<close>

text \<open>The addresses of a Kubernetes node that its loom node publishes, as pairs of address and type.\<close>

definition published_addresses :: "(string \<times> string) list \<Rightarrow> (string \<times> string) list" where
  "published_addresses addrs = map (\<lambda>(ty, a). (a, ty)) (filter (\<lambda>(ty, a). ty = ''InternalIP'' \<or> ty = ''ExternalIP'') addrs)"

definition lln_Reconcile :: "'w daemon_env \<Rightarrow> nsname \<Rightarrow> DaemonState \<Rightarrow> 'w \<Rightarrow> (go_error + ctrl_result) \<times> 'w" where
  "lln_Reconcile env req s w =
     (case dc_GetNode env w req of
        Inl err \<Rightarrow> if IsNotFound err then (Inr Done, w) else (Inl (Wrapf ''failed to get node'' err), w)
      | Inr node \<Rightarrow>
          and_then (dc_GetLoomNode env w ('''', gc_NodeName (sw_cfg (ds_sw s))), w) ''failed to get loom node'' (\<lambda>loomNode w.
            if ElementsMatchInAnyOrder (ln_Addresses (ln_Spec loomNode)) (published_addresses node) then (Inr Done, w)
            else and_then (dc_PatchLoomNode env w (loomNode\<lparr>ln_Spec := (ln_Spec loomNode)\<lparr>ln_Addresses := published_addresses node\<rparr>\<rparr>))
                   ''failed to update loom node addresses'' (\<lambda>_ w. (Inr Done, w))))"

definition pln_Reconcile :: "'w daemon_env \<Rightarrow> nsname \<Rightarrow> DaemonState \<Rightarrow> 'w \<Rightarrow> (go_error + ctrl_result) \<times> DaemonState \<times> 'w" where
  "pln_Reconcile env req s w =
     (case dc_GetLoomNode env w req of
        Inl err \<Rightarrow>
          if IsNotFound err then
            (case DeleteNodeTunnels (dc_tn env) (snd req) (ds_tm s) w of
               (Inl e, m, w1) \<Rightarrow> (Inl (Wrapf ''failed to delete node tunnels'' e), s\<lparr>ds_tm := m\<rparr>, w1)
             | (Inr _, m, w1) \<Rightarrow> (Inr Done, s\<lparr>ds_tm := m\<rparr>, w1))
          else (Inl (Wrapf ''failed to fetch loom node'' err), s, w)
      | Inr loomNode \<Rightarrow>
      (case UpdateNodeTunnels (dc_tn env) (om_Name loomNode) (ln_Addresses (ln_Spec loomNode)) (ds_tm s) w of
        (Inl err, m, w1) \<Rightarrow> (Inl (Wrapf ''failed to update node tunnels'' err), s\<lparr>ds_tm := m\<rparr>, w1)
      | (Inr _, m, w1) \<Rightarrow>
      (let s1 = s\<lparr>ds_tm := m\<rparr> in
       if length (ln_NodeCIDRs (ln_Spec loomNode)) = 0 \<or> length (ln_Addresses (ln_Spec loomNode)) = 0 then (Inr Done, s1, w1)
       else
       case ParseDualStackNetworkFromStrings (ln_NodeCIDRs (ln_Spec loomNode)) of
         Inl err \<Rightarrow> (Inl (Wrapf ''failed to parse node CIDRs'' err), s1, w1)
       | Inr cidrs \<Rightarrow>
           (case AddEgressRoute (dc_tn env) (om_Name loomNode) cidrs (ds_tm s1) w1 of
              (Inl err, m2, w2) \<Rightarrow> (Inl (Wrapf ''failed to add tunnel egress route'' err), s1\<lparr>ds_tm := m2\<rparr>, w2)
            | (Inr _, m2, w2) \<Rightarrow> (Inr Done, s1\<lparr>ds_tm := m2\<rparr>, w2)))))"

section \<open>From a chain to its routes\<close>

text \<open>The hop of a stage: the address of its first ready function.\<close>

definition stage_hop :: "NetworkFunction list \<Rightarrow> bytes option" where
  "stage_hop stage = (case filterNFs stage of [] \<Rightarrow> None | nf # _ \<Rightarrow> net_ParseIP (nft_AssignedIP (nf_Status nf)))"

lemma chain_segments_hops: "those (map stage_hop stages) = Some hops \<Longrightarrow> chain_segments (map filterNFs stages) = Some hops"
proof (induction stages arbitrary: hops)
  case (Cons st stages)
  then obtain h hs where h: "stage_hop st = Some h" "those (map stage_hop stages) = Some hs" "hops = h # hs"
    by (auto split: option.splits)
  obtain nf nfs where nf: "filterNFs st = nf # nfs" "net_ParseIP (nft_AssignedIP (nf_Status nf)) = Some h"
    using h(1) by (auto simp: stage_hop_def split: list.splits)
  show ?case using Cons.IH [OF h(2)] nf h(3) by simp
qed simp

text \<open>The destination networks of an application, as the routes use them.\<close>

definition app_nets :: "Application \<Rightarrow> ip_net list" where
  "app_nets app = concat (map (\<lambda>(v4, v6). given (net_ParseCIDR v4) @ given (net_ParseCIDR v6)) (concat (map snd (ap_Subnets app))))"

lemma routes_of_hops:
  assumes "those (map stage_hop stages) = Some hops"
  shows "concat (map dest_nets (calculateSRv6Routes src dst (map filterNFs stages))) = app_nets dst"
    "r \<in> set (calculateSRv6Routes src dst (map filterNFs stages)) \<Longrightarrow> sr_SourceApp r = meta_key src \<and> sr_FunctionIPs r = hops"
  using chain_segments_hops [OF assms]
  by (auto simp: calculateSRv6Routes_def app_nets_def dest_nets_def comp_def case_prod_unfold)

lemma sc_Reconcile_adds:
  assumes "dc_GetChain env w req = Inr chain" "dc_GetApp env w (sc_From chain) = Inr src" "dc_GetApp env w (sc_To chain) = Inr dst"
    and "map_of (ap_Subnets src) (gc_NodeName (sw_cfg (ds_sw s))) \<noteq> None"
    and "map_err (\<lambda>sel. listMatchingNFs env sel w) (sc_Functions chain) = Inr stages"
    and "calculateSRv6Routes src dst (map filterNFs stages) \<noteq> []"
    and "sc_Reconcile env req s w = (Inr res, s', w')"
  obtains d where "AddServiceChainRoutes (dc_dp env) (meta_key chain) (calculateSRv6Routes src dst (map filterNFs stages)) (ds_sw s) w = (Inr (), d, w')"
    "s' = s\<lparr>ds_sw := d\<rparr>"
proof -
  have "ap_Subnets dst \<noteq> []" using assms(6) by (auto simp: calculateSRv6Routes_def split: option.splits)
  with assms that show thesis by (auto simp: sc_Reconcile_def Let_def split: prod.splits sum.splits)
qed


section \<open>Routes to the targets of peers\<close>

lemma add_egress:
  assumes "AddEgressRoute env name net m w = (Inr (), m', w')" "fib_kernel (te_nl env) fib"
    and "\<forall>t w tb. vrfTable env t w = Inr tb \<longrightarrow> tb = table"
  obtains t' ip where "m' = m\<lparr>tm_tunnels := (tm_tunnels m)(name \<mapsto> t')\<rparr>" "tn_endpoint t' = Some ip"
    "\<forall>n \<in> set (networks_of net). tunnels_to fib w' table n ip \<and> routed t' n \<noteq> None"
proof -
  obtain t t' where t: "Tunnel_AddEgressRoute env net t w = (Inr (), t', w')" "m' = m\<lparr>tm_tunnels := (tm_tunnels m)(name \<mapsto> t')\<rparr>"
    using assms(1) by (auto simp: AddEgressRoute_def on_tunnel_def map_sum_Inr split: option.splits prod.splits)
  from t(1) have "installEgressRoutes env (networks_of net) t w = (Inr (), t', w')" by (simp add: Tunnel_AddEgressRoute_def)
  then obtain ip where ip: "tn_endpoint t = Some ip" "t' = t\<lparr>tn_egress := tn_egress t'\<rparr>"
    "\<forall>n \<in> set (networks_of net). tunnels_to fib w' table n ip \<and> routed t' n \<noteq> None"
    by (rule install_effect [OF assms(2) _ assms(3) [rule_format]])
  have "tn_endpoint t' = Some ip" by (subst ip(2)) (simp add: ip(1))
  from that [OF t(2) this ip(3)] show thesis .
qed

lemma remove_egress:
  assumes "RemoveEgressRoute env name net m w = (Inr (), m', w')"
  shows "(\<forall>other. other \<noteq> name \<longrightarrow> tm_tunnels m' other = tm_tunnels m other) \<and>
    (\<forall>t n. tm_tunnels m' name = Some t \<longrightarrow> n \<in> set (networks_of net) \<longrightarrow> routed t n = None)"
proof (cases "tm_tunnels m name")
  case (Some t)
  then obtain t' where t': "removeEgressRoutes env (networks_of net) t w = (Inr (), t', w')" "m' = m\<lparr>tm_tunnels := (tm_tunnels m)(name \<mapsto> t')\<rparr>"
    using assms by (auto simp: RemoveEgressRoute_def on_tunnel_def Tunnel_RemoveEgressRoute_def map_sum_Inr split: prod.splits)
  from remove_effect [OF t'(1)] t'(2) show ?thesis by simp
qed (use assms in \<open>simp add: RemoveEgressRoute_def\<close>)

lemma remove_remote:
  assumes "removeRemoteRoute env key s w = (Inr (), s', w')" "ds_remoteRoutes s key = Some (node, cidr)"
  obtains net where "ParseDualStackNetworkFromStrings [cidr] = Inr net" "ds_remoteRoutes s' = (ds_remoteRoutes s)(key := None)"
    "\<forall>t n. tm_tunnels (ds_tm s') node = Some t \<longrightarrow> n \<in> set (networks_of net) \<longrightarrow> routed t n = None"
proof -
  obtain net m where m: "ParseDualStackNetworkFromStrings [cidr] = Inr net" "RemoveEgressRoute (dc_tn env) node net (ds_tm s) w = (Inr (), m, w')"
    "s' = s\<lparr>ds_tm := m, ds_remoteRoutes := (ds_remoteRoutes s)(key := None)\<rparr>"
    using assms by (auto simp: removeRemoteRoute_def split: sum.splits prod.splits)
  from remove_egress [OF m(2)] that [OF m(1)] m(3) show thesis by simp
qed

text \<open>What is left of an old route once the target moved to another node.\<close>

definition unrouted :: "DaemonState \<Rightarrow> string \<Rightarrow> string \<Rightarrow> bool" where
  "unrouted s node cidr \<longleftrightarrow> (\<forall>net t n. ParseDualStackNetworkFromStrings [cidr] = Inr net \<longrightarrow> tm_tunnels (ds_tm s) node = Some t \<longrightarrow>
     n \<in> set (networks_of net) \<longrightarrow> routed t n = None)"

lemma route_to_peer_effect:
  assumes "fib_kernel (te_nl (dc_tn env)) fib" "\<forall>t w tb. vrfTable (dc_tn env) t w = Inr tb \<longrightarrow> tb = table"
    and "route_to_peer env key node cidr s w = (Inr res, s', w')"
  shows "ds_remoteRoutes s' = (ds_remoteRoutes s)(key \<mapsto> (node, cidr)) \<and>
    (\<exists>net t ip. ParseDualStackNetworkFromStrings [cidr] = Inr net \<and> tm_tunnels (ds_tm s') node = Some t \<and> tn_endpoint t = Some ip \<and>
       (\<forall>n \<in> set (networks_of net). tunnels_to fib w' table n ip \<and> routed t n \<noteq> None)) \<and>
    (\<forall>node0 cidr0. ds_remoteRoutes s key = Some (node0, cidr0) \<longrightarrow> node0 \<noteq> node \<longrightarrow> unrouted s' node0 cidr0)"
proof -
  let ?move = "ds_remoteRoutes s key \<noteq> None \<and> ds_remoteRoutes s key \<noteq> Some (node, cidr)"
  obtain s1 w1 net m where s1: "(if ?move then removeRemoteRoute env key s w else (Inr (), s, w)) = (Inr (), s1, w1)"
    and net: "ParseDualStackNetworkFromStrings [cidr] = Inr net"
    and add: "AddEgressRoute (dc_tn env) node net (ds_tm s1) w1 = (Inr (), m, w')"
    and s': "s' = s1\<lparr>ds_tm := m, ds_remoteRoutes := (ds_remoteRoutes s1)(key \<mapsto> (node, cidr))\<rparr>"
    using assms(3) by (auto simp: route_to_peer_def split: sum.splits prod.splits)
  obtain t ip where t: "m = (ds_tm s1)\<lparr>tm_tunnels := (tm_tunnels (ds_tm s1))(node \<mapsto> t)\<rparr>" "tn_endpoint t = Some ip"
    "\<forall>n \<in> set (networks_of net). tunnels_to fib w' table n ip \<and> routed t n \<noteq> None"
    by (rule add_egress [OF add assms(1,2)])
  have old: "(ds_remoteRoutes s1)(key \<mapsto> x) = (ds_remoteRoutes s)(key \<mapsto> x)" for x
    using s1 by (cases ?move) (auto simp: removeRemoteRoute_def split: option.splits sum.splits prod.splits)
  have "unrouted s' node0 cidr0" if r: "ds_remoteRoutes s key = Some (node0, cidr0)" and ne: "node0 \<noteq> node" for node0 cidr0
  proof -
    have "removeRemoteRoute env key s w = (Inr (), s1, w1)" using s1 r ne by simp
    then obtain net0 where "ParseDualStackNetworkFromStrings [cidr0] = Inr net0"
      "\<forall>t n. tm_tunnels (ds_tm s1) node0 = Some t \<longrightarrow> n \<in> set (networks_of net0) \<longrightarrow> routed t n = None"
      using r by (rule remove_remote)
    with ne show ?thesis by (simp add: unrouted_def s' t(1))
  qed
  with old net t s' show ?thesis by simp
qed


section \<open>An example\<close>

definition ex_app :: "string \<Rightarrow> (string \<times> (string \<times> string) list) list \<Rightarrow> Application" where
  "ex_app name subnets = \<lparr>om_Name = name, om_GenerateName = '''', om_Namespace = ''ns'', om_UID = name, om_Generation = 1, om_Labels = None,
     om_Annotations = None, om_Finalizers = [], om_OwnerReferences = [], om_CreationTimestamp = 1, om_DeletionTimestamp = None,
     ap_Subnets = subnets\<rparr>"

definition ex_function :: NetworkFunction where
  "ex_function = \<lparr>om_Name = ''f'', om_GenerateName = '''', om_Namespace = ''ns'', om_UID = ''f'', om_Generation = 1, om_Labels = None,
     om_Annotations = None, om_Finalizers = [], om_OwnerReferences = [], om_CreationTimestamp = 1, om_DeletionTimestamp = None,
     nf_Spec = \<lparr>nfs_TargetName = ''t'', nfs_ControlPlane = None, nfs_TargetSelector = None, nfs_ConfigRef = None, nfs_P4File = ''''\<rparr>,
     nf_Status = \<lparr>nft_AssignedIP = ''fd01::'', nft_ObservedGeneration = 1, nft_Phase = NetworkFunctionRunning, nft_Reason = '''',
       nft_Conditions = [\<lparr>c_Type = ''Ready'', c_Status = ConditionTrue, c_LastTransitionTime = 1, c_Reason = '''', c_Message = '''', c_LastProbeTime = 1\<rparr>]\<rparr>\<rparr>"

definition ex_chain :: ServiceChain where
  "ex_chain = \<lparr>om_Name = ''c'', om_GenerateName = '''', om_Namespace = ''ns'', om_UID = ''c'', om_Generation = 1, om_Labels = None,
     om_Annotations = None, om_Finalizers = [], om_OwnerReferences = [], om_CreationTimestamp = 1, om_DeletionTimestamp = None,
     sc_From = (''ns'', ''a''), sc_To = (''ns'', ''b''), sc_Functions = [\<lparr>ls_MatchLabels = None, ls_MatchExpressions = []\<rparr>]\<rparr>"

definition ex_moved :: P4Target where
  "ex_moved = \<lparr>om_Name = ''t'', om_GenerateName = '''', om_Namespace = '''', om_UID = ''t'', om_Generation = 1, om_Labels = None,
     om_Annotations = None, om_Finalizers = [], om_OwnerReferences = [], om_CreationTimestamp = 1, om_DeletionTimestamp = None,
     pt_Spec = \<lparr>pts_Taints = [], pts_Unschedulable = False, pts_NfCIDR = ''fd01::/16'', pts_AttachmentType = ''Pod''\<rparr>,
     pt_Status = \<lparr>ptt_NodeName = ''n2'', ptt_TargetIPs = [], ptt_DriverIPs = [], ptt_Capacity = [], ptt_Allocatable = [], ptt_HostVRF = None,
       ptt_Conditions = []\<rparr>\<rparr>"

definition ex_daemon :: "ex_fib daemon_env" where
  "ex_daemon = \<lparr>dc_dp = ex_fib_dp, dc_tn = ex_tunnel_env, dc_GetChain = (\<lambda>w n. Inr ex_chain), dc_ListChains = (\<lambda>w. Inr [ex_chain]),
     dc_GetApp = (\<lambda>w n. Inr (if snd n = ''a'' then ex_app ''a'' [(''n1'', [])] else ex_app ''b'' [(''n2'', [('''', ''fd00::/16'')])])),
     dc_ListNFs = (\<lambda>w. Inr [ex_function]), dc_Selector = (\<lambda>l. None), dc_Matches = (\<lambda>l m. True),
     dc_GetTarget = (\<lambda>w n. Inr ex_moved), dc_PatchTargetStatus = (\<lambda>w t. (Inr (), w)), dc_GetNode = (\<lambda>w n. Inr []),
     dc_GetLoomNode = (\<lambda>w n. Inl (TypedError [])), dc_PatchLoomNode = (\<lambda>w l. (Inr (), w))\<rparr>"

definition ex_state :: DaemonState where
  "ex_state = \<lparr>ds_sw = ex_software, ds_tm = ex_tunnels, ds_remoteRoutes = Map.empty\<rparr>"

lemma ex_ready: "filterNFs [ex_function] = [ex_function]" "nft_AssignedIP (nf_Status ex_function) = ''fd01::''"
  by (simp_all add: filterNFs_def GetReadyCondition_def ex_function_def)

lemma ex_hop: "net_ParseIP ''fd01::'' \<noteq> None"
  by (simp add: net_ParseIP_def ex_ParseAddr6)

lemma ex_nets: "net_ParseCIDR ''fd00::/16'' \<noteq> None" "net_ParseCIDR '''' = None"
proof -
  have "parse_digits ''16'' = Some 16" by code_simp
  then show "net_ParseCIDR ''fd00::/16'' \<noteq> None" by (simp add: net_ParseCIDR_def ex_ParseAddr6 Let_def)
qed (simp add: net_ParseCIDR_def)

lemma ex_nf_net: "\<exists>n. ParseDualStackNetworkFromStrings [''fd01::/16''] = Inr (no_network\<lparr>dsn_IPv6Net := Some n\<rparr>)"
  by (simp add: ParseDualStackNetworkFromStrings_def invalid_ip_def ex_ParsePrefix6 no_network_def)



end
