(* ===== verification/Spec2Isabelle.thy ===== *)
theory Spec2Isabelle
  imports NFDeployment ReplicaSet NfGc EndpointSlice DriverNf DaemonCtl
begin

text \<open>
  IML runs P4 network functions on programmable targets in a Kubernetes cluster and steers the traffic of
  applications through chains of them. It has three programs, all controllers that move the cluster towards what
  its custom resources (\<open>src/api\<close>) ask for.

  \<^item> The \<^bold>\<open>operator\<close> (\<open>src/operator\<close>) runs once. It turns deployments into replica sets and those into functions,
    binds functions to targets, collects dead ones, gives nodes, targets and services their addresses, and publishes
    services through Kubernetes.
  \<^item> The \<^bold>\<open>driver\<close> (\<open>src/targets/bmv2\<close>) runs beside each software switch. It renews the lease that says the target is
    alive, reports the target's status, compiles and loads the functions bound to it and writes their tables.
  \<^item> The \<^bold>\<open>daemon\<close> (\<open>src/daemon\<close>) runs on each node. It keeps the node's dataplane (subnets, VRFs, firewall rules,
    tunnels to peers) and programs the routes of service chains.

  They share no memory: they meet in the objects of the API server. The operator's target controller reads the
  lease the driver renews; the driver and the daemon act on functions and targets the operator bound and numbered.

  \<^bold>\<open>How the code is modelled.\<close> A struct is a \<open>record\<close>, an enumeration a \<open>datatype\<close>, one definition stands for one Go
  function under its own name (a prefix tells methods of the same name apart, as in \<open>AppSubnet_Teardown\<close>), and a loop of a
  function that needs recursion is a definition of its own. A call that can fail returns a sum, \<open>Inl\<close> the error, built as the
  code builds it; a panic is \<open>None\<close> or the error \<open>nil pointer\<close>. The API server, the kernel
  (netlink), iptables, the switch, the compiler and other libraries are parameters: records of functions over a state
  \<open>'w\<close> that every call may change. What a theorem needs of them is a hypothesis of that theorem, and its witness shows
  a server, kernel or switch that satisfies it. Maps that Go walks in random order, and goroutines, are
  taken in an arbitrary order. A mutex makes an operation one step; where the code takes none, steps interleave.

  \<^bold>\<open>The library.\<close> \<open>Iml_Prelude\<close> has machine integers, times, keys, errors and \<open>sort.Sort\<close> with the locales \<open>less_interface\<close> and
  \<open>keyed_order\<close> for comparison functions, interpreted for replica sets by age, functions by eviction and
  age, and endpoints (\<open>creation_order\<close>, \<open>gc_order\<close>, \<open>endpoint_order\<close>). \<open>Go_Std\<close>, \<open>Netip\<close> and \<open>Netip_Parse\<close> have the parts of Go's standard library in use: strings, integer
  parsing, and \<open>net/netip\<close> at the level of words, with parsing the inverse of printing. \<open>Api\<close> has the resources
  and the locale \<open>condition_store\<close> for updating a list of conditions, interpreted for the four kinds of conditions.

  \<^bold>\<open>The operator.\<close>
  \<^item> \<open>Ipam\<close> (\<open>pkg/ipam\<close>): the allocators refine a sequence (locale \<open>sequential_allocator\<close>, interpreted for addresses and prefixes): all
    subnets in order, disjoint, then refusal (C1). The pool satisfies \<open>owner_pool\<close>: one address per owner and one owner
    per address whatever is called (C2), and its scan ends (C3).
  \<^item> \<open>NFD_Util\<close> and \<open>NFDeployment\<close> (\<open>controller/scheduling/networkfunctiondeployment\<close>): the two update strategies keep the
    promised bounds (C4, C5, C6); but the reconcile never gets as far as applying them (C10).
  \<^item> \<open>Expectations\<close>, \<open>RS_Util\<close> and \<open>ReplicaSet\<close> (\<open>networkfunctionreplicaset\<close>): expectations count every deletion once (C7), slow start
    (C8) and the choice of functions to delete (C9).
  \<^item> \<open>P4TargetCtl\<close> (\<open>core/p4target\<close>): readiness follows the lease (C11).
  \<^item> \<open>NFScheduler\<close> (\<open>core/networkfunction\<close>): a history of functions is a step relation; targets are never overcommitted (C12, C14),
    and the scheduler refines an abstract specification of slots (C13).
  \<^item> \<open>NfGc\<close> (\<open>core/nfgc\<close>): a pass spares healthy functions (C15) and deletes exactly the excess (C16).
  \<^item> \<open>LoomService\<close> and \<open>EndpointSlice\<close> (\<open>core/service\<close>, \<open>core/endpointslice\<close>): addresses stay consistent (C17), foreign
    services are left alone (C18), a restart recovers the addresses (C19), and the published slices are exactly
    the endpoints (C20, C21).
  \<^item> \<open>LoomNode\<close> (\<open>infra/loomnode\<close>, \<open>util/env\<close> and the wiring of \<open>cmd/manager\<close>), and this theory for the two controllers that
    share an allocator: the networks of nodes and targets are disjoint (C22) until a restart (C23).

  \<^bold>\<open>The driver.\<close>
  \<^item> \<open>P4Tables\<close> (\<open>pkg/p4rutils\<close>) and \<open>P4Switch\<close> (\<open>pkg/p4switch\<close>, \<open>managers/nfcfg\<close>): entries are well typed (C24) and a configuration
    is written exactly (C25).
  \<^item> \<open>NfManager\<close> (\<open>managers/nf\<close>): its goroutines, phase by phase, interleave with callers (\<open>nm_step\<close>). Slots are respected (C26), a
    deployment ends (C27), and what cancelling does (C28).
  \<^item> \<open>DriverTarget\<close> (\<open>managers/p4target\<close>, \<open>controllers/p4target\<close>, \<open>controllers/lease\<close>): the lease survives five failures (C29).
  \<^item> \<open>DriverNf\<close> (\<open>controllers/nf\<close>): addresses of functions are unique (C30), and a finished pass means a running function (C35).

  \<^bold>\<open>The daemon.\<close>
  \<^item> \<open>DaemonUtil\<close>, \<open>Netlink\<close> and \<open>TargetVrf\<close> (\<open>pkg/utils\<close>, \<open>pkg/janitor\<close>, \<open>dataplane/vrf/targetvrf.go\<close>): the walk over the links of a VRF is
    exact (C32) and a teardown leaves nothing and takes no hardware (C31).
  \<^item> \<open>IpTables\<close> (rules of \<open>software_linux.go\<close>): what a start installs (C39) and that a shutdown undoes it (C40).
  \<^item> \<open>Subnets\<close> (\<open>alloc.go\<close>, \<open>appsubnet.go\<close>, \<open>routingsubnet.go\<close>) and \<open>Software\<close> (\<open>software_linux.go\<close>): no two VRFs share a routing table (C38); the
    routes of a chain are removed exactly (C34).
  \<^item> \<open>Geneve\<close> (\<open>pkg/tunnel/geneve\<close>): routes follow a peer's address (C37).
  \<^item> \<open>DaemonCtl\<close> (\<open>daemon/controllers\<close>): a chain's traffic is steered through its functions in order (C33), and the route to a target
    follows it from node to node (C36).

  \<^bold>\<open>Termination and bounds.\<close> Loops over slices are structural. The slow start, the parser of IPv6 groups and the walk over links
  (\<open>walk_loop\<close>) have measures: calls left to make, groups left to read, links not seen yet. The scan of the pool and the quarantine loop of the garbage
  collector are partial functions, where \<open>None\<close> means running forever; C3 and C15 show that they return. The driver's deployment has five phases and
  \<open>run_job\<close> runs them all. The retries of a status update are bounded by the code's constant. Table numbers are 32-bit words that wrap: C38 is
  stated for fewer than \<open>2 ^ 32 - 1000\<close> operations, after which they may repeat.

  \<^bold>\<open>Not modelled.\<close> Watch registration, logging, metrics and entry points other than the allocator wiring: they call
  libraries. The controller of software targets and the webhooks of the operator (rendering of pods, defaults), the CNI
  plugin and its server, the eBPF loader, the DNS configurer, the gRPC and HTTP front ends and the Oakestra agent: input and output,
  or translation between library types. Generated deep copies are the identity in a model without aliasing. The
  package \<open>daemon/pkg/routecalc\<close> is commented out in the sources; \<open>daemon/pkg/ipam\<close> and \<open>ipassign\<close> are imported by nothing.
\<close>

section \<open>The two controllers that share an allocator\<close>

text \<open>
  \<open>main\<close> hands the same IPv6 allocator to the target controller and to the node controller. A history
  of the cluster interleaves their reconciles, with any failures of API calls, and the changes
  users make: objects appear without a network, change without touching it, and disappear.
\<close>

type_synonym op_state = "LoomNodeReconciler \<times> targets \<times> nodes"

inductive op_step :: "targets pt_client \<Rightarrow> nodes ln_client \<Rightarrow> op_state \<Rightarrow> op_state \<Rightarrow> bool"
  for ct :: "targets pt_client" and cn :: "nodes ln_client" where
  target: "P4TargetCtl.Reconcile ct ck req (lr_NodeCIDRv6Allocator r) wt = (res, al, wt') \<Longrightarrow>
    op_step ct cn (r, wt, wn) (r\<lparr>lr_NodeCIDRv6Allocator := al\<rparr>, wt', wn)"
| node: "LoomNode.Reconcile cn req r wn = (res, r', wn') \<Longrightarrow> op_step ct cn (r, wt, wn) (r', wt, wn')"
| target_changed: "pts_NfCIDR (pt_Spec t') = (case wt k of None \<Rightarrow> '''' | Some t \<Rightarrow> pts_NfCIDR (pt_Spec t)) \<Longrightarrow>
    op_step ct cn (r, wt, wn) (r, wt(k \<mapsto> t'), wn)"
| node_changed: "ln_NodeCIDRs (ln_Spec n') = (case wn k of None \<Rightarrow> [] | Some n \<Rightarrow> ln_NodeCIDRs (ln_Spec n)) \<Longrightarrow>
    op_step ct cn (r, wt, wn) (r, wt, wn(k \<mapsto> n'))"
| target_deleted: "op_step ct cn (r, wt, wn) (r, wt(k := None), wn)"
| node_deleted: "op_step ct cn (r, wt, wn) (r, wt, wn(k := None))"

text \<open>The IPv6 network each target (\<open>Inl\<close>) and each node (\<open>Inr\<close>) holds.\<close>

definition target_net :: "targets \<Rightarrow> nsname \<rightharpoonup> string" where
  "target_net w k = (case network_of w k of None \<Rightarrow> None | Some n \<Rightarrow> if n = '''' then None else Some n)"

definition held_nets :: "targets \<Rightarrow> nodes \<Rightarrow> nsname + nsname \<rightharpoonup> string" where
  "held_nets wt wn h = (case h of Inl k \<Rightarrow> target_net wt k | Inr k \<Rightarrow> node_net wn k)"

definition op_ok :: "prefix \<Rightarrow> int \<Rightarrow> op_state \<Rightarrow> bool" where
  "op_ok b len s \<longleftrightarrow> (case s of (r, wt, wn) \<Rightarrow> \<exists>f. nets_ok b len (lr_NodeCIDRv6Allocator r) (held_nets wt wn) f)"

lemma prefix_String_nonempty: "prefix_String p \<noteq> ''''"
  by (simp add: prefix_String_def)

lemma held_nets_target:
  assumes "target_net wt' = (target_net wt)(k \<mapsto> n)"
  shows "held_nets wt' wn = (held_nets wt wn)(Inl k \<mapsto> n)"
  using assms by (auto simp: held_nets_def fun_eq_iff split: sum.splits)

lemma held_nets_node:
  assumes "node_net wn' = (node_net wn)(k \<mapsto> n)"
  shows "held_nets wt wn' = (held_nets wt wn)(Inr k \<mapsto> n)"
  using assms by (auto simp: held_nets_def fun_eq_iff split: sum.splits)

lemma held_nets_cong: "target_net wt' = target_net wt \<Longrightarrow> held_nets wt' wn = held_nets wt wn"
  "node_net wn' = node_net wn \<Longrightarrow> held_nets wt wn' = held_nets wt wn"
  by (auto simp: held_nets_def fun_eq_iff split: sum.splits)

lemma held_nets_sub: "target_net wt' \<subseteq>\<^sub>m target_net wt \<Longrightarrow> held_nets wt' wn \<subseteq>\<^sub>m held_nets wt wn"
  "node_net wn' \<subseteq>\<^sub>m node_net wn \<Longrightarrow> held_nets wt wn' \<subseteq>\<^sub>m held_nets wt wn"
  by (fastforce simp: map_le_def held_nets_def dom_def split: sum.splits)+

lemma op_step_target:
  assumes "target_api ct" "P4TargetCtl.Reconcile ct ck req al wt = (res, al', wt')"
    and "nets_ok b len al (held_nets wt wn) f"
  shows "\<exists>f'. nets_ok b len al' (held_nets wt' wn) f'"
proof -
  have same: "target_net wt' = target_net wt" if "network_of wt' = network_of wt"
    using that by (simp add: target_net_def fun_eq_iff)
  from Reconcile_networks [OF assms(1,2)] show ?thesis
  proof (elim disjE exE conjE)
    assume "al' = al" "network_of wt' = network_of wt"
    then show ?thesis using assms(3) held_nets_cong(1) [OF same] by auto
  next
    fix p assume "PrefixAllocator_Next al = Inr (p, al')" "network_of wt' = network_of wt"
    then show ?thesis using nets_ok_Next(1) [OF assms(3)] held_nets_cong(1) [OF same] by auto
  next
    fix p assume p: "PrefixAllocator_Next al = Inr (p, al')" "network_of wt req = Some ''''"
      "network_of wt' = (network_of wt)(req \<mapsto> prefix_String p)"
    then have "target_net wt' = (target_net wt)(req \<mapsto> prefix_String p)"
      by (auto simp: target_net_def fun_eq_iff prefix_String_nonempty)
    moreover have "held_nets wt wn (Inl req) = None" using p(2) by (simp add: held_nets_def target_net_def)
    ultimately show ?thesis using nets_ok_assign [OF assms(3) p(1)] held_nets_target by metis
  qed
qed

lemma op_step_node:
  assumes "node_api cn" "LoomNode.Reconcile cn req r wn = (res, r', wn')"
    and "nets_ok b len (lr_NodeCIDRv6Allocator r) (held_nets wt wn) f"
  shows "\<exists>f'. nets_ok b len (lr_NodeCIDRv6Allocator r') (held_nets wt wn') f'"
proof -
  from Reconcile_node_nets [OF assms(1,2)] show ?thesis
  proof (elim disjE exE conjE)
    assume "lr_NodeCIDRv6Allocator r' = lr_NodeCIDRv6Allocator r" "node_net wn' = node_net wn"
    then show ?thesis using assms(3) held_nets_cong(2) [of wn' wn] by auto
  next
    fix p assume "PrefixAllocator_Next (lr_NodeCIDRv6Allocator r) = Inr (p, lr_NodeCIDRv6Allocator r')" "node_net wn' = node_net wn"
    then show ?thesis using nets_ok_Next(1) [OF assms(3)] held_nets_cong(2) [of wn' wn] by auto
  next
    fix p assume p: "PrefixAllocator_Next (lr_NodeCIDRv6Allocator r) = Inr (p, lr_NodeCIDRv6Allocator r')" "node_net wn req = None"
      "node_net wn' = (node_net wn)(req \<mapsto> prefix_String p)"
    have "held_nets wt wn (Inr req) = None" using p(2) by (simp add: held_nets_def)
    then show ?thesis using nets_ok_assign [OF assms(3) p(1)] held_nets_node [OF p(3)] by metis
  qed
qed

lemma op_ok_unfold: "op_ok b len (r, wt, wn) \<longleftrightarrow> (\<exists>f. nets_ok b len (lr_NodeCIDRv6Allocator r) (held_nets wt wn) f)"
  by (simp add: op_ok_def)

lemma op_ok_cong: "held_nets wt' wn' = held_nets wt wn \<Longrightarrow> op_ok b len (r, wt', wn') = op_ok b len (r, wt, wn)"
  by (simp add: op_ok_unfold)

lemma op_ok_sub: "held_nets wt' wn' \<subseteq>\<^sub>m held_nets wt wn \<Longrightarrow> op_ok b len (r, wt, wn) \<Longrightarrow> op_ok b len (r, wt', wn')"
  using nets_ok_sub by (metis op_ok_unfold)

lemma op_step_ok:
  assumes "target_api ct" "node_api cn" "op_step ct cn s s'"
  shows "op_ok b len s \<Longrightarrow> op_ok b len s'"
  using assms(3)
proof (induction rule: op_step.induct)
  case (target ck req r wt res al wt' wn)
  then obtain f where "nets_ok b len (lr_NodeCIDRv6Allocator r) (held_nets wt wn) f" by (auto simp: op_ok_unfold)
  from op_step_target [OF assms(1) target(1) this] show ?case by (simp add: op_ok_unfold)
next
  case (node req r wn res r' wn' wt)
  then obtain f where "nets_ok b len (lr_NodeCIDRv6Allocator r) (held_nets wt wn) f" by (auto simp: op_ok_unfold)
  from op_step_node [OF assms(2) node(1) this] show ?case by (simp add: op_ok_unfold)
next
  case (target_changed t' wt k r wn)
  then have "target_net (wt(k \<mapsto> t')) = target_net wt"
    by (auto simp: target_net_def network_of_def fun_eq_iff split: option.splits)
  from op_ok_cong [OF held_nets_cong(1) [OF this]] target_changed(2) show ?case by blast
next
  case (node_changed n' wn k r wt)
  then have "node_net (wn(k \<mapsto> n')) = node_net wn"
    by (auto simp: node_net_def fun_eq_iff split: option.splits)
  from op_ok_cong [OF held_nets_cong(2) [OF this]] node_changed(2) show ?case by blast
next
  case (target_deleted r wt wn k)
  have "target_net (wt(k := None)) \<subseteq>\<^sub>m target_net wt" by (auto simp: map_le_def target_net_def network_of_def dom_def)
  from op_ok_sub [OF held_nets_sub(1) [OF this] target_deleted] show ?case .
next
  case (node_deleted r wt wn k)
  have "node_net (wn(k := None)) \<subseteq>\<^sub>m node_net wn" by (auto simp: map_le_def node_net_def dom_def)
  from op_ok_sub [OF held_nets_sub(2) [OF this] node_deleted] show ?case .
qed


text \<open>A run in which one node has just been given its networks by the node controller.\<close>

definition ex_served :: "LoomNodeReconciler \<times> nodes" where
  "ex_served = snd (LoomNode.Reconcile ex_node_client ([], ''a'') ex_reconciler [([], ''a'') \<mapsto> ex_node ''a''])"


end
